(* ===== verification/Dosm_Prelude.thy ===== *)
theory Dosm_Prelude
  imports Main "HOL-Library.Char_ord" "HOL-Library.List_Lexorder" "HOL-Library.Sublist"
begin

text \<open>
  Shared vocabulary of the development: the part of Python's built-in strings and
  integers the sources use, table operations in the way SQLAlchemy uses SQLite (primary-key
  lookup, rowid allocation, update, delete), the search for a fresh name that three
  components repeat, and the interface of a tenant-scoped read.

  A Python \<open>str\<close> is a \<open>string\<close> whose characters stand for the code points 0 to 255; the
  functions below agree with Python on exactly those strings.
\<close>

named_theorems dosm_defs "definitions of the model that proofs unfold together"
named_theorems table_simps "laws of the table operations"
named_theorems str_simps "laws of the Python string functions"

section \<open>Results\<close>

text \<open>A computation that may raise: \<open>Inl\<close> carries the exception, \<open>Inr\<close> the value.\<close>

definition bind_r :: "'e + 'a \<Rightarrow> ('a \<Rightarrow> 'e + 'b) \<Rightarrow> 'e + 'b" where
  "bind_r m f = (case m of Inl e \<Rightarrow> Inl e | Inr x \<Rightarrow> f x)"

lemma bind_r_simps [simp]:
  "bind_r (Inl e) f = Inl e"
  "bind_r (Inr x) f = f x"
  by (simp_all add: bind_r_def)

lemma bind_r_Inr_iff: "bind_r m f = Inr y \<longleftrightarrow> (\<exists>x. m = Inr x \<and> f x = Inr y)"
  by (cases m) auto

lemma bind_r_Inl_iff: "bind_r m f = Inl e \<longleftrightarrow> m = Inl e \<or> (\<exists>x. m = Inr x \<and> f x = Inl e)"
  by (cases m) auto

definition all_r :: "('a \<Rightarrow> bool) \<Rightarrow> 'e + 'a \<Rightarrow> bool" where
  \<comment> \<open>every value the computation returns satisfies \<open>P\<close>\<close>
  "all_r P m = (case m of Inl _ \<Rightarrow> True | Inr x \<Rightarrow> P x)"

lemma all_r_simps [simp]: "all_r P (Inl e)" "all_r P (Inr x) \<longleftrightarrow> P x"
  by (simp_all add: all_r_def)

lemma all_r_bind: "(\<And>x. m = Inr x \<Longrightarrow> all_r P (f x)) \<Longrightarrow> all_r P (bind_r m f)"
  by (cases m) simp_all

lemma all_rD: "all_r P m \<Longrightarrow> m = Inr x \<Longrightarrow> P x"
  by simp

definition or_none :: "string \<Rightarrow> string option" where
  \<comment> \<open>\<open>s or None\<close>\<close>
  "or_none s = (if s = [] then None else Some s)"

definition or_default :: "string option \<Rightarrow> string \<Rightarrow> string" where
  \<comment> \<open>\<open>s or dflt\<close>\<close>
  "or_default s dflt = (case s of None \<Rightarrow> dflt | Some x \<Rightarrow> if x = [] then dflt else x)"

section \<open>Python strings\<close>

definition code_point :: "char \<Rightarrow> nat" where
  "code_point c = of_char c"

definition py_isspace :: "char \<Rightarrow> bool" where
  "py_isspace c \<longleftrightarrow> (let n = code_point c in
     n = 32 \<or> (9 \<le> n \<and> n \<le> 13) \<or> (28 \<le> n \<and> n \<le> 31) \<or> n = 133 \<or> n = 160)"

definition py_lstrip :: "string \<Rightarrow> string" where
  "py_lstrip s = dropWhile py_isspace s"

definition py_rstrip :: "string \<Rightarrow> string" where
  "py_rstrip s = rev (dropWhile py_isspace (rev s))"

definition py_strip :: "string \<Rightarrow> string" where
  "py_strip s = py_rstrip (py_lstrip s)"

definition strip_char :: "char \<Rightarrow> string \<Rightarrow> string" where
  \<comment> \<open>\<open>s.strip(c)\<close> for a single character \<open>c\<close>\<close>
  "strip_char c s = rev (dropWhile (\<lambda>x. x = c) (rev (dropWhile (\<lambda>x. x = c) s)))"

definition lower_char :: "char \<Rightarrow> char" where
  "lower_char c = (let n = code_point c in
     if (65 \<le> n \<and> n \<le> 90) \<or> (192 \<le> n \<and> n \<le> 214) \<or> (216 \<le> n \<and> n \<le> 222)
     then char_of (n + 32) else c)"

definition py_lower :: "string \<Rightarrow> string" where
  "py_lower s = map lower_char s"

fun split_on :: "char \<Rightarrow> string \<Rightarrow> string list" where
  \<comment> \<open>\<open>s.split(d)\<close> for a one-character separator: always at least one piece\<close>
  "split_on d [] = [[]]"
| "split_on d (c # cs) =
     (if c = d then [] # split_on d cs
      else (case split_on d cs of [] \<Rightarrow> [[c]] | p # ps \<Rightarrow> (c # p) # ps))"

fun join_with :: "string \<Rightarrow> string list \<Rightarrow> string" where
  \<comment> \<open>\<open>sep.join(parts)\<close>\<close>
  "join_with sep [] = []"
| "join_with sep [x] = x"
| "join_with sep (x # y # ys) = x @ sep @ join_with sep (y # ys)"

definition starts_with :: "string \<Rightarrow> string \<Rightarrow> bool" where
  "starts_with s p \<longleftrightarrow> take (length p) s = p"

definition ends_with :: "string \<Rightarrow> string \<Rightarrow> bool" where
  "ends_with s p \<longleftrightarrow> length p \<le> length s \<and> drop (length s - length p) s = p"

definition replace_char :: "char \<Rightarrow> char \<Rightarrow> string \<Rightarrow> string" where
  "replace_char a b s = map (\<lambda>c. if c = a then b else c) s"

definition is_digit :: "char \<Rightarrow> bool" where
  "is_digit c \<longleftrightarrow> (let n = code_point c in 48 \<le> n \<and> n \<le> 57)"

definition hex_digit :: "nat \<Rightarrow> char" where
  "hex_digit n = (if n < 10 then char_of (48 + n) else char_of (87 + n))"

definition py_printable :: "char \<Rightarrow> bool" where
  "py_printable c \<longleftrightarrow> (let n = code_point c in (32 \<le> n \<and> n \<le> 126) \<or> (161 \<le> n \<and> n \<noteq> 173))"

definition repr_char :: "char \<Rightarrow> char \<Rightarrow> string" where
  "repr_char q c = (let n = code_point c in
     if c = q \<or> c = CHR 0x5C then [CHR 0x5C, c]
     else if n = 9 then [CHR 0x5C, CHR ''t''] else if n = 10 then [CHR 0x5C, CHR ''n'']
     else if n = 13 then [CHR 0x5C, CHR ''r'']
     else if py_printable c then [c]
     else [CHR 0x5C, CHR ''x'', hex_digit (n div 16), hex_digit (n mod 16)])"

definition py_repr :: "string \<Rightarrow> string" where
  \<comment> \<open>\<open>repr(s)\<close>: double quotes only when the text has a single quote and no double one\<close>
  "py_repr s = (let q = (if CHR 0x27 \<in> set s \<and> CHR 0x22 \<notin> set s then CHR 0x22 else CHR 0x27)
     in [q] @ concat (map (repr_char q) s) @ [q])"

definition slug_char :: "char \<Rightarrow> bool" where
  \<comment> \<open>the class \<open>[a-z0-9]\<close>\<close>
  "slug_char c \<longleftrightarrow> (let n = code_point c in (97 \<le> n \<and> n \<le> 122) \<or> (48 \<le> n \<and> n \<le> 57))"

fun sub_runs :: "bool \<Rightarrow> string \<Rightarrow> string" where
  \<comment> \<open>\<open>re.sub(r"[^a-z0-9]+", "-", s)\<close>; the flag: inside a run that is already replaced\<close>
  "sub_runs in_run [] = []"
| "sub_runs in_run (c # cs) =
     (if slug_char c then c # sub_runs False cs
      else if in_run then sub_runs True cs else CHR ''-'' # sub_runs True cs)"

definition slug_of :: "string \<Rightarrow> string \<Rightarrow> string" where
  \<comment> \<open>\<open>re.sub(r"[^a-z0-9]+", "-", name.strip().lower()).strip("-") or dflt\<close>\<close>
  "slug_of dflt name = (let s = strip_char CHR ''-'' (sub_runs False (py_lower (py_strip name)))
     in if s = [] then dflt else s)"

lemma dropWhile_idem [simp]: "dropWhile P (dropWhile P xs) = dropWhile P xs"
  by (induction xs) auto

lemma dropWhile_eq_self_iff: "dropWhile P xs = xs \<longleftrightarrow> xs = [] \<or> \<not> P (hd xs)"
proof (cases xs)
  case (Cons x l)
  have "length (dropWhile P l) \<le> length l"
    by (rule length_dropWhile_le)
  then have "dropWhile P l \<noteq> x # l"
    by auto
  then show ?thesis
    using Cons by auto
qed simp

lemma last_dropWhile: "dropWhile P xs \<noteq> [] \<Longrightarrow> last (dropWhile P xs) = last xs"
  by (induction xs) auto

lemma py_strip_Nil [simp]: "py_strip [] = []"
  by (simp add: py_strip_def py_lstrip_def py_rstrip_def)

lemma py_strip_ends:
  assumes "py_strip s \<noteq> []"
  shows "\<not> py_isspace (hd (py_strip s))" and "\<not> py_isspace (last (py_strip s))"
proof -
  let ?l = "dropWhile py_isspace s"
  let ?r = "dropWhile py_isspace (rev ?l)"
  have eq: "py_strip s = rev ?r"
    by (simp add: py_strip_def py_lstrip_def py_rstrip_def)
  have r: "?r \<noteq> []"
    using assms eq by (metis rev.simps(1))
  have l: "?l \<noteq> []"
    using r by (metis dropWhile.simps(1) rev.simps(1))
  then have hd_l: "\<not> py_isspace (hd ?l)"
    using hd_dropWhile by blast
  have "\<not> py_isspace (hd ?r)"
    using r hd_dropWhile by blast
  then show "\<not> py_isspace (last (py_strip s))"
    using r by (simp add: eq last_rev)
  have "last ?r = hd ?l"
    using r l by (simp add: last_dropWhile last_rev)
  then show "\<not> py_isspace (hd (py_strip s))"
    using r hd_l by (simp add: eq hd_rev)
qed

lemma py_strip_fixed: "s = [] \<or> (\<not> py_isspace (hd s) \<and> \<not> py_isspace (last s)) \<Longrightarrow> py_strip s = s"
proof (cases "s = []")
  case False
  assume "s = [] \<or> (\<not> py_isspace (hd s) \<and> \<not> py_isspace (last s))"
  with False have a: "\<not> py_isspace (hd s)" and b: "\<not> py_isspace (last s)"
    by auto
  have l: "py_lstrip s = s"
    using a by (simp add: py_lstrip_def dropWhile_eq_self_iff)
  have "dropWhile py_isspace (rev s) = rev s"
    using b False by (simp add: dropWhile_eq_self_iff hd_rev)
  then show ?thesis
    by (simp add: py_strip_def py_rstrip_def l)
qed simp

lemma py_strip_idem [simp]: "py_strip (py_strip s) = py_strip s"
  by (rule py_strip_fixed) (metis py_strip_ends)

lemma code_point_less [simp]: "code_point c < 256"
  using of_char_mod_256 by (simp add: code_point_def)

lemma code_point_char_of [simp]: "n < 256 \<Longrightarrow> code_point (char_of n) = n"
  by (simp add: code_point_def)

lemma lower_char_idem [simp]: "lower_char (lower_char c) = lower_char c"
  using code_point_less [of c] by (auto simp: lower_char_def Let_def)

lemma py_lower_idem [simp]: "py_lower (py_lower s) = py_lower s"
  by (simp add: py_lower_def)

lemma split_on_not_Nil [simp]: "split_on d s \<noteq> []"
  by (induction s) (auto split: list.splits)

lemma split_on_no_sep: "d \<notin> set s \<Longrightarrow> split_on d s = [s]"
  by (induction s) auto

lemma split_on_append: "d \<notin> set s \<Longrightarrow> split_on d (s @ d # t) = s # split_on d t"
  by (induction s) auto

lemma filter_unique: "distinct xs \<Longrightarrow> v \<in> set xs \<Longrightarrow> P v \<Longrightarrow> (\<And>w. w \<in> set xs \<Longrightarrow> P w \<Longrightarrow> w = v) \<Longrightarrow>
    filter P xs = [v]"
proof (induction xs)
  case (Cons x xs)
  show ?case
  proof (cases "x = v")
    case True
    have "\<not> P w" if "w \<in> set xs" for w
      using Cons.prems(4) [of w] Cons.prems(1) True that by auto
    then have "filter P xs = []"
      by (simp add: filter_empty_conv)
    then show ?thesis
      using True Cons.prems(3) by simp
  next
    case False
    then have "\<not> P x" and "v \<in> set xs"
      using Cons.prems(2) Cons.prems(4) [of x] by auto
    moreover have "filter P xs = [v]"
      using Cons.prems(1,3,4) \<open>v \<in> set xs\<close> by (intro Cons.IH) simp_all
    ultimately show ?thesis
      by simp
  qed
qed simp

lemma py_strip_pad:
  assumes "py_strip s = s" and "s \<noteq> []"
  shows "py_strip ('' '' @ s) = s" and "py_strip (s @ '' '') = s" and "py_strip ('' '' @ s @ '' '') = s"
proof -
  have sp: "py_isspace CHR '' ''"
    by (simp add: py_isspace_def code_point_def)
  have ends: "\<not> py_isspace (hd s)" "\<not> py_isspace (last s)"
    using py_strip_ends [of s] assms by simp_all
  have l: "py_lstrip (s @ t) = s @ t" for t
    using ends(1) assms(2) by (simp add: py_lstrip_def dropWhile_eq_self_iff)
  have rs: "dropWhile py_isspace (rev s) = rev s"
    using ends(2) assms(2) by (simp add: dropWhile_eq_self_iff hd_rev)
  have r: "py_rstrip s = s" "py_rstrip (s @ '' '') = s"
    using rs sp by (simp_all add: py_rstrip_def)
  have sp_l: "py_lstrip ('' '' @ t) = py_lstrip t" for t
    using sp by (simp add: py_lstrip_def)
  show "py_strip ('' '' @ s) = s" "py_strip (s @ '' '') = s" "py_strip ('' '' @ s @ '' '') = s"
    using l [of "[]"] l [of "'' ''"] r sp_l unfolding py_strip_def by simp_all
qed

lemma set_strip_char: "set (strip_char c s) \<subseteq> set s"
  by (metis set_dropWhileD set_rev strip_char_def subsetI)

lemma set_sub_runs: "x \<in> set (sub_runs b s) \<Longrightarrow> slug_char x \<or> x = CHR ''-''"
  by (induction b s rule: sub_runs.induct) (auto split: if_splits)

text \<open>A slug is never empty, has only \<open>[a-z0-9-]\<close> and neither starts nor ends with a dash.\<close>

definition slug_ok :: "string \<Rightarrow> bool" where
  "slug_ok s \<longleftrightarrow> s \<noteq> [] \<and> (\<forall>c \<in> set s. slug_char c \<or> c = CHR ''-'') \<and> hd s \<noteq> CHR ''-'' \<and> last s \<noteq> CHR ''-''"

lemma strip_char_ends:
  assumes "strip_char c s \<noteq> []"
  shows "hd (strip_char c s) \<noteq> c \<and> last (strip_char c s) \<noteq> c"
proof -
  let ?l = "dropWhile (\<lambda>x. x = c) s"
  let ?r = "dropWhile (\<lambda>x. x = c) (rev ?l)"
  have r: "?r \<noteq> []" and l: "?l \<noteq> []"
    using assms unfolding strip_char_def by (metis rev.simps(1), metis dropWhile.simps(1) rev.simps(1))
  have "hd ?r \<noteq> c" and "hd ?l \<noteq> c"
    using hd_dropWhile [OF r] hd_dropWhile [OF l] by auto
  moreover have "last ?r = hd ?l"
    using r l by (simp add: last_dropWhile last_rev)
  ultimately show ?thesis
    using r by (simp add: strip_char_def hd_rev last_rev)
qed

lemma slug_of_ok: "slug_ok dflt \<Longrightarrow> slug_ok (slug_of dflt name)"
  using strip_char_ends [of "CHR ''-''" "sub_runs False (py_lower (py_strip name))"]
    set_strip_char [of "CHR ''-''" "sub_runs False (py_lower (py_strip name))"]
  by (auto simp: slug_of_def Let_def slug_ok_def dest: set_sub_runs)

section \<open>Decimal numerals\<close>

fun str_nat :: "nat \<Rightarrow> string" where
  \<comment> \<open>\<open>str(n)\<close> for a non-negative integer\<close>
  "str_nat n = (if n < 10 then [char_of (48 + n)]
                else str_nat (n div 10) @ [char_of (48 + n mod 10)])"

declare str_nat.simps [simp del]

definition str_int :: "int \<Rightarrow> string" where
  "str_int i = (if i < 0 then CHR ''-'' # str_nat (nat (- i)) else str_nat (nat i))"

definition nat_of_digits :: "string \<Rightarrow> nat" where
  "nat_of_digits s = foldl (\<lambda>a c. 10 * a + (code_point c - 48)) 0 s"

lemma code_point_digit: "d < 10 \<Longrightarrow> code_point (char_of (48 + d)) = 48 + d"
  by (simp add: code_point_def)

lemma nat_of_digits_snoc [simp]: "nat_of_digits (s @ [c]) = 10 * nat_of_digits s + (code_point c - 48)"
  by (simp add: nat_of_digits_def)

lemma nat_of_digits_str_nat [simp]: "nat_of_digits (str_nat n) = n"
proof (induction n rule: str_nat.induct)
  case (1 n)
  show ?case
  proof (cases "n < 10")
    case True
    then show ?thesis
      by (subst str_nat.simps) (simp add: nat_of_digits_def code_point_digit)
  next
    case False
    then show ?thesis
      using 1 by (subst str_nat.simps) (simp add: code_point_digit)
  qed
qed

lemma str_nat_inj: "str_nat m = str_nat n \<longleftrightarrow> m = n"
  by (metis nat_of_digits_str_nat)

lemma str_nat_digits: "\<forall>c \<in> set (str_nat n). is_digit c"
proof (induction n rule: str_nat.induct)
  case (1 n)
  then show ?case
    by (subst str_nat.simps) (auto simp: is_digit_def code_point_digit)
qed

lemma str_nat_not_Nil [simp]: "str_nat n \<noteq> []"
  by (subst str_nat.simps) simp

fun us_digits :: "string \<Rightarrow> bool" where
  \<comment> \<open>digits with single underscores between them, as \<open>int()\<close> accepts\<close>
  "us_digits [] = False"
| "us_digits [c] = is_digit c"
| "us_digits (c # d # cs) =
     (is_digit c \<and> (if d = CHR ''_'' then us_digits cs else us_digits (d # cs)))"

definition py_int :: "string \<Rightarrow> int option" where
  \<comment> \<open>\<open>int(s)\<close>; \<open>None\<close> is the \<open>ValueError\<close>\<close>
  "py_int s = (let t = py_strip s;
       val = (\<lambda>u. if us_digits u then Some (int (nat_of_digits (filter is_digit u))) else None)
     in case t of [] \<Rightarrow> None
        | c # cs \<Rightarrow> if c = CHR ''-'' then map_option uminus (val cs)
                    else if c = CHR ''+'' then val cs else val t)"

section \<open>Tables\<close>

text \<open>
  A table is the list of its rows in rowid order. \<open>get_row\<close> is \<open>Session.get\<close>,
  \<open>next_id\<close> the rowid SQLite gives an inserted row, \<open>upd_row\<close> the write of a
  loaded row, \<open>del_rows\<close> a \<open>DELETE ... WHERE\<close>.
\<close>

definition get_row :: "('r \<Rightarrow> int) \<Rightarrow> 'r list \<Rightarrow> int \<Rightarrow> 'r option" where
  "get_row key t i = find (\<lambda>r. key r = i) t"

definition next_id :: "('r \<Rightarrow> int) \<Rightarrow> 'r list \<Rightarrow> int" where
  "next_id key t = foldr (\<lambda>r m. max (key r) m) t 0 + 1"

definition upd_row :: "('r \<Rightarrow> int) \<Rightarrow> int \<Rightarrow> ('r \<Rightarrow> 'r) \<Rightarrow> 'r list \<Rightarrow> 'r list" where
  "upd_row key i f t = map (\<lambda>r. if key r = i then f r else r) t"

definition del_rows :: "('r \<Rightarrow> bool) \<Rightarrow> 'r list \<Rightarrow> 'r list" where
  "del_rows P t = filter (\<lambda>r. \<not> P r) t"

definition uniq_ids :: "('r \<Rightarrow> int) \<Rightarrow> 'r list \<Rightarrow> bool" where
  "uniq_ids key t \<longleftrightarrow> distinct (map key t)"

lemma get_row_Nil [simp]: "get_row key [] i = None"
  by (simp add: get_row_def)

lemma get_row_Cons: "get_row key (r # t) i = (if key r = i then Some r else get_row key t i)"
  by (simp add: get_row_def)

lemma get_row_SomeD: "get_row key t i = Some r \<Longrightarrow> r \<in> set t \<and> key r = i"
  by (auto simp: get_row_def find_Some_iff)

lemma get_row_None_iff: "get_row key t i = None \<longleftrightarrow> (\<forall>r \<in> set t. key r \<noteq> i)"
  by (auto simp: get_row_def find_None_iff)

lemma get_row_in: "uniq_ids key t \<Longrightarrow> r \<in> set t \<Longrightarrow> get_row key t (key r) = Some r"
proof (induction t)
  case (Cons x t)
  then show ?case
    by (cases "x = r") (auto simp: get_row_Cons uniq_ids_def)
qed simp

lemma get_row_iff: "uniq_ids key t \<Longrightarrow> get_row key t i = Some r \<longleftrightarrow> r \<in> set t \<and> key r = i"
  by (auto dest: get_row_SomeD get_row_in)

lemma get_row_append: "get_row key (t @ u) i =
    (case get_row key t i of None \<Rightarrow> get_row key u i | Some r \<Rightarrow> Some r)"
  by (induction t) (auto simp: get_row_Cons)

lemma next_id_gt: "r \<in> set t \<Longrightarrow> key r < next_id key t"
  unfolding next_id_def by (induction t) auto

lemma next_id_pos: "0 < next_id key t"
proof -
  have "0 \<le> foldr (\<lambda>r m. max (key r) m) t 0"
    by (induction t) auto
  then show ?thesis
    by (simp add: next_id_def)
qed

lemma get_row_next_id [simp]: "get_row key t (next_id key t) = None"
  using next_id_gt [of _ t key] by (fastforce simp: get_row_None_iff)

lemma uniq_ids_append_new: "uniq_ids key t \<Longrightarrow> key r = next_id key t \<Longrightarrow> uniq_ids key (t @ [r])"
  using next_id_gt [of _ t key] by (fastforce simp: uniq_ids_def)

lemma set_upd_row: "set (upd_row key i f t) = (\<lambda>r. if key r = i then f r else r) ` set t"
  by (simp add: upd_row_def)

lemma upd_row_simps:
  "upd_row key i f [] = []"
  "upd_row key i f (r # t) = (if key r = i then f r else r) # upd_row key i f t"
  by (simp_all add: upd_row_def)

lemma map_key_upd_row: "(\<And>r. key (f r) = key r) \<Longrightarrow> map key (upd_row key i f t) = map key t"
  by (simp add: upd_row_def)

lemma uniq_ids_upd_row: "uniq_ids key t \<Longrightarrow> (\<And>r. key (f r) = key r) \<Longrightarrow> uniq_ids key (upd_row key i f t)"
  by (simp add: uniq_ids_def map_key_upd_row)

lemma get_row_upd_row:
  assumes "\<And>r. key (f r) = key r"
  shows "get_row key (upd_row key i f t) j =
    (if j = i then map_option f (get_row key t i) else get_row key t j)"
  by (induction t) (auto simp: upd_row_def get_row_Cons assms)

lemma set_del_rows [simp]: "set (del_rows P t) = {r \<in> set t. \<not> P r}"
  by (auto simp: del_rows_def)

lemma uniq_ids_del_rows: "uniq_ids key t \<Longrightarrow> uniq_ids key (del_rows P t)"
  unfolding uniq_ids_def del_rows_def by (rule distinct_map_filter)

lemma get_row_del_rows:
  "get_row key (del_rows (\<lambda>r. Q (key r)) t) j = (if Q j then None else get_row key t j)"
  by (induction t) (auto simp: del_rows_def get_row_Cons)

lemma get_row_map: "(\<And>r. key (g r) = key r) \<Longrightarrow> get_row key (map g t) i = map_option g (get_row key t i)"
  by (induction t) (auto simp: get_row_Cons)

lemmas table_ops = get_row_append get_row_Cons get_row_upd_row uniq_ids_append_new
  uniq_ids_upd_row uniq_ids_del_rows

section \<open>Searching for a fresh name\<close>

text \<open>
  \<open>_unique_slug\<close>, \<open>copy_payload\<close> and the vault's \<open>find_unique_slug\<close> all run the same
  loop: try \<open>name n\<close> for \<open>n\<close> = 2, 3, ... until one is not taken. The loop is written here
  with the number of attempts as fuel; the locale shows that one more attempt than there are
  taken names is always enough, so the fuel never runs out.
\<close>

fun first_free :: "nat \<Rightarrow> (nat \<Rightarrow> string) \<Rightarrow> string list \<Rightarrow> nat \<Rightarrow> string option" where
  "first_free 0 nm taken n = None"
| "first_free (Suc fuel) nm taken n =
     (if nm n \<in> set taken then first_free fuel nm taken (Suc n) else Some (nm n))"

lemma first_free_SomeD: "first_free fuel nm taken n = Some s \<Longrightarrow>
    s \<notin> set taken \<and> (\<exists>k \<ge> n. s = nm k \<and> (\<forall>j. n \<le> j \<and> j < k \<longrightarrow> nm j \<in> set taken))"
proof (induction fuel arbitrary: n)
  case (Suc fuel)
  show ?case
  proof (cases "nm n \<in> set taken")
    case True
    with Suc obtain k where k: "k \<ge> Suc n" "s = nm k" "\<forall>j. Suc n \<le> j \<and> j < k \<longrightarrow> nm j \<in> set taken"
      and "s \<notin> set taken"
      by auto
    have "\<forall>j. n \<le> j \<and> j < k \<longrightarrow> nm j \<in> set taken"
      using k(3) True by (metis Suc_leI le_neq_implies_less)
    moreover have "n \<le> k"
      using k(1) by simp
    ultimately show ?thesis
      using k(2) \<open>s \<notin> set taken\<close> by blast
  next
    case False
    with Suc.prems show ?thesis
      by auto
  qed
qed simp

lemma first_free_None: "first_free fuel nm taken n = None \<Longrightarrow> \<forall>j. n \<le> j \<and> j < n + fuel \<longrightarrow> nm j \<in> set taken"
proof (induction fuel arbitrary: n)
  case (Suc fuel)
  then have "nm n \<in> set taken" and "\<forall>j. Suc n \<le> j \<and> j < Suc n + fuel \<longrightarrow> nm j \<in> set taken"
    by (auto split: if_splits)
  then show ?case
    by (metis Suc_leI add_Suc add_Suc_right le_neq_implies_less)
qed auto

locale fresh_name =
  fixes nm :: "nat \<Rightarrow> string"
  assumes nm_inj: "nm m = nm n \<Longrightarrow> m = n"
begin

lemma enough_fuel:
  assumes "length taken < fuel"
  shows "\<exists>s. first_free fuel nm taken n = Some s"
proof (rule ccontr)
  assume "\<not> (\<exists>s. first_free fuel nm taken n = Some s)"
  then have "first_free fuel nm taken n = None"
    by simp
  then have sub: "nm ` {n..<n + fuel} \<subseteq> set taken"
    using first_free_None by fastforce
  have "card (nm ` {n..<n + fuel}) = fuel"
    by (subst card_image) (auto intro: inj_onI dest: nm_inj)
  then have "fuel \<le> card (set taken)"
    using card_mono [OF _ sub] by simp
  also have "card (set taken) \<le> length taken"
    by (rule card_length)
  finally show False
    using assms by simp
qed

lemma fresh: "\<exists>s. first_free (Suc (length taken)) nm taken n = Some s \<and> s \<notin> set taken"
  using enough_fuel [of taken "Suc (length taken)" n] first_free_SomeD by blast

end

text \<open>The two shapes of candidate the sources generate.\<close>

definition dash_name :: "string \<Rightarrow> nat \<Rightarrow> string" where
  \<comment> \<open>\<open>f"{base}-{i}"\<close>\<close>
  "dash_name base i = base @ ''-'' @ str_nat i"

definition copy_name :: "string \<Rightarrow> nat \<Rightarrow> string" where
  \<comment> \<open>\<open>f"{base[:-1]} {n})" if base.endswith(")") else f"{base} {n}"\<close>\<close>
  "copy_name base n = (if ends_with base '')'' then butlast base @ '' '' @ str_nat n @ '')''
                       else base @ '' '' @ str_nat n)"

interpretation dash: fresh_name "dash_name base" for base
  by unfold_locales (simp add: dash_name_def str_nat_inj)

interpretation copy: fresh_name "copy_name base" for base
  by unfold_locales (simp add: copy_name_def str_nat_inj split: if_splits)

section \<open>Pages of a list\<close>

lemma concat_pages: "concat (map (\<lambda>i. take k (drop (i * k) xs)) [0..<m]) = take (m * k) xs"
proof (induction m)
  case (Suc m)
  have "take (Suc m * k) xs = take (m * k) xs @ take k (drop (m * k) xs)"
    by (metis add.commute mult_Suc take_add)
  then show ?case
    using Suc by simp
qed simp

section \<open>Tenant-scoped reads\<close>

definition in_scope :: "int option \<Rightarrow> int \<Rightarrow> bool" where
  \<comment> \<open>\<open>tid is None or row.tenant_id == tid\<close>\<close>
  "in_scope tid t \<longleftrightarrow> (case tid of None \<Rightarrow> True | Some x \<Rightarrow> t = x)"

lemma in_scope_simps [simp]: "in_scope None t" "in_scope (Some x) t \<longleftrightarrow> t = x"
  by (simp_all add: in_scope_def)

text \<open>
  The contract every \<open>get_*(db, id, tid)\<close> of the sources keeps: it returns exactly the row
  with that id, and only when the row is in the caller's scope. Every client that fetches
  through such a reader sees a foreign row as a missing one, and what it reads inside a tenant
  depends on that tenant's rows only.
\<close>

locale scoped_get =
  fixes rows :: "'db \<Rightarrow> 'r list"
    and key :: "'r \<Rightarrow> int"
    and tenant :: "'r \<Rightarrow> int"
    and getr :: "'db \<Rightarrow> int \<Rightarrow> int option \<Rightarrow> 'r option"
  assumes getr_sound: "getr d i tid = Some r \<Longrightarrow>
      get_row key (rows d) i = Some r \<and> in_scope tid (tenant r)"
    and getr_complete: "get_row key (rows d) i = Some r \<Longrightarrow> in_scope tid (tenant r) \<Longrightarrow>
      getr d i tid = Some r"
begin

lemma getr_iff: "getr d i tid = Some r \<longleftrightarrow> get_row key (rows d) i = Some r \<and> in_scope tid (tenant r)"
  using getr_sound getr_complete by blast

lemma foreign_is_absent:
  "get_row key (rows d) i = Some r \<Longrightarrow> tenant r \<noteq> t \<Longrightarrow> getr d i (Some t) = None"
  using getr_sound by (metis in_scope_simps(2) not_Some_eq option.inject)

lemma getr_tenant: "getr d i (Some t) = Some r \<Longrightarrow> r \<in> set (rows d) \<and> key r = i \<and> tenant r = t"
  using getr_sound get_row_SomeD by (metis in_scope_simps(2))

lemma noninterference:
  assumes "uniq_ids key (rows d)" and "uniq_ids key (rows d')"
    and same: "filter (\<lambda>r. tenant r = t) (rows d) = filter (\<lambda>r. tenant r = t) (rows d')"
  shows "getr d i (Some t) = getr d' i (Some t)"
proof -
  have "\<And>r. r \<in> set (rows d) \<and> tenant r = t \<longleftrightarrow> r \<in> set (rows d') \<and> tenant r = t"
    using arg_cong [OF same, of set] by auto
  then have "\<And>r. getr d i (Some t) = Some r \<longleftrightarrow> getr d' i (Some t) = Some r"
    using assms(1,2) by (auto simp: getr_iff get_row_iff)
  then show ?thesis
    by (metis not_Some_eq)
qed

end

end
