(* ===== verification/Dosm_Models.thy ===== *)
theory Dosm_Models
  imports Dosm_Prelude
begin

text \<open>
  The data model of \<open>dosm/models.py\<close>: one record per ORM class, with a field per column, and
  the database state \<open>db\<close> that holds the tables. A nullable column is an option. Columns that
  hold JSON text written by \<open>json.dumps\<close> and read by \<open>json.loads\<close> are modelled by the
  value itself (\<open>json_text\<close>, whose \<open>None\<close> is a text that does not parse). A timestamp
  is the stored wall-clock value (SQLite keeps no time zone); \<open>d_now\<close> is what
  \<open>datetime.now(UTC)\<close> reads during the request.

  The last section gives the effect of deleting a row under \<open>PRAGMA foreign_keys=ON\<close>
  (\<open>db.py\<close>): the \<open>ondelete\<close> actions the columns declare.
\<close>

section \<open>JSON values\<close>

text \<open>A float is represented by its \<open>repr\<close>; an object keeps its insertion order.\<close>

datatype json =
    JNull
  | JBool bool
  | JInt int
  | JFloat string
  | JStr string
  | JArr "json list"
  | JObj "(string \<times> json) list"

type_synonym json_text = "json option"
type_synonym dict = "(string \<times> json) list"

definition dict_get :: "dict \<Rightarrow> string \<Rightarrow> json option" where
  "dict_get d k = map_of d k"

definition dict_set :: "dict \<Rightarrow> string \<Rightarrow> json \<Rightarrow> dict" where
  \<comment> \<open>\<open>d[k] = v\<close>: in place when the key is present, else appended\<close>
  "dict_set d k v = (if k \<in> fst ` set d then map (\<lambda>(a, b). (a, if a = k then v else b)) d
                     else d @ [(k, v)])"

definition json_truthy :: "json \<Rightarrow> bool" where
  \<comment> \<open>\<open>bool(v)\<close>\<close>
  "json_truthy v = (case v of JNull \<Rightarrow> False | JBool b \<Rightarrow> b | JInt i \<Rightarrow> i \<noteq> 0
     | JFloat f \<Rightarrow> f \<noteq> ''0.0'' \<and> f \<noteq> ''-0.0'' | JStr s \<Rightarrow> s \<noteq> [] | JArr xs \<Rightarrow> xs \<noteq> []
     | JObj kv \<Rightarrow> kv \<noteq> [])"

definition obj_of :: "json_text \<Rightarrow> dict" where
  \<comment> \<open>\<open>json.loads(text)\<close> of a column that holds an object, \<open>{}\<close> when it does not parse\<close>
  "obj_of t = (case t of Some (JObj d) \<Rightarrow> d | _ \<Rightarrow> [])"

lemma map_of_overwrite: "map_of (map (\<lambda>(a, b). (a, if a = k then v else b)) d) k' =
    (if k' = k then map_option (\<lambda>_. v) (map_of d k) else map_of d k')"
  by (induction d) (auto simp: split_def)

lemma dict_get_set: "dict_get (dict_set d k v) k' = (if k' = k then Some v else dict_get d k')"
proof (cases "k \<in> fst ` set d")
  case True
  then obtain w where "map_of d k = Some w"
    by (meson domD domIff map_of_eq_None_iff)
  with True show ?thesis
    by (simp add: dict_get_def dict_set_def map_of_overwrite)
next
  case False
  then have "map_of d k = None"
    by (simp add: map_of_eq_None_iff)
  with False show ?thesis
    by (simp add: dict_get_def dict_set_def map_add_def split: option.splits)
qed

lemma dict_set_keys: "fst ` set (dict_set d k v) = insert k (fst ` set d)"
  by (force simp: dict_set_def)

lemma dict_set_distinct: "distinct (map fst d) \<Longrightarrow> distinct (map fst (dict_set d k v))"
  by (auto simp: dict_set_def split_def comp_def)

section \<open>SQL functions\<close>

definition sql_lower :: "string \<Rightarrow> string" where
  \<comment> \<open>SQLite's built-in \<open>lower()\<close> folds ASCII letters only\<close>
  "sql_lower s = map (\<lambda>c. let n = code_point c in if 65 \<le> n \<and> n \<le> 90 then char_of (n + 32) else c) s"

section \<open>Rows\<close>

type_synonym stamp = int

record tenant =
  t_id :: int
  t_name :: string
  t_slug :: string
  t_description :: "string option"
  t_is_active :: bool
  t_created_at :: stamp

record group_mapping =
  gm_id :: int
  gm_group_name :: string
  gm_tenant_id :: "int option"
  gm_role :: string
  gm_created_at :: stamp

record user =
  u_id :: int
  u_username :: string
  u_password_hash :: string
  u_role :: string
  u_tenant_id :: "int option"
  u_role_locked :: bool
  u_is_active :: bool
  u_auth_provider :: string
  u_okta_sub :: "string option"
  u_email :: "string option"
  u_display_name :: "string option"
  u_last_login :: "stamp option"
  u_prefs_json :: json_text
  u_created_at :: stamp

record tag =
  tg_id :: int
  tg_name :: string
  tg_tenant_id :: int

record host_tag =
  ht_host_id :: int
  ht_tag_id :: int

record credential =
  c_id :: int
  c_name :: string
  c_tenant_id :: int
  c_kind :: string
  c_username :: "string option"
  c_domain :: "string option"
  c_secret_ref :: string
  c_owner_id :: "int option"
  c_visibility :: string
  c_org_unit_id :: "int option"
  c_created_at :: stamp
  c_updated_at :: stamp

record host =
  h_id :: int
  h_name :: string
  h_tenant_id :: int
  h_hostname :: string
  h_port :: int
  h_protocol :: string
  h_description :: "string option"
  h_credential_id :: "int option"
  h_jump_host_id :: "int option"
  h_is_jumpbox :: bool
  h_source_module :: "string option"
  h_ft_method :: "string option"
  h_ft_port :: "int option"
  h_ft_credential_id :: "int option"
  h_org_unit_id :: "int option"
  h_created_at :: stamp
  h_updated_at :: stamp

record org_unit =
  o_id :: int
  o_name :: string
  o_tenant_id :: int
  o_slug :: string
  o_tier :: string
  o_description :: "string option"
  o_parent_id :: "int option"
  o_created_at :: stamp
  o_updated_at :: stamp

record conversation =
  cv_id :: int
  cv_tenant_id :: int
  cv_user_id :: "int option"
  cv_title :: string
  cv_created_at :: stamp
  cv_updated_at :: stamp
  cv_model :: "string option"
  cv_mode :: string

record chat_message =
  cm_id :: int
  cm_conversation_id :: int
  cm_role :: string
  cm_content :: string
  cm_citations :: "json_text option"
  cm_thinking :: "json_text option"
  cm_error :: "string option"
  cm_generation_ms :: "int option"
  cm_created_at :: stamp
  cm_ord :: int

record plan_card =
  pc_id :: int
  pc_conversation_id :: int
  pc_message_id :: "int option"
  pc_tool :: string
  pc_args :: json_text
  pc_effective_args :: "json_text option"
  pc_rationale :: "string option"
  pc_rollback :: "string option"
  pc_tier :: string
  pc_status :: string
  pc_result :: "json_text option"
  pc_approver_id :: "int option"
  pc_approved_at :: "stamp option"
  pc_created_at :: stamp

record pipeline =
  p_id :: int
  p_name :: string
  p_tenant_id :: int
  p_provider :: string
  p_description :: "string option"
  p_config :: json_text
  p_inputs_schema :: "json_text option"
  p_credential_id :: "int option"
  p_owner_id :: "int option"
  p_visibility :: string
  p_org_unit_id :: "int option"
  p_created_at :: stamp
  p_updated_at :: stamp

record pipeline_run =
  r_id :: int
  r_pipeline_id :: int
  r_external_id :: "string option"
  r_status :: string
  r_inputs :: "json_text option"
  r_html_url :: "string option"
  r_triggered_by_user_id :: "int option"
  r_triggered_at :: stamp
  r_started_at :: "stamp option"
  r_completed_at :: "stamp option"
  r_last_polled_at :: "stamp option"
  r_error :: "string option"

record pipeline_payload =
  pl_id :: int
  pl_pipeline_id :: int
  pl_name :: string
  pl_description :: "string option"
  pl_values_json :: json_text
  pl_visibility :: string
  pl_created_by_id :: "int option"
  pl_created_at :: stamp
  pl_updated_at :: stamp

record secret_blob =
  sb_path :: string
  sb_value :: string
  sb_created_at :: stamp
  sb_updated_at :: stamp

record audit_log =
  a_id :: int
  a_ts :: stamp
  a_tenant_id :: "int option"
  a_actor_id :: "int option"
  a_action :: string
  a_target :: "string option"
  a_details :: "string option"
  a_ip :: "string option"

record department =
  dp_id :: int
  dp_name :: string
  dp_tenant_id :: int
  dp_slug :: string
  dp_description :: "string option"
  dp_ad_group_name :: string
  dp_ad_group_dn :: "string option"
  dp_manager_input :: string
  dp_manager_dn :: "string option"
  dp_manager_name :: "string option"
  dp_manager_email :: "string option"
  dp_manager_title :: "string option"
  dp_parent_id :: "int option"
  dp_last_synced_at :: "stamp option"
  dp_last_sync_error :: "string option"
  dp_sync_status :: string
  dp_created_at :: stamp
  dp_updated_at :: stamp

record dept_member =
  dm_id :: int
  dm_department_id :: int
  dm_user_dn :: string
  dm_display_name :: string
  dm_email :: "string option"
  dm_title :: "string option"
  dm_phone :: "string option"
  dm_enabled :: bool
  dm_manager_dn :: "string option"
  dm_manager_name :: "string option"
  dm_synced_at :: stamp

record folder =
  fd_id :: int
  fd_name :: string
  fd_tenant_id :: int
  fd_slug :: string
  fd_description :: "string option"
  fd_created_at :: stamp

record document =
  dc_id :: int
  dc_tenant_id :: int
  dc_rel_path :: string
  dc_sha256 :: string
  dc_size_bytes :: int
  dc_modified_at :: int
  dc_indexed_at :: "stamp option"
  dc_status :: string
  dc_error :: "string option"
  dc_chunk_count :: int
  dc_title :: "string option"
  dc_folder_id :: "int option"
  dc_frontmatter_title :: "string option"

record doc_chunk =
  ck_id :: int
  ck_doc_id :: int
  ck_ord :: int
  ck_text :: string
  ck_start_char :: int
  ck_end_char :: int
  ck_embedding :: "string option"

record monitoring_source =
  ms_id :: int
  ms_name :: string
  ms_tenant_id :: int
  ms_tool :: string
  ms_url :: string
  ms_username :: "string option"
  ms_token_secret :: "string option"
  ms_token2_secret :: "string option"
  ms_enabled :: bool
  ms_created_at :: stamp
  ms_updated_at :: stamp

record network_port =
  np_id :: int
  np_port_number :: int
  np_protocol :: string
  np_description :: string
  np_is_default :: bool
  np_created_at :: stamp

record scan_dest =
  de_host_id :: "int option"
  de_address :: string
  de_label :: string

text \<open>The column \<open>config_json\<close> is kept as the value its JSON text encodes.\<close>

record scan_config =
  sf_sources :: "int list"
  sf_destinations :: "scan_dest list"
  sf_port_ids :: "int list"
  sf_local :: bool

record network_scan =
  ns_id :: int
  ns_tenant_id :: int
  ns_title :: string
  ns_status :: string
  ns_config :: scan_config
  ns_created_by_id :: "int option"
  ns_created_at :: stamp
  ns_completed_at :: "stamp option"

record scan_result =
  nr_id :: int
  nr_scan_id :: int
  nr_src_host_id :: "int option"
  nr_src_label :: string
  nr_dst_label :: string
  nr_dst_address :: string
  nr_port :: int
  nr_protocol :: string
  nr_reachable :: "bool option"
  nr_latency_ms :: "int option"
  nr_error_msg :: "string option"
  nr_checked_at :: "stamp option"

text \<open>
  The documents directory is not part of the database and not part of its transactions. It holds text
  files, by their path below the root, and the directories that were made for them.
\<close>

record vfile =
  vf_text :: string
  vf_mtime :: int

record vault =
  va_files :: "(string \<times> vfile) list"
  va_dirs :: "string list"

section \<open>The database\<close>

record db =
  d_now :: stamp
  d_tenants :: "tenant list"
  d_group_mappings :: "group_mapping list"
  d_users :: "user list"
  d_tags :: "tag list"
  d_host_tags :: "host_tag list"
  d_credentials :: "credential list"
  d_hosts :: "host list"
  d_org_units :: "org_unit list"
  d_conversations :: "conversation list"
  d_messages :: "chat_message list"
  d_plan_cards :: "plan_card list"
  d_pipelines :: "pipeline list"
  d_runs :: "pipeline_run list"
  d_payloads :: "pipeline_payload list"
  d_secrets :: "secret_blob list"
  d_audit :: "audit_log list"
  d_departments :: "department list"
  d_dept_members :: "dept_member list"
  d_folders :: "folder list"
  d_documents :: "document list"
  d_chunks :: "doc_chunk list"
  d_sources :: "monitoring_source list"
  d_ports :: "network_port list"
  d_scans :: "network_scan list"
  d_scan_results :: "scan_result list"
  d_vault :: vault

definition empty_db :: db where
  "empty_db = \<lparr>d_now = 0, d_tenants = [], d_group_mappings = [], d_users = [], d_tags = [],
     d_host_tags = [], d_credentials = [], d_hosts = [], d_org_units = [], d_conversations = [],
     d_messages = [], d_plan_cards = [], d_pipelines = [], d_runs = [], d_payloads = [],
     d_secrets = [], d_audit = [], d_departments = [], d_dept_members = [], d_folders = [],
     d_documents = [], d_chunks = [], d_sources = [], d_ports = [], d_scans = [], d_scan_results = [],
     d_vault = \<lparr>va_files = [], va_dirs = []\<rparr>\<rparr>"

definition add_audit :: "int option \<Rightarrow> int option \<Rightarrow> string \<Rightarrow> string option \<Rightarrow> string option \<Rightarrow>
    string option \<Rightarrow> db \<Rightarrow> db" where
  \<comment> \<open>\<open>db.add(AuditLog(...))\<close> and its flush\<close>
  "add_audit tid actor action target details ip d =
     d\<lparr>d_audit := d_audit d @ [\<lparr>a_id = next_id a_id (d_audit d), a_ts = d_now d, a_tenant_id = tid,
        a_actor_id = actor, a_action = action, a_target = target, a_details = details,
        a_ip = ip\<rparr>]\<rparr>"

lemma add_audit_frame [simp]:
  "d_now (add_audit t a x g e i d) = d_now d"
  "d_tenants (add_audit t a x g e i d) = d_tenants d"
  "d_group_mappings (add_audit t a x g e i d) = d_group_mappings d"
  "d_users (add_audit t a x g e i d) = d_users d"
  "d_tags (add_audit t a x g e i d) = d_tags d"
  "d_host_tags (add_audit t a x g e i d) = d_host_tags d"
  "d_credentials (add_audit t a x g e i d) = d_credentials d"
  "d_hosts (add_audit t a x g e i d) = d_hosts d"
  "d_org_units (add_audit t a x g e i d) = d_org_units d"
  "d_conversations (add_audit t a x g e i d) = d_conversations d"
  "d_messages (add_audit t a x g e i d) = d_messages d"
  "d_plan_cards (add_audit t a x g e i d) = d_plan_cards d"
  "d_pipelines (add_audit t a x g e i d) = d_pipelines d"
  "d_runs (add_audit t a x g e i d) = d_runs d"
  "d_payloads (add_audit t a x g e i d) = d_payloads d"
  "d_secrets (add_audit t a x g e i d) = d_secrets d"
  "d_departments (add_audit t a x g e i d) = d_departments d"
  "d_dept_members (add_audit t a x g e i d) = d_dept_members d"
  "d_folders (add_audit t a x g e i d) = d_folders d"
  "d_documents (add_audit t a x g e i d) = d_documents d"
  "d_chunks (add_audit t a x g e i d) = d_chunks d"
  "d_sources (add_audit t a x g e i d) = d_sources d"
  "d_vault (add_audit t a x g e i d) = d_vault d"
  by (simp_all add: add_audit_def)

section \<open>Foreign-key actions\<close>

definition null_if :: "(int \<Rightarrow> bool) \<Rightarrow> int option \<Rightarrow> int option" where
  \<comment> \<open>\<open>ondelete="SET NULL"\<close> on one column, for the deleted keys\<close>
  "null_if gone v = (case v of None \<Rightarrow> None | Some x \<Rightarrow> if gone x then None else Some x)"

lemma null_if_Some [simp]: "null_if gone v = Some x \<longleftrightarrow> v = Some x \<and> \<not> gone x"
  by (auto simp: null_if_def split: option.splits if_splits)

lemma null_if_None [simp]: "null_if gone None = None"
  by (simp add: null_if_def)

lemma null_if_id: "(\<And>x. v = Some x \<Longrightarrow> \<not> gone x) \<Longrightarrow> null_if gone v = v"
  by (auto simp: null_if_def split: option.splits)

definition fk_delete_host :: "int \<Rightarrow> db \<Rightarrow> db" where
  \<comment> \<open>\<open>Host.jump_host_id\<close> and \<open>NetworkScanResult.src_host_id\<close> are SET NULL, \<open>HostTag.host_id\<close> is CASCADE\<close>
  "fk_delete_host i d = d\<lparr>
     d_hosts := map (\<lambda>h. h\<lparr>h_jump_host_id := null_if (\<lambda>x. x = i) (h_jump_host_id h)\<rparr>)
                  (del_rows (\<lambda>h. h_id h = i) (d_hosts d)),
     d_host_tags := del_rows (\<lambda>t. ht_host_id t = i) (d_host_tags d),
     d_scan_results := map (\<lambda>r. r\<lparr>nr_src_host_id := null_if (\<lambda>x. x = i) (nr_src_host_id r)\<rparr>) (d_scan_results d)\<rparr>"

definition fk_delete_credential :: "int \<Rightarrow> db \<Rightarrow> db" where
  \<comment> \<open>\<open>Host.credential_id\<close>, \<open>Host.ft_credential_id\<close>, \<open>Pipeline.credential_id\<close>: SET NULL\<close>
  "fk_delete_credential i d = d\<lparr>
     d_credentials := del_rows (\<lambda>c. c_id c = i) (d_credentials d),
     d_hosts := map (\<lambda>h. h\<lparr>h_credential_id := null_if (\<lambda>x. x = i) (h_credential_id h),
                          h_ft_credential_id := null_if (\<lambda>x. x = i) (h_ft_credential_id h)\<rparr>) (d_hosts d),
     d_pipelines := map (\<lambda>p. p\<lparr>p_credential_id := null_if (\<lambda>x. x = i) (p_credential_id p)\<rparr>)
                      (d_pipelines d)\<rparr>"

definition fk_delete_org_units :: "(int \<Rightarrow> bool) \<Rightarrow> db \<Rightarrow> db" where
  \<comment> \<open>\<open>org_unit_id\<close> of hosts, credentials and pipelines: SET NULL\<close>
  "fk_delete_org_units gone d = d\<lparr>
     d_org_units := del_rows (\<lambda>u. gone (o_id u)) (d_org_units d),
     d_hosts := map (\<lambda>h. h\<lparr>h_org_unit_id := null_if gone (h_org_unit_id h)\<rparr>) (d_hosts d),
     d_credentials := map (\<lambda>c. c\<lparr>c_org_unit_id := null_if gone (c_org_unit_id c)\<rparr>) (d_credentials d),
     d_pipelines := map (\<lambda>p. p\<lparr>p_org_unit_id := null_if gone (p_org_unit_id p)\<rparr>) (d_pipelines d)\<rparr>"

definition fk_delete_pipeline :: "int \<Rightarrow> db \<Rightarrow> db" where
  \<comment> \<open>\<open>PipelineRun.pipeline_id\<close> and \<open>PipelinePayload.pipeline_id\<close>: CASCADE\<close>
  "fk_delete_pipeline i d = d\<lparr>
     d_pipelines := del_rows (\<lambda>p. p_id p = i) (d_pipelines d),
     d_runs := del_rows (\<lambda>r. r_pipeline_id r = i) (d_runs d),
     d_payloads := del_rows (\<lambda>p. pl_pipeline_id p = i) (d_payloads d)\<rparr>"

definition fk_delete_department :: "int \<Rightarrow> db \<Rightarrow> db" where
  \<comment> \<open>\<open>Department.parent_id\<close> is SET NULL, \<open>DepartmentMember.department_id\<close> is CASCADE\<close>
  "fk_delete_department i d = d\<lparr>
     d_departments := map (\<lambda>x. x\<lparr>dp_parent_id := null_if (\<lambda>j. j = i) (dp_parent_id x)\<rparr>)
                        (del_rows (\<lambda>x. dp_id x = i) (d_departments d)),
     d_dept_members := del_rows (\<lambda>m. dm_department_id m = i) (d_dept_members d)\<rparr>"

definition fk_delete_folder :: "int \<Rightarrow> db \<Rightarrow> db" where
  \<comment> \<open>\<open>Document.application_id\<close> is SET NULL\<close>
  "fk_delete_folder i d = d\<lparr>
     d_folders := del_rows (\<lambda>f. fd_id f = i) (d_folders d),
     d_documents := map (\<lambda>x. x\<lparr>dc_folder_id := null_if (\<lambda>j. j = i) (dc_folder_id x)\<rparr>) (d_documents d)\<rparr>"

section \<open>Responses\<close>

text \<open>
  What a route handler returns: a redirect, a rendered page with its status and error text, a
  JSON answer, an \<open>HTTPException\<close>, or an exception no handler catches (a 500). Only the
  parts of a page that a property speaks about are kept.
\<close>

datatype response =
    Redirect string
  | Page nat "string option"
  | JsonOk dict
  | JsonError nat string
  | HttpError nat string
  | Crash string

definition on_ok :: "response + 'a \<Rightarrow> 'd \<Rightarrow> ('a \<Rightarrow> response \<times> 'd) \<Rightarrow> response \<times> 'd" where
  \<comment> \<open>the rest of a handler after a dependency or check that may raise: an exception rolls back\<close>
  "on_ok m d f = (case m of Inl r \<Rightarrow> (r, d) | Inr x \<Rightarrow> f x)"

lemma on_ok_simps [simp]: "on_ok (Inl r) d f = (r, d)" "on_ok (Inr x) d f = f x"
  by (simp_all add: on_ok_def)

lemma on_ok_split: "P (on_ok m d f) \<longleftrightarrow> (\<forall>r. m = Inl r \<longrightarrow> P (r, d)) \<and> (\<forall>x. m = Inr x \<longrightarrow> P (f x))"
  by (cases m) simp_all

lemma on_ok_split_asm: "P (on_ok m d f) \<longleftrightarrow>
    \<not> ((\<exists>r. m = Inl r \<and> \<not> P (r, d)) \<or> (\<exists>x. m = Inr x \<and> \<not> P (f x)))"
  by (cases m) simp_all

lemmas on_ok_splits = on_ok_split on_ok_split_asm

end
