(* ===== verification/Dosm_Auth.thy ===== *)
theory Dosm_Auth
  imports Dosm_Models
begin

text \<open>
  Authentication and authorization: \<open>dosm/auth/deps.py\<close> (current user, the role ladder and
  its gates), \<open>dosm/auth/tenancy.py\<close> (which tenant a request works in),
  \<open>dosm/auth/rbac.py\<close> (the group mapping store), \<open>dosm/auth/okta.py\<close> (grant resolution,
  JIT provisioning, ID-token checks) and the login, logout and SSO callback routes of
  \<open>dosm/auth/routes.py\<close>. bcrypt, the JWT library and the identity provider are parameters.
\<close>

section \<open>The role ladder\<close>

datatype role = Viewer | Operator | Tenant_Admin | Platform_Admin

fun role_name :: "role \<Rightarrow> string" where
  "role_name Viewer = ''viewer''"
| "role_name Operator = ''operator''"
| "role_name Tenant_Admin = ''tenant_admin''"
| "role_name Platform_Admin = ''platform_admin''"

fun ROLE_RANK :: "role \<Rightarrow> int" where
  "ROLE_RANK Viewer = 0"
| "ROLE_RANK Operator = 1"
| "ROLE_RANK Tenant_Admin = 2"
| "ROLE_RANK Platform_Admin = 3"

definition role_of :: "string \<Rightarrow> role option" where
  "role_of s = (if s = ''viewer'' then Some Viewer else if s = ''operator'' then Some Operator
     else if s = ''tenant_admin'' then Some Tenant_Admin
     else if s = ''platform_admin'' then Some Platform_Admin else None)"

definition rank_get :: "string \<Rightarrow> int" where
  \<comment> \<open>\<open>ROLE_RANK.get(role, -1)\<close>\<close>
  "rank_get s = (case role_of s of None \<Rightarrow> -1 | Some r \<Rightarrow> ROLE_RANK r)"

definition user_has_role :: "user option \<Rightarrow> role \<Rightarrow> bool" where
  "user_has_role u minimum = (case u of None \<Rightarrow> False
     | Some u \<Rightarrow> if \<not> u_is_active u then False else rank_get (u_role u) \<ge> ROLE_RANK minimum)"

definition is_platform_admin :: "user option \<Rightarrow> bool" where
  "is_platform_admin u = user_has_role u Platform_Admin"

lemma role_of_name [simp]: "role_of (role_name r) = Some r"
  by (cases r) (simp_all add: role_of_def)

lemma rank_get_name [simp]: "rank_get (role_name r) = ROLE_RANK r"
  by (simp add: rank_get_def)

lemma rank_get_platform: "rank_get s \<ge> 3 \<longleftrightarrow> s = ''platform_admin''"
  by (auto simp: rank_get_def role_of_def)

lemma user_has_role_mono: "user_has_role u r \<Longrightarrow> ROLE_RANK s \<le> ROLE_RANK r \<Longrightarrow> user_has_role u s"
  by (auto simp: user_has_role_def split: option.splits if_splits)

section \<open>The session and the current user\<close>

text \<open>The signed cookie session, with the keys DOSM stores in it.\<close>

record session =
  s_user_id :: "int option"
  s_active_tenant_id :: "int option"
  s_okta_state :: "string option"
  s_okta_nonce :: "string option"
  s_okta_verifier :: "string option"
  s_okta_next :: "string option"

definition empty_session :: session where
  "empty_session = \<lparr>s_user_id = None, s_active_tenant_id = None, s_okta_state = None,
     s_okta_nonce = None, s_okta_verifier = None, s_okta_next = None\<rparr>"

definition get_current_user :: "session \<Rightarrow> db \<Rightarrow> user option" where
  "get_current_user s d = (case s_user_id s of None \<Rightarrow> None | Some uid \<Rightarrow>
     if uid = 0 then None else
     (case get_row u_id (d_users d) uid of None \<Rightarrow> None | Some u \<Rightarrow>
       if \<not> u_is_active u then None
       else if u_role u \<noteq> ''platform_admin'' then
         (case u_tenant_id u of None \<Rightarrow> None | Some t \<Rightarrow>
           (case get_row t_id (d_tenants d) t of None \<Rightarrow> None | Some tn \<Rightarrow>
             if \<not> t_is_active tn then None else Some u))
       else Some u))"

definition login_target :: "string \<Rightarrow> string" where
  \<comment> \<open>\<open>not_authenticated_exception_handler\<close>\<close>
  "login_target path = (if path \<noteq> [] \<and> path \<noteq> ''/'' then ''/login?next='' @ path else ''/login'')"

definition require_user :: "string \<Rightarrow> session \<Rightarrow> db \<Rightarrow> response + user" where
  \<comment> \<open>the raised \<open>_NotAuthenticated\<close> is turned into a redirect by its handler\<close>
  "require_user path s d = (case get_current_user s d of None \<Rightarrow> Inl (Redirect (login_target path))
     | Some u \<Rightarrow> Inr u)"

definition require_role :: "role \<Rightarrow> string \<Rightarrow> session \<Rightarrow> db \<Rightarrow> response + user" where
  "require_role minimum path s d = bind_r (require_user path s d) (\<lambda>u.
     if rank_get (u_role u) < ROLE_RANK minimum
     then Inl (HttpError 403 (''requires '' @ role_name minimum @ '' role'')) else Inr u)"

abbreviation require_platform_admin :: "string \<Rightarrow> session \<Rightarrow> db \<Rightarrow> response + user" where
  "require_platform_admin \<equiv> require_role Platform_Admin"

abbreviation require_admin :: "string \<Rightarrow> session \<Rightarrow> db \<Rightarrow> response + user" where
  "require_admin \<equiv> require_role Tenant_Admin"

abbreviation require_operator :: "string \<Rightarrow> session \<Rightarrow> db \<Rightarrow> response + user" where
  "require_operator \<equiv> require_role Operator"

section \<open>Tenancy\<close>

definition resolve_tenant_id :: "session \<Rightarrow> user \<Rightarrow> int option" where
  "resolve_tenant_id s u = (if \<not> is_platform_admin (Some u) then u_tenant_id u
     else s_active_tenant_id s)"

definition active_tenant_id :: "session \<Rightarrow> user \<Rightarrow> int option" where
  "active_tenant_id s u = resolve_tenant_id s u"

definition require_active_tenant :: "session \<Rightarrow> user \<Rightarrow> response + int" where
  "require_active_tenant s u = (case active_tenant_id s u of
     None \<Rightarrow> Inl (HttpError 403 ''select an active tenant before making changes'')
   | Some t \<Rightarrow> Inr t)"

definition tenant_clause :: "('r \<Rightarrow> int) \<Rightarrow> int option \<Rightarrow> ('r \<Rightarrow> bool) option" where
  "tenant_clause tenant tid = (case tid of None \<Rightarrow> None | Some t \<Rightarrow> Some (\<lambda>r. tenant r = t))"

definition where_opt :: "('r \<Rightarrow> bool) option \<Rightarrow> 'r list \<Rightarrow> 'r list" where
  \<comment> \<open>\<open>if clause is not None: stmt = stmt.where(clause)\<close>\<close>
  "where_opt c rs = (case c of None \<Rightarrow> rs | Some P \<Rightarrow> filter P rs)"

lemma where_opt_tenant [simp]: "where_opt (tenant_clause tn tid) rs = filter (\<lambda>r. in_scope tid (tn r)) rs"
  by (cases tid) (simp_all add: where_opt_def tenant_clause_def)

section \<open>Facts about the gates\<close>

lemma get_current_user_SomeD:
  assumes "get_current_user s d = Some u"
  shows "s_user_id s = Some (u_id u) \<and> u \<in> set (d_users d) \<and> u_is_active u \<and>
    (u_role u = ''platform_admin'' \<or>
     (\<exists>t tn. u_tenant_id u = Some t \<and> get_row t_id (d_tenants d) t = Some tn \<and> t_is_active tn))"
  using assms
  by (auto simp: get_current_user_def split: option.splits if_splits dest: get_row_SomeD)

lemma require_user_InrD: "require_user path s d = Inr u \<Longrightarrow> get_current_user s d = Some u"
  by (auto simp: require_user_def split: option.splits)

lemma require_role_InrD:
  "require_role m path s d = Inr u \<Longrightarrow> get_current_user s d = Some u \<and> ROLE_RANK m \<le> rank_get (u_role u)"
  by (auto simp: require_role_def bind_r_Inr_iff split: if_splits dest: require_user_InrD)

lemma is_platform_admin_iff: "is_platform_admin (Some u) \<longleftrightarrow> u_is_active u \<and> u_role u = ''platform_admin''"
  using rank_get_platform [of "u_role u"] by (auto simp: is_platform_admin_def user_has_role_def)

lemma active_tenant_of_current:
  assumes "get_current_user s d = Some u" and "active_tenant_id s u = None"
  shows "u_role u = ''platform_admin'' \<and> s_active_tenant_id s = None"
  using get_current_user_SomeD [OF assms(1)] assms(2)
  by (auto simp: active_tenant_id_def resolve_tenant_id_def is_platform_admin_iff split: if_splits)

section \<open>The group mapping store\<close>

definition list_mappings :: "db \<Rightarrow> int option \<Rightarrow> group_mapping list" where
  "list_mappings d tid = sort_key gm_group_name (case tid of None \<Rightarrow> d_group_mappings d
     | Some t \<Rightarrow> filter (\<lambda>m. gm_tenant_id m = Some t) (d_group_mappings d))"

definition get_mapping :: "db \<Rightarrow> string \<Rightarrow> int option \<Rightarrow> group_mapping option" where
  "get_mapping d grp tid = find (\<lambda>m. gm_group_name m = grp \<and> gm_tenant_id m = tid) (d_group_mappings d)"

definition mapping_row :: "int \<Rightarrow> stamp \<Rightarrow> string \<Rightarrow> int option \<Rightarrow> string \<Rightarrow> group_mapping" where
  "mapping_row i now grp tid r = \<lparr>gm_id = i, gm_group_name = grp, gm_tenant_id = tid, gm_role = r,
     gm_created_at = now\<rparr>"

definition add_mapping :: "string \<Rightarrow> int option \<Rightarrow> string \<Rightarrow> db \<Rightarrow> db" where
  "add_mapping grp tid r d = d\<lparr>d_group_mappings := d_group_mappings d @
     [mapping_row (next_id gm_id (d_group_mappings d)) (d_now d) grp tid r]\<rparr>"

definition upsert_mapping :: "db \<Rightarrow> string \<Rightarrow> int option \<Rightarrow> string \<Rightarrow> bool \<times> db" where
  "upsert_mapping d grp tid r = (case get_mapping d grp tid of
     Some m \<Rightarrow> (True, d\<lparr>d_group_mappings := upd_row gm_id (gm_id m) (\<lambda>x. x\<lparr>gm_role := r\<rparr>) (d_group_mappings d)\<rparr>)
   | None \<Rightarrow> (False, add_mapping grp tid r d))"

definition delete_mapping_by_id :: "db \<Rightarrow> group_mapping \<Rightarrow> db" where
  "delete_mapping_by_id d m = d\<lparr>d_group_mappings := del_rows (\<lambda>x. gm_id x = gm_id m) (d_group_mappings d)\<rparr>"

definition default_tenant_id :: "db \<Rightarrow> int option" where
  \<comment> \<open>\<open>select(Tenant.id).where(Tenant.slug == "default")\<close>\<close>
  "default_tenant_id d = map_option t_id (find (\<lambda>t. t_slug t = ''default'') (d_tenants d))"

definition seed_group_mappings_from_config :: "(string \<times> string) list \<Rightarrow> db \<Rightarrow> nat \<times> db" where
  \<comment> \<open>\<open>grm\<close> is \<open>cfg.rbac.group_role_map\<close> in its order; its roles are dropped\<close>
  "seed_group_mappings_from_config grm d =
     (if grm = [] then (0, d)
      else if d_group_mappings d \<noteq> [] then (0, d)
      else (case default_tenant_id d of None \<Rightarrow> (0, d)
            | Some t \<Rightarrow> (length grm, fold (\<lambda>g. add_mapping (fst g) (Some t) ''viewer'') grm d)))"

section \<open>Grants from group claims\<close>

fun best_role :: "string list \<Rightarrow> (string \<times> string) list \<Rightarrow> string option \<Rightarrow> int \<Rightarrow> string option" where
  \<comment> \<open>the loop of \<open>map_groups_to_role\<close>\<close>
  "best_role [] grm best rank = best"
| "best_role (g # gs) grm best rank =
     (case map_of grm g of None \<Rightarrow> best_role gs grm best rank
      | Some r \<Rightarrow> if rank_get r > rank then best_role gs grm (Some r) (rank_get r)
                  else best_role gs grm best rank)"

definition map_groups_to_role :: "string list \<Rightarrow> (string \<times> string) list \<Rightarrow> string \<Rightarrow> string option" where
  "map_groups_to_role groups grm default_role =
     (case best_role groups grm None (-1) of Some r \<Rightarrow> Some r
      | None \<Rightarrow> if role_of default_role \<noteq> None then Some default_role else None)"

fun first_grant :: "string list \<Rightarrow> (string \<times> int option \<times> string) list \<Rightarrow> (int \<times> string) option" where
  "first_grant member [] = None"
| "first_grant member ((g, t, r) # ms) =
     (case t of None \<Rightarrow> first_grant member ms
      | Some tid \<Rightarrow> if g \<in> set member then Some (tid, ''viewer'') else first_grant member ms)"

definition pick_grant :: "string list \<Rightarrow> (string \<times> int option \<times> string) list \<Rightarrow> int option \<Rightarrow>
    string \<Rightarrow> (int \<times> string) option" where
  "pick_grant groups mappings default_tid default_role =
     (case first_grant groups mappings of Some g \<Rightarrow> Some g
      | None \<Rightarrow> if role_of default_role \<noteq> None \<and> default_role \<noteq> ''platform_admin'' \<and> default_tid \<noteq> None
                then Some (the default_tid, default_role) else None)"

definition resolve_grant :: "db \<Rightarrow> string list \<Rightarrow> string \<Rightarrow> (int \<times> string) option" where
  "resolve_grant d groups default_role = pick_grant groups
     (map (\<lambda>m. (gm_group_name m, gm_tenant_id m, gm_role m)) (sort_key gm_id (d_group_mappings d)))
     (default_tenant_id d) default_role"

section \<open>Identity and provisioning\<close>

definition claim_str :: "dict \<Rightarrow> string \<Rightarrow> string option" where
  \<comment> \<open>a string claim; the standard claims DOSM reads are strings\<close>
  "claim_str c k = (case dict_get c k of Some (JStr s) \<Rightarrow> Some s | _ \<Rightarrow> None)"

record identity =
  id_sub :: "string option"
  id_email :: "string option"
  id_username :: "string option"
  id_display_name :: "string option"
  id_groups :: json

definition first_truthy :: "string option list \<Rightarrow> string option" where
  \<comment> \<open>\<open>a or b or c\<close>: the first non-empty one, else the last\<close>
  "first_truthy xs = (case filter (\<lambda>x. x \<noteq> None \<and> x \<noteq> Some []) xs of
     y # _ \<Rightarrow> y | [] \<Rightarrow> if xs = [] then None else last xs)"

definition group_members :: "json \<Rightarrow> string list option" where
  \<comment> \<open>\<open>set(groups)\<close> for a truthy claim, as far as a group name can be in it; \<open>None\<close> is the
    \<open>TypeError\<close> of a claim that is not iterable or holds an unhashable element\<close>
  "group_members j = (case j of
     JArr xs \<Rightarrow> if \<exists>x \<in> set xs. (case x of JArr _ \<Rightarrow> True | JObj _ \<Rightarrow> True | _ \<Rightarrow> False) then None
                else Some (List.map_filter (\<lambda>x. case x of JStr s \<Rightarrow> Some s | _ \<Rightarrow> None) xs)
   | JStr s \<Rightarrow> Some (map (\<lambda>c. [c]) s) | JObj kv \<Rightarrow> Some (map fst kv) | _ \<Rightarrow> None)"

definition group_len :: "json \<Rightarrow> nat" where
  \<comment> \<open>\<open>len(groups)\<close>\<close>
  "group_len j = (case j of JArr xs \<Rightarrow> length xs | JStr s \<Rightarrow> length s | JObj kv \<Rightarrow> length kv | _ \<Rightarrow> 0)"

definition extract_identity :: "dict \<Rightarrow> string \<Rightarrow> identity" where
  "extract_identity c groups_claim = \<lparr>id_sub = claim_str c ''sub'', id_email = claim_str c ''email'',
     id_username = first_truthy [claim_str c ''preferred_username'', claim_str c ''email'', claim_str c ''sub''],
     id_display_name = claim_str c ''name'',
     id_groups = (case dict_get c groups_claim of Some j \<Rightarrow> if json_truthy j then j else JArr []
                  | None \<Rightarrow> JArr [])\<rparr>"

definition SENTINEL_PASSWORD_HASH :: string where
  "SENTINEL_PASSWORD_HASH = ''!okta''"

definition unique_username :: "db \<Rightarrow> string option \<Rightarrow> string \<Rightarrow> string" where
  \<comment> \<open>\<open>_unique_username\<close>; the subject is never empty here (the callback checks it)\<close>
  "unique_username d desired okta_sub =
     (let raw = py_strip (or_default desired (if okta_sub = [] then ''user'' else okta_sub));
          base = (if raw = [] then ''user'' else raw)
      in case find (\<lambda>u. u_username u = base) (d_users d) of
           None \<Rightarrow> base
         | Some ex \<Rightarrow> if u_okta_sub ex = Some okta_sub then base
                      else base @ ''-'' @ drop (length okta_sub - 6) okta_sub)"

definition new_okta_user :: "db \<Rightarrow> string \<Rightarrow> string option \<Rightarrow> string option \<Rightarrow> string option \<Rightarrow>
    int option \<Rightarrow> string \<Rightarrow> user" where
  "new_okta_user d sub uname email dname tid r =
     \<lparr>u_id = next_id u_id (d_users d), u_username = unique_username d uname sub,
      u_password_hash = SENTINEL_PASSWORD_HASH, u_role = r, u_tenant_id = tid, u_role_locked = False,
      u_is_active = True, u_auth_provider = ''okta'', u_okta_sub = Some sub, u_email = email,
      u_display_name = dname, u_last_login = Some (d_now d), u_prefs_json = Some (JObj []),
      u_created_at = d_now d\<rparr>"

definition refresh_okta_user :: "db \<Rightarrow> string option \<Rightarrow> string option \<Rightarrow> int option \<Rightarrow> string \<Rightarrow> user \<Rightarrow> user" where
  "refresh_okta_user d email dname tid r u =
     (let u1 = u\<lparr>u_auth_provider := ''okta''\<rparr>;
          u2 = (if \<not> u_role_locked u then u1\<lparr>u_role := r, u_tenant_id := tid\<rparr> else u1)
      in u2\<lparr>u_email := email, u_display_name := dname, u_last_login := Some (d_now d)\<rparr>)"

definition provision_user :: "db \<Rightarrow> string \<Rightarrow> string option \<Rightarrow> string option \<Rightarrow> string option \<Rightarrow>
    int option \<Rightarrow> string \<Rightarrow> string + (user \<times> string option \<times> db)" where
  \<comment> \<open>\<open>Inl\<close> is the \<open>IntegrityError\<close> of the flush: \<open>users.username\<close> is unique\<close>
  "provision_user d sub uname email dname tid r =
     (case find (\<lambda>u. u_okta_sub u = Some sub) (d_users d) of
        None \<Rightarrow>
          (let u = new_okta_user d sub uname email dname tid r
           in if u_username u \<in> u_username ` set (d_users d) then Inl ''IntegrityError''
              else Inr (u, None, d\<lparr>d_users := d_users d @ [u]\<rparr>))
      | Some ex \<Rightarrow>
          (let u = refresh_okta_user d email dname tid r ex
           in Inr (u, if \<not> u_role_locked ex then Some (u_role ex) else None,
                   d\<lparr>d_users := upd_row u_id (u_id ex) (refresh_okta_user d email dname tid r) (d_users d)\<rparr>)))"

definition validate_id_token :: "(string \<Rightarrow> string \<Rightarrow> string \<Rightarrow> string \<Rightarrow> string + dict) \<Rightarrow>
    string \<Rightarrow> string \<Rightarrow> string \<Rightarrow> string \<Rightarrow> string option \<Rightarrow> string + dict" where
  \<comment> \<open>\<open>jwt_check\<close> is authlib's decode and claim validation; the nonce check is DOSM's own\<close>
  "validate_id_token jwt_check tok jwks issuer client_id nonce =
     (case jwt_check tok jwks issuer client_id of
        Inl e \<Rightarrow> Inl (''ID token validation failed: '' @ e)
      | Inr c \<Rightarrow> if nonce \<noteq> None \<and> claim_str c ''nonce'' \<noteq> nonce
                 then Inl ''ID token nonce mismatch'' else Inr c)"

section \<open>Login, logout and the SSO callback\<close>

definition login_submit :: "(string \<Rightarrow> string \<Rightarrow> bool) \<Rightarrow> string \<Rightarrow> string \<Rightarrow> string \<Rightarrow> string option \<Rightarrow>
    session \<Rightarrow> db \<Rightarrow> response \<times> session \<times> db" where
  \<comment> \<open>\<open>verify\<close> is \<open>verify_password\<close> (bcrypt)\<close>
  "login_submit verify username password nxt ip s d =
     (case find (\<lambda>u. u_username u = username) (d_users d) of
        None \<Rightarrow> (Page 401 (Some ''Invalid credentials.''), s, d)
      | Some u \<Rightarrow>
          if \<not> u_is_active u \<or> \<not> verify password (u_password_hash u)
          then (Page 401 (Some ''Invalid credentials.''), s, d)
          else if u_role u \<noteq> ''platform_admin'' \<and>
             (case u_tenant_id u of None \<Rightarrow> True | Some t \<Rightarrow>
               (case get_row t_id (d_tenants d) t of None \<Rightarrow> True | Some tn \<Rightarrow> \<not> t_is_active tn))
          then (Page 403 (Some ''Your workspace is inactive. Contact an administrator.''), s, d)
          else (Redirect (if nxt = [] then ''/'' else nxt), s\<lparr>s_user_id := Some (u_id u)\<rparr>,
                add_audit None (Some (u_id u)) ''auth.login'' (Some (''user:'' @ str_int (u_id u))) None ip d))"

definition logout :: "session \<Rightarrow> db \<Rightarrow> response \<times> session \<times> db" where
  "logout s d = (Redirect ''/login'', empty_session,
     (case s_user_id s of None \<Rightarrow> d
      | Some uid \<Rightarrow> add_audit None (Some uid) ''auth.logout'' (Some (''user:'' @ str_int uid)) None None d))"

text \<open>
  What the callback learns from the network and the secrets backend: the client secret
  (\<open>None\<close>: not set), the outcome of discovery, token exchange and JWKS fetch (an
  \<open>OktaError\<close>, another exception, or the ID token with the key set), and authlib's check.
\<close>

datatype idp_outcome = Idp_Okta_Error string | Idp_Exception string | Idp_Token "string option" string

record okta_env =
  oe_enabled :: bool
  oe_issuer :: string
  oe_client_id :: string
  oe_groups_claim :: string
  oe_default_role :: string
  oe_client_secret :: "string option"
  oe_exchange :: "string \<Rightarrow> string \<Rightarrow> string \<Rightarrow> idp_outcome" \<comment> \<open>client secret, code, verifier\<close>
  oe_jwt :: "string \<Rightarrow> string \<Rightarrow> string \<Rightarrow> string \<Rightarrow> string + dict"

definition okta_claims :: "okta_env \<Rightarrow> string \<Rightarrow> string \<Rightarrow> string \<Rightarrow> string option \<Rightarrow> response + dict" where
  \<comment> \<open>the network block of \<open>okta_callback\<close>\<close>
  "okta_claims env secret code verifier nonce =
     (case oe_exchange env secret code verifier of
        Idp_Okta_Error e \<Rightarrow> Inl (HttpError 401 e)
      | Idp_Exception e \<Rightarrow> Inl (HttpError 502 (''Okta sign-in failed: '' @ e))
      | Idp_Token tok jwks \<Rightarrow>
          if tok = None \<or> tok = Some [] then Inl (HttpError 401 ''token response had no id_token'')
          else (case validate_id_token (oe_jwt env) (the tok) jwks (oe_issuer env) (oe_client_id env) nonce of
                  Inl e \<Rightarrow> Inl (HttpError 401 e) | Inr c \<Rightarrow> Inr c))"

definition okta_sign_in :: "okta_env \<Rightarrow> dict \<Rightarrow> string \<Rightarrow> string option \<Rightarrow> session \<Rightarrow> db \<Rightarrow>
    response \<times> session \<times> db" where
  \<comment> \<open>\<open>okta_callback\<close> from \<open>extract_identity\<close> on; \<open>s\<close> has the handshake values popped\<close>
  "okta_sign_in env claims next_url ip s d =
     (let ident = extract_identity claims (oe_groups_claim env);
          ng = str_nat (group_len (id_groups ident))
      in case id_sub ident of
           None \<Rightarrow> (HttpError 401 ''ID token missing subject'', s, d)
         | Some sub \<Rightarrow>
             if sub = [] then (HttpError 401 ''ID token missing subject'', s, d)
             else (case group_members (id_groups ident) of
               None \<Rightarrow> (Crash ''TypeError'', s, d)
             | Some groups \<Rightarrow> (case resolve_grant d groups (oe_default_role env) of
               None \<Rightarrow> (Page 403 (Some (''Your account isn't a member of any group granted DOSM access. ''
                          @ ''Contact an administrator.'')), s,
                        add_audit None None ''auth.login.okta.denied'' (Some (''okta_sub:'' @ sub))
                          (Some (''email='' @ (case id_email ident of None \<Rightarrow> ''None'' | Some e \<Rightarrow> e)
                             @ '' groups='' @ ng @ '' (no mapped group)'')) ip d)
             | Some (tid, r) \<Rightarrow>
                 (case provision_user d sub (id_username ident) (id_email ident) (id_display_name ident)
                         (Some tid) r of
                    Inl e \<Rightarrow> (Crash e, s, d)
                  | Inr (u, prev, d1) \<Rightarrow>
                      if \<not> u_is_active u then (HttpError 403 ''this account is disabled'', s, d)
                      else
                        (let d2 = add_audit (u_tenant_id u) (Some (u_id u)) ''auth.login.okta''
                               (Some (''user:'' @ str_int (u_id u)))
                               (Some (''role='' @ u_role u @ '' tenant='' @
                                  (case u_tenant_id u of None \<Rightarrow> ''None'' | Some t \<Rightarrow> str_int t)
                                  @ '' groups='' @ ng @ (if u_role_locked u then '' (locked)'' else []))) ip d1;
                             d3 = (if prev \<noteq> None \<and> prev \<noteq> Some (u_role u)
                               then add_audit (u_tenant_id u) (Some (u_id u)) ''rbac.role_assigned''
                                      (Some (''user:'' @ str_int (u_id u)))
                                      (Some (the prev @ '' -> '' @ u_role u @ '' (from Okta groups)'')) None d2
                               else d2)
                         in (Redirect next_url, s\<lparr>s_user_id := Some (u_id u)\<rparr>, d3))))))"

definition okta_callback :: "okta_env \<Rightarrow> string option \<Rightarrow> string option \<Rightarrow> string option \<Rightarrow>
    string option \<Rightarrow> session \<Rightarrow> db \<Rightarrow> response \<times> session \<times> db" where
  "okta_callback env code state err ip s d =
     (if \<not> oe_enabled env then (HttpError 404 ''Okta SSO is not enabled'', s, d)
      else if err \<noteq> None \<and> err \<noteq> Some []
      then (HttpError 400 (''Okta returned an error: '' @ the err), s, d)
      else if code = None \<or> code = Some [] \<or> state = None \<or> state = Some []
      then (HttpError 400 ''missing code/state'', s, d)
      else
        (let s' = s\<lparr>s_okta_state := None, s_okta_nonce := None, s_okta_verifier := None, s_okta_next := None\<rparr>;
             next_url = or_default (s_okta_next s) ''/''
         in if s_okta_state s = None \<or> s_okta_state s = Some [] \<or> state \<noteq> s_okta_state s
               \<or> s_okta_verifier s = None \<or> s_okta_verifier s = Some []
            then (HttpError 400 ''invalid or expired SSO state; please retry'', s', d)
            else (case oe_client_secret env of
              None \<Rightarrow> (HttpError 500 ''okta/client_secret is not set in the secrets backend'', s', d)
            | Some secret \<Rightarrow>
                (case okta_claims env secret (the code) (the (s_okta_verifier s)) (s_okta_nonce s) of
                   Inl resp \<Rightarrow> (resp, s', d)
                 | Inr claims \<Rightarrow> okta_sign_in env claims next_url ip s' d))))"

section \<open>Facts about grants and provisioning\<close>

lemma first_grant_SomeD: "first_grant member ms = Some (t, r) \<Longrightarrow>
    r = ''viewer'' \<and> (\<exists>g q. (g, Some t, q) \<in> set ms \<and> g \<in> set member)"
  by (induction member ms rule: first_grant.induct) (auto split: option.splits if_splits)

lemma first_grant_None: "first_grant member ms = None \<Longrightarrow> (g, Some t, q) \<in> set ms \<Longrightarrow> g \<notin> set member"
  by (induction member ms rule: first_grant.induct) (auto split: option.splits if_splits)

abbreviation mapping_triples :: "db \<Rightarrow> (string \<times> int option \<times> string) list" where
  "mapping_triples d \<equiv> map (\<lambda>m. (gm_group_name m, gm_tenant_id m, gm_role m)) (sort_key gm_id (d_group_mappings d))"

lemma resolve_grant_SomeD:
  assumes "resolve_grant d groups dr = Some (t, r)"
  shows "(r = ''viewer'' \<and> (\<exists>m \<in> set (d_group_mappings d). gm_tenant_id m = Some t \<and> gm_group_name m \<in> set groups))
    \<or> (r = dr \<and> dr \<noteq> ''platform_admin'' \<and> role_of dr \<noteq> None \<and> default_tenant_id d = Some t \<and>
       (\<forall>m \<in> set (d_group_mappings d). gm_tenant_id m \<noteq> None \<longrightarrow> gm_group_name m \<notin> set groups))"
proof (cases "first_grant groups (mapping_triples d)")
  case None
  have "gm_group_name m \<notin> set groups" if "m \<in> set (d_group_mappings d)" "gm_tenant_id m = Some x" for m x
    by (rule first_grant_None [OF None, of _ x "gm_role m"]) (use that in force)
  then show ?thesis
    using assms None by (auto simp: resolve_grant_def pick_grant_def split: if_splits)
next
  case (Some g)
  then have "first_grant groups (mapping_triples d) = Some (t, r)"
    using assms by (simp add: resolve_grant_def pick_grant_def)
  from first_grant_SomeD [OF this] show ?thesis
    by auto
qed

lemma resolve_grant_role:
  "resolve_grant d groups dr = Some (t, r) \<Longrightarrow> r = ''viewer'' \<or> (r = dr \<and> dr \<noteq> ''platform_admin'')"
  using resolve_grant_SomeD by blast

lemma refresh_okta_user_simps [simp]:
  "u_id (refresh_okta_user d e n t r u) = u_id u"
  "u_username (refresh_okta_user d e n t r u) = u_username u"
  "u_okta_sub (refresh_okta_user d e n t r u) = u_okta_sub u"
  "u_is_active (refresh_okta_user d e n t r u) = u_is_active u"
  "u_role_locked (refresh_okta_user d e n t r u) = u_role_locked u"
  "u_role (refresh_okta_user d e n t r u) = (if u_role_locked u then u_role u else r)"
  "u_tenant_id (refresh_okta_user d e n t r u) = (if u_role_locked u then u_tenant_id u else t)"
  by (simp_all add: refresh_okta_user_def Let_def)

text \<open>The account provisioning hands back, and what it does to the table.\<close>

lemma provision_user_InrD:
  assumes "provision_user d sub uname email dname tid r = Inr (u, prev, d1)"
  shows "u_okta_sub u = Some sub \<and> (u_role_locked u \<or> (u_role u = r \<and> u_tenant_id u = tid)) \<and>
    ((\<exists>ex \<in> set (d_users d). u_okta_sub ex = Some sub \<and> u = refresh_okta_user d email dname tid r ex \<and>
        d1 = d\<lparr>d_users := upd_row u_id (u_id ex) (refresh_okta_user d email dname tid r) (d_users d)\<rparr>)
     \<or> (u = new_okta_user d sub uname email dname tid r \<and> u_username u \<notin> u_username ` set (d_users d) \<and>
        (\<forall>x \<in> set (d_users d). u_okta_sub x \<noteq> Some sub) \<and> d1 = d\<lparr>d_users := d_users d @ [u]\<rparr>))"
proof (cases "find (\<lambda>u. u_okta_sub u = Some sub) (d_users d)")
  case None
  then have "\<forall>x \<in> set (d_users d). u_okta_sub x \<noteq> Some sub"
    by (simp add: find_None_iff)
  then show ?thesis
    using assms None by (auto simp: provision_user_def Let_def new_okta_user_def split: if_splits)
next
  case (Some ex)
  then have "ex \<in> set (d_users d)" "u_okta_sub ex = Some sub"
    by (auto simp: find_Some_iff)
  then show ?thesis
    using assms Some by (auto simp: provision_user_def Let_def)
qed

text \<open>The account provisioning returns is in the table it returns.\<close>

lemma provision_user_in_table:
  assumes "provision_user d sub uname email dname tid r = Inr (u, prev, d1)"
  shows "u \<in> set (d_users d1)"
  using provision_user_InrD [OF assms] by (auto simp: upd_row_def)

lemma okta_claims_InrD:
  assumes "okta_claims env sec code ver nonce = Inr c"
  shows "\<exists>tok jwks. oe_jwt env tok jwks (oe_issuer env) (oe_client_id env) = Inr c \<and>
    (nonce \<noteq> None \<longrightarrow> claim_str c ''nonce'' = nonce)"
  using assms
  by (auto simp: okta_claims_def validate_id_token_def split: idp_outcome.splits if_splits sum.splits)

lemma okta_sign_in_userD:
  assumes "okta_sign_in env c nxt ip s d = (resp, s', d')" and "s_user_id s' \<noteq> s_user_id s"
  shows "\<exists>u sub groups t r. claim_str c ''sub'' = Some sub \<and> sub \<noteq> [] \<and>
    group_members (id_groups (extract_identity c (oe_groups_claim env))) = Some groups \<and>
    resolve_grant d groups (oe_default_role env) = Some (t, r) \<and>
    s_user_id s' = Some (u_id u) \<and> u_is_active u \<and> u_okta_sub u = Some sub \<and> u \<in> set (d_users d') \<and>
    (u_role_locked u \<or> (u_tenant_id u = Some t \<and> u_role u = r))"
proof -
  let ?i = "extract_identity c (oe_groups_claim env)"
  obtain sub groups t r u prev d1 where
    x: "id_sub ?i = Some sub" "sub \<noteq> []" "group_members (id_groups ?i) = Some groups"
      "resolve_grant d groups (oe_default_role env) = Some (t, r)"
      "provision_user d sub (id_username ?i) (id_email ?i) (id_display_name ?i) (Some t) r = Inr (u, prev, d1)"
      "u_is_active u" "s' = s\<lparr>s_user_id := Some (u_id u)\<rparr>" "d_users d' = d_users d1"
    using assms unfolding okta_sign_in_def Let_def
    by (auto split: option.splits if_splits sum.splits prod.splits)
  have "claim_str c ''sub'' = Some sub"
    using x(1) by (simp add: extract_identity_def)
  moreover have "s_user_id s' = Some (u_id u)" "u \<in> set (d_users d')"
    using x(7,8) provision_user_in_table [OF x(5)] by simp_all
  ultimately show ?thesis
    using x(2-4,6) provision_user_InrD [OF x(5)] by blast
qed

section \<open>Fixtures of the witnesses\<close>

definition demo_tenant :: "int \<Rightarrow> string \<Rightarrow> tenant" where
  "demo_tenant i slug = \<lparr>t_id = i, t_name = slug, t_slug = slug, t_description = None,
     t_is_active = True, t_created_at = 0\<rparr>"

definition demo_user :: "int \<Rightarrow> string \<Rightarrow> int option \<Rightarrow> user" where
  "demo_user i r t = \<lparr>u_id = i, u_username = ''user'' @ str_int i, u_password_hash = ''x'', u_role = r,
     u_tenant_id = t, u_role_locked = False, u_is_active = True, u_auth_provider = ''local'',
     u_okta_sub = None, u_email = None, u_display_name = None, u_last_login = None,
     u_prefs_json = Some (JObj []), u_created_at = 0\<rparr>"

definition demo_db :: db where
  \<comment> \<open>two tenants, an operator and an admin in tenant 1, a platform admin\<close>
  "demo_db = empty_db\<lparr>d_tenants := [demo_tenant 1 ''default'', demo_tenant 2 ''acme''],
     d_users := [demo_user 1 ''operator'' (Some 1), demo_user 2 ''tenant_admin'' (Some 1),
                 demo_user 3 ''platform_admin'' None]\<rparr>"

definition demo_session :: "int \<Rightarrow> session" where
  "demo_session i = empty_session\<lparr>s_user_id := Some i\<rparr>"

lemmas demo_defs = demo_tenant_def demo_user_def demo_db_def demo_session_def empty_db_def
  empty_session_def

lemma demo_pass [simp]:
  "require_role Operator path (demo_session 1) demo_db = Inr (demo_user 1 ''operator'' (Some 1))"
  "require_role Tenant_Admin path (demo_session 2) demo_db = Inr (demo_user 2 ''tenant_admin'' (Some 1))"
  "require_role Platform_Admin path (demo_session 3) demo_db = Inr (demo_user 3 ''platform_admin'' None)"
  by (simp_all add: demo_defs require_role_def require_user_def get_current_user_def get_row_def
      rank_get_def role_of_def)

definition demo_env :: okta_env where
  \<comment> \<open>an identity provider that signs in subject s1, member of group ops\<close>
  "demo_env = \<lparr>oe_enabled = True, oe_issuer = ''iss'', oe_client_id = ''cid'', oe_groups_claim = ''groups'',
     oe_default_role = ''none'', oe_client_secret = Some ''sec'',
     oe_exchange = (\<lambda>_ _ _. Idp_Token (Some ''tok'') ''jwks''),
     oe_jwt = (\<lambda>_ _ _ _. Inr [(''sub'', JStr ''s1''), (''nonce'', JStr ''n''),
                                (''groups'', JArr [JStr ''ops''])])\<rparr>"

definition demo_okta_db :: db where
  "demo_okta_db = demo_db\<lparr>d_group_mappings := [mapping_row 1 0 ''ops'' (Some 2) ''platform_admin'']\<rparr>"

definition demo_okta_session :: session where
  "demo_okta_session = empty_session\<lparr>s_okta_state := Some ''st'', s_okta_nonce := Some ''n'',
     s_okta_verifier := Some ''v''\<rparr>"

section \<open>Properties\<close>

text \<open>C1: A user who passes \<open>require_role(minimum)\<close> is the active account named by the session,
  stands at least at \<open>minimum\<close> on the role ladder, and works in a definite scope: a
  tenant-confined user gets exactly their own tenant, which exists and is active, whatever active
  tenant the session carries; only a platform admin with no active tenant gets the
  all-tenants view.\<close>

theorem gate_scopes_every_user:
  assumes "require_role m path s d = Inr u"
  shows "s_user_id s = Some (u_id u) \<and> u \<in> set (d_users d) \<and> u_is_active u \<and> user_has_role (Some u) m \<and>
    (if u_role u = ''platform_admin'' then active_tenant_id s u = s_active_tenant_id s
     else \<exists>t tn. active_tenant_id s u = Some t \<and> u_tenant_id u = Some t \<and>
             get_row t_id (d_tenants d) t = Some tn \<and> t_is_active tn)"
proof -
  from assms have u: "get_current_user s d = Some u" and rk: "ROLE_RANK m \<le> rank_get (u_role u)"
    by (auto dest: require_role_InrD)
  note cur = get_current_user_SomeD [OF u]
  show ?thesis
    using cur rk
    by (auto simp: user_has_role_def active_tenant_id_def resolve_tenant_id_def is_platform_admin_iff)
qed

theorem gate_scopes_every_user_witness:
  "active_tenant_id (demo_session 1) (demo_user 1 ''operator'' (Some 1)) = Some 1"
  using gate_scopes_every_user [OF demo_pass(1)] by (auto simp: demo_user_def)

text \<open>C3: The SSO callback signs nobody in unless the handshake is intact: if it changes the
  session's user, then the session carried a non-empty state equal to the returned one and a PKCE
  verifier, the ID token passed authlib's check and its nonce is the stored one, the signed-in
  account is the active account of the token's subject, the subject is granted by a mapped group
  or the default role, and an account whose role is not pinned leaves with the granted tenant
  and a role that is not \<open>platform_admin\<close>.\<close>

theorem okta_callback_signs_in_only_granted:
  assumes "okta_callback env code state err ip s d = (resp, s', d')" and "s_user_id s' \<noteq> s_user_id s"
  shows "oe_enabled env \<and> state \<noteq> None \<and> state \<noteq> Some [] \<and> s_okta_state s = state \<and> s_okta_verifier s \<noteq> None \<and>
    (\<exists>tok jwks c u sub groups t r.
       oe_jwt env tok jwks (oe_issuer env) (oe_client_id env) = Inr c \<and>
       (s_okta_nonce s \<noteq> None \<longrightarrow> claim_str c ''nonce'' = s_okta_nonce s) \<and>
       claim_str c ''sub'' = Some sub \<and> sub \<noteq> [] \<and>
       group_members (id_groups (extract_identity c (oe_groups_claim env))) = Some groups \<and>
       resolve_grant d groups (oe_default_role env) = Some (t, r) \<and>
       s_user_id s' = Some (u_id u) \<and> u_is_active u \<and> u_okta_sub u = Some sub \<and> u \<in> set (d_users d') \<and>
       (u_role_locked u \<or> (u_tenant_id u = Some t \<and> u_role u = r \<and> r \<noteq> ''platform_admin'')))"
proof -
  let ?s = "s\<lparr>s_okta_state := None, s_okta_nonce := None, s_okta_verifier := None, s_okta_next := None\<rparr>"
  obtain sec c where st: "oe_enabled env" "state \<noteq> None" "state \<noteq> Some []" "s_okta_state s = state"
      "s_okta_verifier s \<noteq> None"
    and cl: "okta_claims env sec (the code) (the (s_okta_verifier s)) (s_okta_nonce s) = Inr c"
    and si: "okta_sign_in env c (or_default (s_okta_next s) ''/'') ip ?s d = (resp, s', d')"
    using assms unfolding okta_callback_def Let_def
    by (auto split: option.splits if_splits sum.splits)
  have "s_user_id s' \<noteq> s_user_id ?s"
    using assms(2) by simp
  from okta_sign_in_userD [OF si this] obtain u sub groups t r where
    g: "claim_str c ''sub'' = Some sub" "sub \<noteq> []"
      "group_members (id_groups (extract_identity c (oe_groups_claim env))) = Some groups"
      "resolve_grant d groups (oe_default_role env) = Some (t, r)"
      "s_user_id s' = Some (u_id u)" "u_is_active u" "u_okta_sub u = Some sub" "u \<in> set (d_users d')"
      "u_role_locked u \<or> (u_tenant_id u = Some t \<and> u_role u = r)"
    by blast
  have "r \<noteq> ''platform_admin''"
    using resolve_grant_role [OF g(4)] by auto
  with g okta_claims_InrD [OF cl] st show ?thesis
    by blast
qed

theorem okta_callback_signs_in_only_granted_witness:
  "\<exists>resp s' d'. okta_callback demo_env (Some ''c'') (Some ''st'') None None demo_okta_session demo_okta_db = (resp, s', d')
     \<and> (\<exists>u \<in> set (d_users d'). s_user_id s' = Some (u_id u) \<and> u_okta_sub u = Some ''s1'')"
proof -
  obtain resp s' d' where r: "okta_callback demo_env (Some ''c'') (Some ''st'') None None demo_okta_session demo_okta_db = (resp, s', d')"
    by (metis prod_cases3)
  have "s_user_id (fst (snd (okta_callback demo_env (Some ''c'') (Some ''st'') None None demo_okta_session demo_okta_db))) = Some 4"
    by code_simp
  then have "s_user_id s' = Some 4"
    by (simp add: r)
  moreover have "s_user_id demo_okta_session = None"
    by (simp add: demo_okta_session_def empty_session_def)
  ultimately have "s_user_id s' \<noteq> s_user_id demo_okta_session"
    by simp
  from okta_callback_signs_in_only_granted [OF r this] r show ?thesis
    by (auto simp: demo_env_def claim_str_def dict_get_def)
qed

end
