(* ===== verification/Dosm_Admin.thy ===== *)
theory Dosm_Admin
  imports Dosm_Auth
begin

text \<open>
  The administration pages of \<open>dosm/settings/routes.py\<close> that change who may do what: group
  mappings and the default role, the tenants, the active-tenant switcher, the per-user role
  assignment, and the scope and paging of the audit log viewer. The theory closes with the
  transition system of all requests that touch accounts, over which the account invariant and the
  absence of privilege escalation are proved.
\<close>

section \<open>Group mappings\<close>

definition ROLES :: "string list" where
  "ROLES = [''viewer'', ''operator'', ''tenant_admin'']"

definition resolve_mapping_tenant :: "db \<Rightarrow> user \<Rightarrow> string option \<Rightarrow> response + int" where
  "resolve_mapping_tenant d u form =
     (if is_platform_admin (Some u) then
        (case form of None \<Rightarrow> Inl (HttpError 400 ''select a tenant for this mapping'') | Some f \<Rightarrow>
           if f = [] then Inl (HttpError 400 ''select a tenant for this mapping'')
           else (case py_int f of None \<Rightarrow> Inl (Crash ''ValueError'') | Some t \<Rightarrow>
             if get_row t_id (d_tenants d) t = None then Inl (HttpError 404 ''no such tenant'') else Inr t))
      else (case u_tenant_id u of None \<Rightarrow> Inl (HttpError 403 ''your account is not assigned to a tenant'')
            | Some t \<Rightarrow> Inr t))"

definition can_edit_mapping :: "user \<Rightarrow> group_mapping \<Rightarrow> bool" where
  "can_edit_mapping u m = (if is_platform_admin (Some u) then True
     else gm_tenant_id m \<noteq> None \<and> gm_tenant_id m = u_tenant_id u)"

definition rbac_mapping_save :: "string \<Rightarrow> string option \<Rightarrow> session \<Rightarrow> db \<Rightarrow> response \<times> db" where
  "rbac_mapping_save grp form s d = on_ok (require_admin ''/settings/rbac/mapping'' s d) d (\<lambda>u.
     let g = py_strip grp in
     if g = [] then (HttpError 400 ''group name is required'', d)
     else on_ok (resolve_mapping_tenant d u form) d (\<lambda>t.
       let (updated, d1) = upsert_mapping d g (Some t) ''viewer'' in
       (Redirect ''/settings/rbac?saved=1'',
        add_audit (Some t) (Some (u_id u))
          (if updated then ''settings.rbac.mapping.update'' else ''settings.rbac.mapping.add'')
          (Some ''rbac'') (Some (''group='' @ py_repr g @ '' tenant='' @ str_int t @ '' (viewer)'')) None d1)))"

definition rbac_mapping_delete :: "int \<Rightarrow> session \<Rightarrow> db \<Rightarrow> response \<times> db" where
  "rbac_mapping_delete mid s d = on_ok (require_admin ''/settings/rbac/mapping/delete'' s d) d (\<lambda>u.
     case get_row gm_id (d_group_mappings d) mid of
       None \<Rightarrow> (HttpError 404 ''no such group mapping'', d)
     | Some m \<Rightarrow>
         if \<not> can_edit_mapping u m then (HttpError 404 ''no such group mapping'', d)
         else (Redirect ''/settings/rbac?saved=1'',
           add_audit (gm_tenant_id m) (Some (u_id u)) ''settings.rbac.mapping.delete'' (Some ''rbac'')
             (Some (''group='' @ py_repr (gm_group_name m) @ '' tenant='' @
                (case gm_tenant_id m of None \<Rightarrow> ''None'' | Some t \<Rightarrow> str_int t))) None
             (delete_mapping_by_id d m)))"

definition rbac_default_save :: "string \<Rightarrow> session \<Rightarrow> string \<Rightarrow> db \<Rightarrow> response \<times> string \<times> db" where
  \<comment> \<open>the middle component is the live \<open>cfg.rbac.default_role\<close>, which \<open>_save_rbac\<close> replaces\<close>
  "rbac_default_save r s dr d = on_ok (require_platform_admin ''/settings/rbac/default'' s d) (dr, d) (\<lambda>u.
     if r \<noteq> ''none'' \<and> r \<noteq> ''viewer'' then (HttpError 400 (''default role must be '' @ py_repr ''none'' @ '' or '' @ py_repr ''viewer''), dr, d)
     else (Redirect ''/settings/rbac?saved=1'', r,
       add_audit None (Some (u_id u)) ''settings.rbac.default.update'' (Some ''rbac'')
         (Some (''default_role='' @ r)) None d))"

section \<open>Tenants\<close>

definition tenant_slugify :: "string \<Rightarrow> string" where
  "tenant_slugify name = slug_of ''tenant'' name"

definition set_active_tenant :: "string \<Rightarrow> string option \<Rightarrow> session \<Rightarrow> db \<Rightarrow> response \<times> session" where
  "set_active_tenant tenant_id referer s d = on_ok (require_platform_admin ''/settings/active-tenant'' s d) s (\<lambda>u.
     let back = or_default referer ''/'' in
     if tenant_id = ''all'' \<or> tenant_id = [] then (Redirect back, s\<lparr>s_active_tenant_id := None\<rparr>)
     else (case py_int tenant_id of None \<Rightarrow> (Crash ''ValueError'', s) | Some t \<Rightarrow>
       if get_row t_id (d_tenants d) t = None then (HttpError 404 ''no such tenant'', s)
       else (Redirect back, s\<lparr>s_active_tenant_id := Some t\<rparr>)))"

definition tenant_create :: "string \<Rightarrow> string \<Rightarrow> session \<Rightarrow> db \<Rightarrow> response \<times> db" where
  \<comment> \<open>\<open>tenants.name\<close> is unique too: a name that a rename took makes the flush fail\<close>
  "tenant_create name0 description s d = on_ok (require_platform_admin ''/settings/tenants'' s d) d (\<lambda>u.
     let name = py_strip name0; slug = tenant_slugify name; i = next_id t_id (d_tenants d) in
     if name = [] then (HttpError 400 ''name is required'', d)
     else if slug \<in> t_slug ` set (d_tenants d)
     then (HttpError 400 (''a tenant with slug '' @ py_repr slug @ '' already exists''), d)
     else if name \<in> t_name ` set (d_tenants d) then (Crash ''IntegrityError'', d)
     else (Redirect ''/settings/tenants?saved=1'',
       add_audit (Some i) (Some (u_id u)) ''tenant.create'' (Some (''tenant:'' @ str_int i))
         (Some (''name='' @ py_repr name @ '' slug='' @ slug)) None
         (d\<lparr>d_tenants := d_tenants d @ [\<lparr>t_id = i, t_name = name, t_slug = slug,
              t_description = or_none (py_strip description), t_is_active = True,
              t_created_at = d_now d\<rparr>]\<rparr>)))"

definition tenant_rename :: "int \<Rightarrow> string \<Rightarrow> session \<Rightarrow> db \<Rightarrow> response \<times> db" where
  "tenant_rename tid name s d = on_ok (require_platform_admin ''/settings/tenants/rename'' s d) d (\<lambda>u.
     case get_row t_id (d_tenants d) tid of None \<Rightarrow> (HttpError 404 ''Not Found'', d)
     | Some t \<Rightarrow>
         (let new = (if py_strip name = [] then t_name t else py_strip name) in
          if \<exists>x \<in> set (d_tenants d). t_id x \<noteq> tid \<and> t_name x = new then (Crash ''IntegrityError'', d)
          else (Redirect ''/settings/tenants?saved=1'',
            add_audit (Some tid) (Some (u_id u)) ''tenant.update'' (Some (''tenant:'' @ str_int tid))
              (Some (''name '' @ py_repr (t_name t) @ '' -> '' @ py_repr new)) None
              (d\<lparr>d_tenants := upd_row t_id tid (\<lambda>x. x\<lparr>t_name := new\<rparr>) (d_tenants d)\<rparr>))))"

definition tenant_toggle :: "int \<Rightarrow> session \<Rightarrow> db \<Rightarrow> response \<times> db" where
  "tenant_toggle tid s d = on_ok (require_platform_admin ''/settings/tenants/toggle'' s d) d (\<lambda>u.
     case get_row t_id (d_tenants d) tid of None \<Rightarrow> (HttpError 404 ''Not Found'', d)
     | Some t \<Rightarrow> (Redirect ''/settings/tenants?saved=1'',
         add_audit (Some tid) (Some (u_id u)) ''tenant.update'' (Some (''tenant:'' @ str_int tid))
           (Some (''is_active='' @ (if t_is_active t then ''False'' else ''True''))) None
           (d\<lparr>d_tenants := upd_row t_id tid (\<lambda>x. x\<lparr>t_is_active := \<not> t_is_active x\<rparr>) (d_tenants d)\<rparr>)))"

section \<open>Members\<close>

definition member_new_tenant :: "user \<Rightarrow> int option \<Rightarrow> string \<Rightarrow> string option \<Rightarrow> db \<Rightarrow> user \<Rightarrow> response + int option" where
  \<comment> \<open>the checks of \<open>member_set_role\<close> on the target; the tenant the target ends up in\<close>
  "member_new_tenant actor tid r form d target =
     (if \<not> is_platform_admin (Some actor) then
        (if tid = None \<or> u_tenant_id target \<noteq> tid then Inl (HttpError 404 ''Not Found'')
         else if r \<notin> set ROLES then Inl (HttpError 400 (''invalid role '' @ py_repr r))
         else Inr (u_tenant_id target))
      else if role_of r = None then Inl (HttpError 400 (''invalid role '' @ py_repr r))
      else bind_r
        (if r = ''platform_admin'' then Inr None
         else if form \<noteq> None \<and> form \<noteq> Some [] then
           (case py_int (the form) of None \<Rightarrow> Inl (Crash ''ValueError'') | Some t \<Rightarrow>
             if get_row t_id (d_tenants d) t = None then Inl (HttpError 404 ''no such tenant'') else Inr (Some t))
         else Inr (u_tenant_id target))
        (\<lambda>nt. if r \<noteq> ''platform_admin'' \<and> nt = None
              then Inl (HttpError 400 ''assign a tenant for a non-platform role'') else Inr nt))"

definition member_set_role :: "int \<Rightarrow> string \<Rightarrow> string option \<Rightarrow> session \<Rightarrow> db \<Rightarrow> response \<times> db" where
  "member_set_role uid r form s d = on_ok (require_admin ''/settings/members/role'' s d) d (\<lambda>u.
     case get_row u_id (d_users d) uid of None \<Rightarrow> (HttpError 404 ''Not Found'', d)
     | Some target \<Rightarrow> on_ok (member_new_tenant u (active_tenant_id s u) r form d target) d (\<lambda>nt.
         (Redirect ''/settings/members?saved=1'',
          add_audit nt (Some (u_id u)) ''user.set_role'' (Some (''user:'' @ str_int uid))
            (Some (u_role target @ '' -> '' @ r @ '' locked=True'')) None
            (d\<lparr>d_users := upd_row u_id uid
                 (\<lambda>x. x\<lparr>u_role := r, u_tenant_id := nt, u_role_locked := True\<rparr>) (d_users d)\<rparr>))))"

definition members_scope :: "user \<Rightarrow> int option \<Rightarrow> db \<Rightarrow> user list" where
  \<comment> \<open>the query of \<open>members_page\<close> and \<open>_member_rows\<close>\<close>
  "members_scope u tid d = sort_key u_username (if is_platform_admin (Some u) then d_users d
     else filter (\<lambda>x. u_tenant_id x = tid) (d_users d))"

section \<open>The audit log viewer\<close>

definition admin_tenant_ids :: "user \<Rightarrow> int list option" where
  \<comment> \<open>\<open>None\<close> is every tenant\<close>
  "admin_tenant_ids u = (if is_platform_admin (Some u) then None
     else (case u_tenant_id u of None \<Rightarrow> Some [] | Some t \<Rightarrow> Some [t]))"

record audit_query =
  aq_action :: "string option"
  aq_actor_id :: "string option"
  aq_tenant_id :: "string option"
  aq_start :: "stamp option" \<comment> \<open>the filter days after \<open>_parse_day\<close>\<close>
  aq_end :: "stamp option"

definition opt_int :: "string option \<Rightarrow> int option" where
  \<comment> \<open>\<open>int(v) if v else None\<close>, \<open>None\<close> on \<open>ValueError\<close>\<close>
  "opt_int v = (case v of None \<Rightarrow> None | Some x \<Rightarrow> if x = [] then None else py_int x)"

definition resolve_audit_scope :: "user \<Rightarrow> audit_query \<Rightarrow> response + int list option" where
  \<comment> \<open>the tenant part of \<open>_resolve_audit_request\<close>\<close>
  "resolve_audit_scope u q = (let allowed = admin_tenant_ids u; req = opt_int (aq_tenant_id q) in
     if allowed = Some [] then Inl (HttpError 403 ''your account is not assigned to a tenant'')
     else case req of None \<Rightarrow> Inr allowed
       | Some t \<Rightarrow> if allowed \<noteq> None \<and> t \<notin> set (the allowed)
                   then Inl (HttpError 403 ''you do not administer that tenant'') else Inr (Some [t]))"

definition day_length :: stamp where
  \<comment> \<open>\<open>timedelta(days=1)\<close> in the unit of the stamps, microseconds\<close>
  "day_length = 86400000000"

definition audit_apply :: "int list option \<Rightarrow> audit_query \<Rightarrow> audit_log \<Rightarrow> bool" where
  \<comment> \<open>the WHERE clauses \<open>_apply\<close> adds\<close>
  "audit_apply scope q a \<longleftrightarrow>
     (scope = None \<or> (\<exists>t \<in> set (the scope). a_tenant_id a = Some t)) \<and>
     (aq_action q = None \<or> aq_action q = Some [] \<or> a_action a = the (aq_action q)) \<and>
     (opt_int (aq_actor_id q) = None \<or> a_actor_id a = opt_int (aq_actor_id q)) \<and>
     (aq_start q = None \<or> the (aq_start q) \<le> a_ts a) \<and>
     (aq_end q = None \<or> a_ts a < the (aq_end q) + day_length)"

definition AUDIT_PAGE_SIZE :: int where
  "AUDIT_PAGE_SIZE = 50"

definition audit_pages :: "int \<Rightarrow> int" where
  "audit_pages n = max 1 ((n + AUDIT_PAGE_SIZE - 1) div AUDIT_PAGE_SIZE)"

definition audit_sorted :: "int list option \<Rightarrow> audit_query \<Rightarrow> db \<Rightarrow> audit_log list" where
  \<comment> \<open>\<open>ORDER BY ts DESC\<close> over the filtered rows\<close>
  "audit_sorted scope q d = sort_key (\<lambda>a. - a_ts a) (filter (audit_apply scope q) (d_audit d))"

definition audit_page :: "audit_query \<Rightarrow> int \<Rightarrow> session \<Rightarrow> db \<Rightarrow> response + (audit_log list \<times> int \<times> int \<times> int)" where
  \<comment> \<open>rows, page, pages and total of the rendered page\<close>
  "audit_page q page s d = bind_r (require_admin ''/settings/audit'' s d) (\<lambda>u.
     bind_r (resolve_audit_scope u q) (\<lambda>scope.
       let rows = audit_sorted scope q d; n = int (length rows); pages = audit_pages n;
           pg = max 1 (min page pages)
       in Inr (take (nat AUDIT_PAGE_SIZE) (drop (nat ((pg - 1) * AUDIT_PAGE_SIZE)) rows), pg, pages, n)))"

section \<open>The transition system of account requests\<close>

text \<open>
  A client is a browser with its signed session cookie. A step is one request of one client, run
  to its commit or rollback, or the passing of time. \<open>sy_default_role\<close> is the live
  \<open>cfg.rbac.default_role\<close>.
\<close>

record sys =
  sy_default_role :: string
  sy_db :: db
  sy_session :: "nat \<Rightarrow> session"

datatype account_req =
    Login string string string "string option"
  | Logout
  | Okta_Callback "string option" "string option" "string option" "string option"
  | Mapping_Save string "string option"
  | Mapping_Delete int
  | Default_Save string
  | Set_Active string "string option"
  | Tenant_Create string string
  | Tenant_Rename int string
  | Tenant_Toggle int
  | Set_Role int string "string option"

fun handle :: "(string \<Rightarrow> string \<Rightarrow> bool) \<Rightarrow> okta_env \<Rightarrow> account_req \<Rightarrow> session \<Rightarrow> string \<Rightarrow> db \<Rightarrow>
    session \<times> string \<times> db" where
  "handle verify env (Login un pw nxt ip) s dr d =
     (let (_, s', d') = login_submit verify un pw nxt ip s d in (s', dr, d'))"
| "handle verify env Logout s dr d = (let (_, s', d') = logout s d in (s', dr, d'))"
| "handle verify env (Okta_Callback code st err ip) s dr d =
     (let (_, s', d') = okta_callback (env\<lparr>oe_default_role := dr\<rparr>) code st err ip s d in (s', dr, d'))"
| "handle verify env (Mapping_Save g form) s dr d = (s, dr, snd (rbac_mapping_save g form s d))"
| "handle verify env (Mapping_Delete i) s dr d = (s, dr, snd (rbac_mapping_delete i s d))"
| "handle verify env (Default_Save r) s dr d = (s, snd (rbac_default_save r s dr d))"
| "handle verify env (Set_Active t ref) s dr d = (snd (set_active_tenant t ref s d), dr, d)"
| "handle verify env (Tenant_Create n desc) s dr d = (s, dr, snd (tenant_create n desc s d))"
| "handle verify env (Tenant_Rename i n) s dr d = (s, dr, snd (tenant_rename i n s d))"
| "handle verify env (Tenant_Toggle i) s dr d = (s, dr, snd (tenant_toggle i s d))"
| "handle verify env (Set_Role i r form) s dr d = (s, dr, snd (member_set_role i r form s d))"

definition run_req :: "(string \<Rightarrow> string \<Rightarrow> bool) \<Rightarrow> okta_env \<Rightarrow> nat \<Rightarrow> account_req \<Rightarrow> sys \<Rightarrow> sys" where
  "run_req verify env k req S = (let (s', dr', d') = handle verify env req (sy_session S k) (sy_default_role S) (sy_db S)
     in S\<lparr>sy_default_role := dr', sy_db := d', sy_session := (sy_session S)(k := s')\<rparr>)"

inductive account_step :: "(string \<Rightarrow> string \<Rightarrow> bool) \<Rightarrow> okta_env \<Rightarrow> sys \<Rightarrow> sys \<Rightarrow> bool"
  for verify env where
  request: "account_step verify env S (run_req verify env k req S)"
| tick: "d_now (sy_db S) \<le> t \<Longrightarrow> account_step verify env S (S\<lparr>sy_db := (sy_db S)\<lparr>d_now := t\<rparr>\<rparr>)"

inductive_cases account_stepE: "account_step verify env S S'"

section \<open>The account invariant\<close>

definition tenants_ok :: "tenant list \<Rightarrow> bool" where
  "tenants_ok ts \<longleftrightarrow> uniq_ids t_id ts \<and> distinct (map t_name ts) \<and> distinct (map t_slug ts)"

definition user_ok :: "tenant list \<Rightarrow> user \<Rightarrow> bool" where
  "user_ok ts u \<longleftrightarrow> role_of (u_role u) \<noteq> None \<and> (u_role u = ''platform_admin'' \<longleftrightarrow> u_tenant_id u = None) \<and>
     (case u_tenant_id u of None \<Rightarrow> True | Some t \<Rightarrow> get_row t_id ts t \<noteq> None)"

definition users_ok :: "tenant list \<Rightarrow> user list \<Rightarrow> bool" where
  "users_ok ts us \<longleftrightarrow> uniq_ids u_id us \<and> distinct (map u_username us) \<and>
     distinct (filter (\<lambda>x. x \<noteq> None) (map u_okta_sub us)) \<and> (\<forall>u \<in> set us. user_ok ts u)"

definition mappings_ok :: "tenant list \<Rightarrow> group_mapping list \<Rightarrow> bool" where
  "mappings_ok ts ms \<longleftrightarrow> uniq_ids gm_id ms \<and>
     distinct (map (\<lambda>m. (gm_group_name m, gm_tenant_id m)) ms) \<and>
     (\<forall>m \<in> set ms. case gm_tenant_id m of None \<Rightarrow> True | Some t \<Rightarrow> get_row t_id ts t \<noteq> None)"

definition accounts_ok :: "db \<Rightarrow> bool" where
  "accounts_ok d \<longleftrightarrow> tenants_ok (d_tenants d) \<and> users_ok (d_tenants d) (d_users d) \<and>
     mappings_ok (d_tenants d) (d_group_mappings d)"

lemma accounts_ok_frame [simp]:
  "accounts_ok (add_audit t a x g e i d) = accounts_ok d"
  "accounts_ok (d\<lparr>d_now := n\<rparr>) = accounts_ok d"
  by (simp_all add: accounts_ok_def)

text \<open>The tenant table only grows in ids, so what refers to a tenant keeps a target.\<close>

lemma user_ok_mono: "user_ok ts u \<Longrightarrow> (\<And>t. get_row t_id ts t \<noteq> None \<Longrightarrow> get_row t_id ts' t \<noteq> None) \<Longrightarrow> user_ok ts' u"
  by (auto simp: user_ok_def split: option.splits)

lemma accounts_ok_tenants:
  assumes "accounts_ok d" and "tenants_ok ts" and "\<And>t. get_row t_id (d_tenants d) t \<noteq> None \<Longrightarrow> get_row t_id ts t \<noteq> None"
  shows "accounts_ok (d\<lparr>d_tenants := ts\<rparr>)"
  using assms user_ok_mono [OF _ assms(3)]
  by (fastforce simp: accounts_ok_def users_ok_def mappings_ok_def split: option.splits)

lemma tenants_ok_append: "tenants_ok ts \<Longrightarrow> t_id t = next_id t_id ts \<Longrightarrow> t_name t \<notin> t_name ` set ts \<Longrightarrow>
    t_slug t \<notin> t_slug ` set ts \<Longrightarrow> tenants_ok (ts @ [t])"
  by (simp add: tenants_ok_def uniq_ids_append_new)

lemma accounts_okD:
  assumes "accounts_ok d"
  shows "tenants_ok (d_tenants d)" and "users_ok (d_tenants d) (d_users d)"
    and "mappings_ok (d_tenants d) (d_group_mappings d)"
  using assms by (simp_all add: accounts_ok_def)

lemma tenant_create_ok: "accounts_ok d \<Longrightarrow> accounts_ok (snd (tenant_create n desc s d))"
  unfolding tenant_create_def
  by (auto simp: Let_def get_row_append split: option.splits on_ok_split
      intro!: accounts_ok_tenants tenants_ok_append accounts_okD)

lemma tenant_upd_ok:
  assumes "accounts_ok d" and "\<And>x. t_id (f x) = t_id x" and "\<And>x. t_slug (f x) = t_slug x"
    and "distinct (map t_name (upd_row t_id i f (d_tenants d)))"
  shows "accounts_ok (d\<lparr>d_tenants := upd_row t_id i f (d_tenants d)\<rparr>)"
proof (rule accounts_ok_tenants [OF assms(1)])
  have "map t_slug (upd_row t_id i f (d_tenants d)) = map t_slug (d_tenants d)"
    using assms(3) by (simp add: upd_row_def)
  then show "tenants_ok (upd_row t_id i f (d_tenants d))"
    using accounts_okD(1) [OF assms(1)] assms(2,4) by (simp add: tenants_ok_def uniq_ids_upd_row)
qed (use assms(2) in \<open>auto simp: get_row_upd_row\<close>)

lemma distinct_map_upd:
  assumes "uniq_ids key t" and "distinct (map g t)" and "\<And>x. g (f x) = v"
    and "\<forall>x \<in> set t. key x \<noteq> i \<longrightarrow> g x \<noteq> v"
  shows "distinct (map g (upd_row key i f t))"
  using assms(1,2,4)
proof (induction t)
  case (Cons x t)
  have t: "key y \<noteq> key x" if "y \<in> set t" for y
    using that Cons.prems(1) by (metis image_eqI list.simps(9) distinct.simps(2) list.set_map uniq_ids_def)
  have IH: "distinct (map g (upd_row key i f t))"
    using Cons by (simp add: uniq_ids_def)
  show ?case
  proof (cases "key x = i")
    case True
    then have "upd_row key i f t = t" and "v \<notin> g ` set t"
      using t Cons.prems(3) by (auto simp: upd_row_def intro!: map_idI)
    then show ?thesis
      using True IH assms(3) by (simp add: upd_row_def)
  next
    case False
    then have "g x \<notin> g ` set (upd_row key i f t)"
      using Cons.prems(2,3) assms(3) by (auto simp: upd_row_def)
    then show ?thesis
      using False IH by (simp add: upd_row_simps)
  qed
qed (simp add: upd_row_def)

lemma tenant_rename_ok: "accounts_ok d \<Longrightarrow> accounts_ok (snd (tenant_rename i n s d))"
  unfolding tenant_rename_def
  by (auto simp: Let_def split: option.splits on_ok_split
      intro!: tenant_upd_ok distinct_map_upd dest: accounts_okD(1) simp: tenants_ok_def)

lemma tenant_toggle_ok:
  assumes "accounts_ok d"
  shows "accounts_ok (snd (tenant_toggle i s d))"
proof -
  have "map t_name (upd_row t_id i (\<lambda>x. x\<lparr>t_is_active := \<not> t_is_active x\<rparr>) (d_tenants d)) = map t_name (d_tenants d)"
    by (simp add: upd_row_def)
  then have "accounts_ok (d\<lparr>d_tenants := upd_row t_id i (\<lambda>x. x\<lparr>t_is_active := \<not> t_is_active x\<rparr>) (d_tenants d)\<rparr>)"
    using assms accounts_okD(1) [OF assms] by (intro tenant_upd_ok) (simp_all add: tenants_ok_def)
  then show ?thesis
    using assms by (simp add: tenant_toggle_def split: option.splits on_ok_split)
qed

lemma upsert_mapping_ok:
  assumes "accounts_ok d" and "get_row t_id (d_tenants d) t \<noteq> None"
  shows "accounts_ok (snd (upsert_mapping d g (Some t) r))"
proof (cases "get_mapping d g (Some t)")
  case None
  let ?m = "mapping_row (next_id gm_id (d_group_mappings d)) (d_now d) g (Some t) r"
  have "(g, Some t) \<notin> (\<lambda>m. (gm_group_name m, gm_tenant_id m)) ` set (d_group_mappings d)"
    using None by (auto simp: get_mapping_def find_None_iff)
  then have "mappings_ok (d_tenants d) (d_group_mappings d @ [?m])"
    using accounts_okD(3) [OF assms(1)] assms(2)
    by (auto simp: mappings_ok_def mapping_row_def intro!: uniq_ids_append_new)
  then show ?thesis
    using assms(1) None by (simp add: upsert_mapping_def add_mapping_def accounts_ok_def)
next
  case (Some m)
  let ?ms = "upd_row gm_id (gm_id m) (\<lambda>x. x\<lparr>gm_role := r\<rparr>) (d_group_mappings d)"
  have "map (\<lambda>m. (gm_group_name m, gm_tenant_id m)) ?ms =
      map (\<lambda>m. (gm_group_name m, gm_tenant_id m)) (d_group_mappings d)"
    by (simp add: upd_row_def)
  moreover have "\<forall>x \<in> set ?ms. \<exists>y \<in> set (d_group_mappings d). gm_tenant_id x = gm_tenant_id y"
    by (auto simp: upd_row_def)
  moreover have "uniq_ids gm_id ?ms"
    using accounts_okD(3) [OF assms(1)] by (simp add: mappings_ok_def uniq_ids_upd_row)
  ultimately have "mappings_ok (d_tenants d) ?ms"
    using accounts_okD(3) [OF assms(1)] unfolding mappings_ok_def by metis
  then show ?thesis
    using assms(1) Some by (simp add: upsert_mapping_def accounts_ok_def)
qed

lemma resolve_mapping_tenant_exists:
  assumes "resolve_mapping_tenant d u form = Inr t" and "accounts_ok d" and "u \<in> set (d_users d)"
  shows "get_row t_id (d_tenants d) t \<noteq> None"
  using assms accounts_okD(2) [OF assms(2)]
  by (auto simp: resolve_mapping_tenant_def users_ok_def user_ok_def split: if_splits option.splits)

lemma require_role_current: "require_role m path s d = Inr u \<Longrightarrow> u \<in> set (d_users d) \<and> u_is_active u"
  using require_role_InrD get_current_user_SomeD by blast

lemma rbac_mapping_save_ok: "accounts_ok d \<Longrightarrow> accounts_ok (snd (rbac_mapping_save g form s d))"
  using upsert_mapping_ok resolve_mapping_tenant_exists require_role_current
  unfolding rbac_mapping_save_def Let_def split_def
  by (auto split: on_ok_split)

lemma rbac_mapping_delete_ok: "accounts_ok d \<Longrightarrow> accounts_ok (snd (rbac_mapping_delete i s d))"
  unfolding rbac_mapping_delete_def
  by (auto split: option.splits on_ok_split simp: delete_mapping_by_id_def accounts_ok_def mappings_ok_def
      uniq_ids_def del_rows_def distinct_map_filter)

lemma users_ok_append:
  assumes "users_ok ts us" and "u_id u = next_id u_id us" and "u_username u \<notin> u_username ` set us"
    and "u_okta_sub u = Some sub" and "\<forall>x \<in> set us. u_okta_sub x \<noteq> Some sub" and "user_ok ts u"
  shows "users_ok ts (us @ [u])"
  using assms by (auto simp: users_ok_def uniq_ids_append_new)

lemma users_ok_upd:
  assumes "users_ok ts us" and "\<And>x. u_id (f x) = u_id x" and "\<And>x. u_username (f x) = u_username x"
    and "\<And>x. u_okta_sub (f x) = u_okta_sub x" and "\<forall>x \<in> set us. u_id x = i \<longrightarrow> user_ok ts (f x)"
  shows "users_ok ts (upd_row u_id i f us)"
proof -
  have "map u_username (upd_row u_id i f us) = map u_username us"
    and "map u_okta_sub (upd_row u_id i f us) = map u_okta_sub us"
    using assms(3,4) by (simp_all add: upd_row_def)
  then show ?thesis
    using assms(1,2,5) by (auto simp: users_ok_def uniq_ids_upd_row) (auto simp: upd_row_def)
qed

lemma provision_user_ok:
  assumes "accounts_ok d" and "role_of r \<noteq> None" and "r \<noteq> ''platform_admin''"
    and "get_row t_id (d_tenants d) t \<noteq> None"
    and "provision_user d sub un em dn (Some t) r = Inr (u, prev, d1)"
  shows "accounts_ok d1"
proof -
  note uok = accounts_okD(2) [OF assms(1)]
  have "users_ok (d_tenants d) (upd_row u_id i (refresh_okta_user d em dn (Some t) r) (d_users d))" for i
    by (rule users_ok_upd [OF uok]) (use uok assms(2-4) in \<open>auto simp: users_ok_def user_ok_def\<close>)
  moreover have "users_ok (d_tenants d) (d_users d @ [u])"
    if "u = new_okta_user d sub un em dn (Some t) r" "u_username u \<notin> u_username ` set (d_users d)"
      "\<forall>x \<in> set (d_users d). u_okta_sub x \<noteq> Some sub"
    by (rule users_ok_append [OF uok]) (use that assms(2-4) in \<open>auto simp: new_okta_user_def user_ok_def\<close>)
  ultimately show ?thesis
    using provision_user_InrD [OF assms(5)] assms(1) by (auto simp: accounts_ok_def)
qed

lemma default_tenant_exists: "default_tenant_id d = Some t \<Longrightarrow> get_row t_id (d_tenants d) t \<noteq> None"
  by (auto simp: default_tenant_id_def find_Some_iff get_row_None_iff)

lemma resolve_grant_ok:
  assumes "resolve_grant d groups dr = Some (t, r)" and "accounts_ok d"
  shows "role_of r \<noteq> None \<and> r \<noteq> ''platform_admin'' \<and> get_row t_id (d_tenants d) t \<noteq> None"
  using resolve_grant_SomeD [OF assms(1)]
proof (elim disjE conjE bexE)
  fix m assume m: "r = ''viewer''" "m \<in> set (d_group_mappings d)" "gm_tenant_id m = Some t"
  have "case gm_tenant_id m of None \<Rightarrow> True | Some t \<Rightarrow> get_row t_id (d_tenants d) t \<noteq> None"
    using accounts_okD(3) [OF assms(2)] m(2) unfolding mappings_ok_def by blast
  then have "get_row t_id (d_tenants d) t \<noteq> None"
    using m(3) by simp
  then show ?thesis
    using m(1) by (simp add: role_of_def)
qed (auto dest: default_tenant_exists)

lemma okta_sign_in_ok:
  assumes "accounts_ok d"
  shows "accounts_ok (snd (snd (okta_sign_in env c nxt ip s d)))"
proof -
  have "accounts_ok d1"
    if "resolve_grant d g dr = Some (t, r)" "provision_user d sub un em dn (Some t) r = Inr (u, prev, d1)"
    for g dr t r sub un em dn u prev d1
    using provision_user_ok [OF assms _ _ _ that(2)] resolve_grant_ok [OF that(1) assms] by blast
  then show ?thesis
    using assms unfolding okta_sign_in_def Let_def
    by (simp split: option.split sum.split prod.split)
qed

lemma okta_callback_ok: "accounts_ok d \<Longrightarrow> accounts_ok (snd (snd (okta_callback env code st err ip s d)))"
  unfolding okta_callback_def Let_def by (auto split: option.splits sum.splits simp: okta_sign_in_ok)

lemma login_submit_ok: "accounts_ok d \<Longrightarrow> accounts_ok (snd (snd (login_submit v un pw nxt ip s d)))"
  by (simp add: login_submit_def split: option.splits)

lemma logout_ok: "accounts_ok d \<Longrightarrow> accounts_ok (snd (snd (logout s d)))"
  by (simp add: logout_def split: option.splits)

lemma member_new_tenant_cases:
  assumes "member_new_tenant a tid r form d x = Inr nt"
  shows "(\<not> is_platform_admin (Some a) \<and> tid \<noteq> None \<and> u_tenant_id x = tid \<and> r \<in> set ROLES \<and> nt = tid)
    \<or> (is_platform_admin (Some a) \<and> role_of r \<noteq> None \<and>
       (if r = ''platform_admin'' then nt = None
        else nt \<noteq> None \<and> (nt = u_tenant_id x \<or> get_row t_id (d_tenants d) (the nt) \<noteq> None)))"
  using assms
  by (auto simp: member_new_tenant_def bind_r_Inr_iff split: if_splits option.splits)

lemma member_new_tenant_ok:
  assumes "member_new_tenant a tid r form d x = Inr nt" and "user_ok (d_tenants d) x"
  shows "user_ok (d_tenants d) (x\<lparr>u_role := r, u_tenant_id := nt, u_role_locked := l\<rparr>)"
  using member_new_tenant_cases [OF assms(1)]
proof (elim disjE conjE)
  assume "tid \<noteq> None" "u_tenant_id x = tid" "r \<in> set ROLES" "nt = tid"
  moreover from \<open>r \<in> set ROLES\<close> have "role_of r \<noteq> None" "r \<noteq> ''platform_admin''"
    by (auto simp: ROLES_def role_of_def)
  ultimately show ?thesis
    using assms(2) by (simp add: user_ok_def)
next
  assume "role_of r \<noteq> None" "if r = ''platform_admin'' then nt = None
        else nt \<noteq> None \<and> (nt = u_tenant_id x \<or> get_row t_id (d_tenants d) (the nt) \<noteq> None)"
  then show ?thesis
    using assms(2) by (auto simp: user_ok_def split: if_splits)
qed

lemma member_set_role_ok:
  assumes "accounts_ok d"
  shows "accounts_ok (snd (member_set_role i r form s d))"
proof -
  note uok = accounts_okD(2) [OF assms]
  have "users_ok (d_tenants d) (upd_row u_id i (\<lambda>x. x\<lparr>u_role := r, u_tenant_id := nt, u_role_locked := True\<rparr>) (d_users d))"
    if "get_row u_id (d_users d) i = Some x" "member_new_tenant a tid r form d x = Inr nt" for x a tid nt
  proof (rule users_ok_upd [OF uok])
    have "y = x" if "y \<in> set (d_users d)" "u_id y = i" for y
      using uok that \<open>get_row u_id (d_users d) i = Some x\<close> by (metis get_row_in option.inject users_ok_def)
    then show "\<forall>y \<in> set (d_users d). u_id y = i \<longrightarrow>
        user_ok (d_tenants d) (y\<lparr>u_role := r, u_tenant_id := nt, u_role_locked := True\<rparr>)"
      using member_new_tenant_ok [OF that(2)] uok by (auto simp: users_ok_def)
  qed simp_all
  then show ?thesis
    using assms by (auto simp: member_set_role_def accounts_ok_def split: on_ok_split option.splits)
qed

lemma rbac_default_save_ok: "accounts_ok d \<Longrightarrow> accounts_ok (snd (snd (rbac_default_save r s dr d)))"
  by (simp add: rbac_default_save_def split: on_ok_split)

lemmas handler_ok = tenant_create_ok tenant_rename_ok tenant_toggle_ok rbac_mapping_save_ok
  rbac_mapping_delete_ok rbac_default_save_ok member_set_role_ok okta_callback_ok login_submit_ok logout_ok

lemma handle_ok: "accounts_ok d \<Longrightarrow> accounts_ok (snd (snd (handle v env req s dr d)))"
  by (cases req) (simp_all add: handler_ok split_def Let_def)

lemma account_step_ok: "account_step v env S S' \<Longrightarrow> accounts_ok (sy_db S) \<Longrightarrow> accounts_ok (sy_db S')"
  by (erule account_stepE) (simp_all add: run_req_def split_def Let_def handle_ok)

section \<open>Who may change a standing\<close>

text \<open>The standing of an account is its id, role and tenant.\<close>

definition standings :: "db \<Rightarrow> (int \<times> string \<times> int option) set" where
  "standings d = (\<lambda>u. (u_id u, u_role u, u_tenant_id u)) ` set (d_users d)"

lemma standings_frame [simp]: "standings (add_audit t a x g e i d) = standings d"
  by (simp add: standings_def)

lemma standings_cong: "d_users d' = d_users d \<Longrightarrow> standings d' = standings d"
  by (simp add: standings_def)

lemma users_unchanged:
  "d_users (snd (tenant_create n desc s d)) = d_users d"
  "d_users (snd (tenant_rename i n s d)) = d_users d"
  "d_users (snd (tenant_toggle i s d)) = d_users d"
  "d_users (snd (rbac_mapping_save g form s d)) = d_users d"
  "d_users (snd (rbac_mapping_delete i s d)) = d_users d"
  "d_users (snd (snd (rbac_default_save r s dr d))) = d_users d"
  "d_users (snd (snd (login_submit v un pw nxt ip s d))) = d_users d"
  "d_users (snd (snd (logout s d))) = d_users d"
  by (auto simp: tenant_create_def tenant_rename_def tenant_toggle_def rbac_mapping_save_def
      rbac_mapping_delete_def rbac_default_save_def login_submit_def logout_def Let_def split_def
      upsert_mapping_def add_mapping_def delete_mapping_by_id_def
      split: on_ok_split option.splits)

lemma provision_user_standings:
  assumes "provision_user d sub un em dn tid r = Inr (u, prev, d1)" and "(i, q, t) \<in> standings d1"
  shows "(i, q, t) \<in> standings d \<or> q = r"
proof -
  obtain x where x: "x \<in> set (d_users d1)" "u_id x = i" "u_role x = q" "u_tenant_id x = t"
    using assms(2) by (auto simp: standings_def)
  have old: "(i, q, t) \<in> standings d" if "y \<in> set (d_users d)" "u_id y = i" "u_role y = q" "u_tenant_id y = t" for y
    using that by (force simp: standings_def)
  have role: "u_role u = r" if "u = new_okta_user d sub un em dn tid r"
    using that by (simp add: new_okta_user_def)
  from provision_user_InrD [OF assms(1)] consider
      ex :: user where "d1 = d\<lparr>d_users := upd_row u_id (u_id ex) (refresh_okta_user d em dn tid r) (d_users d)\<rparr>"
    | "u_role u = r" "d1 = d\<lparr>d_users := d_users d @ [u]\<rparr>"
    using role by blast
  then show ?thesis
  proof cases
    case 1
    then obtain y where "y \<in> set (d_users d)" "x = y \<or> x = refresh_okta_user d em dn tid r y"
      using x(1) by (auto simp: upd_row_def)
    then show ?thesis
      using old x by (metis refresh_okta_user_simps(1,6,7))
  next
    case 2
    then show ?thesis
      using old x by auto
  qed
qed

lemma okta_sign_in_standings:
  assumes "(i, q, t) \<in> standings (snd (snd (okta_sign_in env c nxt ip s d)))"
  shows "(i, q, t) \<in> standings d \<or> q \<noteq> ''platform_admin''"
proof -
  have "(i, q, t) \<in> standings d \<or> q \<noteq> ''platform_admin''"
    if "resolve_grant d g dr = Some (tt, r)" "provision_user d sub un em dn (Some tt) r = Inr (u, prev, d1)"
      "(i, q, t) \<in> standings d1" for g dr tt r sub un em dn u prev d1
    using provision_user_standings [OF that(2,3)] resolve_grant_role [OF that(1)] by auto
  then show ?thesis
    using assms unfolding okta_sign_in_def Let_def
    by (simp split: option.splits sum.splits prod.splits if_splits)
qed

lemma okta_callback_standings:
  assumes "(i, q, t) \<in> standings (snd (snd (okta_callback env code st err ip s d)))"
  shows "(i, q, t) \<in> standings d \<or> q \<noteq> ''platform_admin''"
  using assms unfolding okta_callback_def Let_def
  by (simp split: option.splits sum.splits if_splits add: okta_sign_in_standings)

definition may_set :: "user \<Rightarrow> int \<Rightarrow> string \<Rightarrow> int option \<Rightarrow> db \<Rightarrow> bool" where
  "may_set u i q t d \<longleftrightarrow> u_role u = ''platform_admin'' \<or>
     (u_role u = ''tenant_admin'' \<and> q \<noteq> ''platform_admin'' \<and> t \<noteq> None \<and> t = u_tenant_id u \<and>
      (\<exists>y \<in> set (d_users d). u_id y = i \<and> u_tenant_id y = t))"

lemma tenant_admin_rank: "2 \<le> rank_get r \<Longrightarrow> r \<noteq> ''platform_admin'' \<Longrightarrow> r = ''tenant_admin''"
  by (simp add: rank_get_def role_of_def split: if_splits)

lemma member_set_role_standings:
  assumes "(i, q, t) \<in> standings (snd (member_set_role j r form s d))" and "(i, q, t) \<notin> standings d"
  shows "i = j \<and> q = r \<and> (\<exists>u. get_current_user s d = Some u \<and> may_set u i q t d)"
proof -
  obtain u x nt where u: "require_admin ''/settings/members/role'' s d = Inr u"
    and x: "get_row u_id (d_users d) j = Some x"
    and nt: "member_new_tenant u (active_tenant_id s u) r form d x = Inr nt"
    and st: "(i, q, t) = (j, r, nt)"
    using assms
    by (auto simp: member_set_role_def standings_def upd_row_def image_iff
        split: on_ok_split_asm option.splits if_splits)
  have cur: "get_current_user s d = Some u" and rk: "2 \<le> rank_get (u_role u)"
    using require_role_InrD [OF u] by simp_all
  note act = get_current_user_SomeD [OF cur]
  have "may_set u i q t d"
    using member_new_tenant_cases [OF nt]
  proof (elim disjE conjE)
    assume np: "\<not> is_platform_admin (Some u)" and c: "active_tenant_id s u \<noteq> None"
      "u_tenant_id x = active_tenant_id s u" "r \<in> set ROLES" "nt = active_tenant_id s u"
    then have "u_role u \<noteq> ''platform_admin''"
      using act by (simp add: is_platform_admin_iff)
    moreover have "active_tenant_id s u = u_tenant_id u"
      using np by (simp add: active_tenant_id_def resolve_tenant_id_def)
    moreover have "r \<noteq> ''platform_admin''"
      using c(3) by (auto simp: ROLES_def)
    ultimately show ?thesis
      using c st tenant_admin_rank [OF rk] get_row_SomeD [OF x] by (auto simp: may_set_def)
  qed (auto simp: may_set_def is_platform_admin_iff)
  then show ?thesis
    using st cur by simp
qed

section \<open>Properties\<close>

text \<open>C4: Every state that requests reach from a sound account state is sound: ids, usernames,
  Okta subjects, tenant names, tenant slugs and (group, tenant) pairs stay unique; every account has
  a role of the ladder, has no tenant exactly when it is a platform admin, and otherwise belongs to
  an existing tenant; every mapping points to an existing tenant.\<close>

theorem reachable_accounts_ok:
  assumes "(account_step verify env)\<^sup>*\<^sup>* S S'" and "accounts_ok (sy_db S)"
  shows "accounts_ok (sy_db S')"
  using assms by (induction rule: rtranclp_induct) (auto dest: account_step_ok)

definition demo_sys :: sys where
  \<comment> \<open>client 1 is the tenant admin's browser, client 2 the platform admin's\<close>
  "demo_sys = \<lparr>sy_default_role = ''none'', sy_db = demo_db,
     sy_session = (\<lambda>k. demo_session (if k = 1 then 2 else 3))\<rparr>"

lemma demo_accounts_ok [simp]: "accounts_ok demo_db"
  by (simp add: accounts_ok_def tenants_ok_def users_ok_def mappings_ok_def demo_defs uniq_ids_def
      user_ok_def role_of_def get_row_def str_int_def str_nat_inj)

theorem reachable_accounts_ok_witness:
  "accounts_ok (sy_db (run_req (\<lambda>_ _. False) demo_env 2 (Set_Role 2 ''platform_admin'' None) demo_sys))
   \<and> map u_role (d_users (sy_db (run_req (\<lambda>_ _. False) demo_env 2 (Set_Role 2 ''platform_admin'' None) demo_sys)))
     = [''operator'', ''platform_admin'', ''platform_admin'']"
proof
  have "(account_step (\<lambda>_ _. False) demo_env)\<^sup>*\<^sup>* demo_sys
      (run_req (\<lambda>_ _. False) demo_env 2 (Set_Role 2 ''platform_admin'' None) demo_sys)"
    by (rule r_into_rtranclp) (rule account_step.request)
  from reachable_accounts_ok [OF this]
  show "accounts_ok (sy_db (run_req (\<lambda>_ _. False) demo_env 2 (Set_Role 2 ''platform_admin'' None) demo_sys))"
    by (simp add: demo_sys_def)
qed code_simp

text \<open>C2: Nobody raises their own standing. If a request gives an account a role or tenant it did
  not have, then either it is a role assignment sent by a platform admin, or one sent by the
  tenant admin of that very tenant, to an account already in that tenant, of a role below platform
  admin; or it is an SSO sign-in, and the resulting role is not platform admin. In particular only a
  platform admin creates platform admins.\<close>

theorem standing_changes_only_by_authority:
  assumes "account_step verify env S S'" and "(i, q, t) \<in> standings (sy_db S')"
    and "(i, q, t) \<notin> standings (sy_db S)"
  shows "(\<exists>k form u. S' = run_req verify env k (Set_Role i q form) S \<and>
           get_current_user (sy_session S k) (sy_db S) = Some u \<and> may_set u i q t (sy_db S))
       \<or> (\<exists>k code st err ip. S' = run_req verify env k (Okta_Callback code st err ip) S \<and> q \<noteq> ''platform_admin'')"
  using assms(1)
proof (cases rule: account_step.cases)
  case (request k req)
  have new: "(i, q, t) \<in> standings (snd (snd (handle verify env req (sy_session S k) (sy_default_role S) (sy_db S))))"
    using assms(2) request by (simp add: run_req_def split_def Let_def)
  show ?thesis
  proof (cases req)
    case (Set_Role j r form)
    with new have "(i, q, t) \<in> standings (snd (member_set_role j r form (sy_session S k) (sy_db S)))"
      by simp
    from member_set_role_standings [OF this assms(3)] request Set_Role show ?thesis
      by blast
  next
    case (Okta_Callback code st err ip)
    with new have "(i, q, t) \<in> standings (snd (snd (okta_callback (env\<lparr>oe_default_role := sy_default_role S\<rparr>)
        code st err ip (sy_session S k) (sy_db S))))"
      by (simp add: split_def Let_def)
    from okta_callback_standings [OF this] request Okta_Callback assms(3) show ?thesis
      by blast
  qed (use new assms(3) in \<open>simp_all add: split_def Let_def standings_cong [OF users_unchanged(1)]
      standings_cong [OF users_unchanged(2)] standings_cong [OF users_unchanged(3)]
      standings_cong [OF users_unchanged(4)] standings_cong [OF users_unchanged(5)]
      standings_cong [OF users_unchanged(6)] standings_cong [OF users_unchanged(7)]
      standings_cong [OF users_unchanged(8)]\<close>)
qed (use assms(2,3) in \<open>simp add: standings_def\<close>)

theorem standing_changes_only_by_authority_witness:
  "\<exists>k u. get_current_user (sy_session demo_sys k) demo_db = Some u \<and> may_set u 2 ''platform_admin'' None demo_db"
proof -
  let ?S = "run_req (\<lambda>_ _. False) demo_env 2 (Set_Role 2 ''platform_admin'' None) demo_sys"
  have st: "account_step (\<lambda>_ _. False) demo_env demo_sys ?S"
    by (rule account_step.request)
  have new: "(2, ''platform_admin'', None) \<in> standings (sy_db ?S)"
    by code_simp
  have old: "(2, ''platform_admin'', None) \<notin> standings (sy_db demo_sys)"
    by code_simp
  have db: "sy_db demo_sys = demo_db"
    by (simp add: demo_sys_def)
  from standing_changes_only_by_authority [OF st new old] show ?thesis
    unfolding db by blast
qed

text \<open>C26: A tenant admin reads the audit events of their own tenant only, whatever filters and
  page they ask for; a page number out of range is clamped; a page holds at most
  \<open>AUDIT_PAGE_SIZE\<close> rows.\<close>

theorem audit_page_confined:
  assumes "audit_page q page s d = Inr (rows, pg, pages, n)"
  shows "1 \<le> pg \<and> pg \<le> pages \<and> length rows \<le> 50 \<and> set rows \<subseteq> set (d_audit d) \<and>
    (\<exists>u. get_current_user s d = Some u \<and>
      (u_role u = ''platform_admin'' \<or>
       (\<exists>t. u_tenant_id u = Some t \<and> (\<forall>a \<in> set rows. a_tenant_id a = Some t))))"
proof -
  obtain u scope where u: "require_admin ''/settings/audit'' s d = Inr u"
    and sc: "resolve_audit_scope u q = Inr scope"
    and rows: "rows = take (nat AUDIT_PAGE_SIZE) (drop (nat ((pg - 1) * AUDIT_PAGE_SIZE)) (audit_sorted scope q d))"
    and pg: "pg = max 1 (min page pages)" "pages = audit_pages n"
    using assms by (auto simp: audit_page_def bind_r_Inr_iff Let_def)
  have sub: "set rows \<subseteq> set (audit_sorted scope q d)"
    unfolding rows using set_take_subset set_drop_subset by (meson order_trans)
  have cur: "get_current_user s d = Some u" and act: "u_is_active u"
    using require_role_InrD [OF u] get_current_user_SomeD by blast+
  have "\<exists>t. u_tenant_id u = Some t \<and> (\<forall>a \<in> set rows. a_tenant_id a = Some t)" if "u_role u \<noteq> ''platform_admin''"
  proof -
    have "\<not> is_platform_admin (Some u)"
      using that by (simp add: is_platform_admin_iff)
    with sc obtain t where t: "u_tenant_id u = Some t" "scope = Some [t]"
      by (auto simp: resolve_audit_scope_def admin_tenant_ids_def Let_def split: option.splits if_splits)
    then show ?thesis
      using sub by (auto simp: audit_sorted_def audit_apply_def)
  qed
  moreover have "1 \<le> pages"
    by (simp add: pg audit_pages_def)
  moreover have "set rows \<subseteq> set (d_audit d)"
    using sub by (auto simp: audit_sorted_def)
  ultimately show ?thesis
    using cur by (auto simp: pg(1) rows AUDIT_PAGE_SIZE_def)
qed

definition demo_audit_db :: db where
  "demo_audit_db = add_audit (Some 1) None ''y'' None None None (add_audit (Some 2) None ''x'' None None None demo_db)"

definition demo_query :: audit_query where
  "demo_query = \<lparr>aq_action = None, aq_actor_id = None, aq_tenant_id = None, aq_start = None, aq_end = None\<rparr>"

theorem audit_page_confined_witness:
  "\<exists>rows. audit_page demo_query 7 (demo_session 2) demo_audit_db = Inr (rows, 1, 1, 1) \<and>
     (\<forall>a \<in> set rows. a_tenant_id a = Some 1)"
proof -
  obtain rows where r: "audit_page demo_query 7 (demo_session 2) demo_audit_db = Inr (rows, 1, 1, 1)"
    and u: "get_current_user (demo_session 2) demo_audit_db = Some (demo_user 2 ''tenant_admin'' (Some 1))"
  proof
    show "audit_page demo_query 7 (demo_session 2) demo_audit_db = Inr (filter (\<lambda>a. a_action a = ''y'') (d_audit demo_audit_db), 1, 1, 1)"
      by code_simp
    show "get_current_user (demo_session 2) demo_audit_db = Some (demo_user 2 ''tenant_admin'' (Some 1))"
      by code_simp
  qed
  from audit_page_confined [OF r] u r show ?thesis
    by (auto simp: demo_user_def)
qed

text \<open>The pages of the audit viewer tile the filtered log: concatenated from the first to the
  last they are exactly the sorted rows, none lost at a page boundary and none shown twice.\<close>

theorem audit_pages_tile:
  assumes "require_admin ''/settings/audit'' s d = Inr u" and "resolve_audit_scope u q = Inr scope"
  shows "concat (map (\<lambda>i. fst (projr (audit_page q (int i + 1) s d)))
           [0..<nat (audit_pages (int (length (audit_sorted scope q d))))]) = audit_sorted scope q d"
proof -
  let ?xs = "audit_sorted scope q d" and ?m = "nat (audit_pages (int (length (audit_sorted scope q d))))"
  have page: "fst (projr (audit_page q (int i + 1) s d)) = take 50 (drop (i * 50) ?xs)" if "i < ?m" for i
  proof -
    have "max 1 (min (int i + 1) (audit_pages (int (length ?xs)))) = int i + 1"
      using that by auto
    then show ?thesis
      using assms by (simp add: audit_page_def Let_def AUDIT_PAGE_SIZE_def nat_mult_distrib)
  qed
  have "length ?xs \<le> ?m * 50"
    unfolding audit_pages_def AUDIT_PAGE_SIZE_def by linarith
  then have "take (?m * 50) ?xs = ?xs"
    by simp
  moreover have "map (\<lambda>i. fst (projr (audit_page q (int i + 1) s d))) [0..<?m] =
      map (\<lambda>i. take 50 (drop (i * 50) ?xs)) [0..<?m]"
    by (rule map_cong [OF refl]) (simp add: page)
  ultimately show ?thesis
    using concat_pages [of 50 ?xs ?m] by (simp del: map_eq_conv)
qed

theorem audit_pages_tile_witness:
  "concat (map (\<lambda>i. fst (projr (audit_page demo_query (int i + 1) (demo_session 3) demo_audit_db)))
           [0..<nat (audit_pages (int (length (audit_sorted None demo_query demo_audit_db))))])
     = audit_sorted None demo_query demo_audit_db
   \<and> length (audit_sorted None demo_query demo_audit_db) = 2"
proof
  have "require_admin ''/settings/audit'' (demo_session 3) demo_audit_db = Inr (demo_user 3 ''platform_admin'' None)"
    by code_simp
  moreover have "resolve_audit_scope (demo_user 3 ''platform_admin'' None) demo_query = Inr None"
    by code_simp
  ultimately show "concat (map (\<lambda>i. fst (projr (audit_page demo_query (int i + 1) (demo_session 3) demo_audit_db)))
           [0..<nat (audit_pages (int (length (audit_sorted None demo_query demo_audit_db))))])
     = audit_sorted None demo_query demo_audit_db"
    by (rule audit_pages_tile)
qed code_simp

end
