(* ===== verification/Dosm_Access.thy ===== *)
theory Dosm_Access
  imports Dosm_Admin
begin

text \<open>
  Who sees which credential, pipeline and payload: \<open>dosm/credentials/access.py\<close>,
  \<open>dosm/pipelines/access.py\<close> and \<open>dosm/pipelines/payload_access.py\<close>. The three modules
  repeat one rule twice each, as a predicate on a loaded row and as a WHERE clause; the locale
  \<open>visibility\<close> states their contract once and shows what a listing and a predicate agree on.
\<close>

section \<open>Credentials\<close>

definition is_admin :: "user option \<Rightarrow> bool" where
  "is_admin u = user_has_role u Tenant_Admin"

definition owned_by :: "user option \<Rightarrow> int option \<Rightarrow> bool" where
  \<comment> \<open>\<open>user is not None and row.owner_id == user.id\<close>\<close>
  "owned_by u owner = (case u of None \<Rightarrow> False | Some x \<Rightarrow> owner = Some (u_id x))"

definition can_see_credential :: "user option \<Rightarrow> credential \<Rightarrow> bool" where
  "can_see_credential u c = (if c_visibility c \<noteq> ''private'' then True
     else if is_admin u then True else owned_by u (c_owner_id c))"

definition can_use_credential :: "user option \<Rightarrow> credential \<Rightarrow> bool" where
  "can_use_credential u c =
     (if (case u of None \<Rightarrow> False | Some x \<Rightarrow> u_tenant_id x \<noteq> None \<and> u_tenant_id x \<noteq> Some (c_tenant_id c))
      then False else can_see_credential u c)"

definition visible_credentials_filter :: "user option \<Rightarrow> (credential \<Rightarrow> bool) option" where
  \<comment> \<open>\<open>None\<close> is the Python value \<open>True\<close>, no restriction; \<open>== None\<close> is \<open>IS NULL\<close>\<close>
  "visible_credentials_filter u = (if is_admin u then None
     else Some (\<lambda>c. c_visibility c \<noteq> ''private'' \<or> c_owner_id c = map_option u_id u))"

definition visible_credentials :: "db \<Rightarrow> user option \<Rightarrow> int option \<Rightarrow> credential list" where
  "visible_credentials d u tid = sort_key c_name
     (where_opt (visible_credentials_filter u) (where_opt (tenant_clause c_tenant_id tid) (d_credentials d)))"

fun first_unusable_credential :: "user option \<Rightarrow> credential option list \<Rightarrow> credential option" where
  "first_unusable_credential u [] = None"
| "first_unusable_credential u (c # cs) =
     (case c of None \<Rightarrow> first_unusable_credential u cs
      | Some x \<Rightarrow> if \<not> can_use_credential u x then Some x else first_unusable_credential u cs)"

section \<open>Pipelines and payloads\<close>

definition can_see_pipeline :: "user option \<Rightarrow> pipeline \<Rightarrow> bool" where
  "can_see_pipeline u p = (if p_visibility p \<noteq> ''private'' then True
     else if is_admin u then True else owned_by u (p_owner_id p))"

definition can_use_pipeline :: "user option \<Rightarrow> pipeline \<Rightarrow> bool" where
  "can_use_pipeline u p = can_see_pipeline u p"

definition visible_pipelines_filter :: "user option \<Rightarrow> (pipeline \<Rightarrow> bool) option" where
  "visible_pipelines_filter u = (if is_admin u then None
     else Some (\<lambda>p. p_visibility p \<noteq> ''private'' \<or> p_owner_id p = map_option u_id u))"

definition can_see_payload :: "user option \<Rightarrow> pipeline_payload \<Rightarrow> bool" where
  "can_see_payload u p = (if pl_visibility p \<noteq> ''private'' then True
     else if is_admin u then True else owned_by u (pl_created_by_id p))"

definition visible_payloads_filter :: "user option \<Rightarrow> (pipeline_payload \<Rightarrow> bool) option" where
  "visible_payloads_filter u = (if is_admin u then None
     else Some (\<lambda>p. pl_visibility p \<noteq> ''private'' \<or> pl_created_by_id p = map_option u_id u))"

section \<open>The shared contract\<close>

locale visibility =
  fixes hidden :: "'r \<Rightarrow> bool"
    and owner :: "'r \<Rightarrow> int option"
    and can_see :: "user option \<Rightarrow> 'r \<Rightarrow> bool"
    and clause :: "user option \<Rightarrow> ('r \<Rightarrow> bool) option"
  assumes can_see_iff: "can_see u r \<longleftrightarrow> \<not> hidden r \<or> is_admin u \<or> owned_by u (owner r)"
    and clause_admin: "is_admin u \<Longrightarrow> clause u = None"
    and clause_other: "\<not> is_admin u \<Longrightarrow> clause u = Some (\<lambda>r. \<not> hidden r \<or> owner r = map_option u_id u)"
begin

lemma listing_is_predicate: "where_opt (clause (Some u)) rs = filter (can_see (Some u)) rs"
proof (cases "is_admin (Some u)")
  case True
  then show ?thesis
    by (simp add: clause_admin where_opt_def can_see_iff)
next
  case False
  then show ?thesis
    by (auto simp: clause_other where_opt_def can_see_iff owned_by_def intro!: filter_cong)
qed

lemma listing_anonymous:
  "where_opt (clause None) rs = filter (\<lambda>r. can_see None r \<or> owner r = None) rs"
proof -
  have "\<not> is_admin None"
    by (simp add: is_admin_def user_has_role_def)
  then show ?thesis
    by (simp add: clause_other where_opt_def can_see_iff owned_by_def)
qed

lemma private_needs_owner_or_admin:
  "can_see (Some u) r \<Longrightarrow> hidden r \<Longrightarrow> is_admin (Some u) \<or> owner r = Some (u_id u)"
  by (auto simp: can_see_iff owned_by_def)

end

interpretation cred: visibility "\<lambda>c. c_visibility c = ''private''" c_owner_id can_see_credential
    visible_credentials_filter
  by unfold_locales (auto simp: can_see_credential_def visible_credentials_filter_def)

interpretation pipe: visibility "\<lambda>p. p_visibility p = ''private''" p_owner_id can_see_pipeline
    visible_pipelines_filter
  by unfold_locales (auto simp: can_see_pipeline_def visible_pipelines_filter_def)

interpretation payl: visibility "\<lambda>p. pl_visibility p = ''private''" pl_created_by_id can_see_payload
    visible_payloads_filter
  by unfold_locales (auto simp: can_see_payload_def visible_payloads_filter_def)

section \<open>Properties\<close>

text \<open>C27: The credential picker of a signed-in user lists, in name order, exactly the credentials
  of the active tenant that \<open>can_see_credential\<close> allows one by one; and when the active tenant is
  the user's own, every listed credential also passes the use-time check.\<close>

theorem visible_credentials_exact:
  "set (visible_credentials d (Some u) tid) =
     {c \<in> set (d_credentials d). in_scope tid (c_tenant_id c) \<and> can_see_credential (Some u) c}
   \<and> sorted (map c_name (visible_credentials d (Some u) tid))
   \<and> (tid = u_tenant_id u \<longrightarrow> (\<forall>c \<in> set (visible_credentials d (Some u) tid). can_use_credential (Some u) c))"
  by (auto simp: visible_credentials_def cred.listing_is_predicate can_use_credential_def)

definition demo_cred :: "int \<Rightarrow> int \<Rightarrow> string \<Rightarrow> int option \<Rightarrow> credential" where
  "demo_cred i t vis owner = \<lparr>c_id = i, c_name = ''c'' @ str_int i, c_tenant_id = t, c_kind = ''password'',
     c_username = None, c_domain = None, c_secret_ref = ''creds/c'' @ str_int i, c_owner_id = owner,
     c_visibility = vis, c_org_unit_id = None, c_created_at = 0, c_updated_at = 0\<rparr>"

definition demo_cred_db :: db where
  \<comment> \<open>a shared and two private credentials in tenant 1, a shared one in tenant 2\<close>
  "demo_cred_db = demo_db\<lparr>d_credentials := [demo_cred 1 1 ''shared'' None, demo_cred 2 1 ''private'' (Some 1),
     demo_cred 3 1 ''private'' (Some 2), demo_cred 4 2 ''shared'' None]\<rparr>"

theorem visible_credentials_exact_witness:
  "map c_id (visible_credentials demo_cred_db (Some (demo_user 1 ''operator'' (Some 1))) (Some 1)) = [1, 2]
   \<and> can_use_credential (Some (demo_user 1 ''operator'' (Some 1))) (demo_cred 2 1 ''private'' (Some 1))"
proof
  have "demo_cred 2 1 ''private'' (Some 1) \<in> set (visible_credentials demo_cred_db (Some (demo_user 1 ''operator'' (Some 1))) (Some 1))"
    by code_simp
  then show "can_use_credential (Some (demo_user 1 ''operator'' (Some 1))) (demo_cred 2 1 ''private'' (Some 1))"
    using visible_credentials_exact [of demo_cred_db "demo_user 1 ''operator'' (Some 1)" "Some 1"]
    by (auto simp: demo_user_def)
qed code_simp

lemma first_unusable_None: "first_unusable_credential u cs = None \<longleftrightarrow> (\<forall>c. Some c \<in> set cs \<longrightarrow> can_use_credential u c)"
  by (induction cs) (auto split: option.splits)

lemma first_unusable_Some: "first_unusable_credential u cs = Some c \<Longrightarrow> Some c \<in> set cs \<and> \<not> can_use_credential u c"
  by (induction cs) (auto split: option.splits if_splits)

text \<open>The connection-time guard is complete: it lets a chain of credentials pass exactly when
  the user may use every one of them, and what it names is an unusable one of the chain. A
  tenant-confined user is never let through with another tenant's credential, nor with a private
  one of another owner unless an admin.\<close>

theorem first_unusable_credential_guard:
  "(first_unusable_credential (Some u) cs = None \<longleftrightarrow> (\<forall>c. Some c \<in> set cs \<longrightarrow> can_use_credential (Some u) c))
   \<and> (\<forall>c. first_unusable_credential (Some u) cs = Some c \<longrightarrow> Some c \<in> set cs \<and> \<not> can_use_credential (Some u) c)
   \<and> (\<forall>c t. first_unusable_credential (Some u) cs = None \<and> Some c \<in> set cs \<and> u_tenant_id u = Some t \<longrightarrow>
        c_tenant_id c = t \<and> (c_visibility c = ''private'' \<longrightarrow> is_admin (Some u) \<or> c_owner_id c = Some (u_id u)))"
proof (intro conjI allI impI)
  fix c t assume a: "first_unusable_credential (Some u) cs = None \<and> Some c \<in> set cs \<and> u_tenant_id u = Some t"
  then have use: "can_use_credential (Some u) c"
    by (simp add: first_unusable_None)
  then show "c_tenant_id c = t"
    using a by (auto simp: can_use_credential_def split: if_splits)
  assume "c_visibility c = ''private''"
  with use show "is_admin (Some u) \<or> c_owner_id c = Some (u_id u)"
    using cred.private_needs_owner_or_admin by (auto simp: can_use_credential_def split: if_splits)
qed (simp_all add: first_unusable_None first_unusable_Some)

theorem first_unusable_credential_guard_witness:
  "\<not> can_use_credential (Some (demo_user 1 ''operator'' (Some 1))) (demo_cred 3 1 ''private'' (Some 2))"
proof -
  have "first_unusable_credential (Some (demo_user 1 ''operator'' (Some 1)))
      [None, Some (demo_cred 1 1 ''shared'' None), Some (demo_cred 3 1 ''private'' (Some 2))]
      = Some (demo_cred 3 1 ''private'' (Some 2))"
    by code_simp
  then show ?thesis
    using first_unusable_credential_guard by blast
qed

text \<open>Without a user the listing clause and the predicate part ways: the clause compares the
  owner with \<open>NULL\<close>, so it lists every private pipeline that has no owner (an owner's account is
  deleted, or the pipeline was made without one), which \<open>can_see_pipeline\<close> hides; on all
  other rows they agree.\<close>

theorem anonymous_pipeline_listing:
  "where_opt (visible_pipelines_filter None) ps = filter (\<lambda>p. can_see_pipeline None p \<or> p_owner_id p = None) ps
   \<and> (\<forall>p. p_visibility p = ''private'' \<and> p_owner_id p = None \<longrightarrow>
        \<not> can_see_pipeline None p \<and> where_opt (visible_pipelines_filter None) [p] = [p])"
proof -
  have "\<not> is_admin None"
    by (simp add: is_admin_def user_has_role_def)
  then show ?thesis
    by (simp add: pipe.listing_anonymous pipe.can_see_iff owned_by_def)
qed

definition demo_pipeline :: "int \<Rightarrow> string \<Rightarrow> int option \<Rightarrow> pipeline" where
  "demo_pipeline i vis owner = \<lparr>p_id = i, p_name = ''p'' @ str_int i, p_tenant_id = 1, p_provider = ''github'',
     p_description = None, p_config = Some (JObj []), p_inputs_schema = None, p_credential_id = None,
     p_owner_id = owner, p_visibility = vis, p_org_unit_id = None, p_created_at = 0, p_updated_at = 0\<rparr>"

theorem anonymous_pipeline_listing_witness:
  "where_opt (visible_pipelines_filter None) [demo_pipeline 1 ''private'' None] = [demo_pipeline 1 ''private'' None]"
  using anonymous_pipeline_listing by (simp add: demo_pipeline_def)

end
