(* ===== verification/Dosm_Org.thy ===== *)
theory Dosm_Org
  imports Dosm_Access
begin

text \<open>
  The three-tier organisation tree of \<open>dosm/applications/repo.py\<close> and
  \<open>dosm/applications/routes.py\<close>, with \<open>OrgUnit.path\<close> of \<open>dosm/models.py\<close>. The tier
  rule, the sibling names and slugs are enforced by this code only, so they are an invariant here;
  on it rest the end of every walk of the tree and the roll-up totals.
\<close>

section \<open>Tiers\<close>

definition TIERS :: "string list" where
  "TIERS = [''application'', ''environment'', ''unit'']"

definition PARENT_TIER :: "string \<Rightarrow> string option" where
  "PARENT_TIER t = (if t = ''environment'' then Some ''application''
     else if t = ''unit'' then Some ''environment'' else None)"

definition CHILD_TIER :: "string \<Rightarrow> string option" where
  "CHILD_TIER t = (if t = ''application'' then Some ''environment''
     else if t = ''environment'' then Some ''unit'' else None)"

definition org_slugify :: "string \<Rightarrow> string" where
  "org_slugify name = slug_of ''item'' name"

section \<open>Reads\<close>

definition get_unit :: "db \<Rightarrow> int \<Rightarrow> int option \<Rightarrow> org_unit option" where
  "get_unit d i tid = (case get_row o_id (d_org_units d) i of None \<Rightarrow> None
     | Some u \<Rightarrow> if tid \<noteq> None \<and> tid \<noteq> Some (o_tenant_id u) then None else Some u)"

interpretation org: scoped_get d_org_units o_id o_tenant_id get_unit
proof
  fix d i tid r
  show "get_unit d i tid = Some r \<Longrightarrow> get_row o_id (d_org_units d) i = Some r \<and> in_scope tid (o_tenant_id r)"
    by (auto simp: get_unit_def in_scope_def split: option.splits if_splits)
  show "get_row o_id (d_org_units d) i = Some r \<Longrightarrow> in_scope tid (o_tenant_id r) \<Longrightarrow> get_unit d i tid = Some r"
    by (auto simp: get_unit_def in_scope_def split: option.splits)
qed

definition list_units :: "db \<Rightarrow> int option \<Rightarrow> string option \<Rightarrow> org_unit list" where
  "list_units d tid tier = sort_key o_name
     (filter (\<lambda>u. tier = None \<or> tier = Some (o_tier u)) (where_opt (tenant_clause o_tenant_id tid) (d_org_units d)))"

definition list_applications :: "db \<Rightarrow> int option \<Rightarrow> org_unit list" where
  "list_applications d tid = sort_key o_name
     (where_opt (tenant_clause o_tenant_id tid) (filter (\<lambda>u. o_parent_id u = None) (d_org_units d)))"

definition children_of :: "db \<Rightarrow> int option \<Rightarrow> int option \<Rightarrow> org_unit list" where
  "children_of d parent tid = sort_key o_name
     (where_opt (tenant_clause o_tenant_id tid) (filter (\<lambda>u. o_parent_id u = parent) (d_org_units d)))"

fun walk_path :: "db \<Rightarrow> int option \<Rightarrow> int option \<Rightarrow> string list \<Rightarrow> org_unit option \<Rightarrow> string + org_unit option" where
  \<comment> \<open>the loop of \<open>get_by_path\<close>; \<open>Inl\<close> is the exception of \<open>scalar_one_or_none\<close>\<close>
  "walk_path d tid parent [] node = Inr node"
| "walk_path d tid parent (p # ps) node =
     (case where_opt (tenant_clause o_tenant_id tid)
             (filter (\<lambda>u. sql_lower (o_name u) = py_lower p \<and> o_parent_id u = parent) (d_org_units d)) of
        [] \<Rightarrow> Inr None
      | [u] \<Rightarrow> walk_path d tid (Some (o_id u)) ps (Some u)
      | _ \<Rightarrow> Inl ''MultipleResultsFound'')"

definition path_parts :: "string \<Rightarrow> string list" where
  "path_parts path = filter (\<lambda>p. p \<noteq> []) (map py_strip (split_on CHR ''/'' path))"

definition get_by_path :: "db \<Rightarrow> string \<Rightarrow> int option \<Rightarrow> string + org_unit option" where
  "get_by_path d path tid = (if path_parts path = [] then Inr None
     else walk_path d tid None (path_parts path) None)"

partial_function (option) subtree_loop :: "db \<Rightarrow> int list \<Rightarrow> int list \<Rightarrow> int list option" where
  "subtree_loop d ids frontier =
     (if frontier = [] then Some ids
      else let rows = map o_id (filter (\<lambda>u. o_parent_id u \<in> Some ` set frontier) (d_org_units d))
           in if rows = [] then Some ids else subtree_loop d (ids @ rows) rows)"

definition subtree_ids :: "db \<Rightarrow> org_unit \<Rightarrow> int list option" where
  \<comment> \<open>\<open>None\<close>: the loop never ends\<close>
  "subtree_ids d u = subtree_loop d [o_id u] [o_id u]"

partial_function (option) path_loop :: "db \<Rightarrow> org_unit list \<Rightarrow> org_unit \<Rightarrow> org_unit list option" where
  \<comment> \<open>\<open>OrgUnit.path\<close>: the chain is kept reversed, so its final reversal is built in\<close>
  "path_loop d chain cur =
     (case (case o_parent_id cur of None \<Rightarrow> None | Some p \<Rightarrow> get_row o_id (d_org_units d) p) of
        None \<Rightarrow> Some (cur # chain) | Some v \<Rightarrow> path_loop d (cur # chain) v)"

definition unit_path :: "db \<Rightarrow> org_unit \<Rightarrow> org_unit list option" where
  "unit_path d u = path_loop d [] u"

definition path_str :: "db \<Rightarrow> org_unit \<Rightarrow> string option" where
  "path_str d u = map_option (\<lambda>p. join_with '' / '' (map o_name p)) (unit_path d u)"

declare subtree_loop.simps [code] path_loop.simps [code]

definition direct_counts :: "'r list \<Rightarrow> ('r \<Rightarrow> int option) \<Rightarrow> ('r \<Rightarrow> int) \<Rightarrow> int option \<Rightarrow> ('r \<Rightarrow> bool) option \<Rightarrow>
    int \<Rightarrow> nat" where
  \<comment> \<open>\<open>direct_counts(...).get(uid, 0)\<close>: the rows placed directly on one node\<close>
  "direct_counts rows org tenant tid extra uid =
     length (filter (\<lambda>r. org r = Some uid) (where_opt extra (where_opt (tenant_clause tenant tid) rows)))"

definition direct_host_counts :: "db \<Rightarrow> int option \<Rightarrow> int \<Rightarrow> nat" where
  "direct_host_counts d tid = direct_counts (d_hosts d) h_org_unit_id h_tenant_id tid None"

datatype org_node = Org_Node (n_unit: org_unit) (n_direct: nat) (n_total: nat) (n_children: "org_node list")

definition ordered_children :: "db \<Rightarrow> org_unit \<Rightarrow> org_unit list" where
  \<comment> \<open>\<open>sorted(u.children, key=lambda c: c.name.lower())\<close> over the relationship's \<open>order_by\<close>\<close>
  "ordered_children d u = sort_key (\<lambda>c. py_lower (o_name c))
     (sort_key o_name (filter (\<lambda>c. o_parent_id c = Some (o_id u)) (d_org_units d)))"

fun build_node :: "nat \<Rightarrow> db \<Rightarrow> (int \<Rightarrow> nat) \<Rightarrow> org_unit \<Rightarrow> org_node option" where
  \<comment> \<open>the local function \<open>node\<close>; the fuel bounds its recursion depth\<close>
  "build_node 0 d direct u = None"
| "build_node (Suc fuel) d direct u =
     (case those (map (build_node fuel d direct) (ordered_children d u)) of None \<Rightarrow> None
      | Some kids \<Rightarrow> Some (Org_Node u (direct (o_id u))
          (direct (o_id u) + sum_list (map n_total kids)) kids))"

definition build_tree :: "db \<Rightarrow> int option \<Rightarrow> (int \<Rightarrow> nat) option \<Rightarrow> org_node list option" where
  "build_tree d tid counts =
     (let direct = (case counts of None \<Rightarrow> direct_host_counts d tid | Some f \<Rightarrow> f)
      in those (map (build_node (length (d_org_units d) + 3) d direct) (list_applications d tid)))"

section \<open>Writes\<close>

datatype org_error = Org_Validation string | Org_Search_Loops

definition unique_slug :: "db \<Rightarrow> int option \<Rightarrow> string \<Rightarrow> int \<Rightarrow> int option \<Rightarrow> string option" where
  \<comment> \<open>the fuel is one more than the number of taken slugs; the \<open>dash\<close> interpretation shows it is enough\<close>
  "unique_slug d parent base tid exclude =
     (let taken = map o_slug (filter (\<lambda>s. Some (o_id s) \<noteq> exclude) (children_of d parent (Some tid)))
      in if base \<notin> set taken then Some base
         else first_free (Suc (length taken)) (dash_name base) taken 2)"

definition name_taken :: "db \<Rightarrow> int option \<Rightarrow> string \<Rightarrow> int \<Rightarrow> int option \<Rightarrow> bool" where
  \<comment> \<open>\<open>_check_name_free\<close> raises\<close>
  "name_taken d parent name tid exclude =
     (\<exists>s \<in> set (children_of d parent (Some tid)). Some (o_id s) \<noteq> exclude \<and> py_lower (o_name s) = py_lower name)"

definition sibling_msg :: "string \<Rightarrow> string" where
  "sibling_msg name = ''A sibling named '' @ py_repr name @ '' already exists at this level.''"

definition placed_under :: "string \<Rightarrow> string \<Rightarrow> string" where
  "placed_under tier parent = ''A '' @ tier @ '' must be placed under a'' @
     (if hd parent \<in> set ''aeiou'' then ''n'' else []) @ '' '' @ parent"

definition check_parent :: "db \<Rightarrow> int \<Rightarrow> string \<Rightarrow> int option \<Rightarrow> org_error + unit" where
  "check_parent d tid tier parent_id =
     (case PARENT_TIER tier of
        None \<Rightarrow> if parent_id \<noteq> None
                then Inl (Org_Validation ''An application is a top-level node and has no parent.'') else Inr ()
      | Some req \<Rightarrow>
          (case parent_id of None \<Rightarrow> Inl (Org_Validation (placed_under tier req @ ''.''))
           | Some p \<Rightarrow> (case get_unit d p (Some tid) of None \<Rightarrow> Inl (Org_Validation ''Parent not found.'')
              | Some par \<Rightarrow> if o_tier par \<noteq> req
                  then Inl (Org_Validation (placed_under tier req @ '', not under a '' @ o_tier par @ ''.''))
                  else Inr ())))"

definition create_unit :: "db \<Rightarrow> int \<Rightarrow> string \<Rightarrow> string \<Rightarrow> int option \<Rightarrow> string option \<Rightarrow>
    org_error + (org_unit \<times> db)" where
  "create_unit d tid name0 tier parent_id description =
     (let name = py_strip name0 in
      if name = [] then Inl (Org_Validation ''Name is required.'')
      else if tier \<notin> set TIERS then Inl (Org_Validation (''Unknown tier: '' @ py_repr tier))
      else bind_r (check_parent d tid tier parent_id) (\<lambda>_.
        if name_taken d parent_id name tid None then Inl (Org_Validation (sibling_msg name))
        else case unique_slug d parent_id (org_slugify name) tid None of
            None \<Rightarrow> Inl Org_Search_Loops
          | Some slug \<Rightarrow>
              (let u = \<lparr>o_id = next_id o_id (d_org_units d), o_name = name, o_tenant_id = tid, o_slug = slug,
                        o_tier = tier, o_description = (if description = Some [] then None else description),
                        o_parent_id = parent_id, o_created_at = d_now d, o_updated_at = d_now d\<rparr>
               in Inr (u, d\<lparr>d_org_units := d_org_units d @ [u]\<rparr>))))"

definition touch_unit :: "db \<Rightarrow> (org_unit \<Rightarrow> org_unit) \<Rightarrow> org_unit \<Rightarrow> org_unit" where
  \<comment> \<open>\<open>onupdate=_utcnow\<close> fires when a column changed\<close>
  "touch_unit d f u = (if f u = u then u else (f u)\<lparr>o_updated_at := d_now d\<rparr>)"

definition unit_edit :: "string \<Rightarrow> string \<Rightarrow> string option \<Rightarrow> org_unit \<Rightarrow> org_unit" where
  \<comment> \<open>the assignments of \<open>update_unit\<close>\<close>
  "unit_edit name slug description u = u\<lparr>o_name := name, o_slug := slug,
     o_description := (if description = Some [] then None else description)\<rparr>"

definition update_unit :: "db \<Rightarrow> org_unit \<Rightarrow> string \<Rightarrow> string option \<Rightarrow> org_error + (org_unit \<times> db)" where
  "update_unit d u name0 description =
     (let name = py_strip name0 in
      if name = [] then Inl (Org_Validation ''Name is required.'')
      else if name_taken d (o_parent_id u) name (o_tenant_id u) (Some (o_id u))
      then Inl (Org_Validation (sibling_msg name))
      else case (if py_lower name \<noteq> py_lower (o_name u)
                 then unique_slug d (o_parent_id u) (org_slugify name) (o_tenant_id u) (Some (o_id u))
                 else Some (o_slug u)) of
          None \<Rightarrow> Inl Org_Search_Loops
        | Some slug \<Rightarrow>
            (let f = unit_edit name slug description
             in Inr (touch_unit d f u, d\<lparr>d_org_units := upd_row o_id (o_id u) (touch_unit d f) (d_org_units d)\<rparr>)))"

definition delete_unit :: "db \<Rightarrow> org_unit \<Rightarrow> db option" where
  \<comment> \<open>the ORM cascade removes the node and all its descendants; the FKs null what pointed at them\<close>
  "delete_unit d u = map_option (\<lambda>ids. fk_delete_org_units (\<lambda>i. i \<in> set ids) d) (subtree_ids d u)"

definition assign_to_unit :: "db \<Rightarrow> int \<Rightarrow> int option \<Rightarrow> org_error + int option" where
  \<comment> \<open>the check for a row of tenant \<open>tenant\<close>; the result is the row's new \<open>org_unit_id\<close>\<close>
  "assign_to_unit d tenant oid =
     (case oid of None \<Rightarrow> Inr None
      | Some i \<Rightarrow> (case get_row o_id (d_org_units d) i of None \<Rightarrow> Inl (Org_Validation ''Org unit not found.'')
          | Some u \<Rightarrow> if o_tenant_id u \<noteq> tenant then Inl (Org_Validation ''Org unit not found.'') else Inr oid))"

section \<open>Routes\<close>

definition parse_int_or_none :: "string \<Rightarrow> response + int option" where
  "parse_int_or_none v = (let t = py_strip v in if t = [] then Inr None
     else case py_int t of None \<Rightarrow> Inl (Crash ''ValueError'') | Some i \<Rightarrow> Inr (Some i))"

definition show_opt_int :: "int option \<Rightarrow> string" where
  "show_opt_int v = (case v of None \<Rightarrow> ''None'' | Some i \<Rightarrow> str_int i)"

definition org_error_page :: "org_error \<Rightarrow> response" where
  "org_error_page e = (case e of Org_Validation m \<Rightarrow> Page 400 (Some m) | Org_Search_Loops \<Rightarrow> Crash ''loops'')"

definition create_unit_route :: "string \<Rightarrow> string \<Rightarrow> string \<Rightarrow> string \<Rightarrow> session \<Rightarrow> db \<Rightarrow> response \<times> db" where
  "create_unit_route name tier parent_id description s d =
     on_ok (require_operator ''/applications/units'' s d) d (\<lambda>u.
       on_ok (require_active_tenant s u) d (\<lambda>tid.
         on_ok (parse_int_or_none parent_id) d (\<lambda>pid.
           case create_unit d tid name tier pid (or_none description) of
             Inl e \<Rightarrow> (org_error_page e, d)
           | Inr (n, d1) \<Rightarrow> (Redirect ''/applications'',
               add_audit (Some tid) (Some (u_id u)) ''orgunit.create'' (Some (''orgunit:'' @ str_int (o_id n)))
                 (Some (''tier='' @ o_tier n @ '' name='' @ o_name n @ '' parent='' @ show_opt_int (o_parent_id n)))
                 None d1))))"

definition edit_unit_route :: "int \<Rightarrow> string \<Rightarrow> string \<Rightarrow> session \<Rightarrow> db \<Rightarrow> response \<times> db" where
  "edit_unit_route i name description s d =
     on_ok (require_operator ''/applications/units/edit'' s d) d (\<lambda>u.
       case get_unit d i (active_tenant_id s u) of None \<Rightarrow> (HttpError 404 ''Not Found'', d)
       | Some n \<Rightarrow> (case update_unit d n name (or_none description) of
             Inl e \<Rightarrow> (org_error_page e, d)
           | Inr (n1, d1) \<Rightarrow> (Redirect ''/applications'',
               add_audit (Some (o_tenant_id n1)) (Some (u_id u)) ''orgunit.update''
                 (Some (''orgunit:'' @ str_int (o_id n1))) (Some (''name='' @ o_name n1)) None d1)))"

definition delete_unit_route :: "int \<Rightarrow> session \<Rightarrow> db \<Rightarrow> (response \<times> db) option" where
  "delete_unit_route i s d =
     (case require_operator ''/applications/units/delete'' s d of Inl r \<Rightarrow> Some (r, d)
      | Inr u \<Rightarrow> (case get_unit d i (active_tenant_id s u) of None \<Rightarrow> Some (HttpError 404 ''Not Found'', d)
       | Some n \<Rightarrow> (case subtree_ids d n of None \<Rightarrow> None
          | Some ids \<Rightarrow> (case delete_unit d n of None \<Rightarrow> None
             | Some d1 \<Rightarrow> Some (Redirect ''/applications'',
                 add_audit (Some (o_tenant_id n)) (Some (u_id u)) ''orgunit.delete''
                   (Some (''orgunit:'' @ str_int i))
                   (Some (''tier='' @ o_tier n @ '' name='' @ o_name n @
                      (if length ids - 1 \<noteq> 0 then '' cascade='' @ str_nat (length ids - 1) else []))) None d1)))))"

section \<open>The tree invariant\<close>

definition same_level :: "org_unit \<Rightarrow> org_unit \<Rightarrow> bool" where
  "same_level u v \<longleftrightarrow> o_tenant_id u = o_tenant_id v \<and> o_parent_id u = o_parent_id v"

definition parent_ok :: "org_unit list \<Rightarrow> org_unit \<Rightarrow> bool" where
  "parent_ok us u \<longleftrightarrow> o_tier u \<in> set TIERS \<and>
     (case PARENT_TIER (o_tier u) of None \<Rightarrow> o_parent_id u = None
      | Some req \<Rightarrow> (case o_parent_id u of None \<Rightarrow> False
          | Some p \<Rightarrow> (case get_row o_id us p of None \<Rightarrow> False
              | Some par \<Rightarrow> o_tier par = req \<and> o_tenant_id par = o_tenant_id u)))"

definition name_ok :: "org_unit \<Rightarrow> bool" where
  "name_ok u \<longleftrightarrow> o_name u \<noteq> [] \<and> py_strip (o_name u) = o_name u \<and> slug_ok (o_slug u)"

definition siblings_ok :: "org_unit list \<Rightarrow> bool" where
  "siblings_ok us \<longleftrightarrow> (\<forall>u \<in> set us. \<forall>v \<in> set us. same_level u v \<and> o_id u \<noteq> o_id v \<longrightarrow>
     py_lower (o_name u) \<noteq> py_lower (o_name v) \<and> o_slug u \<noteq> o_slug v)"

definition units_ok :: "org_unit list \<Rightarrow> bool" where
  "units_ok us \<longleftrightarrow> uniq_ids o_id us \<and> (\<forall>u \<in> set us. parent_ok us u \<and> name_ok u) \<and> siblings_ok us"

lemma units_okD:
  assumes "units_ok us"
  shows "uniq_ids o_id us" and "u \<in> set us \<Longrightarrow> parent_ok us u" and "u \<in> set us \<Longrightarrow> name_ok u" and "siblings_ok us"
  using assms by (auto simp: units_ok_def)

lemma in_children_of: "v \<in> set (children_of d p (Some t)) \<longleftrightarrow>
    v \<in> set (d_org_units d) \<and> o_parent_id v = p \<and> o_tenant_id v = t"
  by (auto simp: children_of_def)

lemma unique_slug_total: "\<exists>s. unique_slug d p base t ex = Some s"
  unfolding unique_slug_def Let_def using dash.fresh by metis

lemma slug_ok_digits: "slug_ok base \<Longrightarrow> slug_ok (dash_name base n)"
proof -
  have d: "\<forall>c \<in> set (str_nat n). slug_char c"
    using str_nat_digits [of n] by (auto simp: is_digit_def slug_char_def Let_def)
  have "slug_char (last (str_nat n))"
    using d by simp
  then have "last (str_nat n) \<noteq> CHR ''-''"
    by (auto simp: slug_char_def code_point_def)
  then show "slug_ok base \<Longrightarrow> ?thesis"
    using d by (auto simp: slug_ok_def dash_name_def)
qed

lemma unique_slug_fresh:
  assumes "unique_slug d p base t ex = Some s"
  shows "\<forall>v \<in> set (d_org_units d). o_parent_id v = p \<and> o_tenant_id v = t \<and> Some (o_id v) \<noteq> ex \<longrightarrow> o_slug v \<noteq> s"
    and "slug_ok base \<Longrightarrow> slug_ok s"
proof -
  let ?taken = "map o_slug (filter (\<lambda>s. Some (o_id s) \<noteq> ex) (children_of d p (Some t)))"
  have "s \<notin> set ?taken"
    using assms first_free_SomeD [of _ "dash_name base" ?taken 2 s]
    unfolding unique_slug_def Let_def by (metis option.inject)
  then show "\<forall>v \<in> set (d_org_units d). o_parent_id v = p \<and> o_tenant_id v = t \<and> Some (o_id v) \<noteq> ex \<longrightarrow> o_slug v \<noteq> s"
    by (auto simp: in_children_of)
  have "s = base \<or> (\<exists>k. s = dash_name base k)"
    using assms first_free_SomeD [of _ "dash_name base" ?taken 2 s]
    unfolding unique_slug_def Let_def by (metis option.inject)
  then show "slug_ok base \<Longrightarrow> slug_ok s"
    using slug_ok_digits by auto
qed

lemma org_slugify_ok: "slug_ok (org_slugify name)"
proof -
  have "slug_ok ''item''"
    by (simp add: slug_ok_def slug_char_def code_point_def)
  then show ?thesis
    by (simp add: org_slugify_def slug_of_ok)
qed

lemma not_name_taken: "\<not> name_taken d p n t ex \<longleftrightarrow>
    (\<forall>v \<in> set (d_org_units d). o_parent_id v = p \<and> o_tenant_id v = t \<and> Some (o_id v) \<noteq> ex \<longrightarrow>
       py_lower (o_name v) \<noteq> py_lower n)"
  by (auto simp: name_taken_def in_children_of)

text \<open>Adding a row keeps every parent pointer that resolved.\<close>

lemma parent_ok_mono:
  assumes "parent_ok us u" and "\<And>p q. get_row o_id us p = Some q \<Longrightarrow>
      \<exists>q'. get_row o_id us' p = Some q' \<and> o_tier q' = o_tier q \<and> o_tenant_id q' = o_tenant_id q"
  shows "parent_ok us' u"
  using assms by (fastforce simp: parent_ok_def split: option.splits)

lemma check_parent_ok: "check_parent d t tier p = Inr () \<Longrightarrow> tier \<in> set TIERS \<Longrightarrow> o_tier u = tier \<Longrightarrow>
    o_parent_id u = p \<Longrightarrow> o_tenant_id u = t \<Longrightarrow> parent_ok (d_org_units d) u"
  by (auto simp: check_parent_def parent_ok_def org.getr_iff split: option.splits if_splits)

lemma create_unit_InrD:
  assumes "create_unit d t n tier p desc = Inr (u, d')"
  shows "d' = d\<lparr>d_org_units := d_org_units d @ [u]\<rparr> \<and> o_id u = next_id o_id (d_org_units d) \<and> o_tenant_id u = t \<and>
    o_tier u = tier \<and> o_parent_id u = p \<and> o_name u = py_strip n \<and> py_strip n \<noteq> [] \<and> tier \<in> set TIERS \<and>
    check_parent d t tier p = Inr () \<and> \<not> name_taken d p (py_strip n) t None \<and>
    unique_slug d p (org_slugify (py_strip n)) t None = Some (o_slug u)"
  using assms
  by (auto simp: create_unit_def Let_def bind_r_Inr_iff split: if_splits option.splits)

lemma create_unit_ok:
  assumes "units_ok (d_org_units d)" and "create_unit d t n tier p desc = Inr (u, d')"
  shows "units_ok (d_org_units d')"
proof -
  note c = create_unit_InrD [OF assms(2)]
  let ?us = "d_org_units d"
  have keep: "\<exists>q'. get_row o_id (?us @ [u]) i = Some q' \<and> o_tier q' = o_tier q \<and> o_tenant_id q' = o_tenant_id q"
    if "get_row o_id ?us i = Some q" for i q
    using that by (simp add: get_row_append)
  have "parent_ok ?us u"
    using check_parent_ok c by blast
  moreover have "name_ok u"
    using c unique_slug_fresh(2) org_slugify_ok by (auto simp: name_ok_def)
  moreover have "siblings_ok (?us @ [u])"
    using units_okD(4) [OF assms(1)] c unique_slug_fresh(1) [of d p _ t None "o_slug u"]
    by (fastforce simp: siblings_ok_def same_level_def not_name_taken)
  ultimately show ?thesis
    using assms(1) c parent_ok_mono [OF _ keep]
    by (auto simp: units_ok_def uniq_ids_append_new)
qed

lemma touch_unit_simps [simp]:
  assumes "\<And>x. o_id (f x) = o_id x" "\<And>x. o_tier (f x) = o_tier x" "\<And>x. o_tenant_id (f x) = o_tenant_id x"
    "\<And>x. o_parent_id (f x) = o_parent_id x"
  shows "o_id (touch_unit d f u) = o_id u" "o_tier (touch_unit d f u) = o_tier u"
    "o_tenant_id (touch_unit d f u) = o_tenant_id u" "o_parent_id (touch_unit d f u) = o_parent_id u"
    "o_name (touch_unit d f u) = o_name (f u)" "o_slug (touch_unit d f u) = o_slug (f u)"
  using assms by (simp_all add: touch_unit_def)

lemma unit_edit_simps [simp]:
  "o_id (unit_edit n sl ds u) = o_id u" "o_tier (unit_edit n sl ds u) = o_tier u"
  "o_tenant_id (unit_edit n sl ds u) = o_tenant_id u" "o_parent_id (unit_edit n sl ds u) = o_parent_id u"
  "o_name (unit_edit n sl ds u) = n" "o_slug (unit_edit n sl ds u) = sl"
  by (simp_all add: unit_edit_def)

lemma update_unit_InrD:
  assumes "update_unit d u n desc = Inr (u', d')"
  shows "\<exists>slug. u' = touch_unit d (unit_edit (py_strip n) slug desc) u \<and>
    d' = d\<lparr>d_org_units := upd_row o_id (o_id u) (touch_unit d (unit_edit (py_strip n) slug desc)) (d_org_units d)\<rparr> \<and>
    py_strip n \<noteq> [] \<and> \<not> name_taken d (o_parent_id u) (py_strip n) (o_tenant_id u) (Some (o_id u)) \<and>
    (slug = o_slug u \<or>
     unique_slug d (o_parent_id u) (org_slugify (py_strip n)) (o_tenant_id u) (Some (o_id u)) = Some slug)"
proof -
  define sl where "sl = (if py_lower (py_strip n) \<noteq> py_lower (o_name u)
    then unique_slug d (o_parent_id u) (org_slugify (py_strip n)) (o_tenant_id u) (Some (o_id u)) else Some (o_slug u))"
  have 1: "py_strip n \<noteq> []"
    using assms by (auto simp: update_unit_def)
  have 2: "\<not> name_taken d (o_parent_id u) (py_strip n) (o_tenant_id u) (Some (o_id u))"
    using assms 1 by (auto simp: update_unit_def Let_def)
  obtain slug where 3: "sl = Some slug"
    using assms 1 2 by (cases sl) (simp_all add: update_unit_def Let_def sl_def [symmetric])
  then have 4: "slug = o_slug u \<or>
     unique_slug d (o_parent_id u) (org_slugify (py_strip n)) (o_tenant_id u) (Some (o_id u)) = Some slug"
    by (auto simp: sl_def split: if_splits)
  have "update_unit d u n desc = Inr (touch_unit d (unit_edit (py_strip n) slug desc) u,
      d\<lparr>d_org_units := upd_row o_id (o_id u) (touch_unit d (unit_edit (py_strip n) slug desc)) (d_org_units d)\<rparr>)"
    using 1 2 3 by (simp add: update_unit_def Let_def sl_def [symmetric])
  with assms have 5: "u' = touch_unit d (unit_edit (py_strip n) slug desc) u"
    and 6: "d' = d\<lparr>d_org_units := upd_row o_id (o_id u) (touch_unit d (unit_edit (py_strip n) slug desc)) (d_org_units d)\<rparr>"
    by simp_all
  show ?thesis
    by (intro exI [of _ slug] conjI 1 2 4 5 6)
qed

lemma siblings_ok_upd:
  assumes "siblings_ok us" and "uniq_ids o_id us" and "u \<in> set us"
    and f: "\<And>x. o_id (f x) = o_id x" "\<And>x. o_tenant_id (f x) = o_tenant_id x" "\<And>x. o_parent_id (f x) = o_parent_id x"
    and new: "\<forall>v \<in> set us. same_level v u \<and> o_id v \<noteq> o_id u \<longrightarrow>
        py_lower (o_name v) \<noteq> py_lower (o_name (f u)) \<and> o_slug v \<noteq> o_slug (f u)"
  shows "siblings_ok (upd_row o_id (o_id u) f us)"
proof -
  have only: "v = u" if "v \<in> set us" "o_id v = o_id u" for v
    using get_row_in [OF assms(2) that(1)] get_row_in [OF assms(2,3)] that(2) by (metis option.inject)
  have "py_lower (o_name a) \<noteq> py_lower (o_name b) \<and> o_slug a \<noteq> o_slug b"
    if ab: "a \<in> set (upd_row o_id (o_id u) f us)" "b \<in> set (upd_row o_id (o_id u) f us)"
      "same_level a b" "o_id a \<noteq> o_id b" for a b
  proof -
    obtain x y where x: "x \<in> set us" "a = (if o_id x = o_id u then f x else x)"
      and y: "y \<in> set us" "b = (if o_id y = o_id u then f y else y)"
      using ab(1,2) by (auto simp: upd_row_def)
    have lv: "same_level x y" "o_id x \<noteq> o_id y"
      using ab(3,4) x(2) y(2) f by (auto simp: same_level_def split: if_splits)
    consider "o_id x = o_id u" | "o_id y = o_id u" | "o_id x \<noteq> o_id u" "o_id y \<noteq> o_id u"
      by blast
    then show ?thesis
    proof cases
      case 1
      then have "x = u"
        using only x(1) by blast
      then have "same_level y u" "o_id y \<noteq> o_id u" "b = y" "a = f u"
        using x(2) y(2) lv by (auto simp: same_level_def)
      then show ?thesis
        using new y(1) by metis
    next
      case 2
      then have "y = u"
        using only y(1) by blast
      then have "same_level x u" "o_id x \<noteq> o_id u" "a = x" "b = f u"
        using x(2) y(2) lv by (auto simp: same_level_def)
      then show ?thesis
        using new x(1) by metis
    next
      case 3
      then show ?thesis
        using assms(1) x y lv by (auto simp: siblings_ok_def)
    qed
  qed
  then show ?thesis
    unfolding siblings_ok_def by blast
qed

lemma update_unit_ok:
  assumes ok: "units_ok (d_org_units d)" and u: "u \<in> set (d_org_units d)" and "update_unit d u n desc = Inr (u', d')"
  shows "units_ok (d_org_units d')"
proof -
  let ?us = "d_org_units d"
  obtain slug where sl: "slug = o_slug u \<or>
      unique_slug d (o_parent_id u) (org_slugify (py_strip n)) (o_tenant_id u) (Some (o_id u)) = Some slug"
    and n: "py_strip n \<noteq> []" "\<not> name_taken d (o_parent_id u) (py_strip n) (o_tenant_id u) (Some (o_id u))"
    and d'': "d' = d\<lparr>d_org_units := upd_row o_id (o_id u) (touch_unit d (unit_edit (py_strip n) slug desc)) ?us\<rparr>"
    using update_unit_InrD [OF assms(3)] by blast
  define f where "f = touch_unit d (unit_edit (py_strip n) slug desc)"
  have d': "d_org_units d' = upd_row o_id (o_id u) f ?us"
    by (simp add: d'' f_def)
  have f: "o_id (f x) = o_id x" "o_tier (f x) = o_tier x" "o_tenant_id (f x) = o_tenant_id x"
    "o_parent_id (f x) = o_parent_id x" "o_name (f x) = py_strip n" "o_slug (f x) = slug" for x
    by (simp_all add: f_def)
  have slug: "\<forall>v \<in> set ?us. same_level v u \<and> o_id v \<noteq> o_id u \<longrightarrow> o_slug v \<noteq> slug" and sok: "slug_ok slug"
    using sl unique_slug_fresh [of d "o_parent_id u" "org_slugify (py_strip n)" "o_tenant_id u" "Some (o_id u)" slug]
      units_okD(3,4) [OF ok] u org_slugify_ok
    by (auto simp: siblings_ok_def name_ok_def same_level_def)
  have "siblings_ok (upd_row o_id (o_id u) f ?us)"
    by (rule siblings_ok_upd [OF units_okD(4,1) [OF ok] u])
      (use slug n(2) in \<open>auto simp: f not_name_taken same_level_def\<close>)
  moreover have "parent_ok (upd_row o_id (o_id u) f ?us) v" if v: "v \<in> set (upd_row o_id (o_id u) f ?us)" for v
  proof -
    obtain w where w: "w \<in> set ?us" "v = (if o_id w = o_id u then f w else w)"
      using v by (auto simp: upd_row_def)
    have "parent_ok (upd_row o_id (o_id u) f ?us) w"
      by (rule parent_ok_mono [OF units_okD(2) [OF ok w(1)]]) (auto simp: get_row_upd_row f)
    then show ?thesis
      using w(2) by (cases "o_id w = o_id u") (simp_all add: parent_ok_def f cong: option.case_cong)
  qed
  moreover have "name_ok v" if "v \<in> set (upd_row o_id (o_id u) f ?us)" for v
    using that units_okD(3) [OF ok] n(1) sok by (auto simp: upd_row_def name_ok_def f)
  ultimately show ?thesis
    using units_okD(1) [OF ok] unfolding units_ok_def d' by (simp add: uniq_ids_upd_row f)
qed

section \<open>Walking the tree\<close>

definition edges :: "org_unit list \<Rightarrow> (int \<times> int) set" where
  \<comment> \<open>parent to child\<close>
  "edges us = {(p, c). \<exists>u \<in> set us. o_id u = c \<and> o_parent_id u = Some p}"

definition tier_rank :: "string \<Rightarrow> nat" where
  "tier_rank t = (if t = ''application'' then 0 else if t = ''environment'' then 1 else 2)"

definition at_rank :: "org_unit list \<Rightarrow> nat \<Rightarrow> int \<Rightarrow> bool" where
  "at_rank us r i \<longleftrightarrow> (\<exists>u \<in> set us. o_id u = i \<and> tier_rank (o_tier u) = r)"

lemma at_rank_unique: "uniq_ids o_id us \<Longrightarrow> at_rank us r i \<Longrightarrow> at_rank us r' i \<Longrightarrow> r = r'"
  unfolding at_rank_def by (metis get_row_in option.inject)

lemma at_rank_le: "at_rank us r i \<Longrightarrow> r \<le> 2"
  by (auto simp: at_rank_def tier_rank_def split: if_splits)

lemma child_rank:
  assumes "parent_ok us u" and "o_parent_id u = Some p"
  shows "\<exists>par. get_row o_id us p = Some par \<and> o_tenant_id par = o_tenant_id u \<and>
    tier_rank (o_tier u) = Suc (tier_rank (o_tier par))"
proof -
  obtain req par where "PARENT_TIER (o_tier u) = Some req" "get_row o_id us p = Some par"
      "o_tier par = req" "o_tenant_id par = o_tenant_id u"
    using assms by (auto simp: parent_ok_def split: option.splits)
  then show ?thesis
    by (intro exI [of _ par]) (auto simp: PARENT_TIER_def tier_rank_def split: if_splits)
qed

lemma edge_rank:
  assumes ok: "units_ok us" and "(p, c) \<in> edges us" and "at_rank us r p"
  shows "at_rank us (Suc r) c"
proof -
  obtain u where u: "u \<in> set us" "o_id u = c" "o_parent_id u = Some p"
    using assms(2) by (auto simp: edges_def)
  obtain par where par: "get_row o_id us p = Some par" "tier_rank (o_tier u) = Suc (tier_rank (o_tier par))"
    using child_rank [OF units_okD(2) [OF ok u(1)] u(3)] by blast
  then have "at_rank us (tier_rank (o_tier par)) p"
    by (auto simp: at_rank_def dest: get_row_SomeD)
  then have "tier_rank (o_tier par) = r"
    using at_rank_unique [OF units_okD(1) [OF ok]] assms(3) by blast
  then show ?thesis
    using u par by (auto simp: at_rank_def)
qed

lemma trancl_rank:
  assumes ok: "units_ok us" and "(p, c) \<in> (edges us)\<^sup>+" and "at_rank us r p"
  shows "\<exists>q > r. at_rank us q c"
  using assms(2)
proof (induction rule: trancl_induct)
  case (base y)
  then show ?case
    using edge_rank [OF ok _ assms(3)] by blast
next
  case (step y z)
  then show ?case
    using edge_rank [OF ok step(2)] less_SucI by blast
qed

lemma no_self_descendant: "units_ok us \<Longrightarrow> at_rank us r i \<Longrightarrow> (i, i) \<notin> (edges us)\<^sup>+"
  by (metis trancl_rank at_rank_unique units_okD(1) less_irrefl)

lemma subtree_loop_spec:
  assumes ok: "units_ok (d_org_units d)" and "distinct f" and "\<forall>i \<in> set f. at_rank (d_org_units d) r i"
  shows "\<exists>more. subtree_loop d ids f = Some (ids @ more) \<and> distinct more \<and>
    set more = {j. \<exists>i \<in> set f. (i, j) \<in> (edges (d_org_units d))\<^sup>+}"
  using assms(2,3)
proof (induction "3 - r" arbitrary: r f ids rule: less_induct)
  case less
  let ?us = "d_org_units d"
  let ?rows = "map o_id (filter (\<lambda>u. o_parent_id u \<in> Some ` set f) ?us)"
  have rows: "set ?rows = {j. \<exists>i \<in> set f. (i, j) \<in> edges ?us}"
    by (auto simp: edges_def)
  show ?case
  proof (cases "f = [] \<or> ?rows = []")
    case True
    then have "{j. \<exists>i \<in> set f. (i, j) \<in> edges ?us} = {}"
      unfolding rows [symmetric] by (elim disjE) (simp, simp only: list.set)
    then have "{j. \<exists>i \<in> set f. (i, j) \<in> (edges ?us)\<^sup>+} = {}"
      by (auto elim: converse_tranclE)
    then show ?thesis
      using True by (subst subtree_loop.simps) (auto simp: Let_def)
  next
    case False
    then obtain i where "i \<in> set f"
      by (meson ex_in_conv set_empty)
    then have "r \<le> 2"
      using less.prems(2) at_rank_le by blast
    have rk: "\<forall>i \<in> set ?rows. at_rank ?us (Suc r) i"
      unfolding rows using edge_rank [OF ok] less.prems(2) by blast
    have "distinct ?rows"
      using units_okD(1) [OF ok] by (simp add: uniq_ids_def distinct_map_filter)
    have "3 - Suc r < 3 - r"
      using \<open>r \<le> 2\<close> by simp
    from less.hyps [OF this \<open>distinct ?rows\<close> rk, of "ids @ ?rows"]
    obtain more where m: "subtree_loop d (ids @ ?rows) ?rows = Some ((ids @ ?rows) @ more)" "distinct more"
      "set more = {j. \<exists>i \<in> set ?rows. (i, j) \<in> (edges ?us)\<^sup>+}"
      by blast
    have eq: "subtree_loop d ids f = Some (ids @ (?rows @ more))"
      using False m(1) by (subst subtree_loop.simps) (simp add: Let_def)
    have "set ?rows \<inter> set more = {}"
    proof -
      have "False" if j: "j \<in> set ?rows" "j \<in> set more" for j
      proof -
        obtain i where "i \<in> set ?rows" "(i, j) \<in> (edges ?us)\<^sup>+"
          using j(2) m(3) by blast
        then obtain q where q: "q > Suc r" "at_rank ?us q j"
          using trancl_rank [OF ok] rk by blast
        have "at_rank ?us (Suc r) j"
          using rk j(1) by blast
        from at_rank_unique [OF units_okD(1) [OF ok] q(2) this] q(1) show False
          by simp
      qed
      then show ?thesis
        by blast
    qed
    moreover have "set ?rows \<union> set more = {j. \<exists>i \<in> set f. (i, j) \<in> (edges ?us)\<^sup>+}"
      unfolding m(3) unfolding rows
      by (auto intro: r_into_trancl' trancl_into_trancl2 elim: converse_tranclE)
    ultimately show ?thesis
      using eq m(2) \<open>distinct ?rows\<close> by (intro exI [of _ "?rows @ more"]) simp
  qed
qed

lemma subtree_ids_spec:
  assumes ok: "units_ok (d_org_units d)" and u: "u \<in> set (d_org_units d)"
  shows "\<exists>ids. subtree_ids d u = Some ids \<and> distinct ids \<and> set ids = {j. (o_id u, j) \<in> (edges (d_org_units d))\<^sup>*}"
proof -
  let ?E = "edges (d_org_units d)" and ?r = "tier_rank (o_tier u)"
  have rk: "at_rank (d_org_units d) ?r (o_id u)"
    using u by (auto simp: at_rank_def)
  obtain more where m: "subtree_ids d u = Some (o_id u # more)" "distinct more"
    "set more = {j. (o_id u, j) \<in> ?E\<^sup>+}"
    using subtree_loop_spec [OF ok, of "[o_id u]" ?r "[o_id u]"] rk by (auto simp: subtree_ids_def)
  show ?thesis
    using no_self_descendant [OF ok rk] m by (auto simp: rtrancl_eq_or_trancl)
qed

text \<open>Deleting a whole subtree keeps the invariant of what is left.\<close>

lemma units_ok_del:
  assumes ok: "units_ok us" and closed: "\<And>p c. (p, c) \<in> edges us \<Longrightarrow> gone p \<Longrightarrow> gone c"
  shows "units_ok (del_rows (\<lambda>u. gone (o_id u)) us)"
proof -
  have "parent_ok (del_rows (\<lambda>u. gone (o_id u)) us) u" if u: "u \<in> set us" "\<not> gone (o_id u)" for u
  proof (cases "o_parent_id u")
    case None
    then show ?thesis
      using units_okD(2) [OF ok u(1)] by (auto simp: parent_ok_def split: option.splits)
  next
    case (Some p)
    then have "\<not> gone p"
      using closed u by (auto simp: edges_def)
    then show ?thesis
      using units_okD(2) [OF ok u(1)] Some by (simp add: parent_ok_def get_row_del_rows cong: option.case_cong)
  qed
  then show ?thesis
    using ok by (auto simp: units_ok_def uniq_ids_del_rows siblings_ok_def)
qed

lemma delete_unit_ok:
  assumes ok: "units_ok (d_org_units d)" and u: "u \<in> set (d_org_units d)"
  shows "\<exists>d'. delete_unit d u = Some d' \<and> units_ok (d_org_units d') \<and>
    d_org_units d' = del_rows (\<lambda>v. (o_id u, o_id v) \<in> (edges (d_org_units d))\<^sup>*) (d_org_units d)"
proof -
  obtain ids where i: "subtree_ids d u = Some ids" "set ids = {j. (o_id u, j) \<in> (edges (d_org_units d))\<^sup>*}"
    using subtree_ids_spec [OF ok u] by blast
  then have "delete_unit d u = Some (fk_delete_org_units (\<lambda>i. i \<in> set ids) d)"
    by (simp add: delete_unit_def)
  then show ?thesis
    using units_ok_del [OF ok, of "\<lambda>i. i \<in> set ids"] i(2)
    by (auto simp: fk_delete_org_units_def intro: rtrancl_into_rtrancl)
qed

section \<open>Roll-up totals\<close>

lemma those_map_Some: "(\<And>x. x \<in> set xs \<Longrightarrow> f x = Some (g x)) \<Longrightarrow> those (map f xs) = Some (map g xs)"
  by (induction xs) auto

definition below :: "org_unit list \<Rightarrow> int \<Rightarrow> int set" where
  "below us i = {j. (i, j) \<in> (edges us)\<^sup>*}"

lemma finite_edges: "finite (edges us)"
proof -
  have "edges us \<subseteq> (\<lambda>u. (the (o_parent_id u), o_id u)) ` set us"
    by (force simp: edges_def)
  then show ?thesis
    using finite_subset by blast
qed

lemma finite_children: "finite {c. (p, c) \<in> edges us}"
proof -
  have "{c. (p, c) \<in> edges us} \<subseteq> snd ` edges us"
    by (auto intro: rev_image_eqI)
  then show ?thesis
    using finite_edges finite_subset by blast
qed

lemma finite_below: "finite (below us i)"
proof -
  have "below us i \<subseteq> insert i (snd ` edges us)"
  proof
    fix j assume "j \<in> below us i"
    then have "(i, j) \<in> (edges us)\<^sup>*"
      by (simp add: below_def)
    then show "j \<in> insert i (snd ` edges us)"
      by (cases rule: rtranclE) (auto intro: rev_image_eqI)
  qed
  then show ?thesis
    using finite_edges finite_subset by (metis finite_imageI finite_insert)
qed

lemma below_unfold: "below us i = insert i (\<Union>c \<in> {c. (i, c) \<in> edges us}. below us c)"
  by (auto simp: below_def elim: converse_rtranclE intro: converse_rtrancl_into_rtrancl)

lemma edges_unique_parent: "uniq_ids o_id us \<Longrightarrow> (p, c) \<in> edges us \<Longrightarrow> (q, c) \<in> edges us \<Longrightarrow> p = q"
  unfolding edges_def by (auto dest: get_row_in) (metis get_row_in option.inject)

lemma siblings_disjoint:
  assumes ok: "units_ok us" and a: "(p, a) \<in> edges us" and b: "(p, b) \<in> edges us" and "a \<noteq> b"
    and p: "at_rank us r p"
  shows "below us a \<inter> below us b = {}"
proof (rule ccontr)
  assume "below us a \<inter> below us b \<noteq> {}"
  then obtain j where "(j, a) \<in> ((edges us)\<inverse>)\<^sup>*" "(j, b) \<in> ((edges us)\<inverse>)\<^sup>*"
    by (auto simp: below_def rtrancl_converse)
  moreover have "single_valued ((edges us)\<inverse>)"
    using edges_unique_parent [OF units_okD(1) [OF ok]] by (auto simp: single_valued_def)
  ultimately have "(a, b) \<in> ((edges us)\<inverse>)\<^sup>* \<or> (b, a) \<in> ((edges us)\<inverse>)\<^sup>*"
    using single_valued_confluent by metis
  then have "(b, a) \<in> (edges us)\<^sup>+ \<or> (a, b) \<in> (edges us)\<^sup>+"
    using assms(4) by (auto simp: rtrancl_converse rtrancl_eq_or_trancl)
  moreover have "at_rank us (Suc r) a" "at_rank us (Suc r) b"
    using edge_rank [OF ok _ p] a b by blast+
  ultimately show False
    using trancl_rank [OF ok] at_rank_unique [OF units_okD(1) [OF ok]] by (metis less_irrefl)
qed

lemma set_ordered_children: "set (ordered_children d u) = {c \<in> set (d_org_units d). o_parent_id c = Some (o_id u)}"
  by (auto simp: ordered_children_def)

lemma distinct_units: "uniq_ids o_id us \<Longrightarrow> distinct us"
  by (simp add: uniq_ids_def distinct_map)

lemma build_node_spec:
  assumes ok: "units_ok (d_org_units d)" and "u \<in> set (d_org_units d)" and "3 - tier_rank (o_tier u) \<le> fuel"
  shows "\<exists>n. build_node fuel d f u = Some n \<and> n_unit n = u \<and> n_direct n = f (o_id u) \<and>
    n_total n = (\<Sum>i \<in> below (d_org_units d) (o_id u). f i)"
  using assms(2,3)
proof (induction fuel arbitrary: u)
  case 0
  then show ?case
    by (simp add: tier_rank_def split: if_splits)
next
  case (Suc fuel)
  let ?us = "d_org_units d" and ?cs = "ordered_children d u"
  let ?S = "\<lambda>i. \<Sum>j \<in> below ?us i. f j"
  have rk: "at_rank ?us (tier_rank (o_tier u)) (o_id u)"
    using Suc.prems(1) by (auto simp: at_rank_def)
  have "\<exists>n. build_node fuel d f c = Some n \<and> n_unit n = c \<and> n_total n = ?S (o_id c)" if "c \<in> set ?cs" for c
  proof -
    have c: "c \<in> set ?us" "o_parent_id c = Some (o_id u)"
      using that by (auto simp: set_ordered_children)
    obtain par where par: "get_row o_id ?us (o_id u) = Some par" "tier_rank (o_tier c) = Suc (tier_rank (o_tier par))"
      using child_rank [OF units_okD(2) [OF ok c(1)] c(2)] by blast
    then have "par = u"
      using get_row_in [OF units_okD(1) [OF ok] Suc.prems(1)] by simp
    then show ?thesis
      using Suc.IH [OF c(1)] Suc.prems(2) par(2) by fastforce
  qed
  then obtain g where g: "\<And>c. c \<in> set ?cs \<Longrightarrow> build_node fuel d f c = Some (g c) \<and> n_total (g c) = ?S (o_id c)"
    by metis
  have "sum_list (map n_total (map g ?cs)) = (\<Sum>c \<leftarrow> ?cs. ?S (o_id c))"
    using g by (simp cong: map_cong)
  also have "\<dots> = (\<Sum>c \<in> set ?cs. ?S (o_id c))"
    using distinct_units [OF units_okD(1) [OF ok]]
    by (intro sum_list_distinct_conv_sum_set) (simp add: ordered_children_def)
  also have "\<dots> = (\<Sum>i \<in> o_id ` set ?cs. ?S i)"
    using units_okD(1) [OF ok]
    by (subst sum.reindex) (auto simp: set_ordered_children uniq_ids_def distinct_map inj_on_def)
  also have "o_id ` set ?cs = {c. (o_id u, c) \<in> edges ?us}"
    by (auto simp: set_ordered_children edges_def)
  also have "(\<Sum>i \<in> {c. (o_id u, c) \<in> edges ?us}. ?S i) = (\<Sum>j \<in> (\<Union>c \<in> {c. (o_id u, c) \<in> edges ?us}. below ?us c). f j)"
    using siblings_disjoint [OF ok _ _ _ rk] finite_below finite_children
    by (subst sum.UNION_disjoint) auto
  finally have kids: "sum_list (map n_total (map g ?cs)) =
      (\<Sum>j \<in> (\<Union>c \<in> {c. (o_id u, c) \<in> edges ?us}. below ?us c). f j)" .
  have fresh: "o_id u \<notin> (\<Union>c \<in> {c. (o_id u, c) \<in> edges ?us}. below ?us c)"
    using no_self_descendant [OF ok rk] by (auto simp: below_def dest: rtrancl_into_trancl2)
  have "?S (o_id u) = f (o_id u) + sum_list (map n_total (map g ?cs))"
    unfolding kids by (subst below_unfold, subst sum.insert)
      (use fresh finite_below finite_children in \<open>auto intro!: finite_UN_I\<close>)
  moreover have "those (map (build_node fuel d f) ?cs) = Some (map g ?cs)"
    by (rule those_map_Some) (simp add: g)
  ultimately show ?case
    by simp
qed

section \<open>Paths\<close>

fun chain_from :: "org_unit list \<Rightarrow> int option \<Rightarrow> org_unit list \<Rightarrow> bool" where
  \<comment> \<open>each node of the list is a child of the one before it\<close>
  "chain_from us p [] = True"
| "chain_from us p (u # l) = (u \<in> set us \<and> o_parent_id u = p \<and> chain_from us (Some (o_id u)) l)"

lemma chain_from_append: "chain_from us p (xs @ ys) \<longleftrightarrow> chain_from us p xs \<and>
    chain_from us (if xs = [] then p else Some (o_id (last xs))) ys"
  by (induction xs arbitrary: p) auto

lemma path_loop_spec:
  assumes ok: "units_ok (d_org_units d)" and "u \<in> set (d_org_units d)"
  shows "\<exists>pre. path_loop d chain u = Some (pre @ u # chain) \<and> length pre = tier_rank (o_tier u) \<and>
    chain_from (d_org_units d) None (pre @ [u]) \<and> (\<forall>v \<in> set pre. o_tenant_id v = o_tenant_id u)"
  using assms(2)
proof (induction "tier_rank (o_tier u)" arbitrary: u chain)
  case 0
  then have "o_parent_id u = None"
    using child_rank units_okD(2) [OF ok 0(2)] by (metis nat.distinct(1) not_Some_eq)
  then show ?case
    using 0 by (subst path_loop.simps) simp
next
  case (Suc k)
  then have "PARENT_TIER (o_tier u) \<noteq> None"
    using units_okD(2) [OF ok Suc(3)] by (auto simp: tier_rank_def PARENT_TIER_def parent_ok_def TIERS_def split: if_splits)
  then obtain p where p: "o_parent_id u = Some p"
    using units_okD(2) [OF ok Suc(3)] by (auto simp: parent_ok_def split: option.splits)
  obtain par where par: "get_row o_id (d_org_units d) p = Some par" "o_tenant_id par = o_tenant_id u"
      "tier_rank (o_tier u) = Suc (tier_rank (o_tier par))"
    using child_rank [OF units_okD(2) [OF ok Suc(3)] p] by blast
  have "par \<in> set (d_org_units d)" "o_id par = p"
    using get_row_SomeD [OF par(1)] by auto
  moreover have "k = tier_rank (o_tier par)"
    using Suc(2) par(3) by simp
  ultimately obtain pre where pre: "path_loop d (u # chain) par = Some (pre @ par # u # chain)"
      "length pre = tier_rank (o_tier par)" "chain_from (d_org_units d) None (pre @ [par])"
      "\<forall>v \<in> set pre. o_tenant_id v = o_tenant_id par"
    using Suc(1) by blast
  have "path_loop d chain u = Some ((pre @ [par]) @ u # chain)"
    using p par(1) pre(1) by (subst path_loop.simps) simp
  moreover have "chain_from (d_org_units d) None ((pre @ [par]) @ [u])"
    using pre(3) p Suc(3) \<open>o_id par = p\<close> by (simp add: chain_from_append)
  ultimately show ?case
    using pre(2,4) par(2,3) by (intro exI [of _ "pre @ [par]"]) auto
qed

lemma py_lower_sql_lower: "py_lower (sql_lower s) = py_lower s"
proof -
  have "lower_char (let n = code_point c in if 65 \<le> n \<and> n \<le> 90 then char_of (n + 32) else c) = lower_char c" for c
    by (auto simp: lower_char_def Let_def)
  then show ?thesis
    by (simp add: py_lower_def sql_lower_def)
qed

definition plain_name :: "string \<Rightarrow> bool" where
  \<comment> \<open>no upper-case letter outside ASCII, no slash\<close>
  "plain_name n \<longleftrightarrow> sql_lower n = py_lower n \<and> CHR ''/'' \<notin> set n"

lemma walk_path_chain:
  assumes ok: "units_ok (d_org_units d)"
  shows "chain_from (d_org_units d) p us \<Longrightarrow> \<forall>v \<in> set us. o_tenant_id v = t \<and> plain_name (o_name v) \<Longrightarrow>
    walk_path d (Some t) p (map o_name us) node = Inr (if us = [] then node else Some (last us))"
proof (induction us arbitrary: p node)
  case (Cons v us)
  let ?P = "\<lambda>u. sql_lower (o_name u) = py_lower (o_name v) \<and> o_parent_id u = p"
  have v: "v \<in> set (d_org_units d)" "o_parent_id v = p" "o_tenant_id v = t" "sql_lower (o_name v) = py_lower (o_name v)"
    using Cons.prems by (auto simp: plain_name_def)
  have "filter (\<lambda>u. o_tenant_id u = t \<and> ?P u) (d_org_units d) = [v]"
  proof (rule filter_unique)
    fix w assume w: "w \<in> set (d_org_units d)" "o_tenant_id w = t \<and> ?P w"
    then have "py_lower (o_name w) = py_lower (o_name v)"
      using py_lower_sql_lower [of "o_name w"] by simp
    moreover have "same_level w v"
      using w(2) v by (simp add: same_level_def)
    ultimately have "o_id w = o_id v"
      using units_okD(4) [OF ok] w(1) v(1) unfolding siblings_ok_def by blast
    then show "w = v"
      using get_row_in [OF units_okD(1) [OF ok]] w(1) v(1) by (metis option.inject)
  qed (use v distinct_units [OF units_okD(1) [OF ok]] in auto)
  then have "where_opt (tenant_clause o_tenant_id (Some t)) (filter ?P (d_org_units d)) = [v]"
    by (simp add: conj_commute)
  then show ?case
    using Cons by simp
qed simp

lemma path_parts_join:
  assumes "\<forall>n \<in> set ns. n \<noteq> [] \<and> py_strip n = n \<and> CHR ''/'' \<notin> set n"
  shows "path_parts (join_with '' / '' ns) = ns \<and> (ns \<noteq> [] \<longrightarrow> path_parts ('' '' @ join_with '' / '' ns) = ns)"
  using assms
proof (induction ns rule: induct_list012)
  case (2 x)
  then show ?case
    using py_strip_pad(1) [of x] by (simp add: path_parts_def split_on_no_sep)
next
  case (3 x y ys)
  let ?rest = "'' '' @ join_with '' / '' (y # ys)"
  have x: "x \<noteq> []" "py_strip x = x" "CHR ''/'' \<notin> set x"
    using 3(3) by auto
  have rest: "path_parts ?rest = y # ys"
    using 3 by simp
  have "split_on CHR ''/'' ((x @ '' '') @ CHR ''/'' # ?rest) = (x @ '' '') # split_on CHR ''/'' ?rest"
    and "split_on CHR ''/'' (('' '' @ x @ '' '') @ CHR ''/'' # ?rest) = ('' '' @ x @ '' '') # split_on CHR ''/'' ?rest"
    using x(3) by ((intro split_on_append, simp)+)
  then show ?case
    using py_strip_pad(2,3) [OF x(2,1)] x(1) rest by (simp add: path_parts_def)
qed (simp add: path_parts_def)

section \<open>Properties\<close>

text \<open>C11: The organisation routes keep the tree: after creating, renaming or deleting a unit, every
  unit still has a known tier, an application has no parent and any other unit a parent of the tier
  right above in its own tenant, siblings differ in name (case-insensitively) and in slug, and names
  and slugs are well formed. Deleting always returns.\<close>

theorem org_routes_keep_tree:
  assumes "units_ok (d_org_units d)"
  shows "units_ok (d_org_units (snd (create_unit_route name tier pid desc s d))) \<and>
    units_ok (d_org_units (snd (edit_unit_route i name desc s d))) \<and>
    (\<exists>r d'. delete_unit_route i s d = Some (r, d') \<and> units_ok (d_org_units d'))"
proof (intro conjI)
  show "units_ok (d_org_units (snd (create_unit_route name tier pid desc s d)))"
    using assms create_unit_ok [OF assms]
    by (auto simp: create_unit_route_def split: on_ok_split sum.split prod.split)
  have "n \<in> set (d_org_units d)" if "get_unit d i t = Some n" for n t
    using that by (auto simp: org.getr_iff dest: get_row_SomeD)
  then show "units_ok (d_org_units (snd (edit_unit_route i name desc s d)))"
    using assms update_unit_ok [OF assms]
    by (simp add: edit_unit_route_def split: on_ok_split sum.split prod.split option.split) blast
  show "\<exists>r d'. delete_unit_route i s d = Some (r, d') \<and> units_ok (d_org_units d')"
  proof (cases "require_operator ''/applications/units/delete'' s d")
    case (Inl r)
    then show ?thesis
      using assms by (simp add: delete_unit_route_def)
  next
    case (Inr u)
    show ?thesis
    proof (cases "get_unit d i (active_tenant_id s u)")
      case None
      then show ?thesis
        using assms Inr by (simp add: delete_unit_route_def)
    next
      case (Some n)
      then have n: "n \<in> set (d_org_units d)"
        by (auto simp: org.getr_iff dest: get_row_SomeD)
      then show ?thesis
        using subtree_ids_spec [OF assms n] delete_unit_ok [OF assms n] Inr Some
        by (auto simp: delete_unit_route_def)
    qed
  qed
qed

definition demo_unit :: "int \<Rightarrow> string \<Rightarrow> string \<Rightarrow> int option \<Rightarrow> org_unit" where
  "demo_unit i name tier p = \<lparr>o_id = i, o_name = name, o_tenant_id = 1, o_slug = org_slugify name, o_tier = tier,
     o_description = None, o_parent_id = p, o_created_at = 0, o_updated_at = 0\<rparr>"

definition demo_org_db :: db where
  "demo_org_db = demo_db\<lparr>d_org_units := [demo_unit 1 ''Shop'' ''application'' None,
     demo_unit 2 ''Prod'' ''environment'' (Some 1), demo_unit 3 ''EU'' ''unit'' (Some 2)]\<rparr>"

lemma demo_units_ok: "units_ok (d_org_units demo_org_db)"
  by code_simp

theorem org_routes_keep_tree_witness:
  "map o_slug (d_org_units (snd (create_unit_route ''shop!'' ''application'' [] [] (demo_session 1) demo_org_db)))
     = [''shop'', ''prod'', ''eu'', ''shop-2'']
   \<and> units_ok (d_org_units (snd (create_unit_route ''shop!'' ''application'' [] [] (demo_session 1) demo_org_db)))"
proof
  show "units_ok (d_org_units (snd (create_unit_route ''shop!'' ''application'' [] [] (demo_session 1) demo_org_db)))"
    using org_routes_keep_tree [OF demo_units_ok] by blast
qed code_simp

text \<open>Deleting a unit removes exactly the unit and its descendants, and detaches exactly the
  hosts, credentials and pipelines that sat on a removed unit; every other row is as it was.\<close>

theorem delete_unit_exact:
  assumes "units_ok (d_org_units d)" and "u \<in> set (d_org_units d)"
  shows "\<exists>ids d'. subtree_ids d u = Some ids \<and> distinct ids \<and> set ids = below (d_org_units d) (o_id u) \<and>
    delete_unit d u = Some d' \<and>
    d_org_units d' = filter (\<lambda>v. o_id v \<notin> set ids) (d_org_units d) \<and>
    d_hosts d' = map (\<lambda>h. if h_org_unit_id h \<in> Some ` set ids then h\<lparr>h_org_unit_id := None\<rparr> else h) (d_hosts d) \<and>
    d_credentials d' = map (\<lambda>c. if c_org_unit_id c \<in> Some ` set ids then c\<lparr>c_org_unit_id := None\<rparr> else c) (d_credentials d) \<and>
    d_pipelines d' = map (\<lambda>p. if p_org_unit_id p \<in> Some ` set ids then p\<lparr>p_org_unit_id := None\<rparr> else p) (d_pipelines d)"
proof -
  obtain ids where i: "subtree_ids d u = Some ids" "distinct ids" "set ids = below (d_org_units d) (o_id u)"
    using subtree_ids_spec [OF assms] by (auto simp: below_def)
  have n: "null_if (\<lambda>i. i \<in> set ids) v = (if v \<in> Some ` set ids then None else v)" for v
    by (auto simp: null_if_def split: option.splits)
  let ?d = "fk_delete_org_units (\<lambda>i. i \<in> set ids) d"
  have "delete_unit d u = Some ?d"
    using i(1) by (simp add: delete_unit_def)
  moreover have "d_org_units ?d = filter (\<lambda>v. o_id v \<notin> set ids) (d_org_units d)"
    by (simp add: fk_delete_org_units_def del_rows_def)
  moreover have "d_hosts ?d = map (\<lambda>h. if h_org_unit_id h \<in> Some ` set ids then h\<lparr>h_org_unit_id := None\<rparr> else h) (d_hosts d)"
    by (simp add: fk_delete_org_units_def n)
  moreover have "d_credentials ?d = map (\<lambda>c. if c_org_unit_id c \<in> Some ` set ids then c\<lparr>c_org_unit_id := None\<rparr> else c) (d_credentials d)"
    by (simp add: fk_delete_org_units_def n)
  moreover have "d_pipelines ?d = map (\<lambda>p. if p_org_unit_id p \<in> Some ` set ids then p\<lparr>p_org_unit_id := None\<rparr> else p) (d_pipelines d)"
    by (simp add: fk_delete_org_units_def n)
  ultimately show ?thesis
    using i by blast
qed

theorem delete_unit_exact_witness:
  "\<exists>d'. delete_unit demo_org_db (demo_unit 2 ''Prod'' ''environment'' (Some 1)) = Some d' \<and>
     map o_id (d_org_units d') = [1]"
proof -
  have "demo_unit 2 ''Prod'' ''environment'' (Some 1) \<in> set (d_org_units demo_org_db)"
    by (simp add: demo_org_db_def)
  from delete_unit_exact [OF demo_units_ok this] obtain d' where
    "delete_unit demo_org_db (demo_unit 2 ''Prod'' ''environment'' (Some 1)) = Some d'"
    by blast
  moreover have "map_option (\<lambda>d. map o_id (d_org_units d))
      (delete_unit demo_org_db (demo_unit 2 ''Prod'' ''environment'' (Some 1))) = Some [1]"
    by code_simp
  ultimately show ?thesis
    by simp
qed

text \<open>C12: The tree page is right: it returns one node per application the caller may see, in name
  order, and the total on each node is the number of rows placed on any unit of its subtree, each
  counted once.\<close>

theorem build_tree_totals:
  assumes "units_ok (d_org_units d)"
  shows "\<exists>ns. build_tree d tid (Some direct) = Some ns \<and> map n_unit ns = list_applications d tid \<and>
    (\<forall>n \<in> set ns. \<exists>ids. subtree_ids d (n_unit n) = Some ids \<and> n_direct n = direct (o_id (n_unit n)) \<and>
       n_total n = sum_list (map direct ids))"
proof -
  let ?b = "build_node (length (d_org_units d) + 3) d direct"
  have app: "u \<in> set (d_org_units d)" if "u \<in> set (list_applications d tid)" for u
    using that by (simp add: list_applications_def)
  have "\<exists>n. ?b u = Some n \<and> n_unit n = u \<and> n_direct n = direct (o_id u) \<and>
      n_total n = (\<Sum>i \<in> below (d_org_units d) (o_id u). direct i)" if "u \<in> set (d_org_units d)" for u
    by (rule build_node_spec [OF assms that]) simp
  then obtain g where g: "\<And>u. u \<in> set (list_applications d tid) \<Longrightarrow> ?b u = Some (g u) \<and> n_unit (g u) = u \<and>
      n_direct (g u) = direct (o_id u) \<and> n_total (g u) = (\<Sum>i \<in> below (d_org_units d) (o_id u). direct i)"
    using app by metis
  have "build_tree d tid (Some direct) = Some (map g (list_applications d tid))"
    using g by (simp add: build_tree_def those_map_Some del: build_node.simps)
  moreover have "map n_unit (map g (list_applications d tid)) = list_applications d tid"
    using g by (simp add: map_idI)
  moreover have "\<exists>ids. subtree_ids d u = Some ids \<and> n_total (g u) = sum_list (map direct ids)"
    if "u \<in> set (list_applications d tid)" for u
    using subtree_ids_spec [OF assms app [OF that]] g [OF that]
    by (auto simp: sum_list_distinct_conv_sum_set below_def)
  ultimately show ?thesis
    using g by (intro exI [of _ "map g (list_applications d tid)"]) auto
qed

definition demo_host :: "int \<Rightarrow> int \<Rightarrow> int option \<Rightarrow> host" where
  "demo_host i t org = \<lparr>h_id = i, h_name = ''h'' @ str_int i, h_tenant_id = t, h_hostname = ''h'', h_port = 22,
     h_protocol = ''ssh'', h_description = None, h_credential_id = None, h_jump_host_id = None,
     h_is_jumpbox = False, h_source_module = None, h_ft_method = None, h_ft_port = None,
     h_ft_credential_id = None, h_org_unit_id = org, h_created_at = 0, h_updated_at = 0\<rparr>"

definition demo_org_hosts :: db where
  "demo_org_hosts = demo_org_db\<lparr>d_hosts := [demo_host 1 1 (Some 1), demo_host 2 1 (Some 3), demo_host 3 1 (Some 3),
     demo_host 4 1 None]\<rparr>"

theorem build_tree_totals_witness:
  "\<exists>ns. build_tree demo_org_hosts (Some 1) (Some (direct_host_counts demo_org_hosts (Some 1))) = Some ns \<and>
     map n_total ns = [3]"
proof -
  have "units_ok (d_org_units demo_org_hosts)"
    by code_simp
  from build_tree_totals [OF this, of "Some 1" "direct_host_counts demo_org_hosts (Some 1)"] obtain ns where
    ns: "build_tree demo_org_hosts (Some 1) (Some (direct_host_counts demo_org_hosts (Some 1))) = Some ns"
    by blast
  have "map_option (map n_total)
      (build_tree demo_org_hosts (Some 1) (Some (direct_host_counts demo_org_hosts (Some 1)))) = Some [3]"
    by code_simp
  then show ?thesis
    by (simp add: ns)
qed

text \<open>Paths round-trip: \<open>OrgUnit.path\<close> always ends, lists one node per tier from the root
  application down to the unit, all in its tenant; and looking the printed path up again with
  \<open>get_by_path\<close> finds that very unit, provided the names have no slash and no upper-case
  letter outside ASCII.\<close>

theorem path_round_trip:
  assumes "units_ok (d_org_units d)" and "u \<in> set (d_org_units d)"
  shows "\<exists>p. unit_path d u = Some p \<and> length p = tier_rank (o_tier u) + 1 \<and> last p = u \<and>
    (\<forall>v \<in> set p. v \<in> set (d_org_units d) \<and> o_tenant_id v = o_tenant_id u) \<and>
    ((\<forall>v \<in> set p. plain_name (o_name v)) \<longrightarrow>
       path_str d u = Some (join_with '' / '' (map o_name p)) \<and>
       get_by_path d (join_with '' / '' (map o_name p)) (Some (o_tenant_id u)) = Inr (Some u))"
proof -
  obtain pre where pre: "unit_path d u = Some (pre @ [u])" "length pre = tier_rank (o_tier u)"
      "chain_from (d_org_units d) None (pre @ [u])" "\<forall>v \<in> set pre. o_tenant_id v = o_tenant_id u"
    using path_loop_spec [OF assms, of "[]"] by (auto simp: unit_path_def)
  let ?p = "pre @ [u]"
  have "v \<in> set (d_org_units d)" if "chain_from (d_org_units d) q l" "v \<in> set l" for v q l
    using that by (induction l arbitrary: q) auto
  then have mem: "\<forall>v \<in> set ?p. v \<in> set (d_org_units d)"
    using pre(3) by blast
  have "get_by_path d (join_with '' / '' (map o_name ?p)) (Some (o_tenant_id u)) = Inr (Some u)"
    if plain: "\<forall>v \<in> set ?p. plain_name (o_name v)"
  proof -
    have "\<forall>n \<in> set (map o_name ?p). n \<noteq> [] \<and> py_strip n = n \<and> CHR ''/'' \<notin> set n"
      using plain mem units_okD(3) [OF assms(1)] by (auto simp: plain_name_def name_ok_def)
    from path_parts_join [OF this] have "path_parts (join_with '' / '' (map o_name ?p)) = map o_name ?p" ..
    moreover have "walk_path d (Some (o_tenant_id u)) None (map o_name ?p) None = Inr (Some u)"
      using walk_path_chain [OF assms(1) pre(3), of "o_tenant_id u" None] plain pre(4) by simp
    ultimately show ?thesis
      by (simp add: get_by_path_def)
  qed
  then show ?thesis
    using pre mem by (intro exI [of _ ?p]) (auto simp: path_str_def)
qed

theorem path_round_trip_witness:
  "get_by_path demo_org_db ''Shop / Prod / EU'' (Some 1) = Inr (Some (demo_unit 3 ''EU'' ''unit'' (Some 2)))"
proof -
  let ?u = "demo_unit 3 ''EU'' ''unit'' (Some 2)"
  let ?p = "[demo_unit 1 ''Shop'' ''application'' None, demo_unit 2 ''Prod'' ''environment'' (Some 1), ?u]"
  have u: "?u \<in> set (d_org_units demo_org_db)"
    by (simp add: demo_org_db_def)
  have p: "unit_path demo_org_db ?u = Some ?p"
    by code_simp
  have plain: "\<forall>v \<in> set ?p. plain_name (o_name v)"
    by code_simp
  have str: "join_with '' / '' (map o_name ?p) = ''Shop / Prod / EU''" "o_tenant_id ?u = 1"
    by (simp_all add: demo_unit_def)
  from path_round_trip [OF demo_units_ok u] obtain q where q: "unit_path demo_org_db ?u = Some q"
    and r: "(\<forall>v \<in> set q. plain_name (o_name v)) \<longrightarrow> path_str demo_org_db ?u = Some (join_with '' / '' (map o_name q)) \<and>
       get_by_path demo_org_db (join_with '' / '' (map o_name q)) (Some (o_tenant_id ?u)) = Inr (Some ?u)"
    by blast
  have "q = ?p"
    using p q by (metis option.inject)
  then have "get_by_path demo_org_db (join_with '' / '' (map o_name ?p)) (Some (o_tenant_id ?u)) = Inr (Some ?u)"
    using r plain by blast
  then show ?thesis
    unfolding str .
qed

text \<open>The look-up is case-insensitive for ASCII only: SQLite's \<open>lower()\<close> leaves accented
  capitals alone while Python's folds the search term, so a top-level unit whose name has one is not
  found by its own name.\<close>

theorem get_by_path_misses_accented_capitals:
  assumes "sql_lower (o_name u) \<noteq> py_lower (o_name u)" and "path_parts (o_name u) = [o_name u]"
  shows "get_by_path d (o_name u) tid \<noteq> Inr (Some u)"
proof
  let ?l = "where_opt (tenant_clause o_tenant_id tid)
      (filter (\<lambda>v. sql_lower (o_name v) = py_lower (o_name u) \<and> o_parent_id v = None) (d_org_units d))"
  assume "get_by_path d (o_name u) tid = Inr (Some u)"
  then have "?l = [u]"
    using assms(2) by (simp add: get_by_path_def split: list.split_asm)
  then have "u \<in> set ?l"
    by (simp only: list.set_intros)
  then show False
    using assms(1) by auto
qed

theorem get_by_path_misses_accented_capitals_witness:
  "get_by_path (demo_db\<lparr>d_org_units := [demo_unit 1 [CHR 0xC9] ''application'' None]\<rparr>) [CHR 0xC9] (Some 1)
     \<noteq> Inr (Some (demo_unit 1 [CHR 0xC9] ''application'' None))"
proof -
  have "sql_lower (o_name (demo_unit 1 [CHR 0xC9] ''application'' None)) \<noteq> py_lower (o_name (demo_unit 1 [CHR 0xC9] ''application'' None))"
    by code_simp
  moreover have "path_parts (o_name (demo_unit 1 [CHR 0xC9] ''application'' None)) = [o_name (demo_unit 1 [CHR 0xC9] ''application'' None)]"
    by code_simp
  ultimately show ?thesis
    using get_by_path_misses_accented_capitals [of "demo_unit 1 [CHR 0xC9] ''application'' None"]
    by (simp add: demo_unit_def)
qed

end
