(* ===== verification/Dosm_Hosts.thy ===== *)
theory Dosm_Hosts
  imports Dosm_Org
begin

text \<open>
  The host inventory: \<open>dosm/hosts/repo.py\<close> and the create, update, delete, assign and
  detail handlers of \<open>dosm/hosts/routes.py\<close>. Cross-row rules (a jump host is a jumpbox of the
  same tenant and jumps nowhere itself, pinned credentials and org units are of the host's tenant)
  exist only in this code; the invariant \<open>hosts_ok\<close> states them, and the end of the jump walk
  and the tenant isolation of connections rest on it.
\<close>

section \<open>Reads\<close>

definition SUPPORTED_PROTOCOLS :: "string list" where
  "SUPPORTED_PROTOCOLS = [''ssh'', ''rdp'', ''vnc'']"

definition FILE_TRANSFER_METHODS :: "string list" where
  "FILE_TRANSFER_METHODS = [''sftp'', ''ftp'', ''ftps'']"

definition JUMP_CHAIN_MAX_DEPTH :: nat where
  "JUMP_CHAIN_MAX_DEPTH = 5"

definition normalize_tags :: "string \<Rightarrow> string list" where
  \<comment> \<open>\<open>sorted({t.strip() for t in raw.split(",") if t.strip()})\<close>\<close>
  "normalize_tags raw = sort (remdups (filter (\<lambda>t. t \<noteq> []) (map py_strip (split_on CHR '','' raw))))"

definition get_or_create_tag :: "db \<Rightarrow> string \<Rightarrow> int \<Rightarrow> tag \<times> db" where
  "get_or_create_tag d name tid = (case find (\<lambda>t. tg_name t = name \<and> tg_tenant_id t = tid) (d_tags d) of
     Some t \<Rightarrow> (t, d)
   | None \<Rightarrow> (let t = \<lparr>tg_id = next_id tg_id (d_tags d), tg_name = name, tg_tenant_id = tid\<rparr>
              in (t, d\<lparr>d_tags := d_tags d @ [t]\<rparr>)))"

definition org_subtree_ids :: "db \<Rightarrow> int \<Rightarrow> int list option" where
  "org_subtree_ids d i = subtree_loop d [i] [i]"

definition kind_ok :: "string option \<Rightarrow> host \<Rightarrow> bool" where
  "kind_ok kind h = (if kind = Some ''jumpboxes'' then h_is_jumpbox h
     else if kind = Some ''servers'' then \<not> h_is_jumpbox h else True)"

definition tagged :: "db \<Rightarrow> string \<Rightarrow> host \<Rightarrow> bool" where
  "tagged d name h = (\<exists>x \<in> set (d_host_tags d). ht_host_id x = h_id h \<and>
     (\<exists>t \<in> set (d_tags d). tg_id t = ht_tag_id x \<and> tg_name t = name))"

definition list_hosts :: "db \<Rightarrow> int option \<Rightarrow> string option \<Rightarrow> string option \<Rightarrow> int option \<Rightarrow> host list option" where
  "list_hosts d tid kind tag org =
     (let base = filter (kind_ok kind) (where_opt (tenant_clause h_tenant_id tid) (d_hosts d));
          by_tag = (case tag of None \<Rightarrow> base | Some t \<Rightarrow> if t = [] then base else filter (tagged d t) base)
      in case org of None \<Rightarrow> Some (sort_key h_name by_tag)
         | Some o' \<Rightarrow> map_option (\<lambda>ids. sort_key h_name (filter (\<lambda>h. h_org_unit_id h \<in> Some ` set ids) by_tag))
             (org_subtree_ids d o'))"

definition count_by_kind :: "db \<Rightarrow> int option \<Rightarrow> nat \<times> nat" where
  "count_by_kind d tid = (let rows = map h_is_jumpbox (where_opt (tenant_clause h_tenant_id tid) (d_hosts d));
       jumpboxes = length (filter (\<lambda>v. v) rows)
     in (length rows - jumpboxes, jumpboxes))"

definition get_host :: "db \<Rightarrow> int \<Rightarrow> int option \<Rightarrow> host option" where
  "get_host d i tid = (case get_row h_id (d_hosts d) i of None \<Rightarrow> None
     | Some h \<Rightarrow> if tid \<noteq> None \<and> tid \<noteq> Some (h_tenant_id h) then None else Some h)"

interpretation hst: scoped_get d_hosts h_id h_tenant_id get_host
proof
  fix d i tid r
  show "get_host d i tid = Some r \<Longrightarrow> get_row h_id (d_hosts d) i = Some r \<and> in_scope tid (h_tenant_id r)"
    by (auto simp: get_host_def in_scope_def split: option.splits if_splits)
  show "get_row h_id (d_hosts d) i = Some r \<Longrightarrow> in_scope tid (h_tenant_id r) \<Longrightarrow> get_host d i tid = Some r"
    by (auto simp: get_host_def in_scope_def split: option.splits)
qed

definition list_tags :: "db \<Rightarrow> int option \<Rightarrow> tag list" where
  "list_tags d tid = sort_key tg_name (where_opt (tenant_clause tg_tenant_id tid)
     (filter (\<lambda>t. tg_id t \<in> ht_tag_id ` set (d_host_tags d)) (d_tags d)))"

definition list_jump_candidates :: "db \<Rightarrow> int option \<Rightarrow> int option \<Rightarrow> host list" where
  "list_jump_candidates d tid exclude = sort_key h_name (filter (\<lambda>h. exclude \<noteq> Some (h_id h))
     (where_opt (tenant_clause h_tenant_id tid) (filter h_is_jumpbox (d_hosts d))))"

section \<open>Validation\<close>

datatype host_error = Host_Validation string | Host_Integrity string

fun jump_loop :: "nat \<Rightarrow> db \<Rightarrow> int option \<Rightarrow> int list \<Rightarrow> int option \<Rightarrow> host_error + unit" where
  \<comment> \<open>the loop of \<open>_validate_jump\<close>; the counter is what \<open>depth\<close> has left until it
    exceeds \<open>JUMP_CHAIN_MAX_DEPTH\<close>\<close>
  "jump_loop n d tid seen None = Inr ()"
| "jump_loop 0 d tid seen (Some cur) =
     Inl (Host_Validation (''jump chain exceeds max depth '' @ str_nat JUMP_CHAIN_MAX_DEPTH))"
| "jump_loop (Suc n) d tid seen (Some cur) =
     (if cur \<in> set seen then Inl (Host_Validation ''jump chain forms a cycle'')
      else case get_row h_id (d_hosts d) cur of
          None \<Rightarrow> Inl (Host_Validation (''jump host '' @ str_int cur @ '' not found''))
        | Some node \<Rightarrow>
            if tid \<noteq> None \<and> tid \<noteq> Some (h_tenant_id node)
            then Inl (Host_Validation (''jump host '' @ str_int cur @ '' not found''))
            else if \<not> h_is_jumpbox node
            then Inl (Host_Validation (''host '' @ py_repr (h_name node) @ '' is not flagged as a jumpbox''))
            else jump_loop n d tid (cur # seen) (h_jump_host_id node))"

definition validate_jump :: "db \<Rightarrow> int option \<Rightarrow> int option \<Rightarrow> int option \<Rightarrow> host_error + unit" where
  "validate_jump d host_id jump tid =
     (if jump = None then Inr ()
      else if host_id \<noteq> None \<and> jump = host_id
      then Inl (Host_Validation ''a host cannot be its own jump host'')
      else jump_loop (JUMP_CHAIN_MAX_DEPTH + 1) d tid (case host_id of None \<Rightarrow> [] | Some i \<Rightarrow> [i]) jump)"

definition validate_ft :: "string option \<Rightarrow> host_error + string option" where
  "validate_ft m = (let t = py_lower (py_strip (or_default m [])) in
     if t = [] then Inr None
     else if t \<notin> set FILE_TRANSFER_METHODS
     then Inl (Host_Validation (''Unsupported file-transfer method: '' @ py_repr t))
     else Inr (Some t))"

definition validate_org_unit :: "db \<Rightarrow> int option \<Rightarrow> int option \<Rightarrow> host_error + int option" where
  "validate_org_unit d oid tid = (case oid of None \<Rightarrow> Inr None
     | Some i \<Rightarrow> (case get_row o_id (d_org_units d) i of
          None \<Rightarrow> Inl (Host_Validation ''Selected application/environment/unit no longer exists.'')
        | Some u \<Rightarrow> if tid \<noteq> None \<and> tid \<noteq> Some (o_tenant_id u)
            then Inl (Host_Validation ''Selected application/environment/unit no longer exists.'') else Inr oid))"

definition validate_credential :: "db \<Rightarrow> int option \<Rightarrow> int \<Rightarrow> host_error + int option" where
  "validate_credential d cid tid = (case cid of None \<Rightarrow> Inr None
     | Some i \<Rightarrow> (case get_row c_id (d_credentials d) i of
          None \<Rightarrow> Inl (Host_Validation ''Selected credential no longer exists.'')
        | Some c \<Rightarrow> if c_tenant_id c \<noteq> tid
            then Inl (Host_Validation ''Selected credential no longer exists.'') else Inr cid))"

section \<open>Writes\<close>

record host_args =
  ha_name :: string
  ha_hostname :: string
  ha_port :: int
  ha_protocol :: string
  ha_description :: "string option"
  ha_credential_id :: "int option"
  ha_jump_host_id :: "int option"
  ha_tags_csv :: string
  ha_is_jumpbox :: bool
  ha_ft_method :: "string option"
  ha_ft_port :: "int option"
  ha_ft_credential_id :: "int option"
  ha_org_unit_id :: "int option"

fun add_tags :: "int \<Rightarrow> int \<Rightarrow> string list \<Rightarrow> db \<Rightarrow> db" where
  \<comment> \<open>the tag loop of \<open>create_host\<close> and \<open>update_host\<close>\<close>
  "add_tags hid tid [] d = d"
| "add_tags hid tid (n # ns) d = (let (t, d1) = get_or_create_tag d n tid in
     add_tags hid tid ns (d1\<lparr>d_host_tags := d_host_tags d1 @ [\<lparr>ht_host_id = hid, ht_tag_id = tg_id t\<rparr>]\<rparr>))"

definition checked_host :: "db \<Rightarrow> int \<Rightarrow> host_args \<Rightarrow> host_error + host_args" where
  \<comment> \<open>the validations both operations start with, and the arguments they replace\<close>
  "checked_host d tid a =
     (if ha_protocol a \<notin> set SUPPORTED_PROTOCOLS
      then Inl (Host_Validation (''Unsupported protocol: '' @ py_repr (ha_protocol a)))
      else bind_r (validate_ft (ha_ft_method a)) (\<lambda>ft.
        let a1 = a\<lparr>ha_ft_method := ft, ha_ft_port := (if ft = None then None else ha_ft_port a),
                   ha_ft_credential_id := (if ft = None then None else ha_ft_credential_id a)\<rparr>
        in bind_r (validate_org_unit d (ha_org_unit_id a1) (Some tid)) (\<lambda>_.
           bind_r (validate_credential d (ha_credential_id a1) tid) (\<lambda>_.
           bind_r (validate_credential d (ha_ft_credential_id a1) tid) (\<lambda>_. Inr a1)))))"

definition name_conflict :: "db \<Rightarrow> int \<Rightarrow> string \<Rightarrow> int option \<Rightarrow> bool" where
  \<comment> \<open>\<open>uq_host_tenant_name\<close> fails\<close>
  "name_conflict d tid name self =
     (\<exists>h \<in> set (d_hosts d). h_tenant_id h = tid \<and> h_name h = name \<and> self \<noteq> Some (h_id h))"

definition friendly_integrity_error :: string where
  \<comment> \<open>the failing constraint's message names \<open>hosts.name\<close>\<close>
  "friendly_integrity_error = ''A host with that name already exists. Choose a different name.''"

definition fill_host :: "host_args \<Rightarrow> host \<Rightarrow> host" where
  "fill_host a h = h\<lparr>h_name := ha_name a, h_hostname := ha_hostname a, h_port := ha_port a,
     h_protocol := ha_protocol a,
     h_description := (if ha_description a = Some [] then None else ha_description a),
     h_credential_id := ha_credential_id a, h_jump_host_id := ha_jump_host_id a,
     h_is_jumpbox := ha_is_jumpbox a, h_ft_method := ha_ft_method a, h_ft_port := ha_ft_port a,
     h_ft_credential_id := ha_ft_credential_id a, h_org_unit_id := ha_org_unit_id a\<rparr>"

definition drop_jump :: "host_args \<Rightarrow> host_args" where
  \<comment> \<open>\<open>if is_jumpbox: jump_host_id = None\<close>\<close>
  "drop_jump a = (if ha_is_jumpbox a then a\<lparr>ha_jump_host_id := None\<rparr> else a)"

definition blank_host :: "int \<Rightarrow> int \<Rightarrow> string option \<Rightarrow> stamp \<Rightarrow> host" where
  \<comment> \<open>the columns of a new row that the arguments do not set\<close>
  "blank_host i tid src now = \<lparr>h_id = i, h_name = [], h_tenant_id = tid, h_hostname = [], h_port = 22,
     h_protocol = ''ssh'', h_description = None, h_credential_id = None, h_jump_host_id = None,
     h_is_jumpbox = False, h_source_module = src, h_ft_method = None, h_ft_port = None,
     h_ft_credential_id = None, h_org_unit_id = None, h_created_at = now, h_updated_at = now\<rparr>"

definition create_host :: "db \<Rightarrow> int \<Rightarrow> host_args \<Rightarrow> string option \<Rightarrow> host_error + (host \<times> db)" where
  "create_host d tid a0 src =
     bind_r (checked_host d tid a0) (\<lambda>a1. let a = drop_jump a1 in
     bind_r (validate_jump d None (ha_jump_host_id a) (Some tid)) (\<lambda>_.
       if name_conflict d tid (ha_name a) None then Inl (Host_Integrity friendly_integrity_error)
       else let h = fill_host a (blank_host (next_id h_id (d_hosts d)) tid src (d_now d))
            in Inr (h, add_tags (h_id h) tid (normalize_tags (ha_tags_csv a)) (d\<lparr>d_hosts := d_hosts d @ [h]\<rparr>))))"

definition touch_host :: "db \<Rightarrow> (host \<Rightarrow> host) \<Rightarrow> host \<Rightarrow> host" where
  \<comment> \<open>\<open>onupdate=_utcnow\<close> fires when a column changed\<close>
  "touch_host d f h = (if f h = h then h else (f h)\<lparr>h_updated_at := d_now d\<rparr>)"

definition update_host :: "db \<Rightarrow> host \<Rightarrow> host_args \<Rightarrow> host_error + (host \<times> db)" where
  "update_host d h a0 =
     bind_r (checked_host d (h_tenant_id h) a0) (\<lambda>a1. let a = drop_jump a1 in
       if h_is_jumpbox h \<and> \<not> ha_is_jumpbox a \<and> (\<exists>x \<in> set (d_hosts d). h_jump_host_id x = Some (h_id h))
       then Inl (Host_Validation ''cannot unflag - this host is currently used as a jump host by another host'')
       else bind_r (validate_jump d (Some (h_id h)) (ha_jump_host_id a) (Some (h_tenant_id h))) (\<lambda>_.
         if name_conflict d (h_tenant_id h) (ha_name a) (Some (h_id h))
         then Inl (Host_Integrity friendly_integrity_error)
         else let d1 = d\<lparr>d_hosts := upd_row h_id (h_id h) (touch_host d (fill_host a)) (d_hosts d),
                         d_host_tags := del_rows (\<lambda>t. ht_host_id t = h_id h) (d_host_tags d)\<rparr>
              in Inr (touch_host d (fill_host a) h, add_tags (h_id h) (h_tenant_id h) (normalize_tags (ha_tags_csv a)) d1)))"

definition delete_host :: "db \<Rightarrow> host \<Rightarrow> db" where
  "delete_host d h = fk_delete_host (h_id h) d"

partial_function (option) jump_walk :: "db \<Rightarrow> host list \<Rightarrow> int option \<Rightarrow> host list option" where
  "jump_walk d chain cur =
     (case cur of None \<Rightarrow> Some chain
      | Some i \<Rightarrow> (case get_row h_id (d_hosts d) i of None \<Rightarrow> Some chain
          | Some h \<Rightarrow> jump_walk d (h # chain) (h_jump_host_id h)))"

declare jump_walk.simps [code]

definition resolve_jump_chain :: "db \<Rightarrow> host \<Rightarrow> host list option" where
  \<comment> \<open>outermost jump first; \<open>None\<close>: the loop never ends\<close>
  "resolve_jump_chain d h = jump_walk d [] (h_jump_host_id h)"

section \<open>Routes\<close>

record host_form =
  hf_name :: string
  hf_hostname :: string
  hf_port :: int
  hf_protocol :: string
  hf_description :: string
  hf_credential_id :: string
  hf_jump_host_id :: string
  hf_tags :: string
  hf_is_jumpbox :: "string option"
  hf_ft_method :: string
  hf_ft_port :: string
  hf_ft_credential_id :: string
  hf_org_unit_id :: string

definition form_args :: "host_form \<Rightarrow> response + host_args" where
  "form_args f =
     bind_r (parse_int_or_none (hf_credential_id f)) (\<lambda>cred.
     bind_r (parse_int_or_none (hf_jump_host_id f)) (\<lambda>jump.
     bind_r (parse_int_or_none (hf_ft_port f)) (\<lambda>ftp.
     bind_r (parse_int_or_none (hf_ft_credential_id f)) (\<lambda>ftc.
     bind_r (parse_int_or_none (hf_org_unit_id f)) (\<lambda>org.
       Inr \<lparr>ha_name = py_strip (hf_name f), ha_hostname = py_strip (hf_hostname f), ha_port = hf_port f,
            ha_protocol = hf_protocol f, ha_description = or_none (py_strip (hf_description f)),
            ha_credential_id = cred, ha_jump_host_id = jump, ha_tags_csv = hf_tags f,
            ha_is_jumpbox = (hf_is_jumpbox f \<noteq> None), ha_ft_method = or_none (hf_ft_method f),
            ha_ft_port = ftp, ha_ft_credential_id = ftc, ha_org_unit_id = org\<rparr>)))))"

definition host_error_page :: "host_error \<Rightarrow> response" where
  "host_error_page e = (case e of Host_Validation m \<Rightarrow> Page 400 (Some m) | Host_Integrity m \<Rightarrow> Page 400 (Some m))"

definition hosts_create :: "host_form \<Rightarrow> session \<Rightarrow> db \<Rightarrow> response \<times> db" where
  "hosts_create f s d = on_ok (require_operator ''/hosts/new'' s d) d (\<lambda>u.
     on_ok (require_active_tenant s u) d (\<lambda>tid.
     on_ok (form_args f) d (\<lambda>a.
       case create_host d tid a None of Inl e \<Rightarrow> (host_error_page e, d)
       | Inr (h, d1) \<Rightarrow> (Redirect (''/hosts/'' @ str_int (h_id h)),
           add_audit (Some tid) (Some (u_id u)) ''host.create'' (Some (''host:'' @ str_int (h_id h)))
             (Some (''name='' @ h_name h @ '' protocol='' @ h_protocol h @
                (case ha_jump_host_id a of None \<Rightarrow> [] | Some j \<Rightarrow> if j = 0 then [] else '' jump='' @ str_int j)))
             None d1))))"

definition hosts_update :: "int \<Rightarrow> host_form \<Rightarrow> string \<Rightarrow> session \<Rightarrow> db \<Rightarrow> response \<times> db" where
  "hosts_update i f back s d = on_ok (require_operator ''/hosts/edit'' s d) d (\<lambda>u.
     case get_host d i (active_tenant_id s u) of None \<Rightarrow> (HttpError 404 ''Not Found'', d)
     | Some h \<Rightarrow> on_ok (form_args f) d (\<lambda>a.
         case update_host d h a of Inl e \<Rightarrow> (host_error_page e, d)
         | Inr (h', d1) \<Rightarrow> (Redirect (if back = ''list'' then ''/hosts'' else ''/hosts/'' @ str_int i),
             add_audit (Some (h_tenant_id h')) (Some (u_id u)) ''host.update'' (Some (''host:'' @ str_int i))
               None None d1)))"

definition hosts_delete :: "int \<Rightarrow> session \<Rightarrow> db \<Rightarrow> response \<times> db" where
  "hosts_delete i s d = on_ok (require_operator ''/hosts/delete'' s d) d (\<lambda>u.
     case get_host d i (active_tenant_id s u) of None \<Rightarrow> (HttpError 404 ''Not Found'', d)
     | Some h \<Rightarrow> (Redirect ''/inventory'',
         add_audit (Some (h_tenant_id h)) (Some (u_id u)) ''host.delete'' (Some (''host:'' @ str_int i)) None None
           (delete_host d h)))"

definition unit_path_text :: "db \<Rightarrow> int option \<Rightarrow> int \<Rightarrow> string option" where
  \<comment> \<open>\<open>unit.path_str if oid else None\<close>; the walk ends on a sound tree\<close>
  "unit_path_text d oid tenant = (case oid of None \<Rightarrow> None | Some i \<Rightarrow> if i = 0 then None else
     (case get_unit d i (Some tenant) of None \<Rightarrow> None | Some u \<Rightarrow> path_str d u))"

definition hosts_assign_org :: "int \<Rightarrow> string \<Rightarrow> session \<Rightarrow> db \<Rightarrow> response \<times> db" where
  "hosts_assign_org i org_unit_id s d = on_ok (require_operator ''/hosts/assign-org'' s d) d (\<lambda>u.
     case get_host d i (active_tenant_id s u) of None \<Rightarrow> (HttpError 404 ''Not Found'', d)
     | Some h \<Rightarrow> on_ok (parse_int_or_none org_unit_id) d (\<lambda>oid.
         case assign_to_unit d (h_tenant_id h) oid of
           Inl (Org_Validation m) \<Rightarrow> (JsonError 400 m, d)
         | Inl Org_Search_Loops \<Rightarrow> (Crash ''loops'', d)
         | Inr v \<Rightarrow>
             (let path = unit_path_text d v (h_tenant_id h)
              in (JsonOk [(''ok'', JBool True), (''org_unit_id'', case v of None \<Rightarrow> JNull | Some k \<Rightarrow> JInt k),
                          (''path'', case path of None \<Rightarrow> JNull | Some p \<Rightarrow> JStr p)],
                  add_audit (Some (h_tenant_id h)) (Some (u_id u)) ''host.update'' (Some (''host:'' @ str_int i))
                    (Some (''org-assign -> '' @ or_default path ''unassigned'')) None
                    (d\<lparr>d_hosts := upd_row h_id (h_id h)
                         (touch_host d (\<lambda>x. x\<lparr>h_org_unit_id := v\<rparr>)) (d_hosts d)\<rparr>)))))"

definition hosts_detail :: "int \<Rightarrow> session \<Rightarrow> db \<Rightarrow> (response + (host \<times> host list)) option" where
  "hosts_detail i s d = (case require_user ''/hosts'' s d of Inl r \<Rightarrow> Some (Inl r)
     | Inr u \<Rightarrow> (case get_host d i (active_tenant_id s u) of None \<Rightarrow> Some (Inl (HttpError 404 ''Not Found''))
        | Some h \<Rightarrow> map_option (\<lambda>c. Inr (h, c)) (resolve_jump_chain d h)))"

section \<open>The inventory invariant\<close>

definition cred_ref_ok :: "db \<Rightarrow> int \<Rightarrow> int option \<Rightarrow> bool" where
  "cred_ref_ok d t v = (case v of None \<Rightarrow> True | Some i \<Rightarrow>
     (case get_row c_id (d_credentials d) i of None \<Rightarrow> False | Some c \<Rightarrow> c_tenant_id c = t))"

definition org_ref_ok :: "db \<Rightarrow> int \<Rightarrow> int option \<Rightarrow> bool" where
  "org_ref_ok d t v = (case v of None \<Rightarrow> True | Some i \<Rightarrow>
     (case get_row o_id (d_org_units d) i of None \<Rightarrow> False | Some u \<Rightarrow> o_tenant_id u = t))"

definition jump_ref_ok :: "host list \<Rightarrow> host \<Rightarrow> bool" where
  "jump_ref_ok hs h = (case h_jump_host_id h of None \<Rightarrow> True | Some j \<Rightarrow>
     (case get_row h_id hs j of None \<Rightarrow> False
      | Some b \<Rightarrow> h_is_jumpbox b \<and> h_tenant_id b = h_tenant_id h \<and> j \<noteq> h_id h))"

definition ft_ok :: "string option \<Rightarrow> int option \<Rightarrow> int option \<Rightarrow> bool" where
  "ft_ok m port cred = (case m of None \<Rightarrow> port = None \<and> cred = None | Some x \<Rightarrow> x \<in> set FILE_TRANSFER_METHODS)"

definition host_ok :: "db \<Rightarrow> host \<Rightarrow> bool" where
  "host_ok d h \<longleftrightarrow> h_protocol h \<in> set SUPPORTED_PROTOCOLS \<and>
     ft_ok (h_ft_method h) (h_ft_port h) (h_ft_credential_id h) \<and>
     cred_ref_ok d (h_tenant_id h) (h_credential_id h) \<and> cred_ref_ok d (h_tenant_id h) (h_ft_credential_id h) \<and>
     org_ref_ok d (h_tenant_id h) (h_org_unit_id h) \<and> (h_is_jumpbox h \<longrightarrow> h_jump_host_id h = None)"

definition tag_link_ok :: "db \<Rightarrow> host_tag \<Rightarrow> bool" where
  "tag_link_ok d x = (case get_row h_id (d_hosts d) (ht_host_id x) of None \<Rightarrow> False
     | Some h \<Rightarrow> (case get_row tg_id (d_tags d) (ht_tag_id x) of None \<Rightarrow> False
         | Some t \<Rightarrow> tg_tenant_id t = h_tenant_id h))"

lemma ref_ok_iff:
  "cred_ref_ok d t v \<longleftrightarrow> (\<forall>i. v = Some i \<longrightarrow> (\<exists>c. get_row c_id (d_credentials d) i = Some c \<and> c_tenant_id c = t))"
  "org_ref_ok d t v \<longleftrightarrow> (\<forall>i. v = Some i \<longrightarrow> (\<exists>u. get_row o_id (d_org_units d) i = Some u \<and> o_tenant_id u = t))"
  "jump_ref_ok hs h \<longleftrightarrow> (\<forall>j. h_jump_host_id h = Some j \<longrightarrow> (\<exists>b. get_row h_id hs j = Some b \<and> h_is_jumpbox b \<and>
     h_tenant_id b = h_tenant_id h \<and> j \<noteq> h_id h))"
  "tag_link_ok d x \<longleftrightarrow> (\<exists>h t. get_row h_id (d_hosts d) (ht_host_id x) = Some h \<and>
     get_row tg_id (d_tags d) (ht_tag_id x) = Some t \<and> tg_tenant_id t = h_tenant_id h)"
  by (auto simp: cred_ref_ok_def org_ref_ok_def jump_ref_ok_def tag_link_ok_def split: option.splits)

definition tags_ok :: "db \<Rightarrow> bool" where
  "tags_ok d \<longleftrightarrow> uniq_ids tg_id (d_tags d) \<and> distinct (map (\<lambda>t. (tg_tenant_id t, tg_name t)) (d_tags d)) \<and>
     distinct (map (\<lambda>x. (ht_host_id x, ht_tag_id x)) (d_host_tags d)) \<and>
     (\<forall>x \<in> set (d_host_tags d). tag_link_ok d x)"

definition hosts_ok :: "db \<Rightarrow> bool" where
  "hosts_ok d \<longleftrightarrow> uniq_ids h_id (d_hosts d) \<and> distinct (map (\<lambda>h. (h_tenant_id h, h_name h)) (d_hosts d)) \<and>
     (\<forall>h \<in> set (d_hosts d). host_ok d h \<and> jump_ref_ok (d_hosts d) h) \<and> tags_ok d"

lemma hosts_ok_audit [simp]: "hosts_ok (add_audit t a x g e i d) = hosts_ok d"
  by (simp add: hosts_ok_def host_ok_def ref_ok_iff tags_ok_def)

text \<open>The tag loop: it changes the tag tables only, and keeps them sound.\<close>

lemma get_or_create_tag_frame:
  "d_hosts (snd (get_or_create_tag d n t)) = d_hosts d"
  "d_credentials (snd (get_or_create_tag d n t)) = d_credentials d"
  "d_org_units (snd (get_or_create_tag d n t)) = d_org_units d"
  "d_host_tags (snd (get_or_create_tag d n t)) = d_host_tags d"
  by (simp_all add: get_or_create_tag_def Let_def split: option.splits)

lemma add_tags_frame [simp]:
  "d_hosts (add_tags h t ns d) = d_hosts d"
  "d_credentials (add_tags h t ns d) = d_credentials d"
  "d_org_units (add_tags h t ns d) = d_org_units d"
  by (induction ns arbitrary: d) (simp_all add: split_def Let_def get_or_create_tag_frame)

lemma get_or_create_tag_spec:
  assumes "tags_ok d"
  shows "tags_ok (snd (get_or_create_tag d n t))" and "fst (get_or_create_tag d n t) \<in> set (d_tags (snd (get_or_create_tag d n t)))"
    and "tg_name (fst (get_or_create_tag d n t)) = n" and "tg_tenant_id (fst (get_or_create_tag d n t)) = t"
    and "set (d_tags d) \<subseteq> set (d_tags (snd (get_or_create_tag d n t)))"
proof -
  let ?r = "get_or_create_tag d n t"
  have "tags_ok (snd ?r) \<and> fst ?r \<in> set (d_tags (snd ?r)) \<and> tg_name (fst ?r) = n \<and> tg_tenant_id (fst ?r) = t \<and>
    set (d_tags d) \<subseteq> set (d_tags (snd ?r))"
  proof (cases "find (\<lambda>x. tg_name x = n \<and> tg_tenant_id x = t) (d_tags d)")
    case None
    then have "(t, n) \<notin> (\<lambda>x. (tg_tenant_id x, tg_name x)) ` set (d_tags d)"
      by (auto simp: find_None_iff)
    then show ?thesis
      using assms None unfolding tags_ok_def get_or_create_tag_def
      by (auto simp: Let_def uniq_ids_append_new get_row_append ref_ok_iff)
  next
    case (Some x)
    then have "x \<in> set (d_tags d)" "tg_name x = n" "tg_tenant_id x = t"
      by (auto simp: find_Some_iff)
    then show ?thesis
      using assms Some by (simp add: get_or_create_tag_def)
  qed
  then show "tags_ok (snd ?r)" "fst ?r \<in> set (d_tags (snd ?r))" "tg_name (fst ?r) = n" "tg_tenant_id (fst ?r) = t"
    "set (d_tags d) \<subseteq> set (d_tags (snd ?r))"
    by blast+
qed

text \<open>Replacing the host table while dropping some links keeps the tags sound when the hosts of the
  remaining links are still there.\<close>

lemma tags_ok_hosts:
  assumes "tags_ok d"
    and "\<And>x h. x \<in> set (d_host_tags d) \<Longrightarrow> P x \<Longrightarrow> get_row h_id (d_hosts d) (ht_host_id x) = Some h \<Longrightarrow>
      \<exists>h'. get_row h_id hs (ht_host_id x) = Some h' \<and> h_tenant_id h' = h_tenant_id h"
  shows "tags_ok (d\<lparr>d_hosts := hs, d_host_tags := filter P (d_host_tags d)\<rparr>)"
proof -
  have "tag_link_ok (d\<lparr>d_hosts := hs, d_host_tags := filter P (d_host_tags d)\<rparr>) x" if x: "x \<in> set (d_host_tags d)" "P x" for x
  proof -
    obtain h t where "get_row h_id (d_hosts d) (ht_host_id x) = Some h" "get_row tg_id (d_tags d) (ht_tag_id x) = Some t"
      "tg_tenant_id t = h_tenant_id h"
      using assms(1) x(1) unfolding tags_ok_def ref_ok_iff by blast
    with assms(2) [OF x] show ?thesis
      by (fastforce simp: ref_ok_iff)
  qed
  then show ?thesis
    using assms(1) by (auto simp: tags_ok_def distinct_map_filter)
qed

lemma add_tags_ok:
  assumes "tags_ok d" and "get_row h_id (d_hosts d) hid = Some h" and "h_tenant_id h = t" and "distinct ns"
    and "\<forall>x \<in> set (d_host_tags d). ht_host_id x = hid \<longrightarrow>
       (\<exists>g \<in> set (d_tags d). tg_id g = ht_tag_id x \<and> tg_name g \<notin> set ns)"
  shows "tags_ok (add_tags hid t ns d)"
  using assms(1,2,4,5)
proof (induction ns arbitrary: d)
  case (Cons n ns)
  let ?r = "get_or_create_tag d n t"
  let ?g = "fst ?r" and ?d = "snd ?r"
  note g = get_or_create_tag_spec [OF Cons.prems(1), of n t] and fr = get_or_create_tag_frame [of d n t]
  define x where "x = \<lparr>ht_host_id = hid, ht_tag_id = tg_id ?g\<rparr>"
  define d2 where "d2 = ?d\<lparr>d_host_tags := d_host_tags ?d @ [x]\<rparr>"
  have same_tag: "a = b" if "a \<in> set (d_tags ?d)" "b \<in> set (d_tags ?d)" "tg_id a = tg_id b" for a b
    using g(1) that unfolding tags_ok_def by (metis get_row_in option.inject)
  have new: "(hid, tg_id ?g) \<notin> (\<lambda>x. (ht_host_id x, ht_tag_id x)) ` set (d_host_tags d)"
  proof
    assume "(hid, tg_id ?g) \<in> (\<lambda>x. (ht_host_id x, ht_tag_id x)) ` set (d_host_tags d)"
    then obtain y where "y \<in> set (d_host_tags d)" "ht_host_id y = hid" "ht_tag_id y = tg_id ?g"
      by auto
    then obtain k where "k \<in> set (d_tags d)" "tg_id k = tg_id ?g" "tg_name k \<noteq> n"
      using Cons.prems(4) by auto
    then show False
      using same_tag [of k ?g] g(2,3,5) by auto
  qed
  have "get_row tg_id (d_tags ?d) (tg_id ?g) = Some ?g"
    using g(1,2) by (simp add: tags_ok_def get_row_in)
  then have "tag_link_ok d2 x"
    using Cons.prems(2) assms(3) fr(1) g(4) by (simp add: ref_ok_iff d2_def x_def)
  moreover have "tag_link_ok d2 y" if "y \<in> set (d_host_tags d)" for y
    using that g(1) fr by (simp add: tags_ok_def ref_ok_iff d2_def)
  ultimately have ok: "tags_ok d2"
    using g(1) new fr by (auto simp: tags_ok_def d2_def x_def)
  have row: "get_row h_id (d_hosts d2) hid = Some h"
    using Cons.prems(2) fr(1) by (simp add: d2_def)
  have "\<exists>k \<in> set (d_tags d2). tg_id k = ht_tag_id y \<and> tg_name k \<notin> set ns"
    if "y \<in> set (d_host_tags d2)" "ht_host_id y = hid" for y
  proof (cases "y = x")
    case True
    then show ?thesis
      using g(2,3) Cons.prems(3) by (auto simp: d2_def x_def)
  next
    case False
    then have "y \<in> set (d_host_tags d)"
      using that(1) fr(4) by (simp add: d2_def)
    then show ?thesis
      using Cons.prems(4) that(2) g(5) by (auto simp: d2_def)
  qed
  then have "tags_ok (add_tags hid t ns d2)"
    using Cons.IH [OF ok row] Cons.prems(3) by simp
  then show ?case
    by (simp add: split_def Let_def d2_def x_def)
qed simp

lemma normalize_tags_distinct: "distinct (normalize_tags raw)"
  by (simp add: normalize_tags_def)

section \<open>What the validations guarantee\<close>

lemma validate_ft_ok: "validate_ft m = Inr v \<Longrightarrow> v = None \<or> (\<exists>x. v = Some x \<and> x \<in> set FILE_TRANSFER_METHODS)"
  by (auto simp: validate_ft_def Let_def split: if_splits)

lemma validate_refs_ok:
  "validate_org_unit d v (Some t) = Inr w \<Longrightarrow> org_ref_ok d t v"
  "validate_credential d v t = Inr w \<Longrightarrow> cred_ref_ok d t v"
  by (auto simp: validate_org_unit_def validate_credential_def ref_ok_iff split: option.splits if_splits)

lemma jump_loop_first:
  assumes "jump_loop (Suc n) d (Some t) seen (Some j) = Inr ()"
  shows "j \<notin> set seen \<and> (\<exists>b. get_row h_id (d_hosts d) j = Some b \<and> h_is_jumpbox b \<and> h_tenant_id b = t)"
  using assms by (auto split: option.splits if_splits)

lemma validate_jump_ok:
  assumes "validate_jump d i (Some j) (Some t) = Inr ()"
  shows "i \<noteq> Some j \<and> (\<exists>b. get_row h_id (d_hosts d) j = Some b \<and> h_is_jumpbox b \<and> h_tenant_id b = t)"
proof -
  have "i \<noteq> Some j" and "jump_loop (Suc JUMP_CHAIN_MAX_DEPTH) d (Some t) (case i of None \<Rightarrow> [] | Some i \<Rightarrow> [i]) (Some j) = Inr ()"
    using assms by (auto simp: validate_jump_def simp del: jump_loop.simps split: if_splits)
  from this(1) jump_loop_first [OF this(2)] show ?thesis
    by blast
qed

definition args_ok :: "db \<Rightarrow> int \<Rightarrow> host_args \<Rightarrow> bool" where
  "args_ok d t a \<longleftrightarrow> ha_protocol a \<in> set SUPPORTED_PROTOCOLS \<and>
     ft_ok (ha_ft_method a) (ha_ft_port a) (ha_ft_credential_id a) \<and>
     cred_ref_ok d t (ha_credential_id a) \<and> cred_ref_ok d t (ha_ft_credential_id a) \<and>
     org_ref_ok d t (ha_org_unit_id a)"

lemma checked_host_ok: "checked_host d t a0 = Inr a \<Longrightarrow> args_ok d t a"
  by (auto simp: checked_host_def args_ok_def ft_ok_def bind_r_Inr_iff Let_def
      dest!: validate_ft_ok validate_refs_ok split: if_splits option.splits)

lemma drop_jump_simps [simp]:
  "args_ok d t (drop_jump a) = args_ok d t a"
  "ha_is_jumpbox (drop_jump a) = ha_is_jumpbox a"
  "ha_is_jumpbox a \<Longrightarrow> ha_jump_host_id (drop_jump a) = None"
  "ha_name (drop_jump a) = ha_name a"
  by (simp_all add: drop_jump_def args_ok_def)

lemma fill_host_simps [simp]:
  "h_id (fill_host a h) = h_id h" "h_tenant_id (fill_host a h) = h_tenant_id h"
  "h_name (fill_host a h) = ha_name a" "h_jump_host_id (fill_host a h) = ha_jump_host_id a"
  "h_is_jumpbox (fill_host a h) = ha_is_jumpbox a" "h_protocol (fill_host a h) = ha_protocol a"
  "h_ft_method (fill_host a h) = ha_ft_method a" "h_ft_port (fill_host a h) = ha_ft_port a"
  "h_credential_id (fill_host a h) = ha_credential_id a" "h_ft_credential_id (fill_host a h) = ha_ft_credential_id a"
  "h_org_unit_id (fill_host a h) = ha_org_unit_id a"
  by (simp_all add: fill_host_def)

lemma fill_host_ok:
  "args_ok d (h_tenant_id h) a \<Longrightarrow> host_ok d (fill_host (drop_jump a) h)"
  using drop_jump_simps(1) [of d "h_tenant_id h" a] by (simp add: args_ok_def host_ok_def)

lemma touch_host_simps [simp]:
  assumes "\<And>x. h_id (f x) = h_id x" "\<And>x. h_tenant_id (f x) = h_tenant_id x"
  shows "h_id (touch_host d f h) = h_id h" "h_tenant_id (touch_host d f h) = h_tenant_id h"
    "h_name (touch_host d f h) = h_name (f h)" "h_jump_host_id (touch_host d f h) = h_jump_host_id (f h)"
    "h_is_jumpbox (touch_host d f h) = h_is_jumpbox (f h)"
  using assms by (simp_all add: touch_host_def)

lemma host_ok_touch [simp]: "host_ok d (touch_host e f h) = host_ok d (f h)"
  by (simp add: touch_host_def host_ok_def)

lemma host_ok_frame: "d_credentials d' = d_credentials d \<Longrightarrow> d_org_units d' = d_org_units d \<Longrightarrow> host_ok d' h = host_ok d h"
  by (simp add: host_ok_def ref_ok_iff)

lemma jump_ref_mono:
  assumes "jump_ref_ok hs h"
    and "\<And>j b. h_jump_host_id h = Some j \<Longrightarrow> get_row h_id hs j = Some b \<Longrightarrow> h_is_jumpbox b \<Longrightarrow>
      \<exists>b'. get_row h_id hs' j = Some b' \<and> h_is_jumpbox b' \<and> h_tenant_id b' = h_tenant_id b"
  shows "jump_ref_ok hs' h"
  using assms by (fastforce simp: ref_ok_iff)

lemma create_host_InrD:
  assumes "create_host d t a0 src = Inr (h, d')"
  shows "\<exists>a. checked_host d t a0 = Inr a \<and> h = fill_host (drop_jump a) (blank_host (next_id h_id (d_hosts d)) t src (d_now d)) \<and>
    validate_jump d None (ha_jump_host_id (drop_jump a)) (Some t) = Inr () \<and> \<not> name_conflict d t (ha_name a) None \<and>
    d' = add_tags (h_id h) t (normalize_tags (ha_tags_csv (drop_jump a))) (d\<lparr>d_hosts := d_hosts d @ [h]\<rparr>)"
  using assms by (auto simp: create_host_def bind_r_Inr_iff Let_def split: if_splits)

lemma create_host_ok:
  assumes ok: "hosts_ok d" and "create_host d t a0 src = Inr (h, d')"
  shows "hosts_ok d'"
proof -
  obtain a where a: "checked_host d t a0 = Inr a" "h = fill_host (drop_jump a) (blank_host (next_id h_id (d_hosts d)) t src (d_now d))"
    "validate_jump d None (ha_jump_host_id (drop_jump a)) (Some t) = Inr ()" "\<not> name_conflict d t (ha_name a) None"
    "d' = add_tags (h_id h) t (normalize_tags (ha_tags_csv (drop_jump a))) (d\<lparr>d_hosts := d_hosts d @ [h]\<rparr>)"
    using create_host_InrD [OF assms(2)] by blast
  have h: "h_id h = next_id h_id (d_hosts d)" "h_tenant_id h = t" "h_name h = ha_name a"
    by (simp_all add: a(2) blank_host_def)
  let ?d = "d\<lparr>d_hosts := d_hosts d @ [h]\<rparr>"
  have new: "get_row h_id (d_hosts d) (h_id h) = None"
    by (simp add: h)
  have "host_ok d h"
    using fill_host_ok checked_host_ok [OF a(1)] by (simp add: a(2) blank_host_def)
  moreover have "\<exists>b. get_row h_id (d_hosts d) j = Some b \<and> h_is_jumpbox b \<and> h_tenant_id b = t" if "h_jump_host_id h = Some j" for j
    using validate_jump_ok [of d None j t] a(3) that by (simp add: a(2))
  then have "jump_ref_ok (d_hosts d @ [h]) h"
    using new h by (fastforce simp: ref_ok_iff get_row_append)
  moreover have "jump_ref_ok (d_hosts d @ [h]) x" if "x \<in> set (d_hosts d)" for x
    using ok that by (auto simp: hosts_ok_def get_row_append intro: jump_ref_mono)
  moreover have "distinct (map (\<lambda>h. (h_tenant_id h, h_name h)) (d_hosts d @ [h]))"
    using ok a(4) h by (auto simp: hosts_ok_def name_conflict_def)
  moreover have "tags_ok (add_tags (h_id h) t ns ?d)" if "distinct ns" for ns
  proof (rule add_tags_ok)
    show "tags_ok ?d"
      using ok by (fastforce simp: hosts_ok_def tags_ok_def ref_ok_iff get_row_append)
    show "get_row h_id (d_hosts ?d) (h_id h) = Some h"
      using new by (simp add: get_row_append get_row_Cons)
    have "ht_host_id x \<noteq> h_id h" if "x \<in> set (d_host_tags d)" for x
      using ok that new by (auto simp: hosts_ok_def tags_ok_def ref_ok_iff)
    then show "\<forall>x \<in> set (d_host_tags ?d). ht_host_id x = h_id h \<longrightarrow>
        (\<exists>g \<in> set (d_tags ?d). tg_id g = ht_tag_id x \<and> tg_name g \<notin> set ns)"
      by auto
  qed (use h that in auto)
  ultimately show ?thesis
    using ok h unfolding hosts_ok_def a(5)
    by (auto simp: uniq_ids_append_new normalize_tags_distinct host_ok_frame [of "add_tags _ _ _ _" d])
qed

lemma update_host_InrD:
  assumes "update_host d h a0 = Inr (h', d')"
  shows "\<exists>a. checked_host d (h_tenant_id h) a0 = Inr a \<and> h' = touch_host d (fill_host (drop_jump a)) h \<and>
    \<not> (h_is_jumpbox h \<and> \<not> ha_is_jumpbox a \<and> (\<exists>x \<in> set (d_hosts d). h_jump_host_id x = Some (h_id h))) \<and>
    validate_jump d (Some (h_id h)) (ha_jump_host_id (drop_jump a)) (Some (h_tenant_id h)) = Inr () \<and>
    \<not> name_conflict d (h_tenant_id h) (ha_name a) (Some (h_id h)) \<and>
    d' = add_tags (h_id h) (h_tenant_id h) (normalize_tags (ha_tags_csv (drop_jump a)))
      (d\<lparr>d_hosts := upd_row h_id (h_id h) (touch_host d (fill_host (drop_jump a))) (d_hosts d),
         d_host_tags := del_rows (\<lambda>t. ht_host_id t = h_id h) (d_host_tags d)\<rparr>)"
proof -
  obtain a where a: "checked_host d (h_tenant_id h) a0 = Inr a"
    using assms by (auto simp: update_host_def bind_r_Inr_iff)
  have b: "\<not> (h_is_jumpbox h \<and> \<not> ha_is_jumpbox a \<and> (\<exists>x \<in> set (d_hosts d). h_jump_host_id x = Some (h_id h)))"
  proof
    assume "h_is_jumpbox h \<and> \<not> ha_is_jumpbox a \<and> (\<exists>x \<in> set (d_hosts d). h_jump_host_id x = Some (h_id h))"
    with assms a show False
      by (simp add: update_host_def Let_def)
  qed
  have c: "validate_jump d (Some (h_id h)) (ha_jump_host_id (drop_jump a)) (Some (h_tenant_id h)) = Inr ()"
    using assms a b by (auto simp: update_host_def Let_def bind_r_Inr_iff split: if_splits)
  have e: "\<not> name_conflict d (h_tenant_id h) (ha_name a) (Some (h_id h))"
    using assms a b c by (auto simp: update_host_def Let_def)
  have "update_host d h a0 = Inr (touch_host d (fill_host (drop_jump a)) h,
      add_tags (h_id h) (h_tenant_id h) (normalize_tags (ha_tags_csv (drop_jump a)))
        (d\<lparr>d_hosts := upd_row h_id (h_id h) (touch_host d (fill_host (drop_jump a))) (d_hosts d),
           d_host_tags := del_rows (\<lambda>t. ht_host_id t = h_id h) (d_host_tags d)\<rparr>))"
    using a b c e by (auto simp: update_host_def Let_def)
  with assms have "h' = touch_host d (fill_host (drop_jump a)) h"
    and "d' = add_tags (h_id h) (h_tenant_id h) (normalize_tags (ha_tags_csv (drop_jump a)))
      (d\<lparr>d_hosts := upd_row h_id (h_id h) (touch_host d (fill_host (drop_jump a))) (d_hosts d),
         d_host_tags := del_rows (\<lambda>t. ht_host_id t = h_id h) (d_host_tags d)\<rparr>)"
    by simp_all
  with a b c e show ?thesis
    by (intro exI [of _ a] conjI)
qed

text \<open>Changing one host row, with the conditions the update and the assignment establish.\<close>

lemma hosts_upd_ok:
  assumes ok: "hosts_ok d" and h: "h \<in> set (d_hosts d)"
    and f: "\<And>x. h_id (f x) = h_id x" "\<And>x. h_tenant_id (f x) = h_tenant_id x"
    and new: "host_ok d (f h)" "jump_ref_ok (d_hosts d) (f h)"
    and name: "\<forall>x \<in> set (d_hosts d). h_id x \<noteq> h_id h \<longrightarrow> (h_tenant_id x, h_name x) \<noteq> (h_tenant_id h, h_name (f h))"
    and box: "h_is_jumpbox h \<and> \<not> h_is_jumpbox (f h) \<longrightarrow> (\<forall>x \<in> set (d_hosts d). h_jump_host_id x \<noteq> Some (h_id h))"
  shows "uniq_ids h_id (upd_row h_id (h_id h) f (d_hosts d)) \<and>
    distinct (map (\<lambda>h. (h_tenant_id h, h_name h)) (upd_row h_id (h_id h) f (d_hosts d))) \<and>
    (\<forall>x \<in> set (upd_row h_id (h_id h) f (d_hosts d)). host_ok d x \<and> jump_ref_ok (upd_row h_id (h_id h) f (d_hosts d)) x)"
proof -
  let ?hs = "d_hosts d" and ?hs' = "upd_row h_id (h_id h) f (d_hosts d)"
  have uq: "uniq_ids h_id ?hs"
    using ok by (simp add: hosts_ok_def)
  have eq: "?hs' = upd_row h_id (h_id h) (\<lambda>_. f h) ?hs"
    using get_row_in [OF uq] h by (auto simp: upd_row_def intro!: map_cong) (metis option.inject)
  have "distinct (map (\<lambda>h. (h_tenant_id h, h_name h)) ?hs')"
    unfolding eq by (rule distinct_map_upd [OF uq]) (use ok name f(2) in \<open>auto simp: hosts_ok_def\<close>)
  moreover have keep: "jump_ref_ok ?hs' x" if x: "jump_ref_ok ?hs x" and "h_jump_host_id x = Some (h_id h) \<longrightarrow> h_is_jumpbox (f h) \<or> \<not> h_is_jumpbox h" for x
  proof (rule jump_ref_mono [OF x])
    fix j b assume jb: "h_jump_host_id x = Some j" "get_row h_id ?hs j = Some b" "h_is_jumpbox b"
    show "\<exists>b'. get_row h_id ?hs' j = Some b' \<and> h_is_jumpbox b' \<and> h_tenant_id b' = h_tenant_id b"
    proof (cases "j = h_id h")
      case True
      then have "b = h"
        using jb(2) get_row_in [OF uq h] by simp
      then show ?thesis
        using that(2) jb True f by (auto simp: get_row_upd_row)
    next
      case False
      then show ?thesis
        using jb f(1) by (simp add: get_row_upd_row)
    qed
  qed
  have "jump_ref_ok ?hs' (f h)"
    using new(2) f(1) by (intro keep) (auto simp: ref_ok_iff)
  moreover have "jump_ref_ok ?hs' x" if "x \<in> set ?hs" for x
    using ok box that by (intro keep) (auto simp: hosts_ok_def)
  moreover have "x = f h \<or> x \<in> set ?hs" if "x \<in> set ?hs'" for x
    using that unfolding eq by (auto simp: upd_row_def)
  ultimately show ?thesis
    using ok new(1) uq f(1) by (metis hosts_ok_def uniq_ids_upd_row)
qed

lemma update_host_ok:
  assumes ok: "hosts_ok d" and h: "h \<in> set (d_hosts d)" and "update_host d h a0 = Inr (h', d')"
  shows "hosts_ok d'"
proof -
  obtain a where a: "checked_host d (h_tenant_id h) a0 = Inr a"
    and b: "\<not> (h_is_jumpbox h \<and> \<not> ha_is_jumpbox a \<and> (\<exists>x \<in> set (d_hosts d). h_jump_host_id x = Some (h_id h)))"
    and c: "validate_jump d (Some (h_id h)) (ha_jump_host_id (drop_jump a)) (Some (h_tenant_id h)) = Inr ()"
    and e: "\<not> name_conflict d (h_tenant_id h) (ha_name a) (Some (h_id h))"
    and d': "d' = add_tags (h_id h) (h_tenant_id h) (normalize_tags (ha_tags_csv (drop_jump a)))
      (d\<lparr>d_hosts := upd_row h_id (h_id h) (touch_host d (fill_host (drop_jump a))) (d_hosts d),
         d_host_tags := del_rows (\<lambda>t. ht_host_id t = h_id h) (d_host_tags d)\<rparr>)"
    using update_host_InrD [OF assms(3)] by blast
  define f where "f = touch_host d (fill_host (drop_jump a))"
  let ?d = "d\<lparr>d_hosts := upd_row h_id (h_id h) f (d_hosts d),
      d_host_tags := del_rows (\<lambda>t. ht_host_id t = h_id h) (d_host_tags d)\<rparr>"
  have f: "h_id (f x) = h_id x" "h_tenant_id (f x) = h_tenant_id x" "h_name (f x) = ha_name a"
    "h_is_jumpbox (f x) = ha_is_jumpbox a" "h_jump_host_id (f x) = ha_jump_host_id (drop_jump a)" for x
    by (simp_all add: f_def)
  have "\<exists>b. get_row h_id (d_hosts d) j = Some b \<and> h_is_jumpbox b \<and> h_tenant_id b = h_tenant_id h \<and> h_id h \<noteq> j"
    if "h_jump_host_id (f h) = Some j" for j
    using validate_jump_ok [of d "Some (h_id h)" j "h_tenant_id h"] c that by (auto simp: f)
  then have jr: "jump_ref_ok (d_hosts d) (f h)"
    by (fastforce simp: ref_ok_iff f)
  have hok: "host_ok d (f h)"
    using fill_host_ok [OF checked_host_ok [OF a]] by (simp add: f_def)
  have nm: "\<forall>x \<in> set (d_hosts d). h_id x \<noteq> h_id h \<longrightarrow> (h_tenant_id x, h_name x) \<noteq> (h_tenant_id h, h_name (f h))"
    using e by (auto simp: name_conflict_def f)
  have bx: "h_is_jumpbox h \<and> \<not> h_is_jumpbox (f h) \<longrightarrow> (\<forall>x \<in> set (d_hosts d). h_jump_host_id x \<noteq> Some (h_id h))"
    using b by (auto simp: f)
  have core: "uniq_ids h_id (d_hosts ?d) \<and> distinct (map (\<lambda>h. (h_tenant_id h, h_name h)) (d_hosts ?d)) \<and>
      (\<forall>x \<in> set (d_hosts ?d). host_ok d x \<and> jump_ref_ok (d_hosts ?d) x)"
    using hosts_upd_ok [OF ok h f(1,2) hok jr nm bx] by simp
  have uq: "uniq_ids h_id (d_hosts d)"
    using ok by (simp add: hosts_ok_def)
  have "tags_ok (add_tags (h_id h) (h_tenant_id h) (normalize_tags (ha_tags_csv (drop_jump a))) ?d)"
  proof (rule add_tags_ok [OF _ _ _ normalize_tags_distinct])
    show "tags_ok ?d"
      unfolding del_rows_def using ok f(1,2)
      by (intro tags_ok_hosts) (simp_all add: hosts_ok_def get_row_upd_row)
    show "get_row h_id (d_hosts ?d) (h_id h) = Some (f h)"
      using get_row_in [OF uq h] f(1) by (simp add: get_row_upd_row)
  qed (simp_all add: f)
  moreover have "host_ok d' x = host_ok d x" for x
    by (rule host_ok_frame) (simp_all add: d')
  moreover have "d_hosts d' = d_hosts ?d"
    by (simp add: d' f_def)
  ultimately show ?thesis
    using core unfolding hosts_ok_def d' f_def [symmetric] by simp
qed

lemma tags_ok_results: "tags_ok (d\<lparr>d_scan_results := R\<rparr>) = tags_ok d"
  by (simp add: tags_ok_def tag_link_ok_def cong: option.case_cong)

lemma delete_host_ok:
  assumes ok: "hosts_ok d"
  shows "hosts_ok (delete_host d h)"
proof -
  let ?hs = "map (\<lambda>x. x\<lparr>h_jump_host_id := null_if (\<lambda>i. i = h_id h) (h_jump_host_id x)\<rparr>) (del_rows (\<lambda>x. h_id x = h_id h) (d_hosts d))"
  let ?d = "delete_host d h"
  have d: "?d = d\<lparr>d_hosts := ?hs, d_host_tags := filter (\<lambda>t. ht_host_id t \<noteq> h_id h) (d_host_tags d),
      d_scan_results := map (\<lambda>r. r\<lparr>nr_src_host_id := null_if (\<lambda>x. x = h_id h) (nr_src_host_id r)\<rparr>) (d_scan_results d)\<rparr>"
    by (simp add: delete_host_def fk_delete_host_def del_rows_def)
  have row: "get_row h_id ?hs i = (if i = h_id h then None else map_option
      (\<lambda>x. x\<lparr>h_jump_host_id := null_if (\<lambda>i. i = h_id h) (h_jump_host_id x)\<rparr>) (get_row h_id (d_hosts d) i))" for i
    using get_row_del_rows [of h_id "\<lambda>x. x = h_id h" "d_hosts d" i] by (simp add: get_row_map)
  have "tags_ok ?d"
    unfolding d tags_ok_results by (rule tags_ok_hosts) (use ok in \<open>auto simp: hosts_ok_def row\<close>)
  moreover have "uniq_ids h_id ?hs" "distinct (map (\<lambda>h. (h_tenant_id h, h_name h)) ?hs)"
    using ok by (simp_all add: hosts_ok_def uniq_ids_def comp_def del_rows_def distinct_map_filter)
  moreover have "host_ok ?d x = host_ok d x" for x
    by (rule host_ok_frame) (simp_all add: d)
  moreover have "jump_ref_ok ?hs x \<and> host_ok d x" if x: "x \<in> set ?hs" for x
  proof -
    obtain y where y: "y \<in> set (d_hosts d)" "x = y\<lparr>h_jump_host_id := null_if (\<lambda>i. i = h_id h) (h_jump_host_id y)\<rparr>"
      using x by auto
    have "host_ok d y" "jump_ref_ok (d_hosts d) y"
      using ok y(1) by (simp_all add: hosts_ok_def)
    then show ?thesis
      using y(2) by (auto simp: host_ok_def ref_ok_iff(3) row)
  qed
  ultimately show ?thesis
    by (simp add: hosts_ok_def d)
qed

lemma assign_ok:
  assumes ok: "hosts_ok d" and h: "h \<in> set (d_hosts d)" and v: "org_ref_ok d (h_tenant_id h) v"
  shows "hosts_ok (d\<lparr>d_hosts := upd_row h_id (h_id h) (touch_host e (\<lambda>x. x\<lparr>h_org_unit_id := v\<rparr>)) (d_hosts d)\<rparr>)"
proof -
  define f where "f = touch_host e (\<lambda>x. x\<lparr>h_org_unit_id := v\<rparr>)"
  have f: "h_id (f x) = h_id x" "h_tenant_id (f x) = h_tenant_id x" "h_name (f x) = h_name x"
    "h_is_jumpbox (f x) = h_is_jumpbox x" "h_jump_host_id (f x) = h_jump_host_id x" for x
    by (simp_all add: f_def)
  let ?d = "d\<lparr>d_hosts := upd_row h_id (h_id h) f (d_hosts d)\<rparr>"
  have "jump_ref_ok (d_hosts d) (f h)"
    using ok h by (auto simp: f hosts_ok_def ref_ok_iff)
  moreover have "host_ok d (f h)"
    using ok h v unfolding f_def host_ok_touch by (simp add: hosts_ok_def host_ok_def)
  moreover have "\<forall>x \<in> set (d_hosts d). h_id x \<noteq> h_id h \<longrightarrow> (h_tenant_id x, h_name x) \<noteq> (h_tenant_id h, h_name (f h))"
  proof (intro ballI impI)
    fix x assume "x \<in> set (d_hosts d)" "h_id x \<noteq> h_id h"
    moreover have "inj_on (\<lambda>h. (h_tenant_id h, h_name h)) (set (d_hosts d))"
      using ok by (simp add: hosts_ok_def distinct_map)
    ultimately show "(h_tenant_id x, h_name x) \<noteq> (h_tenant_id h, h_name (f h))"
      using h unfolding f(3) by (auto dest: inj_onD)
  qed
  ultimately have core: "uniq_ids h_id (d_hosts ?d) \<and> distinct (map (\<lambda>h. (h_tenant_id h, h_name h)) (d_hosts ?d)) \<and>
      (\<forall>x \<in> set (d_hosts ?d). host_ok d x \<and> jump_ref_ok (d_hosts ?d) x)"
    using hosts_upd_ok [OF ok h f(1,2)] by (simp add: f)
  have "tags_ok (d\<lparr>d_hosts := upd_row h_id (h_id h) f (d_hosts d), d_host_tags := filter (\<lambda>_. True) (d_host_tags d)\<rparr>)"
    using ok f(1,2) by (intro tags_ok_hosts) (auto simp: hosts_ok_def get_row_upd_row)
  moreover have "host_ok ?d x = host_ok d x" for x
    by (rule host_ok_frame) simp_all
  ultimately show ?thesis
    using core unfolding hosts_ok_def f_def [symmetric] by (simp add: tags_ok_def ref_ok_iff)
qed

lemma assign_to_unit_InrD: "assign_to_unit d t oid = Inr v \<Longrightarrow> v = oid \<and> org_ref_ok d t v"
  by (auto simp: assign_to_unit_def ref_ok_iff split: option.splits if_splits)

lemma get_host_in: "get_host d i tid = Some h \<Longrightarrow> h \<in> set (d_hosts d) \<and> h_id h = i \<and> in_scope tid (h_tenant_id h)"
  by (auto simp: hst.getr_iff dest: get_row_SomeD)

text \<open>Every host route either leaves the database, or commits one of the four operations and an audit
  row: what holds before and after those holds after the route.\<close>

lemma hosts_create_elim:
  assumes "P d" and "\<And>u tid a h d1 t x g e i. require_operator ''/hosts/new'' s d = Inr u \<Longrightarrow>
      active_tenant_id s u = Some tid \<Longrightarrow> create_host d tid a None = Inr (h, d1) \<Longrightarrow> P (add_audit t (Some (u_id u)) x g e i d1)"
  shows "P (snd (hosts_create f s d))"
  using assms by (auto simp: hosts_create_def require_active_tenant_def split: on_ok_split sum.split prod.split option.split)

lemma hosts_update_elim:
  assumes "P d" and "\<And>u a h h' d1 t x g e ip. require_operator ''/hosts/edit'' s d = Inr u \<Longrightarrow>
      get_host d i (active_tenant_id s u) = Some h \<Longrightarrow> update_host d h a = Inr (h', d1) \<Longrightarrow> P (add_audit t (Some (u_id u)) x g e ip d1)"
  shows "P (snd (hosts_update i f back s d))"
  using assms by (auto simp: hosts_update_def split: on_ok_split sum.split prod.split option.split)

lemma hosts_delete_elim:
  assumes "P d" and "\<And>u h t x g e ip. require_operator ''/hosts/delete'' s d = Inr u \<Longrightarrow>
      get_host d i (active_tenant_id s u) = Some h \<Longrightarrow> P (add_audit t (Some (u_id u)) x g e ip (delete_host d h))"
  shows "P (snd (hosts_delete i s d))"
  using assms by (auto simp: hosts_delete_def split: on_ok_split option.split)

lemma hosts_assign_elim:
  assumes "P d" and "\<And>u h v t x g e ip. require_operator ''/hosts/assign-org'' s d = Inr u \<Longrightarrow>
      get_host d i (active_tenant_id s u) = Some h \<Longrightarrow> org_ref_ok d (h_tenant_id h) v \<Longrightarrow>
      P (add_audit t (Some (u_id u)) x g e ip
        (d\<lparr>d_hosts := upd_row h_id (h_id h) (touch_host d (\<lambda>x. x\<lparr>h_org_unit_id := v\<rparr>)) (d_hosts d)\<rparr>))"
  shows "P (snd (hosts_assign_org i org s d))"
  using assms assign_to_unit_InrD
  by (auto simp: hosts_assign_org_def Let_def split: on_ok_split sum.split org_error.split option.split)

text \<open>Walking up from a sound host takes at most one step.\<close>

lemma jump_chain_spec:
  assumes ok: "hosts_ok d" and h: "h \<in> set (d_hosts d)"
  shows "\<exists>c. resolve_jump_chain d h = Some c \<and>
    (case h_jump_host_id h of None \<Rightarrow> c = []
     | Some j \<Rightarrow> \<exists>b. c = [b] \<and> get_row h_id (d_hosts d) j = Some b \<and> h_is_jumpbox b \<and> h_tenant_id b = h_tenant_id h)"
proof (cases "h_jump_host_id h")
  case None
  then show ?thesis
    by (simp add: resolve_jump_chain_def jump_walk.simps [of _ _ None])
next
  case (Some j)
  then obtain b where b: "get_row h_id (d_hosts d) j = Some b" "h_is_jumpbox b" "h_tenant_id b = h_tenant_id h"
    using ok h by (auto simp: hosts_ok_def ref_ok_iff)
  moreover have "h_jump_host_id b = None"
    using ok b(2) get_row_SomeD [OF b(1)] by (auto simp: hosts_ok_def host_ok_def)
  ultimately have "resolve_jump_chain d h = Some [b]"
    using Some by (simp add: resolve_jump_chain_def jump_walk.simps [of _ _ "Some j"] jump_walk.simps [of _ _ None])
  then show ?thesis
    using Some b by simp
qed

section \<open>Rows of other tenants\<close>

definition foreign_rows :: "int \<Rightarrow> db \<Rightarrow> host list \<times> tag list \<times> credential list \<times> org_unit list" where
  "foreign_rows t d = (filter (\<lambda>h. h_tenant_id h \<noteq> t) (d_hosts d), filter (\<lambda>g. tg_tenant_id g \<noteq> t) (d_tags d),
     d_credentials d, d_org_units d)"

lemma foreign_rows_audit [simp]: "foreign_rows t (add_audit q a x g e i d) = foreign_rows t d"
  by (simp add: foreign_rows_def)

lemma get_or_create_tag_foreign:
  "filter (\<lambda>g. tg_tenant_id g \<noteq> t) (d_tags (snd (get_or_create_tag d n t))) = filter (\<lambda>g. tg_tenant_id g \<noteq> t) (d_tags d)"
  by (simp add: get_or_create_tag_def Let_def split: option.splits)

lemma add_tags_foreign [simp]:
  "filter (\<lambda>g. tg_tenant_id g \<noteq> t) (d_tags (add_tags hid t ns d)) = filter (\<lambda>g. tg_tenant_id g \<noteq> t) (d_tags d)"
proof (induction ns arbitrary: d)
  case (Cons n ns)
  then show ?case
    using get_or_create_tag_foreign [of t d n] by (simp add: split_def Let_def)
qed simp

lemma upd_row_foreign:
  assumes "uniq_ids h_id hs" and "h \<in> set hs" and "h_tenant_id h = t" and "\<And>x. h_tenant_id (f x) = h_tenant_id x"
  shows "filter (\<lambda>x. h_tenant_id x \<noteq> t) (upd_row h_id (h_id h) f hs) = filter (\<lambda>x. h_tenant_id x \<noteq> t) hs"
proof -
  have same: "x = h" if "x \<in> set hs" "h_id x = h_id h" for x
    using get_row_in [OF assms(1)] assms(2) that by (metis option.inject)
  have "filter P (upd_row h_id (h_id h) f l) = filter P l" if "P = (\<lambda>x. h_tenant_id x \<noteq> t)" "set l \<subseteq> set hs" for P l
    using that(2)
  proof (induction l)
    case (Cons x l)
    then have "h_id x = h_id h \<longrightarrow> h_tenant_id x = t"
      using same assms(3) by auto
    then show ?case
      using Cons assms(4) that(1) by (simp add: upd_row_simps)
  qed (simp add: upd_row_simps)
  then show ?thesis
    by blast
qed

lemma delete_host_foreign:
  assumes ok: "hosts_ok d" and h: "h \<in> set (d_hosts d)" "h_tenant_id h = t"
  shows "foreign_rows t (delete_host d h) = foreign_rows t d"
proof -
  have same: "x = h" if "x \<in> set (d_hosts d)" "h_id x = h_id h" for x
    using ok h(1) that get_row_in unfolding hosts_ok_def by (metis option.inject)
  have jump: "h_jump_host_id x \<noteq> Some (h_id h)" if "x \<in> set (d_hosts d)" "h_tenant_id x \<noteq> t" for x
    using ok that h get_row_in [of h_id "d_hosts d" h] by (auto simp: hosts_ok_def ref_ok_iff)
  let ?g = "\<lambda>x. x\<lparr>h_jump_host_id := null_if (\<lambda>i. i = h_id h) (h_jump_host_id x)\<rparr>"
  have "filter (\<lambda>x. h_tenant_id x \<noteq> t) (map ?g (del_rows (\<lambda>x. h_id x = h_id h) l)) = filter (\<lambda>x. h_tenant_id x \<noteq> t) l"
    if "set l \<subseteq> set (d_hosts d)" for l
    using that
  proof (induction l)
    case (Cons x l)
    show ?case
    proof (cases "h_tenant_id x = t")
      case True
      then show ?thesis
        using Cons by (simp add: del_rows_def)
    next
      case False
      then have "h_id x \<noteq> h_id h" and "h_jump_host_id x \<noteq> Some (h_id h)"
        using Cons.prems same h(2) jump by auto
      then have "null_if (\<lambda>i. i = h_id h) (h_jump_host_id x) = h_jump_host_id x"
        by (intro null_if_id) auto
      then have "?g x = x"
        by simp
      with False \<open>h_id x \<noteq> h_id h\<close> show ?thesis
        using Cons by (simp add: del_rows_def)
    qed
  qed (simp add: del_rows_def)
  from this [of "d_hosts d"] show ?thesis
    by (simp add: foreign_rows_def delete_host_def fk_delete_host_def)
qed

lemma create_host_foreign:
  assumes "create_host d t a src = Inr (h, d1)"
  shows "foreign_rows t d1 = foreign_rows t d"
  using create_host_InrD [OF assms] by (auto simp: foreign_rows_def blank_host_def)

lemma update_host_foreign:
  assumes ok: "hosts_ok d" and h: "h \<in> set (d_hosts d)" "h_tenant_id h = t" and "update_host d h a = Inr (h', d1)"
  shows "foreign_rows t d1 = foreign_rows t d"
proof -
  have uq: "uniq_ids h_id (d_hosts d)"
    using ok by (simp add: hosts_ok_def)
  from update_host_InrD [OF assms(4)] show ?thesis
    using upd_row_foreign [OF uq h] h(2) by (auto simp: foreign_rows_def)
qed

lemma assign_foreign:
  assumes ok: "hosts_ok d" and h: "h \<in> set (d_hosts d)" "h_tenant_id h = t"
  shows "foreign_rows t (d\<lparr>d_hosts := upd_row h_id (h_id h) (touch_host e (\<lambda>x. x\<lparr>h_org_unit_id := v\<rparr>)) (d_hosts d)\<rparr>) = foreign_rows t d"
  using upd_row_foreign [OF _ h] ok by (simp add: foreign_rows_def hosts_ok_def)

section \<open>Properties\<close>

text \<open>C9: Every host route (create, update, delete, assign) keeps the inventory sound: unique ids and
  per-tenant names; supported protocols and file-transfer methods; credentials, org unit and jump
  host exist and are of the host's own tenant; a jump host is flagged as a jumpbox, and a jumpbox
  has no jump host itself; tag links join rows of one tenant.\<close>

theorem host_routes_keep_inventory:
  assumes "hosts_ok d"
  shows "hosts_ok (snd (hosts_create f s d)) \<and> hosts_ok (snd (hosts_update i f back s d)) \<and>
    hosts_ok (snd (hosts_delete i s d)) \<and> hosts_ok (snd (hosts_assign_org i org s d))"
proof (intro conjI)
  show "hosts_ok (snd (hosts_create f s d))"
    by (rule hosts_create_elim) (use assms create_host_ok in auto)
  show "hosts_ok (snd (hosts_update i f back s d))"
    by (rule hosts_update_elim) (use assms update_host_ok get_host_in in \<open>auto, blast\<close>)
  show "hosts_ok (snd (hosts_delete i s d))"
    by (rule hosts_delete_elim) (use assms delete_host_ok in auto)
  show "hosts_ok (snd (hosts_assign_org i org s d))"
    by (rule hosts_assign_elim) (use assms assign_ok get_host_in in \<open>auto, blast\<close>)
qed

definition demo_form :: "string \<Rightarrow> string \<Rightarrow> host_form" where
  "demo_form name jump = \<lparr>hf_name = name, hf_hostname = ''10.0.0.1'', hf_port = 22, hf_protocol = ''ssh'',
     hf_description = [], hf_credential_id = [], hf_jump_host_id = jump, hf_tags = ''web, db,web'',
     hf_is_jumpbox = None, hf_ft_method = [], hf_ft_port = [], hf_ft_credential_id = [], hf_org_unit_id = ''3''\<rparr>"

definition demo_inv :: db where
  \<comment> \<open>a jumpbox (host 1) and a server behind it in tenant 1, a host of tenant 2\<close>
  "demo_inv = demo_org_db\<lparr>d_hosts := [(demo_host 1 1 None)\<lparr>h_is_jumpbox := True\<rparr>,
     (demo_host 2 1 (Some 3))\<lparr>h_jump_host_id := Some 1\<rparr>, demo_host 3 2 None]\<rparr>"

lemma demo_inv_ok: "hosts_ok demo_inv"
  by code_simp

theorem host_routes_keep_inventory_witness:
  "hosts_ok (snd (hosts_create (demo_form ''new'' ''1'') (demo_session 1) demo_inv)) \<and>
   map h_name (d_hosts (snd (hosts_create (demo_form ''new'' ''1'') (demo_session 1) demo_inv))) = [''h1'', ''h2'', ''h3'', ''new''] \<and>
   map tg_name (d_tags (snd (hosts_create (demo_form ''new'' ''1'') (demo_session 1) demo_inv))) = [''db'', ''web'']"
proof (intro conjI)
  show "hosts_ok (snd (hosts_create (demo_form ''new'' ''1'') (demo_session 1) demo_inv))"
    using host_routes_keep_inventory [OF demo_inv_ok] by blast
qed code_simp+

text \<open>C10: On a sound inventory \<open>resolve_jump_chain\<close> always returns, with no hop for a host
  without a jump host and exactly that one jumpbox otherwise: a connection never chains jumps, never
  loops and never leaves the host's tenant.\<close>

theorem jump_chain_total:
  assumes "hosts_ok d" and "h \<in> set (d_hosts d)"
  shows "\<exists>c. resolve_jump_chain d h = Some c \<and> length c = (if h_jump_host_id h = None then 0 else 1) \<and>
    (\<forall>b \<in> set c. b \<in> set (d_hosts d) \<and> h_is_jumpbox b \<and> h_jump_host_id b = None \<and> h_tenant_id b = h_tenant_id h \<and> b \<noteq> h)"
proof -
  from jump_chain_spec [OF assms] obtain c where c: "resolve_jump_chain d h = Some c"
    and s: "case h_jump_host_id h of None \<Rightarrow> c = []
      | Some j \<Rightarrow> \<exists>b. c = [b] \<and> get_row h_id (d_hosts d) j = Some b \<and> h_is_jumpbox b \<and> h_tenant_id b = h_tenant_id h"
    by blast
  have box: "h_jump_host_id b = None" if "b \<in> set (d_hosts d)" "h_is_jumpbox b" for b
    using assms(1) that by (simp add: hosts_ok_def host_ok_def)
  show ?thesis
    using c s box by (cases "h_jump_host_id h") (auto dest: get_row_SomeD)
qed

theorem jump_chain_total_witness:
  "\<exists>c. resolve_jump_chain demo_inv ((demo_host 2 1 (Some 3))\<lparr>h_jump_host_id := Some 1\<rparr>) = Some c \<and> length c = 1"
  using jump_chain_total [OF demo_inv_ok, of "(demo_host 2 1 (Some 3))\<lparr>h_jump_host_id := Some 1\<rparr>"]
  by (simp add: demo_inv_def) blast

text \<open>C8: No request of a tenant-confined user touches another tenant's inventory: whatever id the
  form names, the hosts and tags of every other tenant, and all credentials and org units, are the
  same before and after any host route.\<close>

theorem host_routes_isolate_tenants:
  assumes "hosts_ok d" and "get_current_user s d = Some u" and "u_role u \<noteq> ''platform_admin''" and "u_tenant_id u = Some t"
  shows "foreign_rows t (snd (hosts_create f s d)) = foreign_rows t d \<and>
    foreign_rows t (snd (hosts_update i f back s d)) = foreign_rows t d \<and>
    foreign_rows t (snd (hosts_delete i s d)) = foreign_rows t d \<and>
    foreign_rows t (snd (hosts_assign_org i org s d)) = foreign_rows t d"
proof -
  have act: "v = u \<and> active_tenant_id s v = Some t" if "require_operator p s d = Inr v" for p v
    using require_role_InrD [OF that] assms(2-4)
    by (auto simp: active_tenant_id_def resolve_tenant_id_def is_platform_admin_iff)
  have get: "h \<in> set (d_hosts d) \<and> h_tenant_id h = t"
    if "require_operator p s d = Inr v" "get_host d i (active_tenant_id s v) = Some h" for p v h
    using get_host_in [OF that(2)] act [OF that(1)] by auto
  show ?thesis
  proof (intro conjI)
    show "foreign_rows t (snd (hosts_create f s d)) = foreign_rows t d"
      by (rule hosts_create_elim) (use act create_host_foreign in \<open>fastforce+\<close>)
    show "foreign_rows t (snd (hosts_update i f back s d)) = foreign_rows t d"
      by (rule hosts_update_elim) (use get update_host_foreign [OF assms(1)] in \<open>auto, blast\<close>)
    show "foreign_rows t (snd (hosts_delete i s d)) = foreign_rows t d"
      by (rule hosts_delete_elim) (use get delete_host_foreign [OF assms(1)] in \<open>auto, blast?\<close>)
    show "foreign_rows t (snd (hosts_assign_org i org s d)) = foreign_rows t d"
      by (rule hosts_assign_elim) (use get assign_foreign [OF assms(1)] in \<open>auto, blast?\<close>)
  qed
qed

theorem host_routes_isolate_tenants_witness:
  "foreign_rows 1 (snd (hosts_delete 3 (demo_session 1) demo_inv)) = foreign_rows 1 demo_inv \<and>
   foreign_rows 1 (snd (hosts_delete 1 (demo_session 1) demo_inv)) = foreign_rows 1 demo_inv \<and>
   length (d_hosts (snd (hosts_delete 1 (demo_session 1) demo_inv))) = 2"
proof -
  have u: "get_current_user (demo_session 1) demo_inv = Some (demo_user 1 ''operator'' (Some 1))"
    by code_simp
  have r: "u_role (demo_user 1 ''operator'' (Some 1)) \<noteq> ''platform_admin''" "u_tenant_id (demo_user 1 ''operator'' (Some 1)) = Some 1"
    by (simp_all add: demo_user_def)
  have "length (d_hosts (snd (hosts_delete 1 (demo_session 1) demo_inv))) = 2"
    by code_simp
  then show ?thesis
    using host_routes_isolate_tenants [OF demo_inv_ok u r] by blast
qed

text \<open>The inventory listing is exact: for a sound org tree it always returns, in name order, the
  hosts in scope that have the asked role, carry the asked tag and sit anywhere in the asked
  subtree, each once.\<close>

theorem list_hosts_exact:
  assumes "units_ok (d_org_units d)" and "hosts_ok d" and "\<forall>i. org = Some i \<longrightarrow> (\<exists>u \<in> set (d_org_units d). o_id u = i)"
  shows "\<exists>l. list_hosts d tid kind tag org = Some l \<and> sorted (map h_name l) \<and> distinct l \<and>
    set l = {h \<in> set (d_hosts d). in_scope tid (h_tenant_id h) \<and> kind_ok kind h \<and>
      (tag = None \<or> tag = Some [] \<or> tagged d (the tag) h) \<and>
      (org = None \<or> (\<exists>i. h_org_unit_id h = Some i \<and> i \<in> below (d_org_units d) (the org)))}"
proof -
  define base where "base = filter (\<lambda>h. tag = None \<or> tag = Some [] \<or> tagged d (the tag) h)
     (filter (kind_ok kind) (filter (\<lambda>h. in_scope tid (h_tenant_id h)) (d_hosts d)))"
  have dist: "distinct base"
    using assms(2) by (simp add: base_def hosts_ok_def uniq_ids_def distinct_map)
  have l: "list_hosts d tid kind tag org = (case org of None \<Rightarrow> Some (sort_key h_name base)
      | Some o' \<Rightarrow> map_option (\<lambda>ids. sort_key h_name (filter (\<lambda>h. h_org_unit_id h \<in> Some ` set ids) base)) (org_subtree_ids d o'))"
    by (auto simp: list_hosts_def base_def Let_def split: option.splits)
  have base: "set base = {h \<in> set (d_hosts d). in_scope tid (h_tenant_id h) \<and> kind_ok kind h \<and>
      (tag = None \<or> tag = Some [] \<or> tagged d (the tag) h)}"
    by (auto simp: base_def)
  show ?thesis
  proof (cases org)
    case None
    then show ?thesis
      using l dist base by (intro exI [of _ "sort_key h_name base"]) auto
  next
    case (Some i)
    then obtain u where "u \<in> set (d_org_units d)" "o_id u = i"
      using assms(3) by blast
    then obtain ids where "org_subtree_ids d i = Some ids" "set ids = below (d_org_units d) i"
      using subtree_ids_spec [OF assms(1)] by (auto simp: org_subtree_ids_def subtree_ids_def below_def)
    then show ?thesis
      using l dist base Some
      by (intro exI [of _ "sort_key h_name (filter (\<lambda>h. h_org_unit_id h \<in> Some ` set ids) base)"]) auto
  qed
qed

theorem list_hosts_exact_witness:
  "\<exists>l. list_hosts demo_inv (Some 1) (Some ''servers'') None (Some 1) = Some l \<and> map h_id l = [2]"
proof -
  have "\<forall>i. Some 1 = Some i \<longrightarrow> (\<exists>u \<in> set (d_org_units demo_inv). o_id u = i)"
    by (simp add: demo_inv_def demo_org_db_def demo_unit_def)
  moreover have "units_ok (d_org_units demo_inv)"
    by code_simp
  ultimately obtain l where l: "list_hosts demo_inv (Some 1) (Some ''servers'') None (Some 1) = Some l"
    using list_hosts_exact [OF _ demo_inv_ok] by blast
  have "map_option (map h_id) (list_hosts demo_inv (Some 1) (Some ''servers'') None (Some 1)) = Some [2]"
    by code_simp
  then show ?thesis
    by (simp add: l)
qed

end
