(* ===== verification/Dosm_Inputs.thy ===== *)
theory Dosm_Inputs
  imports Dosm_Models
begin

text \<open>
  Typed pipeline inputs, \<open>dosm/pipelines/inputs.py\<close>: reading a schema from the edit form,
  normalizing a stored one, coercing a run form, checking a saved payload for drift, and the wire
  formats of the providers. A form is the list of its fields (\<open>form.get\<close> of text fields).
  A float is kept by the text \<open>repr\<close> gives it; the printing of IEEE doubles is the parameter
  \<open>fl\<close> of the definitions, which texts \<open>float()\<close> accepts is modelled.
\<close>

section \<open>Values as text\<close>

fun json_repr :: "json \<Rightarrow> string" where
  \<comment> \<open>\<open>repr(v)\<close>\<close>
  "json_repr JNull = ''None''"
| "json_repr (JBool b) = (if b then ''True'' else ''False'')"
| "json_repr (JInt i) = str_int i"
| "json_repr (JFloat f) = f"
| "json_repr (JStr s) = py_repr s"
| "json_repr (JArr xs) = ''['' @ join_with '', '' (map json_repr xs) @ '']''"
| "json_repr (JObj kv) = ''{'' @ join_with '', '' (map (\<lambda>p. py_repr (fst p) @ '': '' @ json_repr (snd p)) kv) @ ''}''"

definition py_str :: "json \<Rightarrow> string" where
  \<comment> \<open>\<open>str(v)\<close>\<close>
  "py_str v = (case v of JStr s \<Rightarrow> s | _ \<Rightarrow> json_repr v)"

definition py_isdigit :: "string \<Rightarrow> bool" where
  \<comment> \<open>\<open>s.isdigit()\<close>, which also accepts the superscript digits\<close>
  "py_isdigit s \<longleftrightarrow> s \<noteq> [] \<and> (\<forall>c \<in> set s. is_digit c \<or> code_point c \<in> {178, 179, 185})"

definition drop_sign :: "string \<Rightarrow> string" where
  "drop_sign s = (case s of c # cs \<Rightarrow> if c = CHR ''-'' \<or> c = CHR ''+'' then cs else s | [] \<Rightarrow> [])"

definition mantissa_ok :: "string \<Rightarrow> bool" where
  "mantissa_ok m = (case split_on CHR ''.'' m of
     [a] \<Rightarrow> us_digits a
   | [a, b] \<Rightarrow> (us_digits a \<and> (b = [] \<or> us_digits b)) \<or> (a = [] \<and> us_digits b)
   | _ \<Rightarrow> False)"

definition py_float_ok :: "string \<Rightarrow> bool" where
  \<comment> \<open>\<open>float(s)\<close> does not raise\<close>
  "py_float_ok s = (let u = py_lower (drop_sign (py_strip s)) in
     u \<in> set [''inf'', ''infinity'', ''nan''] \<or>
     (case split_on CHR ''e'' u of
        [m] \<Rightarrow> mantissa_ok m
      | [m, e] \<Rightarrow> mantissa_ok m \<and> us_digits (drop_sign e)
      | _ \<Rightarrow> False))"

section \<open>Schemas\<close>

definition SUPPORTED_TYPES :: "string list" where
  "SUPPORTED_TYPES = [''string'', ''boolean'', ''choice'', ''number'']"

definition norm_type :: "string option \<Rightarrow> string" where
  "norm_type t = (let x = py_lower (py_strip (or_default t ''string''))
     in if x \<in> set SUPPORTED_TYPES then x else ''string'')"

definition split_options :: "string option \<Rightarrow> string list" where
  "split_options raw = (case raw of None \<Rightarrow> [] | Some r \<Rightarrow>
     filter (\<lambda>s. s \<noteq> []) (map py_strip (split_on CHR '','' (replace_char (CHR 0x0A) CHR '','' r))))"

type_synonym form = "(string \<times> string) list"

definition form_get :: "form \<Rightarrow> string \<Rightarrow> string option" where
  "form_get f k = map_of f k"

definition form_text :: "form \<Rightarrow> string \<Rightarrow> string" where
  \<comment> \<open>\<open>(form.get(k) or "").strip()\<close>\<close>
  "form_text f k = py_strip (or_default (form_get f k) [])"

definition schema_indices :: "form \<Rightarrow> string list" where
  \<comment> \<open>\<open>sorted(indices, key=lambda s: (len(s), s))\<close>\<close>
  "schema_indices f = sort_key (\<lambda>s. length s)
     (sort (remdups (map (\<lambda>k. drop (length ''schema_name__'') k) (filter (\<lambda>k. starts_with k ''schema_name__'') (map fst f)))))"

definition schema_row :: "form \<Rightarrow> string \<Rightarrow> dict option" where
  \<comment> \<open>one turn of the loop of \<open>parse_schema_form\<close>; \<open>None\<close>: a row without a name\<close>
  "schema_row f idx =
     (let name = form_text f (''schema_name__'' @ idx) in
      if name = [] then None
      else let t = norm_type (form_get f (''schema_type__'' @ idx));
               opts = split_options (form_get f (''schema_options__'' @ idx));
               default = form_text f (''schema_default__'' @ idx);
               desc = form_text f (''schema_desc__'' @ idx)
           in Some ([(''name'', JStr name), (''type'', JStr t)]
              @ (if t = ''choice'' \<and> opts \<noteq> [] then [(''options'', JArr (map JStr opts))] else [])
              @ (if default \<noteq> [] then [(''default'', JStr default)] else [])
              @ (if form_text f (''schema_required__'' @ idx) \<noteq> [] then [(''required'', JBool True)] else [])
              @ (if desc \<noteq> [] then [(''description'', JStr desc)] else [])))"

definition parse_schema_form :: "form \<Rightarrow> dict list" where
  "parse_schema_form f = List.map_filter (schema_row f) (schema_indices f)"

text \<open>An optional text field of a stored row: \<open>None\<close> when falsy, an \<open>AttributeError\<close>
  when it is truthy and not a string.\<close>

definition row_text :: "dict \<Rightarrow> string \<Rightarrow> string + string option" where
  "row_text r k = (case dict_get r k of None \<Rightarrow> Inr None
     | Some (JStr s) \<Rightarrow> Inr (if s = [] then None else Some s)
     | Some v \<Rightarrow> if json_truthy v then Inl ''AttributeError'' else Inr None)"

definition option_values :: "json option \<Rightarrow> string + json list" where
  \<comment> \<open>\<open>row.get("options") or []\<close>, split when it is text, iterated otherwise\<close>
  "option_values v = (case v of None \<Rightarrow> Inr []
     | Some j \<Rightarrow> if \<not> json_truthy j then Inr []
         else (case j of JStr s \<Rightarrow> Inr (map JStr (split_options (Some s)))
            | JArr xs \<Rightarrow> Inr xs | JObj kv \<Rightarrow> Inr (map (\<lambda>p. JStr (fst p)) kv) | _ \<Rightarrow> Inl ''TypeError''))"

definition norm_options :: "json list \<Rightarrow> json list" where
  \<comment> \<open>\<open>[str(o) for o in opts if str(o).strip()]\<close>\<close>
  "norm_options xs = map JStr (filter (\<lambda>s. py_strip s \<noteq> []) (map py_str xs))"

definition norm_opts :: "string \<Rightarrow> dict \<Rightarrow> string + dict" where
  \<comment> \<open>the \<open>options\<close> entry of a choice\<close>
  "norm_opts t r = (if t = ''choice'' then bind_r (option_values (dict_get r ''options''))
     (\<lambda>xs. Inr [(''options'', JArr (norm_options xs))]) else Inr [])"

definition row_tail :: "dict \<Rightarrow> dict" where
  \<comment> \<open>the optional entries \<open>default\<close>, \<open>required\<close> and \<open>description\<close>\<close>
  "row_tail r =
     (case dict_get r ''default'' of None \<Rightarrow> []
      | Some v \<Rightarrow> if v = JNull \<or> v = JStr [] then [] else [(''default'', v)])
     @ (case dict_get r ''required'' of None \<Rightarrow> []
        | Some v \<Rightarrow> if json_truthy v then [(''required'', JBool True)] else [])
     @ (case dict_get r ''description'' of None \<Rightarrow> []
        | Some v \<Rightarrow> if json_truthy v then [(''description'', v)] else [])"

definition norm_row :: "dict \<Rightarrow> string + dict option" where
  "norm_row r = bind_r (row_text r ''name'') (\<lambda>n.
     let name = py_strip (or_default n []) in
     if name = [] then Inr None
     else bind_r (row_text r ''type'') (\<lambda>ty.
       let t = norm_type ty in
       bind_r (norm_opts t r) (\<lambda>opts.
         Inr (Some ((''name'', JStr name) # (''type'', JStr t) # opts @ row_tail r)))))"

fun normalize_schema :: "json list \<Rightarrow> string + dict list" where
  "normalize_schema [] = Inr []"
| "normalize_schema (j # js) = (case j of
     JObj r \<Rightarrow> bind_r (norm_row r) (\<lambda>n. bind_r (normalize_schema js)
       (\<lambda>rest. Inr (case n of None \<Rightarrow> rest | Some x \<Rightarrow> x # rest)))
   | _ \<Rightarrow> normalize_schema js)"

section \<open>Run forms\<close>

datatype input_error = Input_Validation string | Input_Crash string

definition row_str :: "dict \<Rightarrow> string \<Rightarrow> string" where
  \<comment> \<open>\<open>row["name"]\<close>, \<open>row["type"]\<close> of a normalized row\<close>
  "row_str r k = (case dict_get r k of Some (JStr s) \<Rightarrow> s | _ \<Rightarrow> [])"

definition row_options :: "dict \<Rightarrow> string list" where
  "row_options r = (case dict_get r ''options'' of Some (JArr xs) \<Rightarrow> map py_str xs | _ \<Rightarrow> [])"

definition row_required :: "dict \<Rightarrow> bool" where
  "row_required r = (case dict_get r ''required'' of None \<Rightarrow> False | Some v \<Rightarrow> json_truthy v)"

definition repr_strings :: "string list \<Rightarrow> string" where
  "repr_strings xs = json_repr (JArr (map JStr xs))"

definition number_of :: "(string \<Rightarrow> string) \<Rightarrow> string \<Rightarrow> json option" where
  \<comment> \<open>\<open>int(s) if s.lstrip("-").isdigit() else float(s)\<close>\<close>
  "number_of fl s = (if py_isdigit (dropWhile (\<lambda>c. c = CHR ''-'') s) then map_option JInt (py_int s)
     else if py_float_ok s then Some (JFloat (fl s)) else None)"

definition coerce_row :: "(string \<Rightarrow> string) \<Rightarrow> form \<Rightarrow> dict \<Rightarrow> input_error + json option" where
  \<comment> \<open>one turn of the loop of \<open>coerce_run_inputs\<close>; \<open>Inr None\<close>: the input is skipped\<close>
  "coerce_row fl f r =
     (let name = row_str r ''name''; t = row_str r ''type''; raw = form_get f (''input__'' @ name) in
      if t = ''boolean'' then Inr (Some (JBool (raw \<noteq> None \<and> raw \<noteq> Some [])))
      else let s = py_strip (or_default raw []) in
        if s = [] then (if row_required r then Inl (Input_Validation (py_repr name @ '' is required'')) else Inr None)
        else if t = ''choice'' then
          (if row_options r \<noteq> [] \<and> s \<notin> set (row_options r)
           then Inl (Input_Validation (py_repr name @ '' must be one of '' @ repr_strings (row_options r)
                  @ '' (got '' @ py_repr s @ '')''))
           else Inr (Some (JStr s)))
        else if t = ''number'' then
          (case number_of fl s of
             None \<Rightarrow> Inl (Input_Validation (py_repr name @ '' must be a number (got '' @ py_repr s @ '')''))
           | Some v \<Rightarrow> Inr (Some v))
        else Inr (Some (JStr s)))"

fun coerce_rows :: "(string \<Rightarrow> string) \<Rightarrow> form \<Rightarrow> dict list \<Rightarrow> dict \<Rightarrow> input_error + dict" where
  "coerce_rows fl f [] out = Inr out"
| "coerce_rows fl f (r # rs) out = bind_r (coerce_row fl f r) (\<lambda>v.
     coerce_rows fl f rs (case v of None \<Rightarrow> out | Some x \<Rightarrow> dict_set out (row_str r ''name'') x))"

definition coerce_run_inputs :: "(string \<Rightarrow> string) \<Rightarrow> json list \<Rightarrow> form \<Rightarrow> input_error + dict" where
  "coerce_run_inputs fl schema f = (case normalize_schema schema of Inl e \<Rightarrow> Inl (Input_Crash e)
     | Inr rows \<Rightarrow> coerce_rows fl f rows [])"

section \<open>Saved payloads\<close>

definition row_problems :: "dict \<Rightarrow> dict \<Rightarrow> string list" where
  "row_problems vals r =
     (let name = row_str r ''name''; t = row_str r ''type'' in
      case dict_get vals name of
        None \<Rightarrow> if row_required r then [''missing required input '' @ py_repr name] else []
      | Some v \<Rightarrow>
          if v = JNull \<or> v = JStr [] then
            (if row_required r then [''missing required input '' @ py_repr name] else [])
          else if t = ''choice'' then
            (if row_options r \<noteq> [] \<and> py_str v \<notin> set (row_options r)
             then [py_repr name @ ''='' @ json_repr v @ '' is not one of '' @ repr_strings (row_options r)] else [])
          else if t = ''number'' then
            (case v of JInt _ \<Rightarrow> [] | JFloat _ \<Rightarrow> []
             | _ \<Rightarrow> if py_float_ok (py_str v) then [] else [py_repr name @ ''='' @ json_repr v @ '' is not a number''])
          else [])"

definition validate_payload_values :: "json list \<Rightarrow> dict \<Rightarrow> string + string list" where
  "validate_payload_values schema vals = (case normalize_schema schema of Inl e \<Rightarrow> Inl e
     | Inr rows \<Rightarrow> Inr (concat (map (row_problems vals) rows) @
         map (\<lambda>k. ''input '' @ py_repr k @ '' is no longer in the pipeline schema'')
           (filter (\<lambda>k. k \<noteq> ''__raw__'' \<and> k \<notin> set (map (\<lambda>r. row_str r ''name'') rows)) (map fst vals))))"

section \<open>Wire formats\<close>

definition wire_text :: "json \<Rightarrow> string" where
  "wire_text v = (case v of JBool b \<Rightarrow> if b then ''true'' else ''false'' | _ \<Rightarrow> py_str v)"

definition stringify_for_wire :: "dict \<Rightarrow> (string \<times> string) list" where
  "stringify_for_wire inputs = map (\<lambda>p. (fst p, wire_text (snd p))) (filter (\<lambda>p. snd p \<noteq> JNull) inputs)"

definition split_azure_devops_inputs :: "dict \<Rightarrow> dict \<times> (string \<times> string) list" where
  "split_azure_devops_inputs inputs = (let live = filter (\<lambda>p. snd p \<noteq> JNull) inputs in
     (filter (\<lambda>p. \<not> starts_with (fst p) ''var.'') live,
      map (\<lambda>p. (drop 4 (fst p), wire_text (snd p))) (filter (\<lambda>p. starts_with (fst p) ''var.'') live)))"

section \<open>Facts about normal rows\<close>

lemma py_str_JStr [simp]: "py_str (JStr s) = s"
  by (simp add: py_str_def)

lemma norm_type_supported: "norm_type t \<in> set SUPPORTED_TYPES"
  by (simp add: norm_type_def Let_def SUPPORTED_TYPES_def)

lemma norm_type_fixed: "t \<in> set SUPPORTED_TYPES \<Longrightarrow> norm_type (Some t) = t"
proof -
  have "\<forall>t \<in> set SUPPORTED_TYPES. norm_type (Some t) = t"
    by code_simp
  then show "t \<in> set SUPPORTED_TYPES \<Longrightarrow> ?thesis"
    by blast
qed

lemma norm_options_idem: "norm_options (norm_options xs) = norm_options xs"
  by (simp add: norm_options_def comp_def filter_map)

definition normal_row :: "dict \<Rightarrow> bool" where
  "normal_row r \<longleftrightarrow> norm_row r = Inr (Some r)"

lemma norm_row_SomeD:
  assumes "norm_row r = Inr (Some x)"
  shows "\<exists>n ty opts. py_strip n \<noteq> [] \<and> norm_opts (norm_type ty) r = Inr opts \<and>
    x = (''name'', JStr (py_strip n)) # (''type'', JStr (norm_type ty)) # opts @ row_tail r"
  using assms unfolding norm_row_def Let_def by (auto simp: bind_r_Inr_iff split: if_splits)

lemma row_tail_idem:
  assumes "\<forall>k \<in> fst ` set pre. k \<notin> {''default'', ''required'', ''description''}"
  shows "row_tail (pre @ row_tail r) = row_tail r"
proof -
  have "dict_get (pre @ l) k = dict_get l k" if "k \<in> {''default'', ''required'', ''description''}" for k l
  proof -
    have "map_of pre k = None"
      using assms that by (auto simp: map_of_eq_None_iff)
    then show ?thesis
      by (simp add: dict_get_def map_add_def split: option.split)
  qed
  then have "row_tail (pre @ row_tail r) = row_tail (row_tail r)"
    by (simp add: row_tail_def)
  also have "\<dots> = row_tail r"
    by (simp add: row_tail_def dict_get_def json_truthy_def split: option.split)
  finally show ?thesis .
qed

lemma norm_row_normal:
  assumes "norm_row r = Inr (Some x)"
  shows "normal_row x"
proof -
  obtain n ty opts where n: "py_strip n \<noteq> []" and o: "norm_opts (norm_type ty) r = Inr opts"
    and x: "x = (''name'', JStr (py_strip n)) # (''type'', JStr (norm_type ty)) # opts @ row_tail r"
    using norm_row_SomeD [OF assms] by blast
  let ?t = "norm_type ty"
  have t: "?t \<noteq> []" "norm_type (Some ?t) = ?t"
    using norm_type_supported [of ty] norm_type_fixed [OF norm_type_supported] by (auto simp: SUPPORTED_TYPES_def)
  have opts: "if ?t = ''choice'' then \<exists>xs. opts = [(''options'', JArr (norm_options xs))] else opts = []"
    using o by (auto simp: norm_opts_def bind_r_Inr_iff split: if_splits)
  have opt: "option_values (Some (JArr ys)) = Inr ys" for ys
    by (simp add: option_values_def json_truthy_def)
  have "norm_opts ?t x = Inr opts"
    using opts by (auto simp: norm_opts_def x dict_get_def opt norm_options_idem split: if_splits)
  moreover have "row_tail x = row_tail r"
    using row_tail_idem [of "(''name'', JStr (py_strip n)) # (''type'', JStr ?t) # opts" r] opts
    by (auto simp: x split: if_splits)
  moreover have "row_text x ''name'' = Inr (Some (py_strip n))" "row_text x ''type'' = Inr (Some ?t)"
    using n t(1) by (simp_all add: x row_text_def dict_get_def)
  ultimately show ?thesis
    using n t(2) by (simp add: normal_row_def norm_row_def or_default_def Let_def x)
qed

lemma normalize_schema_normal: "normalize_schema js = Inr rows \<Longrightarrow> \<forall>r \<in> set rows. normal_row r"
  by (induction js arbitrary: rows) (auto simp: bind_r_Inr_iff split: json.splits option.splits dest: norm_row_normal)

lemma normalize_schema_rows: "\<forall>r \<in> set rows. normal_row r \<Longrightarrow> normalize_schema (map JObj rows) = Inr rows"
  by (induction rows) (auto simp: normal_row_def)

section \<open>Facts about coerced forms\<close>

lemma coerce_rows_spec:
  assumes "coerce_rows fl f rows out0 = Inr out" and "distinct (map (\<lambda>r. row_str r ''name'') rows)"
    and "\<forall>r \<in> set rows. dict_get out0 (row_str r ''name'') = None"
  shows "(\<forall>r \<in> set rows. coerce_row fl f r = Inr (dict_get out (row_str r ''name''))) \<and>
    (\<forall>k. k \<notin> (\<lambda>r. row_str r ''name'') ` set rows \<longrightarrow> dict_get out k = dict_get out0 k)"
  using assms
proof (induction rows arbitrary: out0)
  case (Cons r rs)
  then obtain v where v: "coerce_row fl f r = Inr v"
    and rest: "coerce_rows fl f rs (case v of None \<Rightarrow> out0 | Some x \<Rightarrow> dict_set out0 (row_str r ''name'') x) = Inr out"
    by (auto simp: bind_r_Inr_iff)
  define out1 where "out1 = (case v of None \<Rightarrow> out0 | Some x \<Rightarrow> dict_set out0 (row_str r ''name'') x)"
  have g: "dict_get out1 k = (if k = row_str r ''name'' then v else dict_get out0 k)" for k
    using Cons.prems(3) by (simp add: out1_def dict_get_set split: option.split)
  have "\<forall>x \<in> set rs. dict_get out1 (row_str x ''name'') = None"
    using Cons.prems(2,3) by (auto simp: g) (metis image_eqI)
  with Cons.IH [of out1] rest Cons.prems(2) have
    "(\<forall>x \<in> set rs. coerce_row fl f x = Inr (dict_get out (row_str x ''name''))) \<and>
     (\<forall>k. k \<notin> (\<lambda>r. row_str r ''name'') ` set rs \<longrightarrow> dict_get out k = dict_get out1 k)"
    by (simp add: out1_def)
  then show ?case
    using v g Cons.prems(2) by auto
qed simp

lemma coerced_row_clean:
  assumes "coerce_row fl f r = Inr (dict_get out (row_str r ''name''))"
  shows "row_problems out r = []"
proof -
  let ?s = "py_strip (or_default (form_get f (''input__'' @ row_str r ''name'')) [])"
  have num: "number_of fl ?s = Some v \<Longrightarrow> (\<exists>i. v = JInt i) \<or> (\<exists>x. v = JFloat x)" for v
    by (auto simp: number_of_def split: if_splits)
  show ?thesis
    using assms num unfolding coerce_row_def Let_def
    by (cases "dict_get out (row_str r ''name'')")
      (auto simp: row_problems_def Let_def split: if_splits option.splits)
qed

lemma coerce_rows_keys: "coerce_rows fl f rows out0 = Inr out \<Longrightarrow>
    fst ` set out \<subseteq> fst ` set out0 \<union> (\<lambda>r. row_str r ''name'') ` set rows"
proof (induction rows arbitrary: out0)
  case (Cons r rs)
  then obtain v where v: "coerce_rows fl f rs (case v of None \<Rightarrow> out0 | Some x \<Rightarrow> dict_set out0 (row_str r ''name'') x) = Inr out"
    by (auto simp: bind_r_Inr_iff)
  show ?case
    using Cons.IH [OF v] by (auto simp: dict_set_keys split: option.splits)
qed auto

section \<open>Properties\<close>


definition demo_schema :: "json list" where
  "demo_schema = [JObj [(''name'', JStr '' env ''), (''type'', JStr ''Choice''), (''options'', JStr ''dev,prod'')],
     JObj [(''name'', JStr ''count''), (''type'', JStr ''number''), (''required'', JBool True)]]"


text \<open>Normalizing a schema is idempotent: a stored schema read back normalizes to itself, so the
  edit form, the run form and the drift check all see the same rows.\<close>

theorem normalize_schema_idem:
  assumes "normalize_schema schema = Inr rows"
  shows "normalize_schema (map JObj rows) = Inr rows \<and>
    (\<forall>r \<in> set rows. row_str r ''name'' \<noteq> [] \<and> row_str r ''type'' \<in> set SUPPORTED_TYPES)"
proof -
  have n: "\<forall>r \<in> set rows. normal_row r"
    by (rule normalize_schema_normal [OF assms])
  have "row_str r ''name'' \<noteq> [] \<and> row_str r ''type'' \<in> set SUPPORTED_TYPES" if nr: "normal_row r" for r
  proof -
    obtain m ty tl where m: "py_strip m \<noteq> []"
      and r: "r = (''name'', JStr (py_strip m)) # (''type'', JStr (norm_type ty)) # tl"
      using norm_row_SomeD [OF nr [unfolded normal_row_def]] by blast
    show ?thesis
      using norm_type_supported [of ty] m by (simp add: row_str_def dict_get_def r)
  qed
  then show ?thesis
    using n normalize_schema_rows by blast
qed

theorem normalize_schema_idem_witness:
  "\<exists>rows. normalize_schema demo_schema = Inr rows \<and> length rows = 2 \<and> normalize_schema (map JObj rows) = Inr rows"
proof -
  have "(case normalize_schema demo_schema of Inl _ \<Rightarrow> False | Inr rows \<Rightarrow> length rows = 2)"
    by code_simp
  then obtain rows where "normalize_schema demo_schema = Inr rows" "length rows = 2"
    by (auto split: sum.splits)
  then show ?thesis
    using normalize_schema_idem by blast
qed

end
