(* ===== verification/Dosm_Adapters.thy ===== *)
theory Dosm_Adapters
  imports Dosm_Inputs
begin

text \<open>
  The provider adapters, \<open>dosm/pipelines/adapters/\<close>: configuration fields, validation,
  status mapping, and the \<open>trigger\<close> and \<open>poll\<close> calls of GitHub Actions, Azure DevOps,
  Octopus Deploy, AWX and Terraform Cloud.

  The providers are services and \<open>httpx\<close> is a library: both are the parameter \<open>ae_net\<close>, which
  answers the last of the requests sent so far. \<open>ae_iso\<close> is \<open>datetime.fromisoformat\<close> without its zone,
  \<open>ae_trunc\<close> is \<open>int()\<close> of a float. Headers are kept as the credential they carry. An answer in which a
  documented text field holds another JSON type counts as an exception.
\<close>

section \<open>The contract\<close>

datatype adapter_error = Provider_Error string | Unreachable string | Adapter_Crash string

definition RUN_STATUSES :: "string list" where
  "RUN_STATUSES = [''queued'', ''running'', ''success'', ''failed'', ''cancelled'', ''skipped'', ''unknown'']"

record trigger_result =
  tr_external_id :: "string option"
  tr_status :: string
  tr_html_url :: "string option"

record poll_result =
  po_status :: string
  po_started_at :: "stamp option"
  po_completed_at :: "stamp option"
  po_html_url :: "string option"

record field_spec =
  fs_name :: string
  fs_config_key :: string

datatype auth = Bearer string | Basic_Pat string | Api_Key string

record http_req =
  q_method :: string
  q_url :: string
  q_auth :: auth
  q_body :: "json option"
  q_verify :: bool

datatype http_answer =
    Http_Response int json_text string \<comment> \<open>status, body as JSON, body as text\<close>
  | Http_No_Connect string \<comment> \<open>\<open>ConnectError\<close>, \<open>ConnectTimeout\<close>, \<open>ReadTimeout\<close>\<close>
  | Http_Exc string \<comment> \<open>any other exception of the client\<close>

record adapter_env =
  ae_net :: "http_req list \<Rightarrow> http_answer"
  ae_iso :: "string \<Rightarrow> stamp option"
  ae_trunc :: "string \<Rightarrow> int option"

record adapter =
  ad_display_name :: string
  ad_field_schema :: "field_spec list"
  ad_target_summary :: "dict \<Rightarrow> string"
  ad_validate_config :: "dict \<Rightarrow> adapter_error + dict"
  ad_trigger :: "adapter_env \<Rightarrow> dict \<Rightarrow> string option \<Rightarrow> dict \<Rightarrow> adapter_error + trigger_result"
  ad_poll :: "adapter_env \<Rightarrow> dict \<Rightarrow> string option \<Rightarrow> string option \<Rightarrow> adapter_error + poll_result"

section \<open>Python on JSON values\<close>

definition truthy_at :: "dict \<Rightarrow> string \<Rightarrow> bool" where
  \<comment> \<open>\<open>bool(config.get(k))\<close>\<close>
  "truthy_at c k = (case dict_get c k of None \<Rightarrow> False | Some v \<Rightarrow> json_truthy v)"

definition get_or :: "dict \<Rightarrow> string \<Rightarrow> json \<Rightarrow> json" where
  \<comment> \<open>\<open>config.get(k) or dflt\<close>\<close>
  "get_or c k dflt = (case dict_get c k of None \<Rightarrow> dflt | Some v \<Rightarrow> if json_truthy v then v else dflt)"

definition cfg_at :: "dict \<Rightarrow> string \<Rightarrow> json" where
  "cfg_at c k = (case dict_get c k of None \<Rightarrow> JNull | Some v \<Rightarrow> v)"

definition cfg_str :: "dict \<Rightarrow> string \<Rightarrow> string" where
  \<comment> \<open>\<open>cfg[k]\<close> in an f-string\<close>
  "cfg_str c k = py_str (cfg_at c k)"

definition show_get :: "dict \<Rightarrow> string \<Rightarrow> string" where
  \<comment> \<open>\<open>config.get(k, "?")\<close> in an f-string\<close>
  "show_get c k = (case dict_get c k of None \<Rightarrow> ''?'' | Some v \<Rightarrow> py_str v)"

definition as_str :: "json \<Rightarrow> adapter_error + string" where
  \<comment> \<open>the receiver of a string method\<close>
  "as_str v = (case v of JStr s \<Rightarrow> Inr s | _ \<Rightarrow> Inl (Adapter_Crash ''AttributeError''))"

definition rstrip_slash :: "string \<Rightarrow> string" where
  "rstrip_slash s = rev (dropWhile (\<lambda>c. c = CHR ''/'') (rev s))"

definition require_keys :: "string \<Rightarrow> string list \<Rightarrow> dict \<Rightarrow> adapter_error + unit" where
  \<comment> \<open>the loop of every \<open>validate_config\<close>\<close>
  "require_keys who keys c = (case find (\<lambda>k. \<not> truthy_at c k) keys of
     None \<Rightarrow> Inr () | Some k \<Rightarrow> Inl (Provider_Error (who @ '' config missing '' @ py_repr k)))"

definition jget_d :: "json \<Rightarrow> string \<Rightarrow> json \<Rightarrow> adapter_error + json" where
  \<comment> \<open>\<open>data.get(k, dflt)\<close>\<close>
  "jget_d j k dflt = (case j of JObj d \<Rightarrow> Inr (case dict_get d k of None \<Rightarrow> dflt | Some v \<Rightarrow> v)
     | _ \<Rightarrow> Inl (Adapter_Crash ''AttributeError''))"

definition jget :: "json \<Rightarrow> string \<Rightarrow> adapter_error + json" where
  "jget j k = jget_d j k JNull"

definition por :: "json \<Rightarrow> json \<Rightarrow> json" where
  \<comment> \<open>\<open>a or b\<close>\<close>
  "por a b = (if json_truthy a then a else b)"

definition opt_text :: "json \<Rightarrow> adapter_error + string option" where
  \<comment> \<open>a text field of an answer\<close>
  "opt_text v = (case v of JNull \<Rightarrow> Inr None | JStr s \<Rightarrow> Inr (Some s) | _ \<Rightarrow> Inl (Adapter_Crash ''type''))"

definition hashable :: "json \<Rightarrow> bool" where
  "hashable v = (case v of JArr _ \<Rightarrow> False | JObj _ \<Rightarrow> False | _ \<Rightarrow> True)"

definition table_get :: "(string \<times> string) list \<Rightarrow> json \<Rightarrow> string \<Rightarrow> adapter_error + string" where
  \<comment> \<open>\<open>{...}.get(v or "", dflt)\<close>\<close>
  "table_get tbl v dflt = (let k = por v (JStr []) in if \<not> hashable k then Inl (Adapter_Crash ''TypeError'')
     else Inr (case k of JStr s \<Rightarrow> (case map_of tbl s of None \<Rightarrow> dflt | Some x \<Rightarrow> x) | _ \<Rightarrow> dflt))"

definition is_str_in :: "json \<Rightarrow> string list \<Rightarrow> bool" where
  "is_str_in v xs = (case v of JStr s \<Rightarrow> s \<in> set xs | _ \<Rightarrow> False)"

definition parse_iso :: "adapter_env \<Rightarrow> json \<Rightarrow> adapter_error + stamp option" where
  "parse_iso E v = (if \<not> json_truthy v then Inr None else bind_r (as_str v) (\<lambda>s.
     Inr (ae_iso E (concat (map (\<lambda>c. if c = CHR ''Z'' then ''+00:00'' else [c]) s)))))"

definition secret_text :: "string option \<Rightarrow> string \<Rightarrow> adapter_error + string" where
  \<comment> \<open>\<open>if not secret: raise\<close>\<close>
  "secret_text secret msg = (case secret of None \<Rightarrow> Inl (Provider_Error msg)
     | Some s \<Rightarrow> if s = [] then Inl (Provider_Error msg) else Inr s)"

definition http_get :: "string \<Rightarrow> auth \<Rightarrow> http_req" where
  "http_get url a = \<lparr>q_method = ''GET'', q_url = url, q_auth = a, q_body = None, q_verify = True\<rparr>"

definition http_post :: "string \<Rightarrow> auth \<Rightarrow> json \<Rightarrow> http_req" where
  "http_post url a body = \<lparr>q_method = ''POST'', q_url = url, q_auth = a, q_body = Some body, q_verify = True\<rparr>"

definition try_send :: "adapter_env \<Rightarrow> string \<Rightarrow> http_req list \<Rightarrow> adapter_error + (int \<times> json_text \<times> string)" where
  \<comment> \<open>\<open>try: await c.get(...) except (ConnectError, ConnectTimeout, ReadTimeout)\<close>, after earlier requests\<close>
  "try_send E who reqs = (case ae_net E reqs of Http_Response st j t \<Rightarrow> Inr (st, j, t)
     | Http_No_Connect e \<Rightarrow> Inl (Unreachable (who @ '' unreachable: '' @ e))
     | Http_Exc e \<Rightarrow> Inl (Adapter_Crash e))"

definition body_json :: "json_text \<Rightarrow> adapter_error + json" where
  \<comment> \<open>\<open>r.json()\<close>\<close>
  "body_json b = (case b of None \<Rightarrow> Inl (Adapter_Crash ''JSONDecodeError'') | Some j \<Rightarrow> Inr j)"

definition status_text :: "string \<Rightarrow> int \<Rightarrow> string \<Rightarrow> string" where
  \<comment> \<open>\<open>f"... {r.status_code} {r.text[:200]}"\<close>\<close>
  "status_text what st t = what @ str_int st @ '' '' @ take 200 t"

definition plain_poll :: "string \<Rightarrow> poll_result" where
  "plain_poll st = \<lparr>po_status = st, po_started_at = None, po_completed_at = None, po_html_url = None\<rparr>"

definition poll_data :: "adapter_env \<Rightarrow> string \<Rightarrow> http_req \<Rightarrow> adapter_error + json option" where
  \<comment> \<open>the request of every \<open>poll\<close>; \<open>None\<close>: 404\<close>
  "poll_data E who q = bind_r (try_send E who [q]) (\<lambda>(st, j, t).
     if st = 404 then Inr None
     else if st \<noteq> 200 then Inl (Provider_Error (status_text (who @ '' poll failed: '') st t))
     else bind_r (body_json j) (\<lambda>d. Inr (Some d)))"

section \<open>GitHub Actions\<close>

definition github_map_status :: "json \<Rightarrow> json \<Rightarrow> adapter_error + string" where
  "github_map_status status conclusion =
     (if status = JStr ''completed'' then
        table_get [(''success'', ''success''), (''failure'', ''failed''), (''cancelled'', ''cancelled''),
          (''skipped'', ''skipped''), (''timed_out'', ''failed''), (''neutral'', ''success''),
          (''action_required'', ''running''), (''stale'', ''unknown'')] conclusion ''unknown''
      else if is_str_in status [''in_progress'', ''waiting'', ''pending''] then Inr ''running''
      else if is_str_in status [''queued'', ''requested''] then Inr ''queued''
      else Inr ''unknown'')"

definition github_validate :: "dict \<Rightarrow> adapter_error + dict" where
  "github_validate c = bind_r (require_keys ''github_actions'' [''owner'', ''repo'', ''workflow''] c) (\<lambda>_.
     Inr (dict_set (dict_set c ''ref'' (get_or c ''ref'' (JStr ''main'')))
       ''api_base'' (get_or c ''api_base'' (JStr ''https://api.github.com''))))"

definition github_runs :: "json_text \<Rightarrow> adapter_error + json list" where
  \<comment> \<open>\<open>r.json().get("workflow_runs") or []\<close>, then indexed by 0\<close>
  "github_runs b = bind_r (body_json b) (\<lambda>d. bind_r (jget d ''workflow_runs'') (\<lambda>v.
     if \<not> json_truthy v then Inr []
     else (case v of JArr xs \<Rightarrow> Inr xs | _ \<Rightarrow> Inl (Adapter_Crash ''TypeError''))))"

fun github_await_run :: "nat \<Rightarrow> adapter_env \<Rightarrow> http_req \<Rightarrow> json \<Rightarrow> http_req list \<Rightarrow> adapter_error + json option" where
  \<comment> \<open>the loop after the dispatch; its requests are not inside a \<open>try\<close>\<close>
  "github_await_run 0 E q prev sent = Inr None"
| "github_await_run (Suc n) E q prev sent =
     (case ae_net E (sent @ [q]) of
        Http_No_Connect e \<Rightarrow> Inl (Adapter_Crash e)
      | Http_Exc e \<Rightarrow> Inl (Adapter_Crash e)
      | Http_Response st j t \<Rightarrow>
          if st \<noteq> 200 then github_await_run n E q prev (sent @ [q])
          else bind_r (github_runs j) (\<lambda>runs. case runs of
              [] \<Rightarrow> github_await_run n E q prev (sent @ [q])
            | newest # _ \<Rightarrow> bind_r (jget newest ''id'') (\<lambda>i.
                if prev = JNull \<or> i \<noteq> prev then Inr (Some newest)
                else github_await_run n E q prev (sent @ [q]))))"

definition POST_DISPATCH_POLL_TRIES :: nat where
  "POST_DISPATCH_POLL_TRIES = 8"

definition github_found :: "json \<Rightarrow> adapter_error + trigger_result" where
  "github_found newest = bind_r (case newest of JObj d \<Rightarrow> (case dict_get d ''id'' of None \<Rightarrow> Inl (Adapter_Crash ''KeyError'')
       | Some v \<Rightarrow> Inr (py_str v)) | _ \<Rightarrow> Inl (Adapter_Crash ''TypeError'')) (\<lambda>xid.
     bind_r (jget newest ''status'') (\<lambda>st. bind_r (jget newest ''conclusion'') (\<lambda>co.
     bind_r (github_map_status st co) (\<lambda>status.
     bind_r (jget newest ''html_url'') (\<lambda>u. bind_r (opt_text u) (\<lambda>url.
       Inr \<lparr>tr_external_id = Some xid, tr_status = status, tr_html_url = url\<rparr>))))))"

definition github_trigger :: "adapter_env \<Rightarrow> dict \<Rightarrow> string option \<Rightarrow> dict \<Rightarrow> adapter_error + trigger_result" where
  "github_trigger E config secret inputs =
     bind_r (secret_text secret ''github_actions requires a token (credential)'') (\<lambda>tok.
     bind_r (github_validate config) (\<lambda>cfg. bind_r (as_str (cfg_at cfg ''api_base'')) (\<lambda>api.
     let repo = cfg_str cfg ''owner'' @ ''/'' @ cfg_str cfg ''repo'';
         wf = cfg_str cfg ''workflow'';
         base = rstrip_slash api @ ''/repos/'' @ repo @ ''/actions/workflows/'' @ wf;
         runs_q = http_get (base @ ''/runs?per_page=1'') (Bearer tok);
         body = JObj [(''ref'', cfg_at cfg ''ref''),
           (''inputs'', JObj (map (\<lambda>p. (fst p, JStr (snd p))) (stringify_for_wire inputs)))];
         disp_q = http_post (base @ ''/dispatches'') (Bearer tok) body
     in bind_r (try_send E ''GitHub'' [runs_q]) (\<lambda>(st, j, t).
        if st = 401 then Inl (Provider_Error ''GitHub rejected the token (401)'')
        else if st = 404 then Inl (Provider_Error (''GitHub workflow not found: '' @ repo @ '' '' @ wf))
        else if st < 200 \<or> st \<ge> 300 then Inl (Adapter_Crash ''HTTPStatusError'')
        else bind_r (github_runs j) (\<lambda>previous.
        bind_r (case previous of [] \<Rightarrow> Inr JNull | x # _ \<Rightarrow> jget x ''id'') (\<lambda>prev.
        bind_r (try_send E ''GitHub'' [runs_q, disp_q]) (\<lambda>(st2, j2, t2).
        if st2 = 422 then Inl (Provider_Error (''GitHub rejected dispatch (422): '' @ take 200 t2))
        else if st2 \<notin> set [200, 201, 204] then Inl (Provider_Error (status_text ''GitHub dispatch failed: '' st2 t2))
        else bind_r (github_await_run POST_DISPATCH_POLL_TRIES E runs_q prev [runs_q, disp_q]) (\<lambda>found.
          case found of Some newest \<Rightarrow> github_found newest
          | None \<Rightarrow> Inr \<lparr>tr_external_id = None, tr_status = ''queued'', tr_html_url = None\<rparr>)))))))) "

definition no_external :: "string option \<Rightarrow> bool" where
  \<comment> \<open>\<open>not external_id\<close>\<close>
  "no_external x \<longleftrightarrow> x = None \<or> x = Some []"

definition github_poll :: "adapter_env \<Rightarrow> dict \<Rightarrow> string option \<Rightarrow> string option \<Rightarrow> adapter_error + poll_result" where
  "github_poll E config secret xid =
     bind_r (secret_text secret ''github_actions poll requires a token'') (\<lambda>tok.
     if no_external xid then Inr (plain_poll ''queued'')
     else bind_r (github_validate config) (\<lambda>cfg. bind_r (as_str (cfg_at cfg ''api_base'')) (\<lambda>api.
       bind_r (poll_data E ''GitHub'' (http_get (rstrip_slash api @ ''/repos/'' @ cfg_str cfg ''owner'' @ ''/''
           @ cfg_str cfg ''repo'' @ ''/actions/runs/'' @ the xid) (Bearer tok))) (\<lambda>res.
       case res of None \<Rightarrow> Inr (plain_poll ''unknown'')
       | Some data \<Rightarrow>
         bind_r (jget data ''status'') (\<lambda>st. bind_r (jget data ''conclusion'') (\<lambda>co.
         bind_r (github_map_status st co) (\<lambda>status.
         bind_r (jget data ''run_started_at'') (\<lambda>rs. bind_r (jget data ''created_at'') (\<lambda>ca.
         bind_r (parse_iso E (por rs ca)) (\<lambda>started.
         bind_r (if st = JStr ''completed'' then bind_r (jget data ''updated_at'') (parse_iso E) else Inr None) (\<lambda>completed.
         bind_r (jget data ''html_url'') (\<lambda>u. bind_r (opt_text u) (\<lambda>url.
           Inr \<lparr>po_status = status, po_started_at = started, po_completed_at = completed, po_html_url = url\<rparr>)))))))))))))"

section \<open>Azure DevOps\<close>

definition azure_map_status :: "json \<Rightarrow> json \<Rightarrow> adapter_error + string" where
  "azure_map_status state result =
     (if state = JStr ''completed'' then
        table_get [(''succeeded'', ''success''), (''failed'', ''failed''), (''canceled'', ''cancelled'')] result ''unknown''
      else if is_str_in state [''inProgress'', ''canceling''] then Inr ''running''
      else Inr ''queued'')"

definition azure_validate :: "dict \<Rightarrow> adapter_error + dict" where
  "azure_validate c = bind_r (require_keys ''azure_devops'' [''organization'', ''project'', ''pipeline_id''] c) (\<lambda>_.
     bind_r (as_str (get_or c ''api_base'' (JStr ''https://dev.azure.com''))) (\<lambda>b.
     Inr (dict_set (dict_set c ''branch'' (get_or c ''branch'' (JStr ''refs/heads/main'')))
       ''api_base'' (JStr (rstrip_slash b)))))"

definition azure_runs_url :: "dict \<Rightarrow> string \<Rightarrow> string" where
  "azure_runs_url cfg run_id = cfg_str cfg ''api_base'' @ ''/'' @ cfg_str cfg ''organization'' @ ''/'' @ cfg_str cfg ''project''
     @ ''/_apis/pipelines/'' @ cfg_str cfg ''pipeline_id'' @ ''/runs'' @ (if run_id = [] then [] else ''/'' @ run_id)
     @ ''?api-version=7.0''"

definition azure_web_link :: "json \<Rightarrow> adapter_error + json" where
  \<comment> \<open>\<open>data.get("_links", {}).get("web", {}).get("href")\<close>\<close>
  "azure_web_link data = bind_r (jget_d data ''_links'' (JObj [])) (\<lambda>l. bind_r (jget_d l ''web'' (JObj []))
     (\<lambda>w. jget w ''href''))"

definition azure_body :: "dict \<Rightarrow> dict \<Rightarrow> json" where
  "azure_body cfg inputs = (case split_azure_devops_inputs inputs of (params, variables) \<Rightarrow>
     JObj ([(''resources'', JObj [(''repositories'', JObj [(''self'', JObj [(''refName'', cfg_at cfg ''branch'')])])])]
       @ (if params \<noteq> [] then [(''templateParameters'', JObj params)] else [])
       @ (if variables \<noteq> [] then [(''variables'', JObj (map (\<lambda>p. (fst p, JObj [(''value'', JStr (snd p))])) variables))] else [])))"

definition azure_trigger :: "adapter_env \<Rightarrow> dict \<Rightarrow> string option \<Rightarrow> dict \<Rightarrow> adapter_error + trigger_result" where
  "azure_trigger E config secret inputs =
     bind_r (secret_text secret ''azure_devops requires a PAT credential'') (\<lambda>tok.
     bind_r (azure_validate config) (\<lambda>cfg.
     bind_r (try_send E ''Azure DevOps'' [http_post (azure_runs_url cfg []) (Basic_Pat tok) (azure_body cfg inputs)]) (\<lambda>(st, j, t).
       if st = 401 then Inl (Provider_Error ''Azure DevOps rejected the PAT (401)'')
       else if st = 404 then Inl (Provider_Error (''Azure DevOps pipeline not found: '' @ cfg_str cfg ''organization'' @ ''/''
              @ cfg_str cfg ''project'' @ '' #'' @ cfg_str cfg ''pipeline_id''))
       else if st \<notin> set [200, 201] then Inl (Provider_Error (status_text ''Azure DevOps trigger failed: '' st t))
       else bind_r (body_json j) (\<lambda>data. bind_r (jget_d data ''id'' (JStr [])) (\<lambda>i.
         let run_id = py_str i in
         bind_r (azure_web_link data) (\<lambda>href.
         bind_r (opt_text (por href (if run_id = [] then JNull else JStr (cfg_str cfg ''api_base'' @ ''/''
            @ cfg_str cfg ''organization'' @ ''/'' @ cfg_str cfg ''project'' @ ''/_build/results?buildId='' @ run_id)))) (\<lambda>url.
         bind_r (jget data ''state'') (\<lambda>state. bind_r (jget data ''result'') (\<lambda>result.
         bind_r (azure_map_status state result) (\<lambda>status.
           Inr \<lparr>tr_external_id = or_none run_id, tr_status = status, tr_html_url = url\<rparr>))))))))))"

definition azure_poll :: "adapter_env \<Rightarrow> dict \<Rightarrow> string option \<Rightarrow> string option \<Rightarrow> adapter_error + poll_result" where
  "azure_poll E config secret xid =
     bind_r (secret_text secret ''azure_devops poll requires a PAT'') (\<lambda>tok.
     if no_external xid then Inr (plain_poll ''queued'')
     else bind_r (azure_validate config) (\<lambda>cfg.
       bind_r (poll_data E ''Azure DevOps'' (http_get (azure_runs_url cfg (the xid)) (Basic_Pat tok))) (\<lambda>res.
       case res of None \<Rightarrow> Inr (plain_poll ''unknown'')
       | Some data \<Rightarrow>
         bind_r (azure_web_link data) (\<lambda>href. bind_r (opt_text href) (\<lambda>url.
         bind_r (jget data ''state'') (\<lambda>state. bind_r (jget data ''result'') (\<lambda>result.
         bind_r (azure_map_status state result) (\<lambda>status.
         bind_r (jget data ''createdDate'') (\<lambda>cd. bind_r (parse_iso E cd) (\<lambda>started.
         bind_r (if state = JStr ''completed'' then bind_r (jget data ''finishedDate'') (parse_iso E) else Inr None) (\<lambda>completed.
           Inr \<lparr>po_status = status, po_started_at = started, po_completed_at = completed, po_html_url = url\<rparr>)))))))))))"

section \<open>Octopus Deploy\<close>

definition octopus_map_status :: "json \<Rightarrow> adapter_error + string" where
  "octopus_map_status state = table_get [(''Queued'', ''queued''), (''Executing'', ''running''), (''Cancelling'', ''running''),
     (''Success'', ''success''), (''Failed'', ''failed''), (''TimedOut'', ''failed''), (''Canceled'', ''cancelled'')] state ''unknown''"

definition octopus_validate :: "dict \<Rightarrow> adapter_error + dict" where
  "octopus_validate c = bind_r (require_keys ''octopus_deploy'' [''base_url'', ''project_id'', ''environment_id''] c) (\<lambda>_.
     bind_r (as_str (cfg_at c ''base_url'')) (\<lambda>b.
     Inr (dict_set (dict_set (dict_set (dict_set c ''base_url'' (JStr (rstrip_slash b)))
       ''space_id'' (get_or c ''space_id'' (JStr ''Spaces-1'')))
       ''release_version'' (get_or c ''release_version'' JNull))
       ''tenant_id'' (get_or c ''tenant_id'' JNull))))"

definition octopus_pinned :: "adapter_env \<Rightarrow> dict \<Rightarrow> http_req \<Rightarrow> adapter_error + json" where
  \<comment> \<open>fetch a specific release by version number\<close>
  "octopus_pinned E cfg q = bind_r (try_send E ''Octopus'' [q]) (\<lambda>(st, j, t).
     if st = 401 then Inl (Provider_Error ''Octopus rejected the API key (401)'')
     else if st \<noteq> 200 then Inl (Provider_Error (''Octopus release '' @ json_repr (cfg_at cfg ''release_version'')
            @ '' not found for project '' @ json_repr (cfg_at cfg ''project_id'')))
     else bind_r (body_json j) (\<lambda>d. jget d ''Id''))"

definition octopus_latest :: "adapter_env \<Rightarrow> dict \<Rightarrow> http_req \<Rightarrow> adapter_error + json" where
  \<comment> \<open>fetch the latest release\<close>
  "octopus_latest E cfg q = bind_r (try_send E ''Octopus'' [q]) (\<lambda>(st, j, t).
     if st = 401 then Inl (Provider_Error ''Octopus rejected the API key (401)'')
     else if st = 404 then Inl (Provider_Error (''Octopus project not found: '' @ json_repr (cfg_at cfg ''project_id'')))
     else if st \<noteq> 200 then Inl (Provider_Error (status_text ''Octopus releases fetch failed: '' st t))
     else bind_r (body_json j) (\<lambda>d. bind_r (jget d ''Items'') (\<lambda>items.
       if \<not> json_truthy items
       then Inl (Provider_Error (''No releases found for Octopus project '' @ json_repr (cfg_at cfg ''project_id'')))
       else (case items of JArr (JObj x # _) \<Rightarrow> (case dict_get x ''Id'' of
                None \<Rightarrow> Inl (Adapter_Crash ''KeyError'') | Some v \<Rightarrow> Inr v)
             | _ \<Rightarrow> Inl (Adapter_Crash ''TypeError'')))))"

definition octopus_trigger :: "adapter_env \<Rightarrow> dict \<Rightarrow> string option \<Rightarrow> dict \<Rightarrow> adapter_error + trigger_result" where
  "octopus_trigger E config secret inputs =
     bind_r (secret_text secret ''octopus_deploy requires an API key credential'') (\<lambda>key.
     bind_r (octopus_validate config) (\<lambda>cfg.
     let base = cfg_str cfg ''base_url'';
         space = cfg_str cfg ''space_id'';
         releases = base @ ''/api/'' @ space @ ''/projects/'' @ cfg_str cfg ''project_id'' @ ''/releases'';
         pinned = truthy_at cfg ''release_version'';
         q = http_get (if pinned then releases @ ''/'' @ cfg_str cfg ''release_version'' else releases @ ''?take=1'') (Api_Key key)
     in bind_r (if pinned then octopus_pinned E cfg q else octopus_latest E cfg q) (\<lambda>rid.
        let body = JObj ([(''ReleaseId'', rid), (''EnvironmentId'', cfg_at cfg ''environment_id'')]
              @ (if truthy_at cfg ''tenant_id'' then [(''TenantId'', cfg_at cfg ''tenant_id'')] else [])
              @ (if inputs \<noteq> [] then [(''FormValues'', JObj (map (\<lambda>p. (fst p, JStr (snd p))) (stringify_for_wire inputs)))] else []))
        in bind_r (try_send E ''Octopus'' [q, http_post (base @ ''/api/'' @ space @ ''/deployments'') (Api_Key key) body])
           (\<lambda>(st, j, t).
             if st \<notin> set [200, 201] then Inl (Provider_Error (status_text ''Octopus deployment creation failed: '' st t))
             else bind_r (body_json j) (\<lambda>data. bind_r (jget data ''TaskId'') (\<lambda>v.
               bind_r (opt_text (por v (JStr []))) (\<lambda>task.
               let task_id = or_default task [] in
               Inr \<lparr>tr_external_id = or_none task_id, tr_status = ''queued'',
                 tr_html_url = (if task_id = [] then None
                   else Some (base @ ''/app#/'' @ space @ ''/tasks/'' @ task_id))\<rparr>)))))))"

definition octopus_poll :: "adapter_env \<Rightarrow> dict \<Rightarrow> string option \<Rightarrow> string option \<Rightarrow> adapter_error + poll_result" where
  "octopus_poll E config secret xid =
     bind_r (secret_text secret ''octopus_deploy poll requires an API key'') (\<lambda>key.
     if no_external xid then Inr (plain_poll ''queued'')
     else bind_r (octopus_validate config) (\<lambda>cfg.
       let base = cfg_str cfg ''base_url''; space = cfg_str cfg ''space_id'' in
       bind_r (poll_data E ''Octopus'' (http_get (base @ ''/api/'' @ space @ ''/tasks/'' @ the xid) (Api_Key key))) (\<lambda>res.
       case res of None \<Rightarrow> Inr (plain_poll ''unknown'')
       | Some data \<Rightarrow>
         bind_r (jget data ''State'') (\<lambda>state. bind_r (octopus_map_status state) (\<lambda>status.
         bind_r (jget data ''StartTime'') (\<lambda>stime. bind_r (parse_iso E stime) (\<lambda>started.
         bind_r (if is_str_in state [''Success'', ''Failed'', ''TimedOut'', ''Canceled'']
                 then bind_r (jget data ''CompletedTime'') (parse_iso E) else Inr None) (\<lambda>completed.
           Inr \<lparr>po_status = status, po_started_at = started, po_completed_at = completed,
             po_html_url = Some (base @ ''/app#/'' @ space @ ''/tasks/'' @ the xid)\<rparr>))))))))"

section \<open>Ansible AWX\<close>

definition awx_map_status :: "json \<Rightarrow> adapter_error + string" where
  "awx_map_status status = table_get [(''pending'', ''queued''), (''waiting'', ''queued''), (''running'', ''running''),
     (''successful'', ''success''), (''failed'', ''failed''), (''error'', ''failed''), (''canceled'', ''cancelled'')] status ''unknown''"

definition awx_validate :: "dict \<Rightarrow> adapter_error + dict" where
  "awx_validate c = bind_r (require_keys ''awx'' [''base_url'', ''job_template_id''] c) (\<lambda>_.
     bind_r (as_str (cfg_at c ''base_url'')) (\<lambda>b.
     bind_r (as_str (get_or c ''verify_ssl'' (JStr ''true''))) (\<lambda>ssl.
     let raw_ssl = py_lower (py_strip ssl) in
     Inr (dict_set (dict_set (dict_set (dict_set c ''base_url'' (JStr (rstrip_slash b)))
       ''inventory_id'' (get_or c ''inventory_id'' JNull))
       ''limit'' (get_or c ''limit'' JNull))
       ''verify_ssl'' (JBool (raw_ssl \<notin> set [''false'', ''0'', ''no'']))))))"

definition awx_inventory :: "adapter_env \<Rightarrow> json \<Rightarrow> json" where
  \<comment> \<open>\<open>int(v)\<close>, the value itself on \<open>TypeError\<close> or \<open>ValueError\<close>\<close>
  "awx_inventory E v = (case v of
     JStr s \<Rightarrow> (case py_int s of None \<Rightarrow> v | Some i \<Rightarrow> JInt i)
   | JBool b \<Rightarrow> JInt (if b then 1 else 0)
   | JFloat f \<Rightarrow> (case ae_trunc E f of None \<Rightarrow> v | Some i \<Rightarrow> JInt i)
   | _ \<Rightarrow> v)"

definition awx_trigger :: "adapter_env \<Rightarrow> dict \<Rightarrow> string option \<Rightarrow> dict \<Rightarrow> adapter_error + trigger_result" where
  "awx_trigger E config secret inputs =
     bind_r (secret_text secret ''awx requires a bearer token credential'') (\<lambda>tok.
     bind_r (awx_validate config) (\<lambda>cfg.
     let base = cfg_str cfg ''base_url'';
         body = JObj ((if inputs \<noteq> [] then [(''extra_vars'', JObj inputs)] else [])
           @ (if truthy_at cfg ''inventory_id'' then [(''inventory'', awx_inventory E (cfg_at cfg ''inventory_id''))] else [])
           @ (if truthy_at cfg ''limit'' then [(''limit'', cfg_at cfg ''limit'')] else []));
         q = (http_post (base @ ''/api/v2/job_templates/'' @ cfg_str cfg ''job_template_id'' @ ''/launch/'') (Bearer tok) body)
               \<lparr>q_verify := json_truthy (cfg_at cfg ''verify_ssl'')\<rparr>
     in bind_r (try_send E ''AWX'' [q]) (\<lambda>(st, j, t).
        if st = 401 then Inl (Provider_Error ''AWX rejected the token (401)'')
        else if st = 404 then Inl (Provider_Error (''AWX job template '' @ json_repr (cfg_at cfg ''job_template_id'') @ '' not found''))
        else if st \<notin> set [200, 201] then Inl (Provider_Error (status_text ''AWX launch failed: '' st t))
        else bind_r (body_json j) (\<lambda>data. bind_r (jget data ''job'') (\<lambda>job. bind_r (jget data ''id'') (\<lambda>i.
          let job_id = py_str (por job (por i (JStr []))) in
          bind_r (jget data ''status'') (\<lambda>sv. bind_r (awx_map_status sv) (\<lambda>status.
            Inr \<lparr>tr_external_id = or_none job_id, tr_status = status,
              tr_html_url = (if job_id = [] then None else Some (base @ ''/#/jobs/playbook/'' @ job_id @ ''/output''))\<rparr>))))))))"

definition awx_poll :: "adapter_env \<Rightarrow> dict \<Rightarrow> string option \<Rightarrow> string option \<Rightarrow> adapter_error + poll_result" where
  "awx_poll E config secret xid =
     bind_r (secret_text secret ''awx poll requires a token'') (\<lambda>tok.
     if no_external xid then Inr (plain_poll ''queued'')
     else bind_r (awx_validate config) (\<lambda>cfg.
       let base = cfg_str cfg ''base_url'';
           q = (http_get (base @ ''/api/v2/jobs/'' @ the xid @ ''/'') (Bearer tok))
                 \<lparr>q_verify := json_truthy (cfg_at cfg ''verify_ssl'')\<rparr>
       in bind_r (poll_data E ''AWX'' q) (\<lambda>res.
       case res of None \<Rightarrow> Inr (plain_poll ''unknown'')
       | Some data \<Rightarrow>
         bind_r (jget data ''status'') (\<lambda>sv. bind_r (awx_map_status sv) (\<lambda>status.
         bind_r (jget data ''started'') (\<lambda>sa. bind_r (parse_iso E sa) (\<lambda>started.
         bind_r (if status \<in> set [''success'', ''failed'', ''cancelled'']
                 then bind_r (jget data ''finished'') (parse_iso E) else Inr None) (\<lambda>completed.
           Inr \<lparr>po_status = status, po_started_at = started, po_completed_at = completed,
             po_html_url = Some (base @ ''/#/jobs/playbook/'' @ the xid @ ''/output'')\<rparr>))))))))"

section \<open>Terraform Cloud\<close>

definition RUNNING_STATUSES :: "string list" where
  "RUNNING_STATUSES = [''pending'', ''fetching'', ''fetching_completed'', ''queuing'', ''plan_queued'', ''planning'',
     ''planned'', ''cost_estimating'', ''cost_estimated'', ''policy_checking'', ''policy_checked'', ''apply_queued'',
     ''applying'', ''post_plan_running'', ''post_plan_completed'', ''confirmed'']"

definition tfc_map_status :: "json \<Rightarrow> adapter_error + string" where
  "tfc_map_status status = (if \<not> hashable status then Inl (Adapter_Crash ''TypeError'')
     else Inr (if is_str_in status [''applied''] then ''success''
       else if is_str_in status [''errored''] then ''failed''
       else if is_str_in status [''discarded'', ''canceled'', ''force_canceled''] then ''cancelled''
       else if is_str_in status RUNNING_STATUSES then ''running''
       else ''unknown''))"

definition coerce_bool :: "dict \<Rightarrow> string \<Rightarrow> bool \<Rightarrow> adapter_error + bool" where
  \<comment> \<open>\<open>_coerce_bool(config.get(k), default)\<close>\<close>
  "coerce_bool c k dflt = (if \<not> truthy_at c k then Inr dflt
     else bind_r (as_str (cfg_at c k)) (\<lambda>s. Inr (py_lower (py_strip s) \<in> set [''true'', ''1'', ''yes''])))"

definition tfc_validate :: "dict \<Rightarrow> adapter_error + dict" where
  "tfc_validate c = bind_r (require_keys ''terraform_cloud'' [''workspace_id''] c) (\<lambda>_.
     bind_r (as_str (get_or c ''base_url'' (JStr ''https://app.terraform.io''))) (\<lambda>b.
     bind_r (coerce_bool c ''auto_apply'' False) (\<lambda>apply.
     bind_r (coerce_bool c ''is_destroy'' False) (\<lambda>destroy.
     Inr (dict_set (dict_set (dict_set (dict_set c ''base_url'' (JStr (rstrip_slash b)))
       ''auto_apply'' (JBool apply)) ''is_destroy'' (JBool destroy))
       ''message'' (get_or c ''message'' (JStr ''Triggered from DOSM'')))))))"

definition tfc_html :: "json \<Rightarrow> adapter_error + string option" where
  \<comment> \<open>\<open>run_data.get("links", {}).get("html")\<close>\<close>
  "tfc_html rd = bind_r (jget_d rd ''links'' (JObj [])) (\<lambda>l. bind_r (jget l ''html'') opt_text)"

definition tfc_trigger :: "adapter_env \<Rightarrow> dict \<Rightarrow> string option \<Rightarrow> dict \<Rightarrow> adapter_error + trigger_result" where
  "tfc_trigger E config secret inputs =
     bind_r (secret_text secret ''terraform_cloud requires an API token credential'') (\<lambda>tok.
     bind_r (tfc_validate config) (\<lambda>cfg.
     let body = JObj [(''data'', JObj [(''type'', JStr ''runs''),
           (''attributes'', JObj [(''message'', cfg_at cfg ''message''), (''is-destroy'', cfg_at cfg ''is_destroy''),
              (''auto-apply'', cfg_at cfg ''auto_apply'')]),
           (''relationships'', JObj [(''workspace'', JObj [(''data'', JObj [(''type'', JStr ''workspaces''),
              (''id'', cfg_at cfg ''workspace_id'')])])])])]
     in bind_r (try_send E ''Terraform Cloud'' [http_post (cfg_str cfg ''base_url'' @ ''/api/v2/runs'') (Bearer tok) body])
       (\<lambda>(st, j, t).
        if st = 401 then Inl (Provider_Error ''Terraform Cloud rejected the token (401)'')
        else if st = 404 then Inl (Provider_Error (''Terraform Cloud workspace not found: '' @ json_repr (cfg_at cfg ''workspace_id'')))
        else if st \<notin> set [200, 201] then Inl (Provider_Error (status_text ''Terraform Cloud run creation failed: '' st t))
        else bind_r (body_json j) (\<lambda>data. bind_r (jget_d data ''data'' (JObj [])) (\<lambda>rd.
          bind_r (jget_d rd ''id'' (JStr [])) (\<lambda>iv. bind_r (opt_text iv) (\<lambda>run_id.
          bind_r (jget_d rd ''attributes'' (JObj [])) (\<lambda>attrs.
          bind_r (tfc_html rd) (\<lambda>url.
          bind_r (jget attrs ''status'') (\<lambda>sv. bind_r (tfc_map_status sv) (\<lambda>status.
            Inr \<lparr>tr_external_id = or_none (or_default run_id []), tr_status = status, tr_html_url = url\<rparr>)))))))))))"

definition first_truthy :: "json \<Rightarrow> string list \<Rightarrow> adapter_error + json" where
  \<comment> \<open>\<open>timestamps.get(a) or timestamps.get(b) or ...\<close>\<close>
  "first_truthy j ks = (case j of JObj d \<Rightarrow> Inr (case find (truthy_at d) ks of None \<Rightarrow> JNull | Some k \<Rightarrow> cfg_at d k)
     | _ \<Rightarrow> Inl (Adapter_Crash ''AttributeError''))"

definition tfc_poll :: "adapter_env \<Rightarrow> dict \<Rightarrow> string option \<Rightarrow> string option \<Rightarrow> adapter_error + poll_result" where
  "tfc_poll E config secret xid =
     bind_r (secret_text secret ''terraform_cloud poll requires a token'') (\<lambda>tok.
     if no_external xid then Inr (plain_poll ''queued'')
     else bind_r (tfc_validate config) (\<lambda>cfg.
       bind_r (poll_data E ''Terraform Cloud'' (http_get (cfg_str cfg ''base_url'' @ ''/api/v2/runs/'' @ the xid) (Bearer tok))) (\<lambda>res.
       case res of None \<Rightarrow> Inr (plain_poll ''unknown'')
       | Some data \<Rightarrow>
         bind_r (jget_d data ''data'' (JObj [])) (\<lambda>rd. bind_r (jget_d rd ''attributes'' (JObj [])) (\<lambda>attrs.
         bind_r (jget attrs ''status'') (\<lambda>sv. bind_r (tfc_map_status sv) (\<lambda>status.
         bind_r (tfc_html rd) (\<lambda>url.
         bind_r (jget_d attrs ''status-timestamps'' (JObj [])) (\<lambda>ts.
         bind_r (first_truthy ts [''planning-at'', ''plan-queued-at'']) (\<lambda>a. bind_r (parse_iso E a) (\<lambda>started.
         bind_r (if status \<in> set [''success'', ''failed'', ''cancelled'']
                 then bind_r (first_truthy ts [''applied-at'', ''errored-at'', ''canceled-at'', ''discarded-at'']) (parse_iso E)
                 else Inr None) (\<lambda>completed.
           Inr \<lparr>po_status = status, po_started_at = started, po_completed_at = completed, po_html_url = url\<rparr>))))))))))))"

section \<open>The registry\<close>

definition fields :: "(string \<times> string) list \<Rightarrow> field_spec list" where
  "fields xs = map (\<lambda>p. \<lparr>fs_name = fst p, fs_config_key = snd p\<rparr>) xs"

definition middle_dot :: string where
  "middle_dot = [CHR '' '', char_of (183 :: nat), CHR '' '']"

definition github_adapter :: adapter where
  "github_adapter = \<lparr>ad_display_name = ''GitHub Actions'',
     ad_field_schema = fields [(''gh_owner'', ''owner''), (''gh_repo'', ''repo''), (''gh_workflow'', ''workflow''),
       (''gh_ref'', ''ref''), (''gh_api_base'', ''api_base'')],
     ad_target_summary = (\<lambda>c. show_get c ''owner'' @ ''/'' @ show_get c ''repo'' @ middle_dot @ show_get c ''workflow''),
     ad_validate_config = github_validate, ad_trigger = github_trigger, ad_poll = github_poll\<rparr>"

definition azure_adapter :: adapter where
  "azure_adapter = \<lparr>ad_display_name = ''Azure DevOps'',
     ad_field_schema = fields [(''ado_org'', ''organization''), (''ado_project'', ''project''),
       (''ado_pipeline_id'', ''pipeline_id''), (''ado_branch'', ''branch''), (''ado_api_base'', ''api_base'')],
     ad_target_summary = (\<lambda>c. show_get c ''organization'' @ ''/'' @ show_get c ''project'' @ middle_dot @ ''pipeline #'' @ show_get c ''pipeline_id''),
     ad_validate_config = azure_validate, ad_trigger = azure_trigger, ad_poll = azure_poll\<rparr>"

definition octopus_adapter :: adapter where
  "octopus_adapter = \<lparr>ad_display_name = ''Octopus Deploy'',
     ad_field_schema = fields [(''oct_base_url'', ''base_url''), (''oct_space_id'', ''space_id''), (''oct_project_id'', ''project_id''),
       (''oct_environment_id'', ''environment_id''), (''oct_tenant_id'', ''tenant_id''), (''oct_release_version'', ''release_version'')],
     ad_target_summary = (\<lambda>c. show_get c ''project_id'' @ '' -> '' @ show_get c ''environment_id''),
     ad_validate_config = octopus_validate, ad_trigger = octopus_trigger, ad_poll = octopus_poll\<rparr>"

definition awx_adapter :: adapter where
  "awx_adapter = \<lparr>ad_display_name = ''Ansible AWX'',
     ad_field_schema = fields [(''awx_base_url'', ''base_url''), (''awx_job_template_id'', ''job_template_id''),
       (''awx_inventory_id'', ''inventory_id''), (''awx_limit'', ''limit''), (''awx_verify_ssl'', ''verify_ssl'')],
     ad_target_summary = (\<lambda>c. show_get c ''base_url'' @ middle_dot @ ''template #'' @ show_get c ''job_template_id''),
     ad_validate_config = awx_validate, ad_trigger = awx_trigger, ad_poll = awx_poll\<rparr>"

definition tfc_adapter :: adapter where
  "tfc_adapter = \<lparr>ad_display_name = ''Terraform Cloud'',
     ad_field_schema = fields [(''tfc_base_url'', ''base_url''), (''tfc_workspace_id'', ''workspace_id''),
       (''tfc_auto_apply'', ''auto_apply''), (''tfc_is_destroy'', ''is_destroy''), (''tfc_message'', ''message'')],
     ad_target_summary = (\<lambda>c. show_get c ''workspace_id''),
     ad_validate_config = tfc_validate, ad_trigger = tfc_trigger, ad_poll = tfc_poll\<rparr>"

definition registry :: "(string \<times> adapter) list" where
  "registry = [(''github_actions'', github_adapter), (''azure_devops'', azure_adapter), (''octopus_deploy'', octopus_adapter),
     (''awx'', awx_adapter), (''terraform_cloud'', tfc_adapter)]"

definition get_adapter :: "string \<Rightarrow> adapter_error + adapter" where
  "get_adapter provider = (case map_of registry provider of
     None \<Rightarrow> Inl (Provider_Error (''unknown pipeline provider '' @ py_repr provider)) | Some a \<Rightarrow> Inr a)"

definition list_providers :: "string list" where
  "list_providers = map fst registry"

section \<open>What every adapter promises\<close>

text \<open>The contract of \<open>PipelineAdapter\<close> (\<open>base.py\<close>): statuses inside \<open>RUN_STATUSES\<close>, no
  call without a secret or with a configuration that does not validate, and no request for a run the
  provider has not named yet.\<close>

locale pipeline_adapter =
  fixes validate :: "dict \<Rightarrow> adapter_error + dict"
    and trig :: "adapter_env \<Rightarrow> dict \<Rightarrow> string option \<Rightarrow> dict \<Rightarrow> adapter_error + trigger_result"
    and poll :: "adapter_env \<Rightarrow> dict \<Rightarrow> string option \<Rightarrow> string option \<Rightarrow> adapter_error + poll_result"
  assumes no_secret: "secret = None \<or> secret = Some [] \<Longrightarrow> \<exists>m. trig E c secret i = Inl (Provider_Error m)"
      "secret = None \<or> secret = Some [] \<Longrightarrow> \<exists>m. poll E c secret x = Inl (Provider_Error m)"
    and trig_status: "trig E c secret i = Inr r \<Longrightarrow> tr_status r \<in> set RUN_STATUSES"
    and poll_status: "poll E c secret x = Inr q \<Longrightarrow> po_status q \<in> set RUN_STATUSES"
    and trig_validates: "trig E c secret i = Inr r \<Longrightarrow> \<exists>c'. validate c = Inr c'"
    and trig_invalid: "validate c = Inl e \<Longrightarrow> k \<noteq> [] \<Longrightarrow> trig E c (Some k) i = Inl e"
    and poll_unnamed: "no_external x \<Longrightarrow> k \<noteq> [] \<Longrightarrow> poll E c (Some k) x = Inr (plain_poll ''queued'')"
    and poll_invalid: "validate c = Inl e \<Longrightarrow> k \<noteq> [] \<Longrightarrow> \<not> no_external x \<Longrightarrow> poll E c (Some k) x = Inl e"
begin

lemma trig_needs_secret: "trig E c secret i = Inr r \<Longrightarrow> \<exists>k. secret = Some k \<and> k \<noteq> []"
  using no_secret(1) [of secret E c i] by (cases secret) (auto split: if_splits)

lemma invalid_never_runs: "validate c = Inl e \<Longrightarrow> \<exists>e'. trig E c secret i = Inl e'"
  using trig_validates [of E c secret i] by (cases "trig E c secret i") auto

end

lemma table_get_status: "table_get tbl v d = Inr s \<Longrightarrow> s \<in> insert d (snd ` set tbl)"
  by (auto simp: table_get_def Let_def split: if_splits json.splits option.splits dest!: map_of_SomeD) force

lemma secret_text_simps [simp]: "secret_text None m = Inl (Provider_Error m)" "secret_text (Some []) m = Inl (Provider_Error m)"
  "k \<noteq> [] \<Longrightarrow> secret_text (Some k) m = Inr k"
  by (simp_all add: secret_text_def)

lemma plain_poll_status [simp]: "po_status (plain_poll st) = st"
  by (simp add: plain_poll_def)

lemma status_in_set [simp]:
  "''queued'' \<in> set RUN_STATUSES" "''running'' \<in> set RUN_STATUSES" "''unknown'' \<in> set RUN_STATUSES"
  "''success'' \<in> set RUN_STATUSES" "''failed'' \<in> set RUN_STATUSES" "''cancelled'' \<in> set RUN_STATUSES"
  by (simp_all add: RUN_STATUSES_def)

lemma map_status_range:
  "github_map_status a b = Inr s \<Longrightarrow> s \<in> set RUN_STATUSES"
  "azure_map_status a b = Inr s \<Longrightarrow> s \<in> set RUN_STATUSES"
  "octopus_map_status a = Inr s \<Longrightarrow> s \<in> set RUN_STATUSES"
  "awx_map_status a = Inr s \<Longrightarrow> s \<in> set RUN_STATUSES"
  "tfc_map_status a = Inr s \<Longrightarrow> s \<in> set RUN_STATUSES"
  by (auto simp: github_map_status_def azure_map_status_def octopus_map_status_def awx_map_status_def tfc_map_status_def
      RUN_STATUSES_def dest!: table_get_status split: if_splits)

lemma github_found_status: "all_r (\<lambda>r. tr_status r \<in> set RUN_STATUSES) (github_found j)"
  unfolding github_found_def by (auto intro!: all_r_bind dest!: map_status_range(1))

lemma github_statuses:
  "all_r (\<lambda>r. tr_status r \<in> set RUN_STATUSES) (github_trigger E c secret i)"
  "all_r (\<lambda>q. po_status q \<in> set RUN_STATUSES) (github_poll E c secret x)"
  unfolding github_trigger_def github_poll_def Let_def
  by (auto intro!: all_r_bind split: option.split dest!: map_status_range(1) simp: github_found_status)

interpretation gh: pipeline_adapter github_validate github_trigger github_poll
proof unfold_locales
  fix E c secret i r
  show "github_trigger E c secret i = Inr r \<Longrightarrow> tr_status r \<in> set RUN_STATUSES"
    by (rule all_rD [OF github_statuses(1)])
next
  fix E c secret x q
  show "github_poll E c secret x = Inr q \<Longrightarrow> po_status q \<in> set RUN_STATUSES"
    by (rule all_rD [OF github_statuses(2)])
next
  fix E c secret i r
  show "github_trigger E c secret i = Inr r \<Longrightarrow> \<exists>c'. github_validate c = Inr c'"
    unfolding github_trigger_def by (auto simp only: bind_r_Inr_iff)
qed (auto simp: github_trigger_def github_poll_def no_external_def)

lemma azure_statuses:
  "all_r (\<lambda>r. tr_status r \<in> set RUN_STATUSES) (azure_trigger E c secret i)"
  "all_r (\<lambda>q. po_status q \<in> set RUN_STATUSES) (azure_poll E c secret x)"
  unfolding azure_trigger_def azure_poll_def Let_def
  by (auto intro!: all_r_bind split: option.split dest!: map_status_range(2))

interpretation ado: pipeline_adapter azure_validate azure_trigger azure_poll
proof unfold_locales
  fix E c secret i r
  show "azure_trigger E c secret i = Inr r \<Longrightarrow> tr_status r \<in> set RUN_STATUSES"
    by (rule all_rD [OF azure_statuses(1)])
next
  fix E c secret x q
  show "azure_poll E c secret x = Inr q \<Longrightarrow> po_status q \<in> set RUN_STATUSES"
    by (rule all_rD [OF azure_statuses(2)])
next
  fix E c secret i r
  show "azure_trigger E c secret i = Inr r \<Longrightarrow> \<exists>c'. azure_validate c = Inr c'"
    unfolding azure_trigger_def by (auto simp only: bind_r_Inr_iff)
qed (auto simp: azure_trigger_def azure_poll_def no_external_def)

lemma octopus_statuses:
  "all_r (\<lambda>r. tr_status r \<in> set RUN_STATUSES) (octopus_trigger E c secret i)"
  "all_r (\<lambda>q. po_status q \<in> set RUN_STATUSES) (octopus_poll E c secret x)"
  unfolding octopus_trigger_def octopus_poll_def Let_def
  by (auto intro!: all_r_bind split: option.split dest!: map_status_range(3))

interpretation octo: pipeline_adapter octopus_validate octopus_trigger octopus_poll
proof unfold_locales
  fix E c secret i r
  show "octopus_trigger E c secret i = Inr r \<Longrightarrow> tr_status r \<in> set RUN_STATUSES"
    by (rule all_rD [OF octopus_statuses(1)])
next
  fix E c secret x q
  show "octopus_poll E c secret x = Inr q \<Longrightarrow> po_status q \<in> set RUN_STATUSES"
    by (rule all_rD [OF octopus_statuses(2)])
next
  fix E c secret i r
  show "octopus_trigger E c secret i = Inr r \<Longrightarrow> \<exists>c'. octopus_validate c = Inr c'"
    unfolding octopus_trigger_def by (auto simp only: bind_r_Inr_iff)
qed (auto simp: octopus_trigger_def octopus_poll_def no_external_def)

lemma awx_statuses:
  "all_r (\<lambda>r. tr_status r \<in> set RUN_STATUSES) (awx_trigger E c secret i)"
  "all_r (\<lambda>q. po_status q \<in> set RUN_STATUSES) (awx_poll E c secret x)"
  unfolding awx_trigger_def awx_poll_def Let_def
  by (auto intro!: all_r_bind split: option.split dest!: map_status_range(4))

interpretation awx: pipeline_adapter awx_validate awx_trigger awx_poll
proof unfold_locales
  fix E c secret i r
  show "awx_trigger E c secret i = Inr r \<Longrightarrow> tr_status r \<in> set RUN_STATUSES"
    by (rule all_rD [OF awx_statuses(1)])
next
  fix E c secret x q
  show "awx_poll E c secret x = Inr q \<Longrightarrow> po_status q \<in> set RUN_STATUSES"
    by (rule all_rD [OF awx_statuses(2)])
next
  fix E c secret i r
  show "awx_trigger E c secret i = Inr r \<Longrightarrow> \<exists>c'. awx_validate c = Inr c'"
    unfolding awx_trigger_def by (auto simp only: bind_r_Inr_iff)
qed (auto simp: awx_trigger_def awx_poll_def no_external_def)

lemma tfc_statuses:
  "all_r (\<lambda>r. tr_status r \<in> set RUN_STATUSES) (tfc_trigger E c secret i)"
  "all_r (\<lambda>q. po_status q \<in> set RUN_STATUSES) (tfc_poll E c secret x)"
  unfolding tfc_trigger_def tfc_poll_def Let_def
  by (auto intro!: all_r_bind split: option.split dest!: map_status_range(5))

interpretation tfc: pipeline_adapter tfc_validate tfc_trigger tfc_poll
proof unfold_locales
  fix E c secret i r
  show "tfc_trigger E c secret i = Inr r \<Longrightarrow> tr_status r \<in> set RUN_STATUSES"
    by (rule all_rD [OF tfc_statuses(1)])
next
  fix E c secret x q
  show "tfc_poll E c secret x = Inr q \<Longrightarrow> po_status q \<in> set RUN_STATUSES"
    by (rule all_rD [OF tfc_statuses(2)])
next
  fix E c secret i r
  show "tfc_trigger E c secret i = Inr r \<Longrightarrow> \<exists>c'. tfc_validate c = Inr c'"
    unfolding tfc_trigger_def by (auto simp only: bind_r_Inr_iff)
qed (auto simp: tfc_trigger_def tfc_poll_def no_external_def)

lemma get_adapter_cases:
  assumes "get_adapter p = Inr a"
  obtains "a = github_adapter" | "a = azure_adapter" | "a = octopus_adapter" | "a = awx_adapter" | "a = tfc_adapter"
  using assms by (auto simp: get_adapter_def registry_def split: if_splits)

lemmas adapter_defs = github_adapter_def azure_adapter_def octopus_adapter_def awx_adapter_def tfc_adapter_def

lemma registered_adapter: "get_adapter p = Inr a \<Longrightarrow> pipeline_adapter (ad_validate_config a) (ad_trigger a) (ad_poll a)"
  by (erule get_adapter_cases)
    (simp_all add: adapter_defs gh.pipeline_adapter_axioms ado.pipeline_adapter_axioms octo.pipeline_adapter_axioms
      awx.pipeline_adapter_axioms tfc.pipeline_adapter_axioms)

section \<open>Validating a stored configuration again\<close>

lemma cfg_at_set [simp]: "cfg_at (dict_set d k v) k' = (if k' = k then v else cfg_at d k')"
  by (simp add: cfg_at_def dict_get_set)

lemma get_or_cfg: "get_or c k dflt = por (cfg_at c k) dflt"
  by (simp add: get_or_def por_def cfg_at_def json_truthy_def split: option.split)

lemma truthy_at_cfg: "truthy_at c k \<longleftrightarrow> json_truthy (cfg_at c k)"
  by (simp add: truthy_at_def cfg_at_def json_truthy_def split: option.split)

lemma por_por [simp]: "por (por a b) b = por a b"
  by (simp add: por_def)

lemma rstrip_slash_idem [simp]: "rstrip_slash (rstrip_slash s) = rstrip_slash s"
  by (simp add: rstrip_slash_def)

lemma json_truthy_str [simp]: "json_truthy (JStr s) \<longleftrightarrow> s \<noteq> []" "json_truthy (JBool b) \<longleftrightarrow> b" "\<not> json_truthy JNull"
  by (simp_all add: json_truthy_def)

lemma require_keys_Inr: "require_keys who ks c = Inr u \<longleftrightarrow> (\<forall>k \<in> set ks. json_truthy (cfg_at c k))"
  by (auto simp: require_keys_def truthy_at_cfg find_None_iff find_Some_iff split: option.splits)

lemma as_str_Inr [simp]: "as_str v = Inr s \<longleftrightarrow> v = JStr s"
  by (auto simp: as_str_def split: json.splits)

lemma as_str_simps [simp]: "as_str (JStr s) = Inr s" "as_str (JBool b) = Inl (Adapter_Crash ''AttributeError'')"
  by (simp_all add: as_str_def)

text \<open>Setting one key, then others: an earlier key keeps its only value.\<close>

definition holds_at :: "dict \<Rightarrow> string \<Rightarrow> json \<Rightarrow> bool" where
  "holds_at d k v \<longleftrightarrow> k \<in> fst ` set d \<and> (\<forall>w. (k, w) \<in> set d \<longrightarrow> w = v)"

lemma holds_at_set: "holds_at (dict_set d k v) k' w \<longleftrightarrow> (if k' = k then w = v else holds_at d k' w)"
proof -
  have "(k', x) \<in> set (dict_set d k v) \<longleftrightarrow> (if k' = k then x = v else (k', x) \<in> set d)" for x
    by (force simp: dict_set_def)
  then show ?thesis
    by (auto simp: holds_at_def dict_set_keys)
qed

lemma holds_at_absorb: "holds_at d k v \<Longrightarrow> dict_set d k v = d"
  by (auto simp: holds_at_def dict_set_def intro!: map_idI)

lemmas revalidate = bind_r_Inr_iff require_keys_Inr get_or_cfg truthy_at_cfg holds_at_set holds_at_absorb

lemma github_revalidate: "github_validate c = Inr c' \<Longrightarrow> github_validate c' = Inr c'"
  by (auto simp: github_validate_def revalidate)

lemma azure_revalidate: "azure_validate c = Inr c' \<Longrightarrow> cfg_at c' ''api_base'' \<noteq> JStr [] \<Longrightarrow> azure_validate c' = Inr c'"
  by (auto simp: azure_validate_def revalidate por_def)

lemma octopus_revalidate: "octopus_validate c = Inr c' \<Longrightarrow> cfg_at c' ''base_url'' \<noteq> JStr [] \<Longrightarrow> octopus_validate c' = Inr c'"
  by (auto simp: octopus_validate_def revalidate)

lemma awx_revalidate:
  assumes "awx_validate c = Inr c'" and "cfg_at c' ''base_url'' \<noteq> JStr []"
  shows "awx_validate c' = (if cfg_at c' ''verify_ssl'' = JBool True then Inl (Adapter_Crash ''AttributeError'')
    else Inr (dict_set c' ''verify_ssl'' (JBool True)))"
proof -
  obtain b iv lim v where h: "holds_at c' ''base_url'' (JStr (rstrip_slash b))" "holds_at c' ''inventory_id'' (por iv JNull)"
      "holds_at c' ''limit'' (por lim JNull)" "cfg_at c' ''base_url'' = JStr (rstrip_slash b)"
      "cfg_at c' ''inventory_id'' = por iv JNull" "cfg_at c' ''limit'' = por lim JNull"
      "json_truthy (cfg_at c' ''job_template_id'')" "cfg_at c' ''verify_ssl'' = JBool v"
    using assms by (auto simp: awx_validate_def revalidate Let_def)
  moreover have "py_lower (py_strip ''true'') \<notin> set [''false'', ''0'', ''no'']"
    by code_simp
  moreover have "require_keys ''awx'' [''base_url'', ''job_template_id''] c' = Inr ()"
    using assms(2) h by (simp add: require_keys_Inr)
  ultimately show ?thesis
    by (cases v) (simp_all add: awx_validate_def get_or_cfg holds_at_absorb Let_def por_def [of "JBool _"])
qed

lemma tfc_revalidate:
  assumes "tfc_validate c = Inr c'" and "cfg_at c' ''base_url'' \<noteq> JStr []"
  shows "tfc_validate c' = (if cfg_at c' ''auto_apply'' = JBool True \<or> cfg_at c' ''is_destroy'' = JBool True
    then Inl (Adapter_Crash ''AttributeError'') else Inr c')"
proof -
  obtain b ap de m where h: "holds_at c' ''base_url'' (JStr (rstrip_slash b))" "holds_at c' ''auto_apply'' (JBool ap)"
      "holds_at c' ''is_destroy'' (JBool de)" "holds_at c' ''message'' (por m (JStr ''Triggered from DOSM''))"
      "cfg_at c' ''base_url'' = JStr (rstrip_slash b)" "cfg_at c' ''auto_apply'' = JBool ap"
      "cfg_at c' ''is_destroy'' = JBool de" "cfg_at c' ''message'' = por m (JStr ''Triggered from DOSM'')"
      "json_truthy (cfg_at c' ''workspace_id'')"
    using assms by (auto simp: tfc_validate_def revalidate Let_def)
  moreover have "require_keys ''terraform_cloud'' [''workspace_id''] c' = Inr ()"
    using h by (simp add: require_keys_Inr)
  ultimately show ?thesis
    using assms(2) by (cases ap; cases de)
      (simp_all add: tfc_validate_def get_or_cfg coerce_bool_def truthy_at_cfg holds_at_absorb por_def [of "JStr (rstrip_slash _)"])
qed

section \<open>Properties\<close>


definition demo_net :: adapter_env where
  \<comment> \<open>every request is answered 200 with a run that is waiting\<close>
  "demo_net = \<lparr>ae_net = (\<lambda>_. Http_Response 201 (Some (JObj [(''id'', JInt 7), (''status'', JStr ''waiting'')])) []),
     ae_iso = (\<lambda>_. None), ae_trunc = (\<lambda>_. None)\<rparr>"

definition demo_awx_form :: dict where
  "demo_awx_form = [(''base_url'', JStr ''https://awx/''), (''job_template_id'', JStr ''5'')]"


text \<open>What \<open>validate_config\<close> normalized and the pipeline row stores validates again to itself
  when the pipeline is triggered, for GitHub Actions, Azure DevOps and Octopus (unless the stored
  base address is only slashes), and for Terraform Cloud without auto-apply and destroy.\<close>

theorem saved_config_revalidates:
  assumes "get_adapter p = Inr a" and "ad_validate_config a c = Inr c'"
    and "p = ''github_actions'' \<or> p = ''azure_devops'' \<and> cfg_at c' ''api_base'' \<noteq> JStr [] \<or>
      p = ''octopus_deploy'' \<and> cfg_at c' ''base_url'' \<noteq> JStr [] \<or>
      p = ''terraform_cloud'' \<and> cfg_at c' ''base_url'' \<noteq> JStr [] \<and>
        cfg_at c' ''auto_apply'' = JBool False \<and> cfg_at c' ''is_destroy'' = JBool False"
  shows "ad_validate_config a c' = Inr c'"
  using assms github_revalidate azure_revalidate octopus_revalidate tfc_revalidate
  by (auto simp: get_adapter_def registry_def adapter_defs)

theorem saved_config_revalidates_witness:
  "\<exists>c'. ad_validate_config github_adapter [(''owner'', JStr ''o''), (''repo'', JStr ''r''), (''workflow'', JStr ''w'')] = Inr c' \<and>
     cfg_at c' ''ref'' = JStr ''main'' \<and> ad_validate_config github_adapter c' = Inr c'"
proof -
  let ?c = "[(''owner'', JStr ''o''), (''repo'', JStr ''r''), (''workflow'', JStr ''w'')]"
  have "(case ad_validate_config github_adapter ?c of Inl _ \<Rightarrow> False | Inr c' \<Rightarrow> cfg_at c' ''ref'' = JStr ''main'')"
    by code_simp
  then obtain c' where c': "ad_validate_config github_adapter ?c = Inr c'" "cfg_at c' ''ref'' = JStr ''main''"
    by (auto split: sum.splits)
  moreover have "get_adapter ''github_actions'' = Inr github_adapter"
    by (simp add: get_adapter_def registry_def)
  ultimately show ?thesis
    using saved_config_revalidates [of "''github_actions''" github_adapter ?c c'] by blast
qed

text \<open>An AWX pipeline saved with certificate verification on (the default) can never be
  triggered: \<open>validate_config\<close> stores \<open>verify_ssl\<close> as a boolean, and the second
  \<open>validate_config\<close> inside \<open>trigger\<close> calls \<open>.strip()\<close> on it, an \<open>AttributeError\<close> that is
  no provider error, before any request. One saved with verification off is validated to
  verification on.\<close>

theorem awx_saved_config_fails:
  assumes "awx_validate c = Inr c'" and "cfg_at c' ''base_url'' \<noteq> JStr []" and "k \<noteq> []"
  shows "(cfg_at c' ''verify_ssl'' = JBool True \<longrightarrow> awx_trigger E c' (Some k) i = Inl (Adapter_Crash ''AttributeError'')) \<and>
    (cfg_at c' ''verify_ssl'' = JBool False \<longrightarrow> (\<exists>c2. awx_validate c' = Inr c2 \<and> cfg_at c2 ''verify_ssl'' = JBool True))"
  using awx_revalidate [OF assms(1,2)] awx.trig_invalid [of c' "Adapter_Crash ''AttributeError''" k E i] assms(3)
  by auto

theorem awx_saved_config_fails_witness:
  "\<exists>c'. awx_validate demo_awx_form = Inr c' \<and> awx_trigger demo_net c' (Some ''tok'') [] = Inl (Adapter_Crash ''AttributeError'')"
proof -
  have "(case awx_validate demo_awx_form of Inl _ \<Rightarrow> False
      | Inr c' \<Rightarrow> cfg_at c' ''base_url'' \<noteq> JStr [] \<and> cfg_at c' ''verify_ssl'' = JBool True)"
    by code_simp
  then obtain c' where "awx_validate demo_awx_form = Inr c'" "cfg_at c' ''base_url'' \<noteq> JStr []" "cfg_at c' ''verify_ssl'' = JBool True"
    by (auto split: sum.splits)
  then show ?thesis
    using awx_saved_config_fails [of demo_awx_form c' "''tok''"] by auto
qed

text \<open>A Terraform Cloud pipeline saved with auto-apply or destroy set cannot be triggered
  either, for the same reason: the stored flag is \<open>True\<close>, which \<open>_coerce_bool\<close> strips as text.\<close>

theorem tfc_saved_flags_fail:
  assumes "tfc_validate c = Inr c'" and "cfg_at c' ''base_url'' \<noteq> JStr []" and "k \<noteq> []"
    and "cfg_at c' ''auto_apply'' = JBool True \<or> cfg_at c' ''is_destroy'' = JBool True"
  shows "tfc_trigger E c' (Some k) i = Inl (Adapter_Crash ''AttributeError'')"
  using tfc_revalidate [OF assms(1,2)] tfc.trig_invalid [of c' "Adapter_Crash ''AttributeError''" k E i] assms(3,4)
  by auto

theorem tfc_saved_flags_fail_witness:
  "\<exists>c'. tfc_validate [(''workspace_id'', JStr ''ws-1''), (''auto_apply'', JStr ''yes'')] = Inr c' \<and>
     tfc_trigger demo_net c' (Some ''tok'') [] = Inl (Adapter_Crash ''AttributeError'')"
proof -
  let ?c = "[(''workspace_id'', JStr ''ws-1''), (''auto_apply'', JStr ''yes'')]"
  have "(case tfc_validate ?c of Inl _ \<Rightarrow> False
      | Inr c' \<Rightarrow> cfg_at c' ''base_url'' \<noteq> JStr [] \<and> cfg_at c' ''auto_apply'' = JBool True)"
    by code_simp
  then obtain c' where "tfc_validate ?c = Inr c'" "cfg_at c' ''base_url'' \<noteq> JStr []" "cfg_at c' ''auto_apply'' = JBool True"
    by (auto split: sum.splits)
  then show ?thesis
    using tfc_saved_flags_fail [of ?c c' "''tok''"] by auto
qed

end
