(* ===== verification/Dosm_Secrets.thy ===== *)
theory Dosm_Secrets
  imports Dosm_Models
begin

text \<open>
  The local secrets backend, \<open>dosm/secrets/local.py\<close>: Fernet tokens in the table
  \<open>secret_blobs\<close>, keyed by path. The cipher (the \<open>cryptography\<close> package) is a parameter:
  \<open>enc iv v\<close> is the token \<open>encrypt\<close> makes with the initialization vector and clock
  \<open>iv\<close>, \<open>dec\<close> is \<open>decrypt\<close>, \<open>None\<close> for \<open>InvalidToken\<close>. Values are the text
  that \<open>set_str\<close> and \<open>get_str\<close> encode.
\<close>

section \<open>Operations\<close>

datatype secret_error = Secret_Not_Found string | Secret_Runtime string

definition get_blob :: "secret_blob list \<Rightarrow> string \<Rightarrow> secret_blob option" where
  \<comment> \<open>\<open>s.get(SecretBlob, path)\<close>\<close>
  "get_blob bs path = find (\<lambda>b. sb_path b = path) bs"

definition decrypt_failure :: "string \<Rightarrow> string" where
  "decrypt_failure path = ''Secret at '' @ py_repr path @ '' could not be decrypted with the current key. ''
     @ ''The key file may have been rotated or replaced.''"

definition secret_get :: "(string \<Rightarrow> string option) \<Rightarrow> db \<Rightarrow> string \<Rightarrow> secret_error + string" where
  "secret_get dec d path = (case get_blob (d_secrets d) path of
     None \<Rightarrow> Inl (Secret_Not_Found path)
   | Some row \<Rightarrow> (case dec (sb_value row) of
        None \<Rightarrow> Inl (Secret_Runtime (decrypt_failure path))
      | Some v \<Rightarrow> Inr v))"

definition put_blob :: "stamp \<Rightarrow> string \<Rightarrow> string \<Rightarrow> secret_blob list \<Rightarrow> secret_blob list" where
  \<comment> \<open>insert, or overwrite the value; \<open>updated_at\<close> moves when the value changed\<close>
  "put_blob now path tok bs = (case get_blob bs path of
     None \<Rightarrow> bs @ [\<lparr>sb_path = path, sb_value = tok, sb_created_at = now, sb_updated_at = now\<rparr>]
   | Some _ \<Rightarrow> map (\<lambda>b. if sb_path b = path \<and> sb_value b \<noteq> tok
       then b\<lparr>sb_value := tok, sb_updated_at := now\<rparr> else b) bs)"

definition secret_set :: "(nat \<Rightarrow> string \<Rightarrow> string) \<Rightarrow> nat \<Rightarrow> string \<Rightarrow> string \<Rightarrow> db \<Rightarrow> db" where
  "secret_set enc iv path v d = d\<lparr>d_secrets := put_blob (d_now d) path (enc iv v) (d_secrets d)\<rparr>"

definition drop_blob :: "string \<Rightarrow> secret_blob list \<Rightarrow> secret_blob list" where
  "drop_blob path bs = filter (\<lambda>b. sb_path b \<noteq> path) bs"

definition secret_delete :: "string \<Rightarrow> db \<Rightarrow> (secret_error + unit) \<times> db" where
  \<comment> \<open>the commit comes before the row count is looked at\<close>
  "secret_delete path d = (let d' = d\<lparr>d_secrets := drop_blob path (d_secrets d)\<rparr> in
     (if length (d_secrets d) - length (d_secrets d') = 0 then Inl (Secret_Not_Found path) else Inr (), d'))"

fun sql_like :: "string \<Rightarrow> string \<Rightarrow> bool" where
  \<comment> \<open>SQLite's \<open>LIKE\<close>: \<open>%\<close> any run, \<open>_\<close> any character, ASCII letters without case\<close>
  "sql_like [] s \<longleftrightarrow> s = []"
| "sql_like (p # ps) s \<longleftrightarrow>
     (if p = CHR ''%'' then sql_like ps s \<or> (case s of [] \<Rightarrow> False | _ # cs \<Rightarrow> sql_like (p # ps) cs)
      else (case s of [] \<Rightarrow> False | c # cs \<Rightarrow>
        (p = CHR ''_'' \<or> sql_lower [p] = sql_lower [c]) \<and> sql_like ps cs))"

definition secret_list :: "string \<Rightarrow> db \<Rightarrow> string list" where
  \<comment> \<open>\<open>SecretBlob.path.startswith(prefix)\<close> is \<open>LIKE prefix || '%'\<close>, without escaping\<close>
  "secret_list pre d = (let paths = sort (map sb_path (d_secrets d))
     in if pre = [] then paths else filter (sql_like (pre @ ''%'')) paths)"

section \<open>The contract of a keyed store\<close>

locale blob_store =
  fixes inv :: "'s \<Rightarrow> bool"
    and lookup :: "'s \<Rightarrow> string \<Rightarrow> 'v option"
    and put :: "string \<Rightarrow> 'v \<Rightarrow> 's \<Rightarrow> 's"
    and del :: "string \<Rightarrow> 's \<Rightarrow> 's"
  assumes inv_put: "inv s \<Longrightarrow> inv (put p v s)"
    and inv_del: "inv s \<Longrightarrow> inv (del p s)"
    and lookup_put: "inv s \<Longrightarrow> lookup (put p v s) q = (if q = p then Some v else lookup s q)"
    and lookup_del: "inv s \<Longrightarrow> lookup (del p s) q = (if q = p then None else lookup s q)"
begin

lemma overwrite: "inv s \<Longrightarrow> lookup (put p w (put p v s)) q = lookup (put p w s) q"
  by (simp add: lookup_put inv_put)

lemma put_commute: "inv s \<Longrightarrow> p \<noteq> q \<Longrightarrow> lookup (put p v (put q w s)) r = lookup (put q w (put p v s)) r"
  by (simp add: lookup_put inv_put)

lemma del_put: "inv s \<Longrightarrow> lookup s p = None \<Longrightarrow> lookup (del p (put p v s)) q = lookup s q"
  by (simp add: lookup_put lookup_del inv_put)

end

definition blobs_ok :: "secret_blob list \<Rightarrow> bool" where
  "blobs_ok bs \<longleftrightarrow> distinct (map sb_path bs)"

definition token_at :: "secret_blob list \<Rightarrow> string \<Rightarrow> string option" where
  "token_at bs path = map_option sb_value (get_blob bs path)"

lemma get_blob_None: "get_blob bs p = None \<longleftrightarrow> p \<notin> sb_path ` set bs"
  by (auto simp: get_blob_def find_None_iff)

lemma get_blob_append: "get_blob (bs @ cs) p = (case get_blob bs p of None \<Rightarrow> get_blob cs p | Some b \<Rightarrow> Some b)"
  by (induction bs) (auto simp: get_blob_def)

lemma get_blob_map: "(\<And>b. sb_path (g b) = sb_path b) \<Longrightarrow> get_blob (map g bs) p = map_option g (get_blob bs p)"
  by (induction bs) (auto simp: get_blob_def)

lemma get_blob_path: "get_blob bs p = Some b \<Longrightarrow> sb_path b = p"
  by (auto simp: get_blob_def find_Some_iff)

lemma get_blob_filter: "get_blob (filter (\<lambda>b. sb_path b \<noteq> q) bs) p = (if p = q then None else get_blob bs p)"
  by (induction bs) (auto simp: get_blob_def)

interpretation blobs: blob_store blobs_ok token_at "put_blob now" drop_blob for now
proof unfold_locales
  fix s p q and v :: string
  show "blobs_ok s \<Longrightarrow> blobs_ok (put_blob now p v s)"
  proof -
    have "map sb_path (put_blob now p v s) = map sb_path s @ (if p \<in> sb_path ` set s then [] else [p])"
      using get_blob_None [of s p] by (auto simp: put_blob_def split: option.split)
    then show "blobs_ok s \<Longrightarrow> blobs_ok (put_blob now p v s)"
      by (auto simp: blobs_ok_def)
  qed
  show "blobs_ok s \<Longrightarrow> blobs_ok (drop_blob p s)"
    by (simp add: blobs_ok_def drop_blob_def distinct_map_filter)
  show "token_at (put_blob now p v s) q = (if q = p then Some v else token_at s q)" if "blobs_ok s"
    by (auto simp: token_at_def put_blob_def get_blob_append get_blob_def [of "[_]"] get_blob_map
      dest: get_blob_path split: option.split)
  show "token_at (drop_blob p s) q = (if q = p then None else token_at s q)" if "blobs_ok s"
    by (simp add: token_at_def drop_blob_def get_blob_filter)
qed

lemma secret_get_token: "secret_get dec d path = (case token_at (d_secrets d) path of
    None \<Rightarrow> Inl (Secret_Not_Found path)
  | Some tok \<Rightarrow> (case dec tok of None \<Rightarrow> Inl (Secret_Runtime (decrypt_failure path)) | Some v \<Rightarrow> Inr v))"
  by (simp add: secret_get_def token_at_def split: option.split)

lemma sql_like_refl: "sql_like (p @ ''%'') (p @ s)"
proof (induction p)
  case Nil
  have "sql_like ''%'' s"
    by (induction s) auto
  then show ?case
    by simp
next
  case (Cons c p)
  then show ?case
    by simp
qed

section \<open>Properties\<close>

text \<open>Encrypted storage behaves as a map from paths to values: under the cipher's law that
  \<open>decrypt\<close> inverts \<open>encrypt\<close>, reading a path after writing it gives the written value,
  other paths read as before, deleting raises \<open>SecretNotFound\<close> exactly for an absent path and
  leaves every other path readable, and at no point do two rows share a path.\<close>

theorem secrets_round_trip:
  assumes "blobs_ok (d_secrets d)" and "\<And>iv v. dec (enc iv v) = Some v"
  shows "blobs_ok (d_secrets (secret_set enc iv p v d)) \<and> blobs_ok (d_secrets (snd (secret_delete p d))) \<and>
    secret_get dec (secret_set enc iv p v d) q = (if q = p then Inr v else secret_get dec d q) \<and>
    secret_get dec (snd (secret_delete p d)) q = (if q = p then Inl (Secret_Not_Found p) else secret_get dec d q) \<and>
    (fst (secret_delete p d) = Inr () \<longleftrightarrow> p \<in> sb_path ` set (d_secrets d)) \<and>
    secret_get dec (snd (secret_delete p (secret_set enc iv p v d))) q = secret_get dec (snd (secret_delete p d)) q"
proof (intro conjI)
  have rows: "d_secrets (snd (secret_delete p d)) = drop_blob p (d_secrets d)"
    "d_secrets (secret_set enc iv p v d) = put_blob (d_now d) p (enc iv v) (d_secrets d)" for d
    by (simp_all add: secret_delete_def secret_set_def Let_def)
  show "blobs_ok (d_secrets (secret_set enc iv p v d))" "blobs_ok (d_secrets (snd (secret_delete p d)))"
    using assms(1) by (simp_all add: rows blobs.inv_put blobs.inv_del)
  show "secret_get dec (secret_set enc iv p v d) q = (if q = p then Inr v else secret_get dec d q)"
    using assms by (simp add: secret_get_token rows blobs.lookup_put)
  show "secret_get dec (snd (secret_delete p d)) q = (if q = p then Inl (Secret_Not_Found p) else secret_get dec d q)"
    using assms(1) by (simp add: secret_get_token rows blobs.lookup_del)
  show "secret_get dec (snd (secret_delete p (secret_set enc iv p v d))) q = secret_get dec (snd (secret_delete p d)) q"
    using assms(1) by (simp add: secret_get_token rows blobs.lookup_del blobs.lookup_put blobs.inv_put)
  have "length (drop_blob p bs) = length bs \<longleftrightarrow> p \<notin> sb_path ` set bs" for bs
  proof (induction bs)
    case (Cons b bs)
    then show ?case
      by (cases "sb_path b = p") (simp_all add: drop_blob_def image_iff, metis Suc_n_not_le_n length_filter_le)
  qed (simp add: drop_blob_def)
  moreover have "length (drop_blob p (d_secrets d)) \<le> length (d_secrets d)"
    by (simp add: drop_blob_def)
  ultimately have "length (d_secrets d) - length (drop_blob p (d_secrets d)) = 0 \<longleftrightarrow> p \<notin> sb_path ` set (d_secrets d)"
    by (metis diff_is_0_eq le_antisym order_refl)
  then show "fst (secret_delete p d) = Inr () \<longleftrightarrow> p \<in> sb_path ` set (d_secrets d)"
    by (simp add: secret_delete_def Let_def)
qed

theorem secrets_round_trip_witness:
  "secret_get Some (secret_set (\<lambda>_ v. v) 0 ''creds/a'' ''pw'' empty_db) ''creds/a'' = Inr ''pw''"
  using secrets_round_trip [of empty_db Some "\<lambda>_ v. v" 0 "''creds/a''" "''pw''" "''creds/a''"]
  by (simp add: blobs_ok_def empty_db_def)

text \<open>\<open>dosm secrets list <prefix>\<close> misses nothing: the listing is sorted, holds only stored
  paths, and holds every stored path that begins with the prefix, whatever LIKE wildcards the
  prefix contains.\<close>

theorem secret_list_complete:
  "sorted (secret_list pre d) \<and> set (secret_list pre d) \<subseteq> sb_path ` set (d_secrets d) \<and>
   {p \<in> sb_path ` set (d_secrets d). starts_with p pre} \<subseteq> set (secret_list pre d)"
proof -
  have "sql_like (pre @ ''%'') p" if "starts_with p pre" for p
    using that sql_like_refl [of pre "drop (length pre) p"]
    by (metis append_take_drop_id starts_with_def)
  then show ?thesis
    by (auto simp: secret_list_def Let_def intro: sorted_wrt_filter)
qed

end
