(* ===== verification/Dosm_Pipelines.thy ===== *)
theory Dosm_Pipelines
  imports Dosm_Hosts Dosm_Adapters Dosm_Secrets
begin

text \<open>
  Pipelines, their saved payloads and their runs: \<open>dosm/pipelines/repo.py\<close>, \<open>poller.py\<close> and
  the routes that change state in \<open>routes.py\<close>. A route maps the session and the committed database
  to its response and the database it commits; an exception that leaves the route rolls back.
  \<open>json.loads\<close> of typed text, the printing of floats and the configured secrets backend are fields of
  \<open>pipe_env\<close>; the journal calls of \<open>rec_events\<close> write no database row and are left out.
\<close>

section \<open>Environment\<close>

record pipe_env =
  pe_net :: adapter_env
  pe_secret :: "db \<Rightarrow> string \<Rightarrow> secret_error + string"
  pe_loads :: "string \<Rightarrow> json option"
  pe_fl :: "string \<Rightarrow> string"

section \<open>Reading\<close>

definition list_pipelines :: "db \<Rightarrow> int option \<Rightarrow> user option \<Rightarrow> pipeline list" where
  "list_pipelines d tid u = sort_key p_name
     (let rows = where_opt (tenant_clause p_tenant_id tid) (d_pipelines d)
      in case u of None \<Rightarrow> rows | Some _ \<Rightarrow> where_opt (visible_pipelines_filter u) rows)"

definition get_pipeline :: "db \<Rightarrow> int \<Rightarrow> int option \<Rightarrow> pipeline option" where
  "get_pipeline d i tid = (case get_row p_id (d_pipelines d) i of None \<Rightarrow> None
     | Some p \<Rightarrow> if tid \<noteq> None \<and> Some (p_tenant_id p) \<noteq> tid then None else Some p)"

interpretation pip: scoped_get d_pipelines p_id p_tenant_id get_pipeline
  by unfold_locales (auto simp: get_pipeline_def in_scope_def split: option.splits if_splits)

definition get_pipeline_by_name :: "db \<Rightarrow> string \<Rightarrow> int option \<Rightarrow> string + pipeline option" where
  "get_pipeline_by_name d name tid =
     (case where_opt (tenant_clause p_tenant_id tid) (filter (\<lambda>p. p_name p = name) (d_pipelines d)) of
        [] \<Rightarrow> Inr None | [p] \<Rightarrow> Inr (Some p) | _ \<Rightarrow> Inl ''MultipleResultsFound'')"

definition list_runs :: "db \<Rightarrow> int \<Rightarrow> nat \<Rightarrow> pipeline_run list" where
  "list_runs d pid limit = take limit (rev (sort_key r_id (filter (\<lambda>r. r_pipeline_id r = pid) (d_runs d))))"

definition get_run :: "db \<Rightarrow> int \<Rightarrow> pipeline_run option" where
  "get_run d i = get_row r_id (d_runs d) i"

definition list_payloads :: "db \<Rightarrow> int \<Rightarrow> (pipeline_payload \<Rightarrow> bool) option \<Rightarrow> pipeline_payload list" where
  "list_payloads d pid clause = sort_key pl_name (where_opt clause (filter (\<lambda>p. pl_pipeline_id p = pid) (d_payloads d)))"

definition get_payload :: "db \<Rightarrow> int \<Rightarrow> pipeline_payload option" where
  "get_payload d i = get_row pl_id (d_payloads d) i"

definition pipeline_or_404 :: "db \<Rightarrow> int \<Rightarrow> int option \<Rightarrow> user \<Rightarrow> response + pipeline" where
  "pipeline_or_404 d i tid u = (case get_pipeline d i tid of None \<Rightarrow> Inl (HttpError 404 ''Not Found'')
     | Some p \<Rightarrow> if \<not> can_see_pipeline (Some u) p then Inl (HttpError 404 ''Not Found'') else Inr p)"

definition payload_or_404 :: "db \<Rightarrow> int \<Rightarrow> int \<Rightarrow> user \<Rightarrow> int option \<Rightarrow> response + (pipeline \<times> pipeline_payload)" where
  "payload_or_404 d pid i u tid = bind_r (pipeline_or_404 d pid tid u) (\<lambda>p.
     case get_payload d i of None \<Rightarrow> Inl (HttpError 404 ''Not Found'')
     | Some pl \<Rightarrow> if pl_pipeline_id pl \<noteq> pid \<or> \<not> can_see_payload (Some u) pl
         then Inl (HttpError 404 ''Not Found'') else Inr (p, pl))"

section \<open>Pipelines\<close>

datatype pipe_error = Pipe_Adapter adapter_error | Pipe_Integrity string

record pipe_args =
  pa_name :: string
  pa_provider :: string
  pa_description :: "string option"
  pa_config :: dict
  pa_inputs_schema :: json
  pa_credential_id :: "int option"
  pa_org_unit_id :: "int option"
  pa_visibility :: "string option"

definition lift_adapter :: "adapter_error + 'a \<Rightarrow> pipe_error + 'a" where
  "lift_adapter m = (case m of Inl e \<Rightarrow> Inl (Pipe_Adapter e) | Inr x \<Rightarrow> Inr x)"

definition visibility_or :: "string \<Rightarrow> string \<Rightarrow> string" where
  \<comment> \<open>\<open>v if v in ("shared", "private") else old\<close>\<close>
  "visibility_or old v = (if v \<in> set [''shared'', ''private''] then v else old)"

definition pipe_integrity :: "db \<Rightarrow> int \<Rightarrow> string \<Rightarrow> int option \<Rightarrow> int option \<Rightarrow> int option \<Rightarrow> pipe_error + unit" where
  \<comment> \<open>what the flush checks: \<open>uq_pipeline_tenant_name\<close>, then the foreign keys\<close>
  "pipe_integrity d tid name self cred org =
     (if \<exists>p \<in> set (d_pipelines d). p_tenant_id p = tid \<and> p_name p = name \<and> Some (p_id p) \<noteq> self
      then Inl (Pipe_Integrity ''UNIQUE constraint failed: pipelines.tenant_id, pipelines.name'')
      else if (case cred of None \<Rightarrow> False | Some c \<Rightarrow> get_row c_id (d_credentials d) c = None) \<or>
              (case org of None \<Rightarrow> False | Some i \<Rightarrow> get_row o_id (d_org_units d) i = None)
      then Inl (Pipe_Integrity ''FOREIGN KEY constraint failed'') else Inr ())"

definition schema_text :: "json \<Rightarrow> json_text option" where
  \<comment> \<open>\<open>json.dumps(s) if s else None\<close>\<close>
  "schema_text s = (if json_truthy s then Some (Some s) else None)"

definition fill_pipeline :: "pipe_args \<Rightarrow> dict \<Rightarrow> pipeline \<Rightarrow> pipeline" where
  \<comment> \<open>the assignments of \<open>update_pipeline\<close>\<close>
  "fill_pipeline a cfg p = p\<lparr>p_name := py_strip (pa_name a), p_provider := pa_provider a,
     p_description := or_none (or_default (pa_description a) []), p_config := Some (JObj cfg),
     p_inputs_schema := schema_text (pa_inputs_schema a), p_credential_id := pa_credential_id a,
     p_org_unit_id := pa_org_unit_id a,
     p_visibility := (case pa_visibility a of None \<Rightarrow> p_visibility p | Some v \<Rightarrow> visibility_or (p_visibility p) v)\<rparr>"

definition create_pipeline :: "db \<Rightarrow> int \<Rightarrow> pipe_args \<Rightarrow> int option \<Rightarrow> pipe_error + (pipeline \<times> db)" where
  "create_pipeline d tid a owner =
     bind_r (lift_adapter (get_adapter (pa_provider a))) (\<lambda>ad.
     bind_r (lift_adapter (ad_validate_config ad (pa_config a))) (\<lambda>cfg.
     bind_r (pipe_integrity d tid (py_strip (pa_name a)) None (pa_credential_id a) (pa_org_unit_id a)) (\<lambda>_.
       let p = \<lparr>p_id = next_id p_id (d_pipelines d), p_name = py_strip (pa_name a), p_tenant_id = tid,
             p_provider = pa_provider a, p_description = or_none (or_default (pa_description a) []),
             p_config = Some (JObj cfg), p_inputs_schema = schema_text (pa_inputs_schema a),
             p_credential_id = pa_credential_id a, p_owner_id = owner,
             p_visibility = visibility_or ''shared'' (or_default (pa_visibility a) ''shared''),
             p_org_unit_id = pa_org_unit_id a, p_created_at = d_now d, p_updated_at = d_now d\<rparr>
       in Inr (p, d\<lparr>d_pipelines := d_pipelines d @ [p]\<rparr>))))"

definition touch_pipeline :: "db \<Rightarrow> (pipeline \<Rightarrow> pipeline) \<Rightarrow> pipeline \<Rightarrow> pipeline" where
  "touch_pipeline d f p = (if f p = p then p else (f p)\<lparr>p_updated_at := d_now d\<rparr>)"

definition update_pipeline :: "db \<Rightarrow> pipeline \<Rightarrow> pipe_args \<Rightarrow> pipe_error + db" where
  "update_pipeline d p a =
     bind_r (lift_adapter (get_adapter (pa_provider a))) (\<lambda>ad.
     bind_r (lift_adapter (ad_validate_config ad (pa_config a))) (\<lambda>cfg.
     bind_r (pipe_integrity d (p_tenant_id p) (py_strip (pa_name a)) (Some (p_id p)) (pa_credential_id a) (pa_org_unit_id a)) (\<lambda>_.
       Inr (d\<lparr>d_pipelines := upd_row p_id (p_id p) (touch_pipeline d (fill_pipeline a cfg)) (d_pipelines d)\<rparr>))))"

definition delete_pipeline :: "db \<Rightarrow> pipeline \<Rightarrow> db" where
  "delete_pipeline d p = fk_delete_pipeline (p_id p) d"

section \<open>Payloads\<close>

datatype payload_error = Payload_Value string | Payload_Crash string

definition assert_name_free :: "db \<Rightarrow> int \<Rightarrow> string \<Rightarrow> int option \<Rightarrow> payload_error + unit" where
  "assert_name_free d pid name exclude =
     (case filter (\<lambda>p. pl_pipeline_id p = pid \<and> pl_name p = name) (d_payloads d) of
        [] \<Rightarrow> Inr ()
      | [p] \<Rightarrow> if Some (pl_id p) \<noteq> exclude
               then Inl (Payload_Value (''a payload named '' @ py_repr name @ '' already exists'')) else Inr ()
      | _ \<Rightarrow> Inl (Payload_Crash ''MultipleResultsFound''))"

definition create_payload :: "db \<Rightarrow> int \<Rightarrow> string \<Rightarrow> json \<Rightarrow> string option \<Rightarrow> string \<Rightarrow> int option \<Rightarrow>
    payload_error + (pipeline_payload \<times> db)" where
  "create_payload d pid raw_name vals description vis creator =
     (let name = py_strip raw_name in
      if name = [] then Inl (Payload_Value ''payload name is required'')
      else bind_r (assert_name_free d pid name None) (\<lambda>_.
        let pl = \<lparr>pl_id = next_id pl_id (d_payloads d), pl_pipeline_id = pid, pl_name = name,
              pl_description = or_none (or_default description []), pl_values_json = Some (if json_truthy vals then vals else JObj []),
              pl_visibility = visibility_or ''shared'' vis, pl_created_by_id = creator,
              pl_created_at = d_now d, pl_updated_at = d_now d\<rparr>
        in Inr (pl, d\<lparr>d_payloads := d_payloads d @ [pl]\<rparr>)))"

definition touch_payload :: "db \<Rightarrow> (pipeline_payload \<Rightarrow> pipeline_payload) \<Rightarrow> pipeline_payload \<Rightarrow> pipeline_payload" where
  "touch_payload d f p = (if f p = p then p else (f p)\<lparr>pl_updated_at := d_now d\<rparr>)"

definition fill_payload :: "string option \<Rightarrow> dict option \<Rightarrow> string option \<Rightarrow> string option \<Rightarrow> pipeline_payload \<Rightarrow> pipeline_payload" where
  \<comment> \<open>the assignments of \<open>update_payload\<close>, for the fields that are passed\<close>
  "fill_payload name vals description vis p = p\<lparr>
     pl_name := (case name of None \<Rightarrow> pl_name p | Some n \<Rightarrow> py_strip n),
     pl_values_json := (case vals of None \<Rightarrow> pl_values_json p | Some v \<Rightarrow> Some (JObj v)),
     pl_description := (case description of None \<Rightarrow> pl_description p | Some x \<Rightarrow> or_none x),
     pl_visibility := (case vis of None \<Rightarrow> pl_visibility p | Some v \<Rightarrow> visibility_or (pl_visibility p) v)\<rparr>"

definition update_payload :: "db \<Rightarrow> pipeline_payload \<Rightarrow> string option \<Rightarrow> dict option \<Rightarrow> string option \<Rightarrow> string option \<Rightarrow>
    payload_error + (pipeline_payload \<times> db)" where
  "update_payload d pl name vals description vis =
     bind_r (case name of None \<Rightarrow> Inr ()
       | Some n \<Rightarrow> if py_strip n = [] then Inl (Payload_Value ''payload name is required'')
           else assert_name_free d (pl_pipeline_id pl) (py_strip n) (Some (pl_id pl))) (\<lambda>_.
       let f = touch_payload d (fill_payload name vals description vis)
       in Inr (f pl, d\<lparr>d_payloads := upd_row pl_id (pl_id pl) f (d_payloads d)\<rparr>))"

definition copy_free_name :: "db \<Rightarrow> int \<Rightarrow> string \<Rightarrow> string option" where
  \<comment> \<open>the loop of \<open>copy_payload\<close>, with one attempt more than there are payloads\<close>
  "copy_free_name d pid base =
     (let taken = map pl_name (filter (\<lambda>p. pl_pipeline_id p = pid) (d_payloads d))
      in if base \<in> set taken then first_free (Suc (length taken)) (copy_name base) taken 2 else Some base)"

definition copy_payload :: "db \<Rightarrow> pipeline_payload \<Rightarrow> int option \<Rightarrow> payload_error + (pipeline_payload \<times> db)" where
  "copy_payload d pl creator =
     (case copy_free_name d (pl_pipeline_id pl) (pl_name pl @ '' (copy)'') of
        None \<Rightarrow> Inl (Payload_Crash ''loops'')
      | Some name \<Rightarrow> (case pl_values_json pl of
          Some v \<Rightarrow> create_payload d (pl_pipeline_id pl) name v (pl_description pl) (pl_visibility pl) creator
        | None \<Rightarrow> Inl (Payload_Crash ''JSONDecodeError'')))"

definition delete_payload :: "db \<Rightarrow> pipeline_payload \<Rightarrow> db" where
  "delete_payload d pl = d\<lparr>d_payloads := del_rows (\<lambda>p. pl_id p = pl_id pl) (d_payloads d)\<rparr>"

section \<open>Runs\<close>

definition credential_of :: "db \<Rightarrow> pipeline \<Rightarrow> credential option" where
  \<comment> \<open>the relationship \<open>Pipeline.credential\<close>\<close>
  "credential_of d p = (case p_credential_id p of None \<Rightarrow> None | Some i \<Rightarrow> get_row c_id (d_credentials d) i)"

definition resolve_secret :: "pipe_env \<Rightarrow> db \<Rightarrow> pipeline \<Rightarrow> adapter_error + string option" where
  "resolve_secret E d p = (case credential_of d p of None \<Rightarrow> Inr None
     | Some c \<Rightarrow> (case pe_secret E d (c_secret_ref c) of
          Inr v \<Rightarrow> Inr (Some v)
        | Inl (Secret_Not_Found _) \<Rightarrow> Inl (Provider_Error (''credential '' @ py_repr (c_name c) @ '' secret_ref ''
              @ py_repr (c_secret_ref c) @ '' missing''))
        | Inl (Secret_Runtime m) \<Rightarrow> Inl (Adapter_Crash m)))"

definition config_of :: "pipeline \<Rightarrow> adapter_error + dict" where
  \<comment> \<open>\<open>json.loads(pipeline.config or "{}")\<close>\<close>
  "config_of p = (case p_config p of None \<Rightarrow> Inl (Adapter_Crash ''JSONDecodeError'')
     | Some (JObj c) \<Rightarrow> Inr c | Some _ \<Rightarrow> Inl (Adapter_Crash ''AttributeError''))"

definition error_text :: "adapter_error \<Rightarrow> string" where
  "error_text e = (case e of Provider_Error m \<Rightarrow> m | Unreachable m \<Rightarrow> m | Adapter_Crash m \<Rightarrow> m)"

definition crashes :: "adapter_error \<Rightarrow> bool" where
  \<comment> \<open>not caught by \<open>except (PipelineProviderError, PipelineUnreachable)\<close>\<close>
  "crashes e = (case e of Adapter_Crash _ \<Rightarrow> True | _ \<Rightarrow> False)"

definition new_run :: "db \<Rightarrow> pipeline \<Rightarrow> dict \<Rightarrow> int option \<Rightarrow> pipeline_run" where
  "new_run d p inputs uid = \<lparr>r_id = next_id r_id (d_runs d), r_pipeline_id = p_id p, r_external_id = None,
     r_status = ''queued'', r_inputs = Some (Some (JObj inputs)), r_html_url = None, r_triggered_by_user_id = uid,
     r_triggered_at = d_now d, r_started_at = None, r_completed_at = None, r_last_polled_at = None, r_error = None\<rparr>"

definition trigger_pipeline :: "pipe_env \<Rightarrow> db \<Rightarrow> pipeline \<Rightarrow> dict \<Rightarrow> int option \<Rightarrow> string + (pipeline_run \<times> db)" where
  \<comment> \<open>\<open>Inl\<close>: an exception leaves the function\<close>
  "trigger_pipeline E d p inputs uid =
     (case get_adapter (p_provider p) of Inl e \<Rightarrow> Inl (error_text e)
      | Inr a \<Rightarrow> (case config_of p of Inl e \<Rightarrow> Inl (error_text e)
      | Inr cfg \<Rightarrow>
          let run = new_run d p inputs uid;
              store = (\<lambda>r. Inr (r, d\<lparr>d_runs := d_runs d @ [r]\<rparr>))
          in (case bind_r (resolve_secret E d p) (\<lambda>secret. ad_trigger a (pe_net E) cfg secret inputs) of
                Inl e \<Rightarrow> if crashes e then Inl (error_text e)
                  else store (run\<lparr>r_status := ''failed'', r_error := Some (error_text e), r_completed_at := Some (d_now d)\<rparr>)
              | Inr res \<Rightarrow> store (run\<lparr>r_external_id := tr_external_id res, r_status := tr_status res,
                  r_html_url := tr_html_url res, r_last_polled_at := Some (d_now d)\<rparr>))))"

definition TERMINAL :: "string list" where
  "TERMINAL = [''success'', ''failed'', ''cancelled'', ''skipped'']"

definition NON_TERMINAL :: "string list" where
  "NON_TERMINAL = [''queued'', ''running'', ''unknown'']"

definition polled_run :: "stamp \<Rightarrow> poll_result \<Rightarrow> pipeline_run \<Rightarrow> pipeline_run" where
  \<comment> \<open>the assignments of \<open>refresh_run\<close> after a successful poll\<close>
  "polled_run now q r = r\<lparr>r_status := po_status q, r_last_polled_at := Some now,
     r_started_at := (case po_started_at q of None \<Rightarrow> r_started_at r
       | Some s \<Rightarrow> if r_started_at r = None then Some s else r_started_at r),
     r_completed_at := (case po_completed_at q of None \<Rightarrow> r_completed_at r
       | Some c \<Rightarrow> if po_status q \<in> set TERMINAL then Some c else r_completed_at r),
     r_html_url := (case po_html_url q of None \<Rightarrow> r_html_url r | Some u \<Rightarrow> if u = [] then r_html_url r else Some u),
     r_error := (if po_status q \<notin> set NON_TERMINAL then None else r_error r)\<rparr>"

definition refresh_run :: "pipe_env \<Rightarrow> db \<Rightarrow> pipeline_run \<Rightarrow> string + (pipeline_run \<times> db)" where
  "refresh_run E d r =
     (let store = (\<lambda>r'. Inr (r', d\<lparr>d_runs := upd_row r_id (r_id r) (\<lambda>_. r') (d_runs d)\<rparr>)) in
      if r_status r \<in> set TERMINAL \<and> r_completed_at r \<noteq> None then Inr (r, d)
      else case get_row p_id (d_pipelines d) (r_pipeline_id r) of
        None \<Rightarrow> store (r\<lparr>r_status := ''failed'', r_error := Some ''pipeline deleted''\<rparr>)
      | Some p \<Rightarrow> (case get_adapter (p_provider p) of Inl e \<Rightarrow> Inl (error_text e)
      | Inr a \<Rightarrow> (case config_of p of Inl e \<Rightarrow> Inl (error_text e)
      | Inr cfg \<Rightarrow>
          (case bind_r (resolve_secret E d p) (\<lambda>secret. ad_poll a (pe_net E) cfg secret (r_external_id r)) of
             Inl e \<Rightarrow> if crashes e then Inl (error_text e)
               else store (r\<lparr>r_error := Some (error_text e), r_last_polled_at := Some (d_now d)\<rparr>)
           | Inr q \<Rightarrow> store (polled_run (d_now d) q r)))))"

section \<open>The poller\<close>

text \<open>\<open>datetime.now(UTC)\<close> is aware; a column read back from SQLite is naive. Python refuses to
  subtract or order the two.\<close>

datatype py_time = Aware stamp | Naive stamp

fun time_sub :: "py_time \<Rightarrow> py_time \<Rightarrow> string + int" where
  "time_sub (Aware a) (Aware b) = Inr (a - b)"
| "time_sub (Naive a) (Naive b) = Inr (a - b)"
| "time_sub _ _ = Inl ''TypeError''"

fun time_less :: "py_time \<Rightarrow> py_time \<Rightarrow> string + bool" where
  "time_less (Aware a) (Aware b) = Inr (a < b)"
| "time_less (Naive a) (Naive b) = Inr (a < b)"
| "time_less _ _ = Inl ''TypeError''"

definition second :: int where
  "second = 1000000"

definition poll_cadence_seconds :: "int \<Rightarrow> int" where
  \<comment> \<open>the age in microseconds, the result in seconds\<close>
  "poll_cadence_seconds age = (if age < 60 * second then 5 else if age < 300 * second then 15
     else if age < 1800 * second then 60 else if age < 14400 * second then 180 else 300)"

record tick_stats =
  ts_polled :: nat
  ts_transitioned :: nat
  ts_abandoned :: nat
  ts_errors :: nat

definition zero_stats :: tick_stats where
  "zero_stats = \<lparr>ts_polled = 0, ts_transitioned = 0, ts_abandoned = 0, ts_errors = 0\<rparr>"

definition poll_one :: "pipe_env \<Rightarrow> int \<Rightarrow> db \<Rightarrow> bool \<times> db" where
  \<comment> \<open>an exception is logged and rolls the session back\<close>
  "poll_one E rid d = (case get_run d rid of None \<Rightarrow> (False, d)
     | Some r \<Rightarrow> if r_status r \<notin> set NON_TERMINAL then (False, d)
       else (case refresh_run E d r of Inl _ \<Rightarrow> (False, d)
         | Inr (r', d1) \<Rightarrow> if r_status r' = r_status r then (False, d1)
             else (True, add_audit (map_option p_tenant_id (get_row p_id (d_pipelines d) (r_pipeline_id r))) None
               ''pipeline.run.status'' (Some (''pipeline_run:'' @ str_int (r_id r)))
               (Some (r_status r @ '' to '' @ r_status r')) None d1)))"

fun select_due :: "stamp \<Rightarrow> int \<Rightarrow> pipeline_run list \<Rightarrow> db \<Rightarrow> int list \<Rightarrow> nat \<Rightarrow> string + (int list \<times> nat \<times> db)" where
  \<comment> \<open>the selection loop of \<open>poll_tick\<close>\<close>
  "select_due now hours [] d due n = Inr (due, n, d)"
| "select_due now hours (r # rs) d due n =
     bind_r (time_sub (Aware now) (Naive (r_triggered_at r))) (\<lambda>age.
     bind_r (time_less (Naive (r_triggered_at r)) (Aware (now - hours * 3600 * second))) (\<lambda>old.
       if old then select_due now hours rs
         (d\<lparr>d_runs := upd_row r_id (r_id r) (\<lambda>x. x\<lparr>r_status := ''failed'',
              r_error := Some (''abandoned: no provider response after '' @ str_int hours @ ''h''),
              r_completed_at := Some now\<rparr>) (d_runs d)\<rparr>) due (Suc n)
       else case r_last_polled_at r of
         None \<Rightarrow> select_due now hours rs d (due @ [r_id r]) n
       | Some lp \<Rightarrow> bind_r (time_sub (Aware now) (Naive lp)) (\<lambda>since.
           select_due now hours rs d (if poll_cadence_seconds age * second \<le> since then due @ [r_id r] else due) n)))"

fun poll_all :: "pipe_env \<Rightarrow> int list \<Rightarrow> db \<Rightarrow> nat \<Rightarrow> nat \<times> db" where
  \<comment> \<open>\<open>asyncio.gather\<close> over the due runs, each in its own session, here in the order of the list\<close>
  "poll_all E [] d n = (n, d)"
| "poll_all E (i # is) d n = (case poll_one E i d of (moved, d1) \<Rightarrow> poll_all E is d1 (if moved then Suc n else n))"

definition poll_candidates :: "db \<Rightarrow> pipeline_run list" where
  "poll_candidates d = filter (\<lambda>r. r_status r \<in> set NON_TERMINAL \<and> r_external_id r \<noteq> None) (d_runs d)"

definition poll_tick :: "pipe_env \<Rightarrow> int \<Rightarrow> db \<Rightarrow> tick_stats \<times> db" where
  "poll_tick E hours d = (case select_due (d_now d) hours (poll_candidates d) d [] 0 of
     Inl _ \<Rightarrow> (zero_stats, d)
   | Inr (due, n, d1) \<Rightarrow> if due = [] then (zero_stats\<lparr>ts_abandoned := n\<rparr>, d1)
       else (case poll_all E due d1 0 of (moved, d2) \<Rightarrow>
         (\<lparr>ts_polled = length due, ts_transitioned = moved, ts_abandoned = n, ts_errors = 0\<rparr>, d2)))"

section \<open>Forms\<close>

definition line_break :: "char \<Rightarrow> bool" where
  "line_break c \<longleftrightarrow> (let n = code_point c in (10 \<le> n \<and> n \<le> 13) \<or> (28 \<le> n \<and> n \<le> 30) \<or> n = 133)"

fun splitlines_acc :: "string \<Rightarrow> string \<Rightarrow> string list" where
  "splitlines_acc cur [] = (if cur = [] then [] else [rev cur])"
| "splitlines_acc cur (c # cs) =
     (if line_break c then rev cur # splitlines_acc []
        (if code_point c = 13 \<and> cs \<noteq> [] \<and> code_point (hd cs) = 10 then tl cs else cs)
      else splitlines_acc (c # cur) cs)"

definition py_splitlines :: "string \<Rightarrow> string list" where
  "py_splitlines s = splitlines_acc [] s"

definition key_value :: "string \<Rightarrow> dict \<Rightarrow> dict" where
  \<comment> \<open>one line of \<open>_decode_inputs_text\<close>\<close>
  "key_value raw out = (let line = py_strip raw in
     if line = [] \<or> starts_with line ''#'' \<or> CHR ''='' \<notin> set line then out
     else dict_set out (py_strip (takeWhile (\<lambda>c. c \<noteq> CHR ''='') line))
            (JStr (py_strip (tl (dropWhile (\<lambda>c. c \<noteq> CHR ''='') line)))))"

definition decode_inputs_text :: "pipe_env \<Rightarrow> string \<Rightarrow> dict" where
  "decode_inputs_text E raw =
     (let s = py_strip raw; pairs = fold key_value (py_splitlines s) [] in
      if s = [] then []
      else if starts_with s ''{'' then (case pe_loads E s of None \<Rightarrow> [] | Some (JObj d) \<Rightarrow> d | Some _ \<Rightarrow> pairs)
      else pairs)"

definition decode_config_form :: "string \<Rightarrow> form \<Rightarrow> (string \<times> string option) list" where
  "decode_config_form provider f = (case get_adapter provider of Inl _ \<Rightarrow> []
     | Inr a \<Rightarrow> map (\<lambda>fs. (fs_config_key fs, or_none (form_text f (fs_name fs)))) (ad_field_schema a))"

definition given_config :: "(string \<times> string option) list \<Rightarrow> dict" where
  \<comment> \<open>\<open>{k: v for k, v in config.items() if v not in (None, "")}\<close>\<close>
  "given_config c = List.map_filter (\<lambda>(k, v). case v of None \<Rightarrow> None | Some s \<Rightarrow> if s = [] then None else Some (k, JStr s)) c"

record pipe_form =
  pf_name :: string
  pf_provider :: string
  pf_description :: string
  pf_credential_id :: string
  pf_org_unit_id :: string
  pf_visibility :: string
  pf_fields :: form

definition pipe_form_args :: "pipe_form \<Rightarrow> response + pipe_args" where
  \<comment> \<open>the keyword arguments both routes build from the form\<close>
  "pipe_form_args f = bind_r (parse_int_or_none (pf_credential_id f)) (\<lambda>cred.
     bind_r (parse_int_or_none (pf_org_unit_id f)) (\<lambda>org.
     Inr \<lparr>pa_name = py_strip (pf_name f), pa_provider = pf_provider f, pa_description = or_none (py_strip (pf_description f)),
       pa_config = given_config (decode_config_form (pf_provider f) (pf_fields f)),
       pa_inputs_schema = (let rows = parse_schema_form (pf_fields f) in if rows = [] then JNull else JArr (map JObj rows)),
       pa_credential_id = cred, pa_org_unit_id = org, pa_visibility = Some (pf_visibility f)\<rparr>))"

definition pipe_error_page :: "pipe_error \<Rightarrow> response" where
  "pipe_error_page e = (case e of Pipe_Integrity m \<Rightarrow> Page 400 (Some m)
     | Pipe_Adapter a \<Rightarrow> if crashes a then Crash (error_text a) else Page 400 (Some (error_text a)))"

definition schema_for :: "pipeline \<Rightarrow> string + dict list" where
  \<comment> \<open>\<open>normalize_schema(json.loads(p.inputs_schema)) if p.inputs_schema else []\<close>\<close>
  "schema_for p = (case p_inputs_schema p of None \<Rightarrow> Inr [] | Some None \<Rightarrow> Inl ''JSONDecodeError''
     | Some (Some j) \<Rightarrow> (case j of JArr xs \<Rightarrow> normalize_schema xs | JObj _ \<Rightarrow> Inr [] | JStr _ \<Rightarrow> Inr []
         | _ \<Rightarrow> if json_truthy j then Inl ''TypeError'' else Inr []))"

section \<open>Pipeline routes\<close>

definition pipe_target :: "int \<Rightarrow> string" where
  "pipe_target i = ''pipeline:'' @ str_int i"

definition pipelines_create :: "pipe_form \<Rightarrow> session \<Rightarrow> db \<Rightarrow> response \<times> db" where
  "pipelines_create f s d = on_ok (require_operator ''/pipelines/new'' s d) d (\<lambda>u.
     on_ok (require_active_tenant s u) d (\<lambda>tid. on_ok (pipe_form_args f) d (\<lambda>a.
       case create_pipeline d tid a (Some (u_id u)) of Inl e \<Rightarrow> (pipe_error_page e, d)
       | Inr (p, d1) \<Rightarrow> (Redirect (''/pipelines/'' @ str_int (p_id p)),
           add_audit (Some tid) (Some (u_id u)) ''pipeline.create'' (Some (pipe_target (p_id p)))
             (Some (''provider='' @ pf_provider f)) None d1))))"

definition pipelines_update :: "int \<Rightarrow> pipe_form \<Rightarrow> session \<Rightarrow> db \<Rightarrow> response \<times> db" where
  "pipelines_update i f s d = on_ok (require_operator ''/pipelines/edit'' s d) d (\<lambda>u.
     on_ok (pipeline_or_404 d i (active_tenant_id s u) u) d (\<lambda>p. on_ok (pipe_form_args f) d (\<lambda>a.
       case update_pipeline d p a of Inl e \<Rightarrow> (pipe_error_page e, d)
       | Inr d1 \<Rightarrow> (Redirect (''/pipelines/'' @ str_int (p_id p)),
           add_audit (Some (p_tenant_id p)) (Some (u_id u)) ''pipeline.update'' (Some (pipe_target (p_id p))) None None d1))))"

definition pipelines_delete :: "int \<Rightarrow> session \<Rightarrow> db \<Rightarrow> response \<times> db" where
  "pipelines_delete i s d = on_ok (require_operator ''/pipelines/delete'' s d) d (\<lambda>u.
     on_ok (pipeline_or_404 d i (active_tenant_id s u) u) d (\<lambda>p.
       (Redirect ''/inventory'', add_audit (Some (p_tenant_id p)) (Some (u_id u)) ''pipeline.delete'' (Some (pipe_target i)) None None
          (delete_pipeline d p))))"

definition pipelines_assign_org :: "int \<Rightarrow> string \<Rightarrow> session \<Rightarrow> db \<Rightarrow> response \<times> db" where
  "pipelines_assign_org i org_unit_id s d = on_ok (require_operator ''/pipelines/assign-org'' s d) d (\<lambda>u.
     on_ok (pipeline_or_404 d i (active_tenant_id s u) u) d (\<lambda>p. on_ok (parse_int_or_none org_unit_id) d (\<lambda>oid.
       case assign_to_unit d (p_tenant_id p) oid of
         Inl (Org_Validation m) \<Rightarrow> (JsonError 400 m, d)
       | Inl Org_Search_Loops \<Rightarrow> (Crash ''loops'', d)
       | Inr v \<Rightarrow>
           (let path = unit_path_text d v (p_tenant_id p)
            in (JsonOk [(''ok'', JBool True), (''org_unit_id'', case v of None \<Rightarrow> JNull | Some k \<Rightarrow> JInt k),
                        (''path'', case path of None \<Rightarrow> JNull | Some x \<Rightarrow> JStr x)],
                add_audit (Some (p_tenant_id p)) (Some (u_id u)) ''pipeline.update'' (Some (pipe_target (p_id p)))
                  (Some (''org-assign -> '' @ or_default path ''unassigned'')) None
                  (d\<lparr>d_pipelines := upd_row p_id (p_id p)
                       (touch_pipeline d (\<lambda>x. x\<lparr>p_org_unit_id := v\<rparr>)) (d_pipelines d)\<rparr>))))))"

definition run_inputs :: "pipe_env \<Rightarrow> pipeline \<Rightarrow> form \<Rightarrow> response + dict" where
  \<comment> \<open>the inputs of a run: the typed form, or the free text; the error page reads the adapter and
     the configuration again\<close>
  "run_inputs E p f = (case schema_for p of Inl e \<Rightarrow> Inl (Crash e)
     | Inr [] \<Rightarrow> Inr (decode_inputs_text E (or_default (form_get f ''inputs_text'') []))
     | Inr (r # rs) \<Rightarrow> (case coerce_run_inputs (pe_fl E) (map JObj (r # rs)) f of
          Inr v \<Rightarrow> Inr v
        | Inl (Input_Crash e) \<Rightarrow> Inl (Crash e)
        | Inl (Input_Validation m) \<Rightarrow> (case get_adapter (p_provider p) of Inl e \<Rightarrow> Inl (Crash (error_text e))
            | Inr _ \<Rightarrow> (case config_of p of Inl e \<Rightarrow> Inl (Crash (error_text e)) | Inr _ \<Rightarrow> Inl (Page 400 (Some m))))))"

definition payload_note :: "db \<Rightarrow> pipeline \<Rightarrow> user \<Rightarrow> form \<Rightarrow> response + string" where
  "payload_note d p u f = (case form_get f ''payload_id'' of None \<Rightarrow> Inr []
     | Some x \<Rightarrow> if x = [] \<or> \<not> py_isdigit x then Inr []
         else (case py_int x of None \<Rightarrow> Inl (Crash ''ValueError'')
           | Some i \<Rightarrow> (case get_payload d i of None \<Rightarrow> Inr []
               | Some pl \<Rightarrow> if pl_pipeline_id pl = p_id p \<and> can_see_payload (Some u) pl
                   then Inr ('' payload='' @ py_repr (pl_name pl)) else Inr [])))"

definition run_details :: "pipeline_run \<Rightarrow> string \<Rightarrow> string" where
  "run_details r note = ''run='' @ str_int (r_id r) @ '' status='' @ r_status r @ note
     @ (case r_external_id r of None \<Rightarrow> [] | Some x \<Rightarrow> if x = [] then [] else '' external='' @ x)
     @ (case r_error r of None \<Rightarrow> [] | Some m \<Rightarrow> if m = [] then [] else '' error='' @ take 120 m)"

definition pipelines_trigger :: "pipe_env \<Rightarrow> int \<Rightarrow> form \<Rightarrow> session \<Rightarrow> db \<Rightarrow> response \<times> db" where
  "pipelines_trigger E i f s d = on_ok (require_operator ''/pipelines/run'' s d) d (\<lambda>u.
     on_ok (pipeline_or_404 d i (active_tenant_id s u) u) d (\<lambda>p.
     on_ok (run_inputs E p f) d (\<lambda>inputs. on_ok (payload_note d p u f) d (\<lambda>note.
       case trigger_pipeline E d p inputs (Some (u_id u)) of Inl e \<Rightarrow> (Crash e, d)
       | Inr (r, d1) \<Rightarrow> (Redirect (''/pipelines/runs/'' @ str_int (r_id r)),
           add_audit (Some (p_tenant_id p)) (Some (u_id u))
             (if r_status r \<noteq> ''failed'' then ''pipeline.run'' else ''pipeline.run.fail'') (Some (pipe_target (p_id p)))
             (Some (run_details r note)) None d1)))))"

definition run_or_404 :: "db \<Rightarrow> int \<Rightarrow> int option \<Rightarrow> user \<Rightarrow> response + (pipeline_run \<times> pipeline)" where
  \<comment> \<open>a run is scoped through its pipeline\<close>
  "run_or_404 d i tid u = (case get_run d i of None \<Rightarrow> Inl (HttpError 404 ''Not Found'')
     | Some r \<Rightarrow> bind_r (pipeline_or_404 d (r_pipeline_id r) tid u) (\<lambda>p. Inr (r, p)))"

definition pipelines_run_detail :: "int \<Rightarrow> session \<Rightarrow> db \<Rightarrow> response + (pipeline_run \<times> pipeline)" where
  "pipelines_run_detail i s d = bind_r (require_user ''/pipelines/runs'' s d) (\<lambda>u.
     run_or_404 d i (active_tenant_id s u) u)"

definition pipelines_run_refresh :: "pipe_env \<Rightarrow> int \<Rightarrow> session \<Rightarrow> db \<Rightarrow> response \<times> db" where
  "pipelines_run_refresh E i s d = on_ok (require_operator ''/pipelines/runs/refresh'' s d) d (\<lambda>u.
     on_ok (run_or_404 d i (active_tenant_id s u) u) d (\<lambda>(r, p).
       case refresh_run E d r of Inl e \<Rightarrow> (Crash e, d)
       | Inr (r', d1) \<Rightarrow> (Redirect (''/pipelines/runs/'' @ str_int (r_id r)),
           add_audit (Some (p_tenant_id p)) (Some (u_id u)) ''pipeline.run.refresh''
             (Some (''pipeline_run:'' @ str_int (r_id r))) (Some (''status='' @ r_status r')) None d1)))"

section \<open>Payload routes\<close>

definition payload_values_from_form :: "pipe_env \<Rightarrow> dict list \<Rightarrow> form \<Rightarrow> input_error + dict" where
  "payload_values_from_form E schema f = (if schema \<noteq> [] then coerce_run_inputs (pe_fl E) (map JObj schema) f
     else let raw = form_text f ''inputs_text'' in Inr (if raw = [] then [] else [(''__raw__'', JStr raw)]))"

definition payload_error_page :: "payload_error \<Rightarrow> response" where
  "payload_error_page e = (case e of Payload_Value m \<Rightarrow> Page 400 (Some m) | Payload_Crash c \<Rightarrow> Crash c)"

definition input_error_page :: "input_error \<Rightarrow> response" where
  "input_error_page e = (case e of Input_Validation m \<Rightarrow> Page 400 (Some m) | Input_Crash c \<Rightarrow> Crash c)"

definition form_values :: "pipe_env \<Rightarrow> pipeline \<Rightarrow> form \<Rightarrow> response + dict" where
  \<comment> \<open>\<open>_schema_for\<close>, then \<open>_payload_values_from_form\<close>\<close>
  "form_values E p f = (case schema_for p of Inl e \<Rightarrow> Inl (Crash e)
     | Inr sch \<Rightarrow> (case payload_values_from_form E sch f of Inl e \<Rightarrow> Inl (input_error_page e) | Inr v \<Rightarrow> Inr v))"

definition payload_create :: "pipe_env \<Rightarrow> int \<Rightarrow> string \<Rightarrow> string \<Rightarrow> string \<Rightarrow> form \<Rightarrow> session \<Rightarrow> db \<Rightarrow> response \<times> db" where
  "payload_create E pid name description vis f s d = on_ok (require_operator ''/pipelines/payloads/new'' s d) d (\<lambda>u.
     on_ok (pipeline_or_404 d pid (active_tenant_id s u) u) d (\<lambda>p. on_ok (form_values E p f) d (\<lambda>v.
       case create_payload d pid name (JObj v) (Some description) vis (Some (u_id u)) of Inl e \<Rightarrow> (payload_error_page e, d)
       | Inr (pl, d1) \<Rightarrow> (Redirect (''/pipelines/'' @ str_int pid),
           add_audit (Some (p_tenant_id p)) (Some (u_id u)) ''payload.create'' (Some (pipe_target pid))
             (Some (''payload='' @ str_int (pl_id pl) @ '' name='' @ py_repr (pl_name pl) @ '' visibility='' @ pl_visibility pl))
             None d1))))"

definition payload_update :: "pipe_env \<Rightarrow> int \<Rightarrow> int \<Rightarrow> string \<Rightarrow> string \<Rightarrow> string \<Rightarrow> form \<Rightarrow> session \<Rightarrow> db \<Rightarrow> response \<times> db" where
  "payload_update E pid i name description vis f s d = on_ok (require_operator ''/pipelines/payloads/edit'' s d) d (\<lambda>u.
     on_ok (payload_or_404 d pid i u (active_tenant_id s u)) d (\<lambda>(p, pl). on_ok (form_values E p f) d (\<lambda>v.
       case update_payload d pl (Some name) (Some v) (Some description) (Some vis) of Inl e \<Rightarrow> (payload_error_page e, d)
       | Inr (pl', d1) \<Rightarrow> (Redirect (''/pipelines/'' @ str_int pid),
           add_audit (Some (p_tenant_id p)) (Some (u_id u)) ''payload.update'' (Some (pipe_target pid))
             (Some (''payload='' @ str_int (pl_id pl) @ '' name='' @ py_repr (pl_name pl'))) None d1))))"

definition payload_rename :: "int \<Rightarrow> int \<Rightarrow> string \<Rightarrow> session \<Rightarrow> db \<Rightarrow> response \<times> db" where
  "payload_rename pid i name s d = on_ok (require_operator ''/pipelines/payloads/rename'' s d) d (\<lambda>u.
     on_ok (payload_or_404 d pid i u (active_tenant_id s u)) d (\<lambda>(p, pl).
       case update_payload d pl (Some name) None None None of
         Inl (Payload_Value m) \<Rightarrow> (HttpError 400 m, d)
       | Inl (Payload_Crash c) \<Rightarrow> (Crash c, d)
       | Inr (pl', d1) \<Rightarrow> (Redirect (''/pipelines/'' @ str_int pid),
           add_audit (Some (p_tenant_id p)) (Some (u_id u)) ''payload.rename'' (Some (pipe_target pid))
             (Some (''payload='' @ str_int (pl_id pl) @ '' '' @ py_repr (pl_name pl) @ '' -> '' @ py_repr (pl_name pl'))) None d1)))"

definition payload_copy :: "int \<Rightarrow> int \<Rightarrow> session \<Rightarrow> db \<Rightarrow> response \<times> db" where
  "payload_copy pid i s d = on_ok (require_operator ''/pipelines/payloads/copy'' s d) d (\<lambda>u.
     on_ok (payload_or_404 d pid i u (active_tenant_id s u)) d (\<lambda>(p, pl).
       case copy_payload d pl (Some (u_id u)) of
         Inl (Payload_Value m) \<Rightarrow> (Crash m, d)
       | Inl (Payload_Crash c) \<Rightarrow> (Crash c, d)
       | Inr (new, d1) \<Rightarrow> (Redirect (''/pipelines/'' @ str_int pid),
           add_audit (Some (p_tenant_id p)) (Some (u_id u)) ''payload.copy'' (Some (pipe_target pid))
             (Some (''from='' @ str_int (pl_id pl) @ '' to='' @ str_int (pl_id new) @ '' name='' @ py_repr (pl_name new))) None d1)))"

definition payload_delete :: "int \<Rightarrow> int \<Rightarrow> session \<Rightarrow> db \<Rightarrow> response \<times> db" where
  "payload_delete pid i s d = on_ok (require_operator ''/pipelines/payloads/delete'' s d) d (\<lambda>u.
     on_ok (payload_or_404 d pid i u (active_tenant_id s u)) d (\<lambda>(p, pl).
       (Redirect (''/pipelines/'' @ str_int pid),
        add_audit (Some (p_tenant_id p)) (Some (u_id u)) ''payload.delete'' (Some (pipe_target pid))
          (Some (''payload='' @ str_int i @ '' name='' @ py_repr (pl_name pl))) None (delete_payload d pl))))"

definition build_payloads_view :: "db \<Rightarrow> pipeline \<Rightarrow> dict list \<Rightarrow> user \<Rightarrow> (pipeline_payload \<times> (string + string list)) list" where
  \<comment> \<open>each visible payload with its schema-drift errors\<close>
  "build_payloads_view d p schema u = map (\<lambda>pl. (pl, if schema = [] then Inr []
       else validate_payload_values (map JObj schema) (obj_of (pl_values_json pl))))
     (list_payloads d (p_id p) (visible_payloads_filter (Some u)))"

section \<open>The invariant\<close>

definition pipe_ok :: "pipeline \<Rightarrow> bool" where
  "pipe_ok p \<longleftrightarrow> p_visibility p \<in> set [''shared'', ''private''] \<and> (case get_adapter (p_provider p) of Inl _ \<Rightarrow> False | Inr _ \<Rightarrow> True) \<and>
     (case config_of p of Inl _ \<Rightarrow> False | Inr _ \<Rightarrow> True)"

definition pipelines_ok :: "pipeline list \<Rightarrow> bool" where
  "pipelines_ok ps \<longleftrightarrow> uniq_ids p_id ps \<and> distinct (map (\<lambda>p. (p_tenant_id p, p_name p)) ps) \<and> (\<forall>p \<in> set ps. pipe_ok p)"

definition runs_ok :: "int set \<Rightarrow> pipeline_run list \<Rightarrow> bool" where
  "runs_ok ids rs \<longleftrightarrow> uniq_ids r_id rs \<and> (\<forall>r \<in> set rs. r_pipeline_id r \<in> ids \<and> r_status r \<in> set RUN_STATUSES)"

definition payload_ok :: "pipeline_payload \<Rightarrow> bool" where
  "payload_ok p \<longleftrightarrow> pl_name p \<noteq> [] \<and> py_strip (pl_name p) = pl_name p \<and> pl_visibility p \<in> set [''shared'', ''private''] \<and>
     pl_values_json p \<noteq> None"

definition payloads_ok :: "int set \<Rightarrow> pipeline_payload list \<Rightarrow> bool" where
  "payloads_ok ids ps \<longleftrightarrow> uniq_ids pl_id ps \<and> distinct (map (\<lambda>p. (pl_pipeline_id p, pl_name p)) ps) \<and>
     (\<forall>p \<in> set ps. pl_pipeline_id p \<in> ids \<and> payload_ok p)"

definition pipes_ok :: "db \<Rightarrow> bool" where
  "pipes_ok d \<longleftrightarrow> pipelines_ok (d_pipelines d) \<and> runs_ok (p_id ` set (d_pipelines d)) (d_runs d) \<and>
     payloads_ok (p_id ` set (d_pipelines d)) (d_payloads d)"

lemma pipes_ok_audit [simp]: "pipes_ok (add_audit t a x g e i d) = pipes_ok d"
  by (simp add: pipes_ok_def)

lemma distinct_map_upd_at:
  assumes "uniq_ids key t" and "distinct (map g t)"
    and "\<And>x y. x \<in> set t \<Longrightarrow> y \<in> set t \<Longrightarrow> key x = i \<Longrightarrow> key y \<noteq> i \<Longrightarrow> g y \<noteq> g (f x)"
  shows "distinct (map g (upd_row key i f t))"
proof (cases "get_row key t i")
  case None
  then have "upd_row key i f t = t"
    by (auto simp: get_row_None_iff upd_row_def intro!: map_idI)
  then show ?thesis
    using assms(2) by simp
next
  case (Some r)
  then have r: "r \<in> set t" "key r = i"
    by (auto dest: get_row_SomeD)
  have "upd_row key i f t = upd_row key i (\<lambda>_. f r) t"
    using assms(1) r by (auto simp: upd_row_def uniq_ids_def distinct_map inj_on_def)
  also have "distinct (map g \<dots>)"
    by (rule distinct_map_upd [OF assms(1,2), where v = "g (f r)"]) (use assms(3) r in auto)
  finally show ?thesis .
qed

lemma pipe_integrity_InrD:
  "pipe_integrity d t n self c g = Inr u \<Longrightarrow> p \<in> set (d_pipelines d) \<Longrightarrow> p_tenant_id p = t \<Longrightarrow> p_name p = n \<Longrightarrow> Some (p_id p) = self"
  by (auto simp: pipe_integrity_def split: if_splits)

lemma lift_adapter_Inr [simp]: "lift_adapter m = Inr x \<longleftrightarrow> m = Inr x"
  by (cases m) (simp_all add: lift_adapter_def)

lemma visibility_or_ok: "old \<in> set [''shared'', ''private''] \<Longrightarrow> visibility_or old v \<in> set [''shared'', ''private'']"
  by (simp add: visibility_or_def)

lemma create_pipeline_InrD:
  assumes "create_pipeline d t a ow = Inr (p, d')"
  shows "d' = d\<lparr>d_pipelines := d_pipelines d @ [p]\<rparr> \<and> p_id p = next_id p_id (d_pipelines d) \<and> p_tenant_id p = t \<and> p_owner_id p = ow \<and>
    pipe_ok p \<and> (\<forall>x \<in> set (d_pipelines d). p_tenant_id x = t \<longrightarrow> p_name x \<noteq> p_name p)"
  using assms visibility_or_ok [of "''shared''" "or_default (pa_visibility a) ''shared''"]
  by (auto simp: create_pipeline_def bind_r_Inr_iff Let_def pipe_ok_def config_of_def dest: pipe_integrity_InrD)

lemma create_pipeline_ok:
  assumes "pipes_ok d" and "create_pipeline d t a ow = Inr (p, d')"
  shows "pipes_ok d'"
  using assms(1) create_pipeline_InrD [OF assms(2)]
  by (auto simp: pipes_ok_def pipelines_ok_def runs_ok_def payloads_ok_def uniq_ids_append_new)

lemma touch_pipeline_keeps:
  "(\<And>x. p_id (f x) = p_id x) \<Longrightarrow> p_id (touch_pipeline d f p) = p_id p"
  "(\<And>x. p_tenant_id (f x) = p_tenant_id x) \<Longrightarrow> p_tenant_id (touch_pipeline d f p) = p_tenant_id p"
  "p_name (touch_pipeline d f p) = p_name (f p)" "pipe_ok (touch_pipeline d f p) = pipe_ok (f p)"
  by (simp_all add: touch_pipeline_def pipe_ok_def config_of_def)

lemma upd_pipeline_ok:
  assumes "pipes_ok d" and "\<And>x. p_id (f x) = p_id x"
    and "\<And>x. x \<in> set (d_pipelines d) \<Longrightarrow> p_id x = i \<Longrightarrow> pipe_ok (f x)"
    and "\<And>x y. x \<in> set (d_pipelines d) \<Longrightarrow> y \<in> set (d_pipelines d) \<Longrightarrow> p_id x = i \<Longrightarrow> p_id y \<noteq> i \<Longrightarrow>
      (p_tenant_id y, p_name y) \<noteq> (p_tenant_id (f x), p_name (f x))"
  shows "pipes_ok (d\<lparr>d_pipelines := upd_row p_id i f (d_pipelines d)\<rparr>)"
proof -
  have "p_id ` set (upd_row p_id i f (d_pipelines d)) = p_id ` set (d_pipelines d)"
    using map_key_upd_row [of p_id f i "d_pipelines d"] assms(2) by (metis list.set_map)
  moreover have "distinct (map (\<lambda>p. (p_tenant_id p, p_name p)) (upd_row p_id i f (d_pipelines d)))"
    by (rule distinct_map_upd_at) (use assms in \<open>auto simp: pipes_ok_def pipelines_ok_def\<close>)
  ultimately show ?thesis
    using assms(1-3) by (auto simp: pipes_ok_def pipelines_ok_def uniq_ids_upd_row set_upd_row)
qed

lemma update_pipeline_ok:
  assumes ok: "pipes_ok d" and p: "p \<in> set (d_pipelines d)" and u: "update_pipeline d p a = Inr d'"
  shows "pipes_ok d'"
proof -
  obtain ad cfg where a: "get_adapter (pa_provider a) = Inr ad"
    and i: "pipe_integrity d (p_tenant_id p) (py_strip (pa_name a)) (Some (p_id p)) (pa_credential_id a) (pa_org_unit_id a) = Inr ()"
    and d': "d' = d\<lparr>d_pipelines := upd_row p_id (p_id p) (touch_pipeline d (fill_pipeline a cfg)) (d_pipelines d)\<rparr>"
    using u by (auto simp: update_pipeline_def bind_r_Inr_iff)
  have one: "x = p" if "x \<in> set (d_pipelines d)" "p_id x = p_id p" for x
    using ok p that by (auto simp: pipes_ok_def pipelines_ok_def uniq_ids_def distinct_map inj_on_def)
  have "pipe_ok (fill_pipeline a cfg p)"
    using ok p a by (auto simp: pipes_ok_def pipelines_ok_def pipe_ok_def fill_pipeline_def config_of_def visibility_or_def split: option.split)
  moreover have "(p_tenant_id y, p_name y) \<noteq> (p_tenant_id p, py_strip (pa_name a))"
    if "y \<in> set (d_pipelines d)" "p_id y \<noteq> p_id p" for y
    using pipe_integrity_InrD [OF i that(1)] that(2) by auto
  moreover have "p_tenant_id (fill_pipeline a cfg x) = p_tenant_id x" "p_name (fill_pipeline a cfg x) = py_strip (pa_name a)"
      "p_id (fill_pipeline a cfg x) = p_id x" for x
    by (simp_all add: fill_pipeline_def)
  ultimately show ?thesis
    unfolding d' using ok one by (intro upd_pipeline_ok) (metis touch_pipeline_keeps)+
qed

lemma delete_pipeline_ok: "pipes_ok d \<Longrightarrow> pipes_ok (delete_pipeline d p)"
  by (auto simp: pipes_ok_def pipelines_ok_def runs_ok_def payloads_ok_def delete_pipeline_def fk_delete_pipeline_def
      uniq_ids_del_rows del_rows_def distinct_map_filter uniq_ids_def)

lemma assign_pipeline_ok:
  assumes "pipes_ok d" and "p \<in> set (d_pipelines d)"
  shows "pipes_ok (d\<lparr>d_pipelines := upd_row p_id (p_id p) (touch_pipeline d (\<lambda>x. x\<lparr>p_org_unit_id := v\<rparr>)) (d_pipelines d)\<rparr>)"
proof (rule upd_pipeline_ok [OF assms(1)])
  fix x assume x: "x \<in> set (d_pipelines d)"
  show "pipe_ok (touch_pipeline d (\<lambda>x. x\<lparr>p_org_unit_id := v\<rparr>) x)"
  proof -
    have "pipe_ok (x\<lparr>p_org_unit_id := v\<rparr>) = pipe_ok x"
      by (simp add: pipe_ok_def config_of_def)
    then show ?thesis
      using assms(1) x by (simp add: touch_pipeline_keeps pipes_ok_def pipelines_ok_def)
  qed
  fix y assume "y \<in> set (d_pipelines d)" "p_id x = p_id p" "p_id y \<noteq> p_id p"
  with x show "(p_tenant_id y, p_name y) \<noteq> (p_tenant_id (touch_pipeline d (\<lambda>x. x\<lparr>p_org_unit_id := v\<rparr>) x),
      p_name (touch_pipeline d (\<lambda>x. x\<lparr>p_org_unit_id := v\<rparr>) x))"
    using assms(1) by (auto simp: touch_pipeline_keeps pipes_ok_def pipelines_ok_def distinct_map inj_on_def)
qed (simp add: touch_pipeline_keeps)

section \<open>Payload facts\<close>

lemma assert_name_free_InrD:
  assumes "assert_name_free d pid n ex = Inr u" and "p \<in> set (d_payloads d)" and "pl_pipeline_id p = pid" and "pl_name p = n"
  shows "Some (pl_id p) = ex"
proof -
  obtain l where l: "filter (\<lambda>p. pl_pipeline_id p = pid \<and> pl_name p = n) (d_payloads d) = l"
    by simp
  moreover have "p \<in> set l"
    using assms(2-4) by (simp add: l [symmetric])
  ultimately show ?thesis
    using assms(1) by (cases l; cases "tl l") (auto simp: assert_name_free_def split: if_splits)
qed

lemma assert_name_free_unused:
  "(\<forall>p \<in> set (d_payloads d). pl_pipeline_id p = pid \<longrightarrow> pl_name p \<noteq> n) \<Longrightarrow> assert_name_free d pid n ex = Inr ()"
proof -
  assume "\<forall>p \<in> set (d_payloads d). pl_pipeline_id p = pid \<longrightarrow> pl_name p \<noteq> n"
  then have "filter (\<lambda>p. pl_pipeline_id p = pid \<and> pl_name p = n) (d_payloads d) = []"
    by (simp add: filter_empty_conv)
  then show ?thesis
    by (simp add: assert_name_free_def)
qed

lemma create_payload_InrD:
  assumes "create_payload d pid n v ds vis c = Inr (pl, d')"
  shows "d' = d\<lparr>d_payloads := d_payloads d @ [pl]\<rparr> \<and> pl_id pl = next_id pl_id (d_payloads d) \<and> pl_pipeline_id pl = pid \<and>
    pl_name pl = py_strip n \<and> payload_ok pl \<and> pl_created_by_id pl = c \<and>
    (\<forall>x \<in> set (d_payloads d). pl_pipeline_id x = pid \<longrightarrow> pl_name x \<noteq> pl_name pl)"
proof -
  have "assert_name_free d pid (py_strip n) None = Inr ()"
    using assms by (auto simp: create_payload_def bind_r_Inr_iff Let_def split: if_splits)
  then have "\<forall>x \<in> set (d_payloads d). pl_pipeline_id x = pid \<longrightarrow> pl_name x \<noteq> py_strip n"
    using assert_name_free_InrD by (metis option.distinct(1))
  then show ?thesis
    using assms visibility_or_ok [of "''shared''" vis]
    by (auto simp: create_payload_def bind_r_Inr_iff Let_def payload_ok_def split: if_splits)
qed

lemma create_payload_ok:
  assumes "pipes_ok d" and "pid \<in> p_id ` set (d_pipelines d)" and "create_payload d pid n v ds vis c = Inr (pl, d')"
  shows "pipes_ok d'"
  using assms(1,2) create_payload_InrD [OF assms(3)]
  by (auto simp: pipes_ok_def payloads_ok_def uniq_ids_append_new)

lemma touch_payload_keeps:
  "(\<And>x. pl_id (f x) = pl_id x) \<Longrightarrow> pl_id (touch_payload d f p) = pl_id p"
  "pl_pipeline_id (touch_payload d f p) = pl_pipeline_id (f p)" "pl_name (touch_payload d f p) = pl_name (f p)"
  "payload_ok (touch_payload d f p) = payload_ok (f p)"
  by (simp_all add: touch_payload_def payload_ok_def)

lemma fill_payload_simps [simp]:
  "pl_id (fill_payload n v ds vis p) = pl_id p" "pl_pipeline_id (fill_payload n v ds vis p) = pl_pipeline_id p"
  "pl_created_by_id (fill_payload n v ds vis p) = pl_created_by_id p"
  "pl_name (fill_payload n v ds vis p) = (case n of None \<Rightarrow> pl_name p | Some m \<Rightarrow> py_strip m)"
  by (simp_all add: fill_payload_def)

lemma update_payload_ok:
  assumes ok: "pipes_ok d" and p: "pl \<in> set (d_payloads d)" and u: "update_payload d pl n v ds vis = Inr (pl', d')"
  shows "pipes_ok d'"
proof -
  let ?f = "touch_payload d (fill_payload n v ds vis)"
  have d': "d' = d\<lparr>d_payloads := upd_row pl_id (pl_id pl) ?f (d_payloads d)\<rparr>"
    and name: "\<And>m. n = Some m \<Longrightarrow> py_strip m \<noteq> [] \<and> assert_name_free d (pl_pipeline_id pl) (py_strip m) (Some (pl_id pl)) = Inr ()"
    using u by (auto simp: update_payload_def bind_r_Inr_iff Let_def split: if_splits option.splits)
  have P: "payloads_ok (p_id ` set (d_pipelines d)) (d_payloads d)"
    using ok by (simp add: pipes_ok_def)
  have one: "x = pl" if "x \<in> set (d_payloads d)" "pl_id x = pl_id pl" for x
    using P p that by (auto simp: payloads_ok_def uniq_ids_def distinct_map inj_on_def)
  have "payload_ok (fill_payload n v ds vis pl)"
    using P p name by (auto simp: payloads_ok_def payload_ok_def fill_payload_def visibility_or_def split: option.splits)
  moreover have "(pl_pipeline_id y, pl_name y) \<noteq> (pl_pipeline_id (?f pl), pl_name (?f pl))"
    if y: "y \<in> set (d_payloads d)" "pl_id y \<noteq> pl_id pl" for y
  proof (cases n)
    case None
    then show ?thesis
      using P p y by (auto simp: touch_payload_keeps payloads_ok_def distinct_map inj_on_def)
  next
    case (Some m)
    then show ?thesis
      using name assert_name_free_InrD [OF _ y(1)] y(2) by (fastforce simp: touch_payload_keeps)
  qed
  then have "distinct (map (\<lambda>p. (pl_pipeline_id p, pl_name p)) (upd_row pl_id (pl_id pl) ?f (d_payloads d)))"
    using P one by (intro distinct_map_upd_at) (auto simp: payloads_ok_def dest: one)
  ultimately have "payloads_ok (p_id ` set (d_pipelines d)) (upd_row pl_id (pl_id pl) ?f (d_payloads d))"
    using P by (auto simp: payloads_ok_def uniq_ids_upd_row touch_payload_keeps set_upd_row dest: one)
  then show ?thesis
    using ok by (simp add: d' pipes_ok_def)
qed

lemma delete_payload_ok: "pipes_ok d \<Longrightarrow> pipes_ok (delete_payload d pl)"
  by (auto simp: pipes_ok_def payloads_ok_def delete_payload_def uniq_ids_del_rows del_rows_def distinct_map_filter uniq_ids_def)

lemma copy_free_name_fresh:
  "\<exists>n. copy_free_name d pid base = Some n \<and> (\<forall>p \<in> set (d_payloads d). pl_pipeline_id p = pid \<longrightarrow> pl_name p \<noteq> n) \<and>
     (n = base \<or> (\<exists>k \<ge> 2. n = copy_name base k))"
proof -
  let ?taken = "map pl_name (filter (\<lambda>p. pl_pipeline_id p = pid) (d_payloads d))"
  show ?thesis
  proof (cases "base \<in> set ?taken")
    case True
    then obtain n where "first_free (Suc (length ?taken)) (copy_name base) ?taken 2 = Some n" "n \<notin> set ?taken"
      using copy.fresh [of ?taken base 2] by blast
    moreover from this(1) have "\<exists>k \<ge> 2. n = copy_name base k"
      using first_free_SomeD by blast
    ultimately show ?thesis
      using True by (auto simp: copy_free_name_def Let_def image_iff)
  qed (auto simp: copy_free_name_def Let_def)
qed

lemma hd_append_tail: "xs \<noteq> [] \<Longrightarrow> hd (xs @ ys) = hd xs"
  by (cases xs) simp_all

lemma stripped_iff: "s \<noteq> [] \<Longrightarrow> py_strip s = s \<longleftrightarrow> \<not> py_isspace (hd s) \<and> \<not> py_isspace (last s)"
  using py_strip_fixed [of s] py_strip_ends [of s] by auto

lemma copy_name_stripped:
  assumes "py_strip m = m" and "m \<noteq> []" and "n = m @ '' (copy)'' \<or> n = copy_name (m @ '' (copy)'') k"
  shows "py_strip n = n \<and> n \<noteq> []"
proof -
  have "ends_with (m @ '' (copy)'') '')''"
    by (simp add: ends_with_def)
  then have "n = m @ '' (copy)'' \<or> n = m @ '' (copy '' @ str_nat k @ '')''"
    using assms(3) by (auto simp: copy_name_def butlast_append)
  moreover have "\<not> py_isspace CHR '')''"
    by code_simp
  ultimately show ?thesis
    using assms(1,2) stripped_iff [of m] by (auto intro!: py_strip_fixed simp: hd_append_tail)
qed

lemma copy_payload_total:
  assumes "pipes_ok d" and "pl \<in> set (d_payloads d)"
  shows "\<exists>new. copy_payload d pl c = Inr (new, d\<lparr>d_payloads := d_payloads d @ [new]\<rparr>) \<and> pl_id new = next_id pl_id (d_payloads d) \<and>
    pl_pipeline_id new = pl_pipeline_id pl \<and> pl_visibility new = pl_visibility pl \<and> pl_created_by_id new = c \<and>
    (\<forall>x \<in> set (d_payloads d). pl_pipeline_id x = pl_pipeline_id pl \<longrightarrow> pl_name x \<noteq> pl_name new) \<and>
    (pl_name new = pl_name pl @ '' (copy)'' \<or> (\<exists>k \<ge> 2. pl_name new = pl_name pl @ '' (copy '' @ str_nat k @ '')''))"
proof -
  have ok: "payload_ok pl"
    using assms by (auto simp: pipes_ok_def payloads_ok_def)
  obtain n where n: "copy_free_name d (pl_pipeline_id pl) (pl_name pl @ '' (copy)'') = Some n"
      "\<forall>p \<in> set (d_payloads d). pl_pipeline_id p = pl_pipeline_id pl \<longrightarrow> pl_name p \<noteq> n"
      "n = pl_name pl @ '' (copy)'' \<or> (\<exists>k \<ge> 2. n = copy_name (pl_name pl @ '' (copy)'') k)"
    using copy_free_name_fresh by blast
  then have st: "py_strip n = n" "n \<noteq> []"
    using copy_name_stripped [of "pl_name pl" n] ok by (auto simp: payload_ok_def)
  have "copy_name (pl_name pl @ '' (copy)'') k = pl_name pl @ '' (copy '' @ str_nat k @ '')''" for k
    by (simp add: copy_name_def ends_with_def butlast_append)
  moreover have "visibility_or ''shared'' (pl_visibility pl) = pl_visibility pl"
    using ok by (auto simp: payload_ok_def visibility_or_def)
  moreover obtain v where "pl_values_json pl = Some v"
    using ok by (auto simp: payload_ok_def)
  ultimately show ?thesis
    using n st assert_name_free_unused [OF n(2)] by (simp add: copy_payload_def create_payload_def Let_def)
qed

section \<open>Run facts\<close>

lemma registered_status:
  assumes "get_adapter p = Inr a"
  shows "ad_trigger a E c secret i = Inr r \<Longrightarrow> tr_status r \<in> set RUN_STATUSES"
    and "ad_poll a E c secret x = Inr q \<Longrightarrow> po_status q \<in> set RUN_STATUSES"
  using pipeline_adapter.trig_status [OF registered_adapter [OF assms]]
    pipeline_adapter.poll_status [OF registered_adapter [OF assms]] by blast+

lemma trigger_pipeline_InrD:
  assumes "trigger_pipeline E d p inputs uid = Inr (r, d')"
  shows "d' = d\<lparr>d_runs := d_runs d @ [r]\<rparr> \<and> r_id r = next_id r_id (d_runs d) \<and> r_pipeline_id r = p_id p \<and>
    r_status r \<in> set RUN_STATUSES \<and> r_inputs r = Some (Some (JObj inputs)) \<and> r_triggered_by_user_id r = uid"
  using assms
  by (auto simp: trigger_pipeline_def Let_def new_run_def bind_r_Inr_iff split: sum.splits if_splits dest: registered_status(1))

lemma trigger_pipeline_ok:
  assumes "pipes_ok d" and "p \<in> set (d_pipelines d)" and "trigger_pipeline E d p inputs uid = Inr (r, d')"
  shows "pipes_ok d'"
  using assms(1,2) trigger_pipeline_InrD [OF assms(3)]
  by (auto simp: pipes_ok_def runs_ok_def uniq_ids_append_new)

lemma refresh_run_InrD:
  assumes "refresh_run E d r = Inr (r', d')"
  shows "(d' = d \<and> r' = r \<or> d' = d\<lparr>d_runs := upd_row r_id (r_id r) (\<lambda>_. r') (d_runs d)\<rparr>) \<and> r_id r' = r_id r \<and>
    r_pipeline_id r' = r_pipeline_id r \<and> (r_status r' = r_status r \<or> r_status r' \<in> set RUN_STATUSES)"
proof -
  have keep: "r_id (polled_run now q r) = r_id r" "r_pipeline_id (polled_run now q r) = r_pipeline_id r"
      "r_status (polled_run now q r) = po_status q" for now q
    by (simp_all add: polled_run_def)
  show ?thesis
  proof (cases "get_row p_id (d_pipelines d) (r_pipeline_id r)")
    case None
    then show ?thesis
      using assms by (auto simp: refresh_run_def Let_def split: if_splits)
  next
    case (Some p)
    then show ?thesis
      using assms registered_status(2) [of "p_provider p"]
      by (auto simp: refresh_run_def Let_def keep bind_r_Inr_iff split: sum.splits if_splits)
  qed
qed

lemma refresh_run_ok:
  assumes ok: "pipes_ok d" and r: "r \<in> set (d_runs d)" and f: "refresh_run E d r = Inr (r', d')"
  shows "pipes_ok d'"
proof -
  have "r_status r' \<in> set RUN_STATUSES" "r_pipeline_id r' \<in> p_id ` set (d_pipelines d)"
    using refresh_run_InrD [OF f] ok r by (auto simp: pipes_ok_def runs_ok_def)
  moreover have "map r_id (upd_row r_id (r_id r) (\<lambda>_. r') (d_runs d)) = map r_id (d_runs d)"
    using refresh_run_InrD [OF f] by (simp add: upd_row_def)
  ultimately show ?thesis
    using ok refresh_run_InrD [OF f] by (auto simp: pipes_ok_def runs_ok_def set_upd_row uniq_ids_def)
qed

section \<open>Requests\<close>

datatype pipe_req =
    Pipe_Create pipe_form
  | Pipe_Update int pipe_form
  | Pipe_Delete int
  | Pipe_Assign int string
  | Pipe_Trigger int form
  | Run_Refresh int
  | Payload_Create int string string string form
  | Payload_Update int int string string string form
  | Payload_Rename int int string
  | Payload_Copy int int
  | Payload_Delete int int

fun pipe_handle :: "pipe_env \<Rightarrow> pipe_req \<Rightarrow> session \<Rightarrow> db \<Rightarrow> response \<times> db" where
  \<comment> \<open>the POST routes of \<open>routes.py\<close>\<close>
  "pipe_handle E (Pipe_Create f) s d = pipelines_create f s d"
| "pipe_handle E (Pipe_Update i f) s d = pipelines_update i f s d"
| "pipe_handle E (Pipe_Delete i) s d = pipelines_delete i s d"
| "pipe_handle E (Pipe_Assign i org) s d = pipelines_assign_org i org s d"
| "pipe_handle E (Pipe_Trigger i f) s d = pipelines_trigger E i f s d"
| "pipe_handle E (Run_Refresh i) s d = pipelines_run_refresh E i s d"
| "pipe_handle E (Payload_Create pid n ds vis f) s d = payload_create E pid n ds vis f s d"
| "pipe_handle E (Payload_Update pid i n ds vis f) s d = payload_update E pid i n ds vis f s d"
| "pipe_handle E (Payload_Rename pid i n) s d = payload_rename pid i n s d"
| "pipe_handle E (Payload_Copy pid i) s d = payload_copy pid i s d"
| "pipe_handle E (Payload_Delete pid i) s d = payload_delete pid i s d"

text \<open>
  What a request of user \<open>u\<close> in scope \<open>tid\<close> may do to the database, stated without the routes: one
  operation of the repository on one pipeline the user can access, then audit rows.
\<close>

definition accessible :: "user \<Rightarrow> int option \<Rightarrow> pipeline \<Rightarrow> bool" where
  "accessible u tid p \<longleftrightarrow> in_scope tid (p_tenant_id p) \<and> can_see_pipeline (Some u) p"

definition reachable_pipeline :: "user \<Rightarrow> int option \<Rightarrow> db \<Rightarrow> pipeline \<Rightarrow> bool" where
  "reachable_pipeline u tid d p \<longleftrightarrow> p \<in> set (d_pipelines d) \<and> accessible u tid p"

inductive pipe_effect :: "pipe_env \<Rightarrow> user \<Rightarrow> int option \<Rightarrow> db \<Rightarrow> db \<Rightarrow> bool" for E u tid d where
  eff_none: "pipe_effect E u tid d d"
| eff_create: "in_scope tid t \<Longrightarrow> create_pipeline d t a (Some (u_id u)) = Inr (p, d1) \<Longrightarrow> pipe_effect E u tid d d1"
| eff_update: "reachable_pipeline u tid d p \<Longrightarrow> update_pipeline d p a = Inr d1 \<Longrightarrow> pipe_effect E u tid d d1"
| eff_delete: "reachable_pipeline u tid d p \<Longrightarrow> pipe_effect E u tid d (delete_pipeline d p)"
| eff_assign: "reachable_pipeline u tid d p \<Longrightarrow> pipe_effect E u tid d (d\<lparr>d_pipelines := upd_row p_id (p_id p)
      (touch_pipeline d (\<lambda>x. x\<lparr>p_org_unit_id := v\<rparr>)) (d_pipelines d)\<rparr>)"
| eff_trigger: "reachable_pipeline u tid d p \<Longrightarrow> trigger_pipeline E d p inputs (Some (u_id u)) = Inr (r, d1) \<Longrightarrow>
    pipe_effect E u tid d d1"
| eff_refresh: "reachable_pipeline u tid d p \<Longrightarrow> r \<in> set (d_runs d) \<Longrightarrow> r_pipeline_id r = p_id p \<Longrightarrow>
    refresh_run E d r = Inr (r', d1) \<Longrightarrow> pipe_effect E u tid d d1"
| eff_payload_create: "reachable_pipeline u tid d p \<Longrightarrow>
    create_payload d (p_id p) n v ds vis (Some (u_id u)) = Inr (pl, d1) \<Longrightarrow> pipe_effect E u tid d d1"
| eff_payload_update: "reachable_pipeline u tid d p \<Longrightarrow> pl \<in> set (d_payloads d) \<Longrightarrow> pl_pipeline_id pl = p_id p \<Longrightarrow>
    can_see_payload (Some u) pl \<Longrightarrow> update_payload d pl n v ds vis = Inr (pl', d1) \<Longrightarrow> pipe_effect E u tid d d1"
| eff_payload_copy: "reachable_pipeline u tid d p \<Longrightarrow> pl \<in> set (d_payloads d) \<Longrightarrow> pl_pipeline_id pl = p_id p \<Longrightarrow>
    can_see_payload (Some u) pl \<Longrightarrow> copy_payload d pl (Some (u_id u)) = Inr (new, d1) \<Longrightarrow> pipe_effect E u tid d d1"
| eff_payload_delete: "reachable_pipeline u tid d p \<Longrightarrow> pl \<in> set (d_payloads d) \<Longrightarrow> pl_pipeline_id pl = p_id p \<Longrightarrow>
    can_see_payload (Some u) pl \<Longrightarrow> pipe_effect E u tid d (delete_payload d pl)"
| eff_audit: "pipe_effect E u tid d d1 \<Longrightarrow> pipe_effect E u tid d (add_audit t a x g e i d1)"

lemma pipeline_or_404_InrD: "pipeline_or_404 d i tid u = Inr p \<Longrightarrow> reachable_pipeline u tid d p \<and> p_id p = i"
  by (auto simp: pipeline_or_404_def reachable_pipeline_def accessible_def pip.getr_iff dest: get_row_SomeD
      split: option.splits if_splits)

lemma payload_or_404_InrD: "payload_or_404 d pid i u tid = Inr (p, pl) \<Longrightarrow>
    reachable_pipeline u tid d p \<and> p_id p = pid \<and> pl \<in> set (d_payloads d) \<and> pl_pipeline_id pl = p_id p \<and> can_see_payload (Some u) pl"
  by (auto simp: payload_or_404_def bind_r_Inr_iff get_payload_def dest!: pipeline_or_404_InrD get_row_SomeD
      split: option.splits if_splits)

lemma run_or_404_InrD: "run_or_404 d i tid u = Inr (r, p) \<Longrightarrow>
    reachable_pipeline u tid d p \<and> r \<in> set (d_runs d) \<and> r_pipeline_id r = p_id p"
  by (auto simp: run_or_404_def bind_r_Inr_iff get_run_def dest!: pipeline_or_404_InrD get_row_SomeD split: option.splits)

lemma require_active_tenant_scope: "require_active_tenant s u = Inr t \<Longrightarrow> in_scope (active_tenant_id s u) t"
  by (auto simp: require_active_tenant_def split: option.splits)

lemmas pipe_routes = pipelines_create_def pipelines_update_def pipelines_delete_def pipelines_assign_org_def pipelines_trigger_def
  pipelines_run_refresh_def payload_create_def payload_update_def payload_rename_def payload_copy_def payload_delete_def

lemma copy_payload_create: "copy_payload d pl c = Inr (new, d1) \<Longrightarrow>
    \<exists>n v ds vis. create_payload d (pl_pipeline_id pl) n v ds vis c = Inr (new, d1)"
  by (auto simp: copy_payload_def split: option.splits)

lemma pipe_handle_effect:
  "snd (pipe_handle E q s d) = d \<or> (\<exists>u path. require_operator path s d = Inr u \<and>
     pipe_effect E u (active_tenant_id s u) d (snd (pipe_handle E q s d)))"
proof (cases q)
  case (Pipe_Create f)
  then show ?thesis
    by (auto simp: pipelines_create_def split: on_ok_split sum.split intro: eff_audit eff_create require_active_tenant_scope)
next
  case (Pipe_Update i f)
  then show ?thesis
    by (auto simp: pipelines_update_def split: on_ok_split sum.split dest!: pipeline_or_404_InrD intro: eff_audit eff_update)
next
  case (Pipe_Delete i)
  then show ?thesis
    by (auto simp: pipelines_delete_def split: on_ok_split sum.split dest!: pipeline_or_404_InrD intro: eff_audit eff_delete)
next
  case (Pipe_Assign i org)
  then show ?thesis
    by (auto simp: pipelines_assign_org_def Let_def split: on_ok_split sum.split org_error.split dest!: pipeline_or_404_InrD
        intro: eff_audit eff_assign)
next
  case (Pipe_Trigger i f)
  then show ?thesis
    by (auto simp: pipelines_trigger_def split: on_ok_split sum.split dest!: pipeline_or_404_InrD intro: eff_audit eff_trigger)
next
  case (Run_Refresh i)
  then show ?thesis
    by (auto simp: pipelines_run_refresh_def split: on_ok_split sum.split dest!: run_or_404_InrD intro: eff_audit eff_refresh)
next
  case (Payload_Create pid n ds vis f)
  then show ?thesis
    by (auto simp: payload_create_def split: on_ok_split sum.split dest!: pipeline_or_404_InrD intro: eff_audit eff_payload_create)
next
  case (Payload_Update pid i n ds vis f)
  then show ?thesis
    by (auto simp: payload_update_def split: on_ok_split sum.split dest!: payload_or_404_InrD intro: eff_audit eff_payload_update)
next
  case (Payload_Rename pid i n)
  then show ?thesis
    by (auto simp: payload_rename_def split: on_ok_split sum.split payload_error.split dest!: payload_or_404_InrD
        intro: eff_audit eff_payload_update)
next
  case (Payload_Copy pid i)
  then show ?thesis
    by (auto simp: payload_copy_def split: on_ok_split sum.split payload_error.split dest!: payload_or_404_InrD
        intro: eff_audit eff_payload_copy)
next
  case (Payload_Delete pid i)
  then show ?thesis
    by (auto simp: payload_delete_def split: on_ok_split sum.split dest!: payload_or_404_InrD intro: eff_audit eff_payload_delete)
qed

lemma pipe_effect_ok: "pipe_effect E u tid d d' \<Longrightarrow> pipes_ok d \<Longrightarrow> pipes_ok d'"
proof (induction rule: pipe_effect.induct)
  case (eff_payload_create p n v ds vis pl d1)
  then show ?case
    by (auto simp: reachable_pipeline_def intro: create_payload_ok)
next
  case (eff_payload_copy p pl new d1)
  then show ?case
    by (auto simp: reachable_pipeline_def intro: create_payload_ok dest!: copy_payload_create)
qed (auto simp: reachable_pipeline_def intro: create_pipeline_ok update_pipeline_ok delete_pipeline_ok assign_pipeline_ok
    trigger_pipeline_ok refresh_run_ok update_payload_ok delete_payload_ok)

section \<open>What a request leaves alone\<close>

definition hidden_ids :: "user \<Rightarrow> int option \<Rightarrow> db \<Rightarrow> int set" where
  "hidden_ids u tid d = p_id ` {p \<in> set (d_pipelines d). \<not> accessible u tid p}"

definition rows_of :: "int set \<Rightarrow> db \<Rightarrow> pipeline list \<times> pipeline_run list \<times> pipeline_payload list" where
  "rows_of H d = (filter (\<lambda>p. p_id p \<in> H) (d_pipelines d), filter (\<lambda>r. r_pipeline_id r \<in> H) (d_runs d),
     filter (\<lambda>p. pl_pipeline_id p \<in> H) (d_payloads d))"

lemma rows_of_audit [simp]: "rows_of H (add_audit t a x g e i d) = rows_of H d"
  by (simp add: rows_of_def)

lemma filter_upd_row: "(\<And>x. x \<in> set t \<Longrightarrow> key x = i \<Longrightarrow> \<not> P x \<and> \<not> P (f x)) \<Longrightarrow> filter P (upd_row key i f t) = filter P t"
  by (induction t) (auto simp: upd_row_simps)

lemma filter_del_rows: "(\<And>x. x \<in> set t \<Longrightarrow> P x \<Longrightarrow> \<not> Q x) \<Longrightarrow> filter P (del_rows Q t) = filter P t"
  by (auto simp: del_rows_def intro!: filter_cong)

lemma reachable_not_hidden:
  assumes "pipes_ok d" and "reachable_pipeline u tid d p"
  shows "p_id p \<notin> hidden_ids u tid d"
proof
  assume "p_id p \<in> hidden_ids u tid d"
  then obtain x where "x \<in> set (d_pipelines d)" "\<not> accessible u tid x" "p_id x = p_id p"
    by (auto simp: hidden_ids_def)
  then show False
    using assms by (auto simp: reachable_pipeline_def pipes_ok_def pipelines_ok_def uniq_ids_def distinct_map inj_on_def)
qed

lemma next_pipeline_not_hidden: "next_id p_id (d_pipelines d) \<notin> hidden_ids u tid d"
  using next_id_gt [of _ "d_pipelines d" p_id] by (fastforce simp: hidden_ids_def)

lemma uniq_row: "uniq_ids key t \<Longrightarrow> x \<in> set t \<Longrightarrow> y \<in> set t \<Longrightarrow> key x = key y \<Longrightarrow> x = y"
  by (auto simp: uniq_ids_def distinct_map inj_on_def)

lemma update_payload_InrD: "update_payload d pl n v ds vis = Inr (pl', d1) \<Longrightarrow>
    d1 = d\<lparr>d_payloads := upd_row pl_id (pl_id pl) (touch_payload d (fill_payload n v ds vis)) (d_payloads d)\<rparr>"
  by (auto simp: update_payload_def bind_r_Inr_iff Let_def)

lemma update_pipeline_InrD: "update_pipeline d p a = Inr d1 \<Longrightarrow>
    \<exists>cfg. d1 = d\<lparr>d_pipelines := upd_row p_id (p_id p) (touch_pipeline d (fill_pipeline a cfg)) (d_pipelines d)\<rparr>"
  by (auto simp: update_pipeline_def bind_r_Inr_iff)

lemma touched_pipeline_id: "p_id (touch_pipeline d (fill_pipeline a cfg) p) = p_id p"
  "p_id (touch_pipeline d (\<lambda>x. x\<lparr>p_org_unit_id := v\<rparr>) p) = p_id p"
  by (simp_all add: touch_pipeline_def fill_pipeline_def)

lemma pipe_effect_hidden:
  assumes "pipe_effect E u tid d d'" and ok: "pipes_ok d"
  shows "rows_of (hidden_ids u tid d) d' = rows_of (hidden_ids u tid d) d"
  using assms(1)
proof (induction rule: pipe_effect.induct)
  case (eff_create t a p d1)
  then show ?case
    using create_pipeline_InrD [of d t a] next_pipeline_not_hidden [of d u tid] by (fastforce simp: rows_of_def)
next
  case (eff_update p a d1)
  then show ?case
    using update_pipeline_InrD [of d p a d1] reachable_not_hidden [OF ok]
    by (auto simp: rows_of_def touched_pipeline_id intro!: filter_upd_row)
next
  case (eff_delete p)
  then show ?case
    using reachable_not_hidden [OF ok] by (auto simp: rows_of_def delete_pipeline_def fk_delete_pipeline_def intro!: filter_del_rows)
next
  case (eff_assign p v)
  then show ?case
    using reachable_not_hidden [OF ok] by (auto simp: rows_of_def touched_pipeline_id intro!: filter_upd_row)
next
  case (eff_trigger p inputs r d1)
  then show ?case
    using trigger_pipeline_InrD [of E d p inputs] reachable_not_hidden [OF ok] by (fastforce simp: rows_of_def)
next
  case (eff_refresh p r r' d1)
  moreover have "r_pipeline_id x = p_id p" if "x \<in> set (d_runs d)" "r_id x = r_id r" for x
    using uniq_row ok that eff_refresh(2,3) by (fastforce simp: pipes_ok_def runs_ok_def)
  ultimately show ?case
    using refresh_run_InrD [of E d r r' d1] reachable_not_hidden [OF ok]
    by (auto simp: rows_of_def intro!: filter_upd_row)
next
  case (eff_payload_create p n v ds vis pl d1)
  then show ?case
    using create_payload_InrD [of d "p_id p" n v ds vis] reachable_not_hidden [OF ok] by (fastforce simp: rows_of_def)
next
  case (eff_payload_update p pl n v ds vis pl' d1)
  moreover have "pl_pipeline_id x = p_id p" if "x \<in> set (d_payloads d)" "pl_id x = pl_id pl" for x
    using uniq_row ok that eff_payload_update(2,3) by (fastforce simp: pipes_ok_def payloads_ok_def)
  ultimately show ?case
    using update_payload_InrD [of d pl n v ds vis pl' d1] reachable_not_hidden [OF ok]
    by (auto simp: rows_of_def touch_payload_keeps intro!: filter_upd_row)
next
  case (eff_payload_copy p pl new d1)
  then obtain n v ds vis where "create_payload d (p_id p) n v ds vis (Some (u_id u)) = Inr (new, d1)"
    using copy_payload_create [of d pl] by fastforce
  then show ?case
    using create_payload_InrD [of d "p_id p" n v ds vis] reachable_not_hidden [OF ok eff_payload_copy(1)] by (fastforce simp: rows_of_def)
next
  case (eff_payload_delete p pl)
  moreover have "pl_pipeline_id x = p_id p" if "x \<in> set (d_payloads d)" "pl_id x = pl_id pl" for x
    using uniq_row ok that eff_payload_delete(2,3) by (fastforce simp: pipes_ok_def payloads_ok_def)
  ultimately show ?case
    using reachable_not_hidden [OF ok] by (auto simp: rows_of_def delete_payload_def intro!: filter_del_rows)
qed (simp_all)

lemma pipe_effect_private_payloads:
  assumes "pipe_effect E u tid d d'" and ok: "pipes_ok d" and x: "x \<in> set (d_payloads d)" "\<not> can_see_payload (Some u) x"
  shows "x \<in> set (d_payloads d') \<or> pl_pipeline_id x \<notin> p_id ` set (d_pipelines d')"
  using assms(1)
proof (induction rule: pipe_effect.induct)
  case (eff_create t a p d1)
  then show ?case
    using create_pipeline_InrD [of d t a] x by fastforce
next
  case (eff_update p a d1)
  then show ?case
    using update_pipeline_InrD [of d p a d1] x by auto
next
  case (eff_delete p)
  then show ?case
    using x by (auto simp: delete_pipeline_def fk_delete_pipeline_def)
next
  case (eff_trigger p inputs r d1)
  then show ?case
    using trigger_pipeline_InrD [of E d p inputs] x by fastforce
next
  case (eff_refresh p r r' d1)
  then show ?case
    using refresh_run_InrD [of E d r r' d1] x by auto
next
  case (eff_payload_create p n v ds vis pl d1)
  then show ?case
    using create_payload_InrD [of d "p_id p" n v ds vis] x by fastforce
next
  case (eff_payload_update p pl n v ds vis pl' d1)
  moreover have "pl_id x \<noteq> pl_id pl"
    using uniq_row ok x eff_payload_update(2,4) by (fastforce simp: pipes_ok_def payloads_ok_def)
  ultimately show ?case
    using update_payload_InrD [of d pl n v ds vis pl' d1] x by (auto simp: set_upd_row image_iff)
next
  case (eff_payload_copy p pl new d1)
  then show ?case
    using copy_payload_create [of d pl] create_payload_InrD x by fastforce
next
  case (eff_payload_delete p pl)
  moreover have "pl_id x \<noteq> pl_id pl"
    using uniq_row ok x eff_payload_delete(2,4) by (fastforce simp: pipes_ok_def payloads_ok_def)
  ultimately show ?case
    using x by (auto simp: delete_payload_def)
qed (use x in simp_all)

definition finished :: "pipeline_run \<Rightarrow> bool" where
  "finished r \<longleftrightarrow> r_status r \<in> set TERMINAL \<and> r_completed_at r \<noteq> None"

lemma refresh_finished: "finished r \<Longrightarrow> refresh_run E d r = Inr (r, d)"
  by (simp add: refresh_run_def finished_def)

lemma pipe_effect_finished:
  assumes "pipe_effect E u tid d d'" and ok: "pipes_ok d" and x: "x \<in> set (d_runs d)" "finished x"
  shows "x \<in> set (d_runs d') \<or> r_pipeline_id x \<notin> p_id ` set (d_pipelines d')"
  using assms(1)
proof (induction rule: pipe_effect.induct)
  case (eff_create t a p d1)
  then show ?case
    using create_pipeline_InrD [of d t a] x by fastforce
next
  case (eff_update p a d1)
  then show ?case
    using update_pipeline_InrD [of d p a d1] x by auto
next
  case (eff_delete p)
  then show ?case
    using x by (auto simp: delete_pipeline_def fk_delete_pipeline_def)
next
  case (eff_trigger p inputs r d1)
  then show ?case
    using trigger_pipeline_InrD [of E d p inputs] x by fastforce
next
  case (eff_refresh p r r' d1)
  show ?case
  proof (cases "r_id x = r_id r")
    case True
    then have "x = r"
      using uniq_row ok x eff_refresh(2) by (fastforce simp: pipes_ok_def runs_ok_def)
    then show ?thesis
      using refresh_finished [of r E d] x eff_refresh(4) by simp
  next
    case False
    then show ?thesis
      using refresh_run_InrD [OF eff_refresh(4)] x by (auto simp: set_upd_row image_iff)
  qed
next
  case (eff_payload_create p n v ds vis pl d1)
  then show ?case
    using create_payload_InrD [of d "p_id p" n v ds vis] x by fastforce
next
  case (eff_payload_update p pl n v ds vis pl' d1)
  then show ?case
    using update_payload_InrD [of d pl n v ds vis pl' d1] x by auto
next
  case (eff_payload_copy p pl new d1)
  then show ?case
    using copy_payload_create [of d pl] create_payload_InrD x by fastforce
next
  case (eff_payload_delete p pl)
  then show ?case
    using x by (simp add: delete_payload_def)
qed (use x in simp_all)

lemma registered_no_secret: "get_adapter p = Inr a \<Longrightarrow> \<exists>m. ad_trigger a E c None i = Inl (Provider_Error m)"
  using pipeline_adapter.no_secret(1) [OF registered_adapter] by blast

lemma select_due_Cons: "select_due now hours (r # rs) d due n = Inl ''TypeError''"
  by simp

section \<open>Properties\<close>

text \<open>C28: Every POST route of the pipelines refines one abstract transition: it leaves the database as
  it is, or the session belongs to an active operator and the route performs one repository
  operation on one pipeline that is in the operator's active tenant and visible to them (and, for a
  payload, on a payload visible to them), followed by audit rows.\<close>

theorem pipeline_routes_refine:
  "snd (pipe_handle E q s d) = d \<or>
   (\<exists>u. get_current_user s d = Some u \<and> user_has_role (Some u) Operator \<and>
      pipe_effect E u (active_tenant_id s u) d (snd (pipe_handle E q s d)))"
  using pipe_handle_effect [of E q s d] require_role_InrD get_current_user_SomeD
  by (fastforce simp: user_has_role_def)


text \<open>C29: No POST route touches what its user cannot see: every pipeline of another tenant and every
  private pipeline of another owner keeps its row, its runs and its payloads, in the same order,
  and a payload private to somebody else survives unless the whole pipeline it belongs to is deleted.\<close>

theorem pipeline_routes_isolate:
  assumes "pipes_ok d" and "get_current_user s d = Some u"
  shows "rows_of (hidden_ids u (active_tenant_id s u) d) (snd (pipe_handle E q s d)) = rows_of (hidden_ids u (active_tenant_id s u) d) d \<and>
    (\<forall>x \<in> set (d_payloads d). \<not> can_see_payload (Some u) x \<longrightarrow>
       x \<in> set (d_payloads (snd (pipe_handle E q s d))) \<or>
       pl_pipeline_id x \<notin> p_id ` set (d_pipelines (snd (pipe_handle E q s d))))"
proof -
  consider (same) "snd (pipe_handle E q s d) = d" | (eff) "pipe_effect E u (active_tenant_id s u) d (snd (pipe_handle E q s d))"
    using pipe_handle_effect [of E q s d] require_role_InrD assms(2) by fastforce
  then show ?thesis
  proof cases
    case eff
    then show ?thesis
      using pipe_effect_hidden [OF eff assms(1)] pipe_effect_private_payloads [OF eff assms(1)] by blast
  qed simp
qed

definition demo_payload :: "int \<Rightarrow> int \<Rightarrow> string \<Rightarrow> string \<Rightarrow> pipeline_payload" where
  "demo_payload i pid name vis = \<lparr>pl_id = i, pl_pipeline_id = pid, pl_name = name, pl_description = None,
     pl_values_json = Some (JObj []), pl_visibility = vis, pl_created_by_id = Some 2, pl_created_at = 0, pl_updated_at = 0\<rparr>"

definition demo_run :: "int \<Rightarrow> int \<Rightarrow> string \<Rightarrow> stamp option \<Rightarrow> pipeline_run" where
  "demo_run i pid st fin = \<lparr>r_id = i, r_pipeline_id = pid, r_external_id = Some ''x'', r_status = st, r_inputs = None, r_html_url = None,
     r_triggered_by_user_id = None, r_triggered_at = 0, r_started_at = None, r_completed_at = fin, r_last_polled_at = None, r_error = None\<rparr>"

definition demo_pipes :: db where
  \<comment> \<open>tenant 1: a shared pipeline and one private to user 2, each with a payload; a finished and an open run\<close>
  "demo_pipes = demo_db\<lparr>d_pipelines := [(demo_pipeline 1 ''shared'' (Some 1))\<lparr>p_provider := ''awx''\<rparr>,
       (demo_pipeline 2 ''private'' (Some 2))\<lparr>p_provider := ''awx''\<rparr>],
     d_payloads := [demo_payload 1 1 ''nightly'' ''shared'', demo_payload 2 2 ''secret'' ''shared'', demo_payload 3 1 ''mine'' ''private''],
     d_runs := [demo_run 1 1 ''success'' (Some 5), demo_run 2 1 ''running'' None]\<rparr>"

definition demo_pipe_env :: pipe_env where
  "demo_pipe_env = \<lparr>pe_net = demo_net, pe_secret = secret_get Some, pe_loads = (\<lambda>_. None), pe_fl = (\<lambda>x. x)\<rparr>"

lemma demo_pipes_ok: "pipes_ok demo_pipes"
  by code_simp

lemma demo_pipes_user: "get_current_user (demo_session 1) demo_pipes = Some (demo_user 1 ''operator'' (Some 1))"
  by code_simp


theorem pipeline_routes_isolate_witness:
  "rows_of (hidden_ids (demo_user 1 ''operator'' (Some 1)) (active_tenant_id (demo_session 1) (demo_user 1 ''operator'' (Some 1))) demo_pipes)
     (snd (pipe_handle demo_pipe_env (Pipe_Delete 1) (demo_session 1) demo_pipes))
   = rows_of (hidden_ids (demo_user 1 ''operator'' (Some 1)) (active_tenant_id (demo_session 1) (demo_user 1 ''operator'' (Some 1))) demo_pipes)
     demo_pipes \<and>
   map p_id (d_pipelines (snd (pipe_handle demo_pipe_env (Pipe_Delete 1) (demo_session 1) demo_pipes))) = [2]"
proof
  show "rows_of (hidden_ids (demo_user 1 ''operator'' (Some 1)) (active_tenant_id (demo_session 1) (demo_user 1 ''operator'' (Some 1))) demo_pipes)
     (snd (pipe_handle demo_pipe_env (Pipe_Delete 1) (demo_session 1) demo_pipes))
   = rows_of (hidden_ids (demo_user 1 ''operator'' (Some 1)) (active_tenant_id (demo_session 1) (demo_user 1 ''operator'' (Some 1))) demo_pipes)
     demo_pipes"
    using pipeline_routes_isolate [OF demo_pipes_ok demo_pipes_user] by blast
qed code_simp

text \<open>C31: Run history is immutable: once a run has a terminal status and a completion time, no POST
  route and no poll changes it; it disappears only together with its pipeline.\<close>

theorem finished_runs_immutable:
  assumes "pipes_ok d" and "r \<in> set (d_runs d)" and "finished r"
  shows "(r \<in> set (d_runs (snd (pipe_handle E q s d))) \<or> r_pipeline_id r \<notin> p_id ` set (d_pipelines (snd (pipe_handle E q s d)))) \<and>
    poll_one E (r_id r) d = (False, d)"
proof
  show "r \<in> set (d_runs (snd (pipe_handle E q s d))) \<or> r_pipeline_id r \<notin> p_id ` set (d_pipelines (snd (pipe_handle E q s d)))"
    using pipe_handle_effect [of E q s d] pipe_effect_finished [OF _ assms] assms(2) by metis
  have "get_run d (r_id r) = Some r"
    using assms(1,2) by (simp add: get_run_def pipes_ok_def runs_ok_def get_row_in)
  moreover have "r_status r \<notin> set NON_TERMINAL"
    using assms(3) by (auto simp: finished_def TERMINAL_def NON_TERMINAL_def)
  ultimately show "poll_one E (r_id r) d = (False, d)"
    by (simp add: poll_one_def)
qed

theorem finished_runs_immutable_witness:
  "demo_run 1 1 ''success'' (Some 5) \<in> set (d_runs (snd (pipe_handle demo_pipe_env (Run_Refresh 1) (demo_session 1) demo_pipes)))"
proof -
  have f: "demo_run 1 1 ''success'' (Some 5) \<in> set (d_runs demo_pipes)" "finished (demo_run 1 1 ''success'' (Some 5))"
    by code_simp+
  have "r_pipeline_id (demo_run 1 1 ''success'' (Some 5)) \<in>
      p_id ` set (d_pipelines (snd (pipe_handle demo_pipe_env (Run_Refresh 1) (demo_session 1) demo_pipes)))"
    by code_simp
  then show ?thesis
    using finished_runs_immutable [OF demo_pipes_ok f] by blast
qed

text \<open>Copying a payload always succeeds for an operator who can see it, whatever names are taken: the
  search for a free name ends, exactly one payload is added, on the same pipeline, with the same
  visibility and the copier as its owner, under a name no payload of the pipeline has, which is the
  old name with "(copy)" or "(copy n)" appended.\<close>

theorem payload_copy_succeeds:
  assumes "pipes_ok d" and "\<And>path. require_operator path s d = Inr u" and "payload_or_404 d pid i u (active_tenant_id s u) = Inr (p, pl)"
  shows "\<exists>new. fst (payload_copy pid i s d) = Redirect (''/pipelines/'' @ str_int pid) \<and>
    d_payloads (snd (payload_copy pid i s d)) = d_payloads d @ [new] \<and> pl_pipeline_id new = pid \<and>
    pl_visibility new = pl_visibility pl \<and> pl_created_by_id new = Some (u_id u) \<and>
    (\<forall>x \<in> set (d_payloads d). pl_pipeline_id x = pid \<longrightarrow> pl_name x \<noteq> pl_name new) \<and>
    (pl_name new = pl_name pl @ '' (copy)'' \<or> (\<exists>k \<ge> 2. pl_name new = pl_name pl @ '' (copy '' @ str_nat k @ '')''))"
proof -
  have pl: "pl \<in> set (d_payloads d)" "pl_pipeline_id pl = pid"
    using payload_or_404_InrD [OF assms(3)] by auto
  show ?thesis
    using copy_payload_total [OF assms(1) pl(1), of "Some (u_id u)"] pl(2) assms(2,3) by (fastforce simp: payload_copy_def)
qed

lemma require_operator_demo: "require_operator path (demo_session 1) demo_pipes = Inr (demo_user 1 ''operator'' (Some 1))"
  using demo_pipes_user by (simp add: require_role_def require_user_def demo_user_def user_has_role_def rank_get_def role_of_def)

theorem payload_copy_succeeds_witness:
  "\<exists>new. d_payloads (snd (payload_copy 1 1 (demo_session 1) demo_pipes)) = d_payloads demo_pipes @ [new] \<and> pl_pipeline_id new = 1"
proof -
  have "payload_or_404 demo_pipes 1 1 (demo_user 1 ''operator'' (Some 1)) (active_tenant_id (demo_session 1) (demo_user 1 ''operator'' (Some 1)))
      = Inr ((demo_pipeline 1 ''shared'' (Some 1))\<lparr>p_provider := ''awx''\<rparr>, demo_payload 1 1 ''nightly'' ''shared'')"
    by code_simp
  then show ?thesis
    using payload_copy_succeeds [OF demo_pipes_ok require_operator_demo] by blast
qed

text \<open>Triggering a pipeline without a credential, or whose secret is missing from the backend, never
  crashes and never loses the attempt: whatever the provider, exactly one run row is added, failed,
  with an error text and a completion time, so it counts as finished history.\<close>

theorem trigger_without_secret_recorded:
  assumes "pipes_ok d" and "p \<in> set (d_pipelines d)"
    and "credential_of d p = None \<or> (\<exists>c x. credential_of d p = Some c \<and> pe_secret E d (c_secret_ref c) = Inl (Secret_Not_Found x))"
  shows "\<exists>r. trigger_pipeline E d p inputs uid = Inr (r, d\<lparr>d_runs := d_runs d @ [r]\<rparr>) \<and> r_status r = ''failed'' \<and>
    r_error r \<noteq> None \<and> finished r \<and> r_pipeline_id r = p_id p"
proof -
  have "pipe_ok p"
    using assms(1,2) by (simp add: pipes_ok_def pipelines_ok_def)
  then obtain a c where a: "get_adapter (p_provider p) = Inr a" "config_of p = Inr c"
    by (auto simp: pipe_ok_def split: sum.splits)
  obtain m where m: "ad_trigger a (pe_net E) c None inputs = Inl (Provider_Error m)"
    using registered_no_secret [OF a(1)] by blast
  obtain m' where "bind_r (resolve_secret E d p) (\<lambda>secret. ad_trigger a (pe_net E) c secret inputs) = Inl (Provider_Error m')"
    using assms(3) m by (auto simp: resolve_secret_def)
  then show ?thesis
    using a by (simp add: trigger_pipeline_def Let_def crashes_def finished_def TERMINAL_def new_run_def)
qed

theorem trigger_without_secret_recorded_witness:
  "\<exists>r. trigger_pipeline demo_pipe_env demo_pipes ((demo_pipeline 1 ''shared'' (Some 1))\<lparr>p_provider := ''awx''\<rparr>) [] None
     = Inr (r, demo_pipes\<lparr>d_runs := d_runs demo_pipes @ [r]\<rparr>) \<and> r_status r = ''failed''"
proof -
  let ?p = "(demo_pipeline 1 ''shared'' (Some 1))\<lparr>p_provider := ''awx''\<rparr>"
  have "?p \<in> set (d_pipelines demo_pipes)" "credential_of demo_pipes ?p = None"
    by (simp_all add: demo_pipes_def credential_of_def demo_pipeline_def)
  then show ?thesis
    using trigger_without_secret_recorded [OF demo_pipes_ok] by blast
qed

text \<open>C35: The background poller never does anything: the age of the first candidate run is an aware time
  minus a naive one, which raises \<open>TypeError\<close>, so a tick with candidates ends in the selection phase
  with nothing polled and nothing abandoned, and a tick without candidates has nothing to do.\<close>

theorem poll_tick_inert: "poll_tick E hours d = (zero_stats, d)"
  by (cases "poll_candidates d") (simp_all add: poll_tick_def zero_stats_def)

text \<open>The poll cadence lies between 5 seconds and 5 minutes and never shortens as a run gets older.\<close>

theorem poll_cadence_bounds:
  "5 \<le> poll_cadence_seconds age \<and> poll_cadence_seconds age \<le> 300 \<and>
   poll_cadence_seconds age \<le> poll_cadence_seconds (age + int k)"
  by (simp add: poll_cadence_seconds_def second_def)

end
