(* ===== verification/Dosm_Credentials.thy ===== *)
theory Dosm_Credentials
  imports Dosm_Pipelines
begin

text \<open>
  Credential profiles: the routes of \<open>dosm/credentials/routes.py\<close> and the per-user material of
  \<open>dosm/credentials/dynamic.py\<close>. A profile is a row that names a path in the secrets backend
  (\<open>secret_ref\<close>); a profile of kind \<open>dynamic\<close> has no secret of its own, each user stores theirs
  below that path. The configured backend (\<open>get_backend(cfg)\<close>) is a record of its three
  operations; \<open>local_backend\<close> is the one of \<open>Dosm_Secrets\<close>. What the routes need of a backend
  is the locale \<open>backend_frame\<close>: it touches no table but its own. \<open>json.loads\<close> is a parameter of
  the readers.
\<close>

section \<open>The secrets backend\<close>

record secret_backend =
  be_get :: "db \<Rightarrow> string \<Rightarrow> secret_error + string"
  be_set :: "string \<Rightarrow> string \<Rightarrow> db \<Rightarrow> (string + unit) \<times> db"
  be_delete :: "string \<Rightarrow> db \<Rightarrow> (secret_error + unit) \<times> db"

definition local_backend :: "(nat \<Rightarrow> string \<Rightarrow> string) \<Rightarrow> (string \<Rightarrow> string option) \<Rightarrow> nat \<Rightarrow> secret_backend" where
  "local_backend enc dec iv = \<lparr>be_get = secret_get dec,
     be_set = (\<lambda>p v d. (Inr (), secret_set enc iv p v d)), be_delete = secret_delete\<rparr>"

section \<open>Reading\<close>

definition VISIBILITIES :: "string list" where
  "VISIBILITIES = [''shared'', ''private'']"

definition CRED_KINDS :: "string list" where
  "CRED_KINDS = [''login'', ''ssh_key'', ''pat'', ''azure_sp'', ''aws_keys'', ''gcp_sa'', ''dynamic'']"

definition auto_secret_ref :: "string \<Rightarrow> string \<Rightarrow> string" where
  "auto_secret_ref name tenant_slug =
     ''t/'' @ tenant_slug @ ''/credentials/'' @ strip_char CHR ''-'' (sub_runs False (py_strip (py_lower name)))"

definition get_credential :: "db \<Rightarrow> int \<Rightarrow> int option \<Rightarrow> credential option" where
  "get_credential d i tid = (case get_row c_id (d_credentials d) i of None \<Rightarrow> None
     | Some c \<Rightarrow> if tid \<noteq> None \<and> tid \<noteq> Some (c_tenant_id c) then None else Some c)"

interpretation crd: scoped_get d_credentials c_id c_tenant_id get_credential
  by unfold_locales (auto simp: get_credential_def in_scope_def split: option.splits if_splits)

definition hosts_using :: "db \<Rightarrow> int \<Rightarrow> nat" where
  "hosts_using d i = length (filter (\<lambda>h. h_credential_id h = Some i) (d_hosts d))"

definition cred_or_404 :: "db \<Rightarrow> int \<Rightarrow> int option \<Rightarrow> user \<Rightarrow> response + credential" where
  \<comment> \<open>the lookup the routes on one profile start with\<close>
  "cred_or_404 d i tid u = (case get_credential d i tid of None \<Rightarrow> Inl (HttpError 404 ''Not Found'')
     | Some c \<Rightarrow> if \<not> can_see_credential (Some u) c then Inl (HttpError 404 ''Not Found'') else Inr c)"

section \<open>Per-user material\<close>

definition DYNAMIC_KIND :: string where
  "DYNAMIC_KIND = ''dynamic''"

definition is_dynamic :: "credential option \<Rightarrow> bool" where
  "is_dynamic c = (case c of None \<Rightarrow> False | Some x \<Rightarrow> c_kind x = DYNAMIC_KIND)"

definition user_path :: "credential \<Rightarrow> int \<Rightarrow> string" where
  "user_path c uid = c_secret_ref c @ ''/u/'' @ str_int uid"

definition quote_char :: "char \<Rightarrow> string" where
  \<comment> \<open>one character of \<open>json.dumps\<close> with \<open>ensure_ascii\<close>\<close>
  "quote_char c = (let n = code_point c in
     if c = CHR 0x22 \<or> c = CHR 0x5C then [CHR 0x5C, c]
     else if n = 10 then [CHR 0x5C, CHR ''n''] else if n = 13 then [CHR 0x5C, CHR ''r'']
     else if n = 9 then [CHR 0x5C, CHR ''t''] else if n = 12 then [CHR 0x5C, CHR ''f'']
     else if n = 8 then [CHR 0x5C, CHR ''b'']
     else if 32 \<le> n \<and> n \<le> 126 then [c]
     else [CHR 0x5C, CHR ''u'', CHR ''0'', CHR ''0'', hex_digit (n div 16), hex_digit (n mod 16)])"

definition json_quote :: "string \<Rightarrow> string" where
  "json_quote s = [CHR 0x22] @ concat (map quote_char s) @ [CHR 0x22]"

definition dumps_material :: "string \<Rightarrow> string \<Rightarrow> string" where
  \<comment> \<open>\<open>json.dumps({"username": username, "password": password})\<close>\<close>
  "dumps_material username password = ''{'' @ json_quote ''username'' @ '': '' @ json_quote username @ '', ''
     @ json_quote ''password'' @ '': '' @ json_quote password @ ''}''"

definition set_user_material :: "secret_backend \<Rightarrow> credential \<Rightarrow> int \<Rightarrow> string \<Rightarrow> string \<Rightarrow> db \<Rightarrow> (string + unit) \<times> db" where
  "set_user_material B c uid username password d = be_set B (user_path c uid) (dumps_material username password) d"

definition clear_user_material :: "secret_backend \<Rightarrow> credential \<Rightarrow> int \<Rightarrow> db \<Rightarrow> (string + unit) \<times> db" where
  "clear_user_material B c uid d = (case be_delete B (user_path c uid) d of
     (Inl (Secret_Runtime e), d1) \<Rightarrow> (Inl e, d1) | (_, d1) \<Rightarrow> (Inr (), d1))"

definition material_field :: "dict \<Rightarrow> string \<Rightarrow> json" where
  \<comment> \<open>\<open>data.get(k) or ""\<close>\<close>
  "material_field data k = (case dict_get data k of None \<Rightarrow> JStr [] | Some v \<Rightarrow> if json_truthy v then v else JStr [])"

definition get_user_material :: "secret_backend \<Rightarrow> (string \<Rightarrow> json option) \<Rightarrow> db \<Rightarrow> credential \<Rightarrow> int option \<Rightarrow>
    string + (json \<times> json) option" where
  \<comment> \<open>\<open>Inl\<close>: an exception leaves the function; a value that is no object has no \<open>get\<close>\<close>
  "get_user_material B loads d c uid = (case uid of None \<Rightarrow> Inr None
     | Some i \<Rightarrow> (case be_get B d (user_path c i) of
          Inl (Secret_Not_Found _) \<Rightarrow> Inr None
        | Inl (Secret_Runtime e) \<Rightarrow> Inl e
        | Inr raw \<Rightarrow> (case loads raw of None \<Rightarrow> Inr None
            | Some (JObj data) \<Rightarrow> Inr (Some (material_field data ''username'', material_field data ''password''))
            | Some _ \<Rightarrow> Inl ''AttributeError'')))"

definition has_user_material :: "secret_backend \<Rightarrow> (string \<Rightarrow> json option) \<Rightarrow> db \<Rightarrow> credential \<Rightarrow> int option \<Rightarrow> string + bool" where
  "has_user_material B loads d c uid = bind_r (get_user_material B loads d c uid) (\<lambda>m. Inr (m \<noteq> None))"

datatype dynamic_error = Dynamic_Credential_Error string | Dynamic_Crash string

definition resolve_dynamic :: "secret_backend \<Rightarrow> (string \<Rightarrow> json option) \<Rightarrow> db \<Rightarrow> int option \<Rightarrow> credential \<Rightarrow>
    dynamic_error + (json \<times> json)" where
  \<comment> \<open>\<open>uid\<close> is \<open>connecting_user_id()\<close>, the value of the context variable\<close>
  "resolve_dynamic B loads d uid c = (case uid of
     None \<Rightarrow> Inl (Dynamic_Credential_Error (py_repr (c_name c) @ '' is a per-user (PIM) credential and can't be used ''
               @ ''without a signed-in user.''))
   | Some _ \<Rightarrow> (case get_user_material B loads d c uid of
        Inl e \<Rightarrow> Inl (Dynamic_Crash e)
      | Inr None \<Rightarrow> Inl (Dynamic_Credential_Error (''You haven't set up your credentials for '' @ py_repr (c_name c)
            @ ''. Open My Credentials to add your username and password.''))
      | Inr (Some m) \<Rightarrow> Inr m))"

section \<open>Writing\<close>

definition cred_integrity :: "db \<Rightarrow> credential \<Rightarrow> string option" where
  \<comment> \<open>the constraint of \<open>credentials\<close> that a flush of this row breaks\<close>
  "cred_integrity d c =
     (if \<exists>x \<in> set (d_credentials d). c_id x \<noteq> c_id c \<and> c_tenant_id x = c_tenant_id c \<and> c_name x = c_name c
      then Some ''UNIQUE constraint failed: credentials.tenant_id, credentials.name''
      else if get_row t_id (d_tenants d) (c_tenant_id c) = None
        \<or> (case c_org_unit_id c of None \<Rightarrow> False | Some i \<Rightarrow> get_row o_id (d_org_units d) i = None)
        \<or> (case c_owner_id c of None \<Rightarrow> False | Some i \<Rightarrow> get_row u_id (d_users d) i = None)
      then Some ''FOREIGN KEY constraint failed'' else None)"

definition add_credential :: "db \<Rightarrow> credential \<Rightarrow> string + db" where
  "add_credential d c = (case cred_integrity d c of Some e \<Rightarrow> Inl e
     | None \<Rightarrow> Inr (d\<lparr>d_credentials := d_credentials d @ [c]\<rparr>))"

definition save_credential :: "db \<Rightarrow> credential \<Rightarrow> string + db" where
  "save_credential d c = (case cred_integrity d c of Some e \<Rightarrow> Inl e
     | None \<Rightarrow> Inr (d\<lparr>d_credentials := upd_row c_id (c_id c) (\<lambda>_. c) (d_credentials d)\<rparr>))"

definition touch_cred :: "db \<Rightarrow> (credential \<Rightarrow> credential) \<Rightarrow> credential \<Rightarrow> credential" where
  \<comment> \<open>\<open>onupdate=_utcnow\<close> fires when a column changed\<close>
  "touch_cred d f c = (if f c = c then c else (f c)\<lparr>c_updated_at := d_now d\<rparr>)"

definition cred_target :: "int \<Rightarrow> string" where
  "cred_target i = ''credential:'' @ str_int i"

section \<open>Routes\<close>

record cred_form =
  cf_name :: string
  cf_kind :: string
  cf_username :: string
  cf_domain :: string
  cf_secret_ref :: string
  cf_secret_value :: string
  cf_org_unit_id :: string
  cf_visibility :: string

definition tenant_slug_of :: "db \<Rightarrow> int \<Rightarrow> string" where
  "tenant_slug_of d tid = (case get_row t_id (d_tenants d) tid of None \<Rightarrow> str_int tid | Some t \<Rightarrow> t_slug t)"

definition credentials_assign_org :: "int \<Rightarrow> string \<Rightarrow> session \<Rightarrow> db \<Rightarrow> response \<times> db" where
  "credentials_assign_org i org_unit_id s d = on_ok (require_operator ''/credentials/assign-org'' s d) d (\<lambda>u.
     on_ok (cred_or_404 d i (active_tenant_id s u) u) d (\<lambda>c. on_ok (parse_int_or_none org_unit_id) d (\<lambda>oid.
       case assign_to_unit d (c_tenant_id c) oid of
         Inl (Org_Validation m) \<Rightarrow> (JsonError 400 m, d)
       | Inl Org_Search_Loops \<Rightarrow> (Crash ''loops'', d)
       | Inr v \<Rightarrow>
           (let path = unit_path_text d v (c_tenant_id c)
            in (JsonOk [(''ok'', JBool True), (''org_unit_id'', case v of None \<Rightarrow> JNull | Some k \<Rightarrow> JInt k),
                        (''path'', case path of None \<Rightarrow> JNull | Some x \<Rightarrow> JStr x)],
                add_audit (Some (c_tenant_id c)) (Some (u_id u)) ''credential.update'' (Some (cred_target (c_id c)))
                  (Some (''org-assign -> '' @ or_default path ''unassigned'')) None
                  (d\<lparr>d_credentials := upd_row c_id (c_id c)
                       (touch_cred d (\<lambda>x. x\<lparr>c_org_unit_id := v\<rparr>)) (d_credentials d)\<rparr>))))))"

definition create_args :: "cred_form \<Rightarrow> int \<Rightarrow> user \<Rightarrow> db \<Rightarrow> response + credential" where
  \<comment> \<open>the row \<open>credentials_create\<close> adds, or the page of a rejected form\<close>
  "create_args f tid u d =
     (let name = py_strip (cf_name f);
          ref = (if py_strip (cf_secret_ref f) = [] then auto_secret_ref name (tenant_slug_of d tid)
                 else py_strip (cf_secret_ref f));
          vis = (if cf_visibility f \<in> set VISIBILITIES then cf_visibility f else ''shared'')
      in if cf_kind f \<notin> set CRED_KINDS then Inl (Page 400 (Some (''unknown kind '' @ py_repr (cf_kind f))))
         else if name = [] then Inl (Page 400 (Some ''Profile name is required.''))
         else bind_r (parse_int_or_none (cf_org_unit_id f)) (\<lambda>oid.
           Inr \<lparr>c_id = next_id c_id (d_credentials d), c_name = name, c_tenant_id = tid, c_kind = cf_kind f,
                c_username = or_none (py_strip (cf_username f)), c_domain = or_none (py_strip (cf_domain f)),
                c_secret_ref = ref, c_owner_id = Some (u_id u), c_visibility = vis, c_org_unit_id = oid,
                c_created_at = d_now d, c_updated_at = d_now d\<rparr>))"

definition create_details :: "cred_form \<Rightarrow> credential \<Rightarrow> string" where
  "create_details f c = ''kind='' @ c_kind c @ '' secret_ref='' @ c_secret_ref c @ '' visibility='' @ c_visibility c
     @ '' inline_secret='' @ (if cf_secret_value f \<noteq> [] then ''yes'' else ''no'')"

definition credentials_create :: "secret_backend \<Rightarrow> cred_form \<Rightarrow> session \<Rightarrow> db \<Rightarrow> response \<times> db" where
  "credentials_create B f s d = on_ok (require_operator ''/credentials/new'' s d) d (\<lambda>u.
     on_ok (require_active_tenant s u) d (\<lambda>tid. on_ok (create_args f tid u d) d (\<lambda>c.
       case add_credential d c of Inl e \<Rightarrow> (Page 400 (Some e), d)
       | Inr d0 \<Rightarrow>
           (let d1 = add_audit (Some tid) (Some (u_id u)) ''credential.create'' (Some (cred_target (c_id c)))
                  (Some (create_details f c)) None d0;
                page = ''/credentials/'' @ str_int (c_id c)
            in if cf_secret_value f \<noteq> [] \<and> c_kind c \<noteq> ''dynamic'' then
                 (case be_set B (c_secret_ref c) (cf_secret_value f) d1 of
                    (Inr _, d2) \<Rightarrow> (Redirect page, d2)
                  | (Inl e, d2) \<Rightarrow> (Redirect (page @ ''?warn=secret-write-failed''),
                      add_audit (Some tid) (Some (u_id u)) ''credential.create.partial'' (Some (cred_target (c_id c)))
                        (Some (''secret write failed: '' @ e)) None d2))
               else (Redirect page, d1)))))"

definition my_credentials :: "secret_backend \<Rightarrow> (string \<Rightarrow> json option) \<Rightarrow> session \<Rightarrow> db \<Rightarrow>
    response + (credential \<times> json \<times> bool) list" where
  \<comment> \<open>the rows of the page: profile, stored user name, whether something is stored\<close>
  "my_credentials B loads s d = bind_r (require_user ''/credentials/mine'' s d) (\<lambda>u.
     foldr (\<lambda>c rest. case get_user_material B loads d c (Some (u_id u)) of
          Inl e \<Rightarrow> Inl (Crash e)
        | Inr m \<Rightarrow> bind_r rest (\<lambda>rs. Inr ((c, case m of None \<Rightarrow> JStr [] | Some (n, _) \<Rightarrow> n, m \<noteq> None) # rs)))
       (filter (\<lambda>c. c_kind c = ''dynamic'') (visible_credentials d (Some u) (active_tenant_id s u))) (Inr []))"

definition new_dynamic :: "string \<Rightarrow> int \<Rightarrow> user \<Rightarrow> db \<Rightarrow> credential" where
  "new_dynamic name tid u d = \<lparr>c_id = next_id c_id (d_credentials d), c_name = name, c_tenant_id = tid, c_kind = ''dynamic'',
     c_username = None, c_domain = None, c_secret_ref = auto_secret_ref name (tenant_slug_of d tid),
     c_owner_id = Some (u_id u), c_visibility = ''shared'', c_org_unit_id = None,
     c_created_at = d_now d, c_updated_at = d_now d\<rparr>"

definition my_credentials_new :: "string \<Rightarrow> session \<Rightarrow> db \<Rightarrow> response \<times> db" where
  "my_credentials_new name0 s d = on_ok (require_admin ''/credentials/mine/new'' s d) d (\<lambda>u.
     on_ok (require_active_tenant s u) d (\<lambda>tid. let name = py_strip name0; c = new_dynamic name tid u d in
       if name = [] then (Redirect ''/credentials/mine?error=name-required'', d)
       else (case add_credential d c of Inl _ \<Rightarrow> (Redirect ''/credentials/mine?error=name-taken'', d)
             | Inr d1 \<Rightarrow> (Redirect ''/credentials/mine?created=1'',
                 add_audit (Some tid) (Some (u_id u)) ''credential.create'' (Some (cred_target (c_id c)))
                   (Some ''kind=dynamic via my-credentials'') None d1))))"

definition credentials_rename :: "int \<Rightarrow> string \<Rightarrow> session \<Rightarrow> db \<Rightarrow> response \<times> db" where
  "credentials_rename i new_name s d = on_ok (require_admin ''/credentials/rename'' s d) d (\<lambda>u.
     on_ok (cred_or_404 d i (active_tenant_id s u) u) d (\<lambda>c. let name = py_strip new_name in
       if name = [] then (Redirect ''/credentials/mine?error=name-required'', d)
       else if name = c_name c then (Redirect ''/credentials/mine?renamed=1'', d)
       else (case save_credential d (touch_cred d (\<lambda>x. x\<lparr>c_name := name\<rparr>) c) of
               Inl _ \<Rightarrow> (Redirect ''/credentials/mine?error=name-taken'', d)
             | Inr d1 \<Rightarrow> (Redirect ''/credentials/mine?renamed=1'',
                 add_audit (Some (c_tenant_id c)) (Some (u_id u)) ''credential.rename'' (Some (cred_target (c_id c)))
                   (Some (py_repr (c_name c) @ '' to '' @ py_repr name)) None d1))))"

definition dynamic_or_404 :: "db \<Rightarrow> int \<Rightarrow> int option \<Rightarrow> user \<Rightarrow> response + credential" where
  "dynamic_or_404 d i tid u = (case get_credential d i tid of None \<Rightarrow> Inl (HttpError 404 ''Not Found'')
     | Some c \<Rightarrow> if c_kind c \<noteq> ''dynamic'' \<or> \<not> can_see_credential (Some u) c
         then Inl (HttpError 404 ''Not Found'') else Inr c)"

definition my_credentials_set :: "secret_backend \<Rightarrow> int \<Rightarrow> string \<Rightarrow> string \<Rightarrow> session \<Rightarrow> db \<Rightarrow> response \<times> db" where
  "my_credentials_set B i username password s d = on_ok (require_user ''/credentials/mine'' s d) d (\<lambda>u.
     on_ok (dynamic_or_404 d i (active_tenant_id s u) u) d (\<lambda>c.
       case set_user_material B c (u_id u) (py_strip username) password d of
         (Inl e, d1) \<Rightarrow> (Crash e, d1)
       | (Inr _, d1) \<Rightarrow> (Redirect ''/credentials/mine?saved=1'',
           add_audit (Some (c_tenant_id c)) (Some (u_id u)) ''credential.user_secret.set'' (Some (cred_target (c_id c)))
             (Some (''user='' @ str_int (u_id u))) None d1)))"

definition my_credentials_clear :: "secret_backend \<Rightarrow> int \<Rightarrow> session \<Rightarrow> db \<Rightarrow> response \<times> db" where
  "my_credentials_clear B i s d = on_ok (require_user ''/credentials/mine/clear'' s d) d (\<lambda>u.
     on_ok (dynamic_or_404 d i (active_tenant_id s u) u) d (\<lambda>c.
       case clear_user_material B c (u_id u) d of
         (Inl e, d1) \<Rightarrow> (Crash e, d1)
       | (Inr _, d1) \<Rightarrow> (Redirect ''/credentials/mine?cleared=1'',
           add_audit (Some (c_tenant_id c)) (Some (u_id u)) ''credential.user_secret.clear'' (Some (cred_target (c_id c)))
             (Some (''user='' @ str_int (u_id u))) None d1)))"

definition credentials_detail :: "secret_backend \<Rightarrow> int \<Rightarrow> session \<Rightarrow> db \<Rightarrow> response + (credential \<times> bool \<times> host list)" where
  \<comment> \<open>the profile, whether its secret is present, and the hosts that use it\<close>
  "credentials_detail B i s d = bind_r (require_user ''/credentials'' s d) (\<lambda>u.
     bind_r (cred_or_404 d i (active_tenant_id s u) u) (\<lambda>c.
       Inr (c, \<not> is_dynamic (Some c) \<and> (case be_get B d (c_secret_ref c) of Inl _ \<Rightarrow> False | Inr _ \<Rightarrow> True),
            sort_key h_name (filter (\<lambda>h. h_credential_id h = Some (c_id c)) (d_hosts d)))))"

definition fill_cred :: "cred_form \<Rightarrow> int option \<Rightarrow> stamp \<Rightarrow> credential \<Rightarrow> credential" where
  \<comment> \<open>the assignments of \<open>credentials_update\<close>; \<open>secret_ref\<close> and \<open>owner_id\<close> stay\<close>
  "fill_cred f oid now c = c\<lparr>c_name := py_strip (cf_name f), c_kind := cf_kind f,
     c_username := or_none (py_strip (cf_username f)), c_domain := or_none (py_strip (cf_domain f)), c_org_unit_id := oid,
     c_visibility := (if cf_visibility f \<in> set VISIBILITIES then cf_visibility f else c_visibility c),
     c_updated_at := now\<rparr>"

definition credentials_update :: "secret_backend \<Rightarrow> int \<Rightarrow> cred_form \<Rightarrow> session \<Rightarrow> db \<Rightarrow> response \<times> db" where
  "credentials_update B i f s d = on_ok (require_operator ''/credentials/edit'' s d) d (\<lambda>u.
     on_ok (cred_or_404 d i (active_tenant_id s u) u) d (\<lambda>c.
       if cf_kind f \<notin> set CRED_KINDS then (Page 400 (Some (''unknown kind '' @ py_repr (cf_kind f))), d)
       else on_ok (parse_int_or_none (cf_org_unit_id f)) d (\<lambda>oid. let c1 = fill_cred f oid (d_now d) c in
         case save_credential d c1 of Inl e \<Rightarrow> (Page 400 (Some e), d)
         | Inr d0 \<Rightarrow>
             (let d1 = add_audit (Some (c_tenant_id c)) (Some (u_id u)) ''credential.update'' (Some (cred_target (c_id c)))
                    None None d0;
                  d2 = (if c_visibility c1 \<noteq> c_visibility c
                        then add_audit (Some (c_tenant_id c)) (Some (u_id u)) ''credential.visibility''
                               (Some (cred_target (c_id c))) (Some (''visibility='' @ c_visibility c1)) None d1
                        else d1)
              in (Redirect (''/credentials/'' @ str_int (c_id c)),
                  if cf_secret_value f = [] then d2
                  else (case be_set B (c_secret_ref c) (cf_secret_value f) d2 of
                     (Inr _, d3) \<Rightarrow> d3
                   | (Inl e, d3) \<Rightarrow> add_audit (Some (c_tenant_id c)) (Some (u_id u)) ''credential.update.partial''
                         (Some (cred_target (c_id c))) (Some (''secret write failed: '' @ e)) None d3))))))"

definition credentials_delete :: "int \<Rightarrow> session \<Rightarrow> db \<Rightarrow> response \<times> db" where
  "credentials_delete i s d = on_ok (require_operator ''/credentials/delete'' s d) d (\<lambda>u.
     on_ok (cred_or_404 d i (active_tenant_id s u) u) d (\<lambda>c.
       if c_kind c = ''dynamic'' \<and> u_role u \<notin> set [''tenant_admin'', ''platform_admin'']
       then (HttpError 403 ''Only tenant admins can delete dynamic credential profiles.'', d)
       else if hosts_using d (c_id c) > 0
       then (HttpError 409 ''credential is in use by one or more hosts'', d)
       else (Redirect (if c_kind c = ''dynamic'' then ''/credentials/mine'' else ''/inventory''),
             add_audit (Some (c_tenant_id c)) (Some (u_id u)) ''credential.delete'' (Some (cred_target i))
               (Some (''name='' @ c_name c)) None (fk_delete_credential (c_id c) d))))"

datatype cred_req =
    Cred_Assign int string
  | Cred_Create cred_form
  | Cred_New_Dynamic string
  | Cred_Rename int string
  | Cred_Set_Mine int string string
  | Cred_Clear_Mine int
  | Cred_Update int cred_form
  | Cred_Delete int

fun cred_handle :: "secret_backend \<Rightarrow> cred_req \<Rightarrow> session \<Rightarrow> db \<Rightarrow> response \<times> db" where
  \<comment> \<open>the POST routes of \<open>routes.py\<close>\<close>
  "cred_handle B (Cred_Assign i org) s d = credentials_assign_org i org s d"
| "cred_handle B (Cred_Create f) s d = credentials_create B f s d"
| "cred_handle B (Cred_New_Dynamic n) s d = my_credentials_new n s d"
| "cred_handle B (Cred_Rename i n) s d = credentials_rename i n s d"
| "cred_handle B (Cred_Set_Mine i n p) s d = my_credentials_set B i n p s d"
| "cred_handle B (Cred_Clear_Mine i) s d = my_credentials_clear B i s d"
| "cred_handle B (Cred_Update i f) s d = credentials_update B i f s d"
| "cred_handle B (Cred_Delete i) s d = credentials_delete i s d"

section \<open>The contract of a backend\<close>

locale backend_frame =
  fixes B :: secret_backend
  assumes set_frame: "\<exists>bs. snd (be_set B p v d) = d\<lparr>d_secrets := bs\<rparr>"
    and delete_frame: "\<exists>bs. snd (be_delete B p d) = d\<lparr>d_secrets := bs\<rparr>"
begin

lemma set_keeps: "(\<And>d bs. P (d\<lparr>d_secrets := bs\<rparr>) = P d) \<Longrightarrow> P (snd (be_set B p v d)) = P d"
  using set_frame [of p v d] by auto

lemma delete_keeps: "(\<And>d bs. P (d\<lparr>d_secrets := bs\<rparr>) = P d) \<Longrightarrow> P (snd (be_delete B p d)) = P d"
  using delete_frame [of p d] by auto

end

interpretation local_be: backend_frame "local_backend enc dec iv" for enc dec iv
  by unfold_locales (auto simp: local_backend_def secret_set_def secret_delete_def Let_def)

section \<open>What a request may do\<close>

definition cred_access :: "user \<Rightarrow> int option \<Rightarrow> credential \<Rightarrow> bool" where
  "cred_access u tid c \<longleftrightarrow> in_scope tid (c_tenant_id c) \<and> can_see_credential (Some u) c"

definition cred_paths :: "user \<Rightarrow> credential \<Rightarrow> string set" where
  "cred_paths u c = {c_secret_ref c, user_path c (u_id u)}"

definition cred_row_ok :: "credential \<Rightarrow> bool" where
  "cred_row_ok c \<longleftrightarrow> c_kind c \<in> set CRED_KINDS \<and> c_visibility c \<in> set VISIBILITIES"

text \<open>
  The effect of a request of user \<open>u\<close> in scope \<open>tid\<close>, stated without the routes: one row added,
  saved, placed or deleted, then writes to the secret paths of an accessible profile, and audit rows.
\<close>

inductive cred_effect :: "secret_backend \<Rightarrow> user \<Rightarrow> int option \<Rightarrow> db \<Rightarrow> db \<Rightarrow> bool" for B u tid d where
  ce_none: "cred_effect B u tid d d"
| ce_add: "in_scope tid (c_tenant_id c) \<Longrightarrow> c_id c = next_id c_id (d_credentials d) \<Longrightarrow> c_owner_id c = Some (u_id u) \<Longrightarrow>
    cred_row_ok c \<Longrightarrow> add_credential d c = Inr d1 \<Longrightarrow> cred_effect B u tid d d1"
| ce_save: "c \<in> set (d_credentials d) \<Longrightarrow> cred_access u tid c \<Longrightarrow> c_id c1 = c_id c \<Longrightarrow> c_tenant_id c1 = c_tenant_id c \<Longrightarrow>
    c_owner_id c1 = c_owner_id c \<Longrightarrow> c_secret_ref c1 = c_secret_ref c \<Longrightarrow>
    (cred_row_ok c \<Longrightarrow> cred_row_ok c1) \<Longrightarrow> save_credential d c1 = Inr d1 \<Longrightarrow> cred_effect B u tid d d1"
| ce_assign: "c \<in> set (d_credentials d) \<Longrightarrow> cred_access u tid c \<Longrightarrow> assign_to_unit d (c_tenant_id c) oid = Inr v \<Longrightarrow>
    cred_effect B u tid d (d\<lparr>d_credentials := upd_row c_id (c_id c) (touch_cred d (\<lambda>x. x\<lparr>c_org_unit_id := v\<rparr>)) (d_credentials d)\<rparr>)"
| ce_delete: "c \<in> set (d_credentials d) \<Longrightarrow> cred_access u tid c \<Longrightarrow> hosts_using d (c_id c) = 0 \<Longrightarrow>
    cred_effect B u tid d (fk_delete_credential (c_id c) d)"
| ce_secret: "cred_effect B u tid d d1 \<Longrightarrow> c \<in> set (d_credentials d) \<union> set (d_credentials d1) \<Longrightarrow> cred_access u tid c \<Longrightarrow>
    p \<in> cred_paths u c \<Longrightarrow> cred_effect B u tid d (snd (be_set B p v d1))"
| ce_clear: "cred_effect B u tid d d1 \<Longrightarrow> c \<in> set (d_credentials d) \<Longrightarrow> cred_access u tid c \<Longrightarrow> p \<in> cred_paths u c \<Longrightarrow>
    cred_effect B u tid d (snd (be_delete B p d1))"
| ce_audit: "cred_effect B u tid d d1 \<Longrightarrow> cred_effect B u tid d (add_audit t a x g e i d1)"

lemma cred_or_404_InrD: "cred_or_404 d i tid u = Inr c \<Longrightarrow> c \<in> set (d_credentials d) \<and> cred_access u tid c \<and> c_id c = i"
  by (auto simp: cred_or_404_def cred_access_def crd.getr_iff dest: get_row_SomeD split: option.splits if_splits)

lemma dynamic_or_404_InrD: "dynamic_or_404 d i tid u = Inr c \<Longrightarrow>
    c \<in> set (d_credentials d) \<and> cred_access u tid c \<and> c_id c = i \<and> c_kind c = ''dynamic''"
  by (auto simp: dynamic_or_404_def cred_access_def crd.getr_iff dest: get_row_SomeD split: option.splits if_splits)

lemma require_role_user: "require_role r path s d = Inr u \<Longrightarrow> require_user path s d = Inr u"
  by (auto simp: require_role_def bind_r_Inr_iff split: if_splits)

lemma create_args_InrD: "create_args f tid u d = Inr c \<Longrightarrow> c_id c = next_id c_id (d_credentials d) \<and> c_tenant_id c = tid \<and>
    c_owner_id c = Some (u_id u) \<and> cred_row_ok c \<and> (py_strip (cf_secret_ref f) \<noteq> [] \<longrightarrow> c_secret_ref c = py_strip (cf_secret_ref f))"
  by (auto simp: create_args_def Let_def bind_r_Inr_iff cred_row_ok_def VISIBILITIES_def split: if_splits)

lemma add_credential_InrD: "add_credential d c = Inr d1 \<Longrightarrow>
    d1 = d\<lparr>d_credentials := d_credentials d @ [c]\<rparr> \<and> cred_integrity d c = None"
  by (auto simp: add_credential_def split: option.splits)

lemma save_credential_InrD: "save_credential d c = Inr d1 \<Longrightarrow>
    d1 = d\<lparr>d_credentials := upd_row c_id (c_id c) (\<lambda>_. c) (d_credentials d)\<rparr> \<and> cred_integrity d c = None"
  by (auto simp: save_credential_def split: option.splits)

lemma own_access: "c_owner_id c = Some (u_id u) \<Longrightarrow> in_scope tid (c_tenant_id c) \<Longrightarrow> cred_access u tid c"
  by (simp add: cred_access_def can_see_credential_def owned_by_def)

lemma credentials_create_effect:
  "snd (credentials_create B f s d) = d \<or>
   (\<exists>u path. require_user path s d = Inr u \<and> cred_effect B u (active_tenant_id s u) d (snd (credentials_create B f s d)))"
proof (cases "\<exists>u tid c d0. require_operator ''/credentials/new'' s d = Inr u \<and> require_active_tenant s u = Inr tid \<and>
    create_args f tid u d = Inr c \<and> add_credential d c = Inr d0")
  case True
  then obtain u tid c d0 where h: "require_operator ''/credentials/new'' s d = Inr u" "require_active_tenant s u = Inr tid"
      "create_args f tid u d = Inr c" "add_credential d c = Inr d0"
    by blast
  let ?a = "add_audit (Some tid) (Some (u_id u)) ''credential.create'' (Some (cred_target (c_id c)))
      (Some (create_details f c)) None d0"
  note ca = create_args_InrD [OF h(3)]
  have sc: "in_scope (active_tenant_id s u) (c_tenant_id c)"
    using require_active_tenant_scope [OF h(2)] ca by simp
  have e1: "cred_effect B u (active_tenant_id s u) d ?a"
    using sc ca h(4) by (intro ce_audit ce_add) auto
  have "c \<in> set (d_credentials ?a)"
    using add_credential_InrD [OF h(4)] by simp
  then have e2: "cred_effect B u (active_tenant_id s u) d (snd (be_set B (c_secret_ref c) v ?a))" for v
    using own_access [OF _ sc] ca by (intro ce_secret [OF e1]) (auto simp: cred_paths_def)
  obtain r d2 where b: "be_set B (c_secret_ref c) (cf_secret_value f) ?a = (r, d2)"
    by (cases "be_set B (c_secret_ref c) (cf_secret_value f) ?a")
  have e3: "cred_effect B u (active_tenant_id s u) d d2"
    using e2 [of "cf_secret_value f"] b by simp
  have "cred_effect B u (active_tenant_id s u) d (snd (credentials_create B f s d))"
    using h(4) e1 e3 by (cases r) (simp_all add: credentials_create_def Let_def h(1-3) b ce_audit)
  then show ?thesis
    using require_role_user [OF h(1)] by blast
next
  case False
  then show ?thesis
    by (auto simp: credentials_create_def split: on_ok_split sum.split)
qed

lemma credentials_update_effect:
  "snd (credentials_update B i f s d) = d \<or>
   (\<exists>u path. require_user path s d = Inr u \<and> cred_effect B u (active_tenant_id s u) d (snd (credentials_update B i f s d)))"
proof (cases "\<exists>u c oid d0. require_operator ''/credentials/edit'' s d = Inr u \<and> cred_or_404 d i (active_tenant_id s u) u = Inr c \<and>
    cf_kind f \<in> set CRED_KINDS \<and> parse_int_or_none (cf_org_unit_id f) = Inr oid \<and>
    save_credential d (fill_cred f oid (d_now d) c) = Inr d0")
  case True
  then obtain u c oid d0 where h: "require_operator ''/credentials/edit'' s d = Inr u" "cred_or_404 d i (active_tenant_id s u) u = Inr c"
      "cf_kind f \<in> set CRED_KINDS" "parse_int_or_none (cf_org_unit_id f) = Inr oid"
      "save_credential d (fill_cred f oid (d_now d) c) = Inr d0"
    by blast
  note cc = cred_or_404_InrD [OF h(2)]
  have e0: "cred_effect B u (active_tenant_id s u) d d0"
    using cc h(3,5) by (intro ce_save [of c d u "active_tenant_id s u" "fill_cred f oid (d_now d) c"])
      (auto simp: fill_cred_def cred_row_ok_def)
  have e2: "cred_effect B u (active_tenant_id s u) d d1 \<Longrightarrow> cred_effect B u (active_tenant_id s u) d (snd (be_set B (c_secret_ref c) v d1))" for v d1
    using cc by (intro ce_secret [of B u "active_tenant_id s u" d d1 c]) (auto simp: cred_paths_def)
  let ?a = "add_audit (Some (c_tenant_id c)) (Some (u_id u)) ''credential.update'' (Some (cred_target (c_id c))) None None d0"
  let ?v = "fill_cred f oid (d_now d) c"
  define a where "a = (if c_visibility ?v \<noteq> c_visibility c
      then add_audit (Some (c_tenant_id c)) (Some (u_id u)) ''credential.visibility'' (Some (cred_target (c_id c)))
             (Some (''visibility='' @ c_visibility ?v)) None ?a else ?a)"
  have e1: "cred_effect B u (active_tenant_id s u) d a"
    using e0 by (simp add: a_def ce_audit)
  obtain r d2 where b: "be_set B (c_secret_ref c) (cf_secret_value f) a = (r, d2)"
    by (cases "be_set B (c_secret_ref c) (cf_secret_value f) a")
  have e3: "cred_effect B u (active_tenant_id s u) d d2"
    using e2 [OF e1, of "cf_secret_value f"] b by simp
  have "cred_effect B u (active_tenant_id s u) d (snd (credentials_update B i f s d))"
    using e1 e3 by (cases r) (simp_all add: credentials_update_def Let_def h b ce_audit a_def [symmetric])
  then show ?thesis
    using require_role_user [OF h(1)] by blast
next
  case False
  then show ?thesis
    by (auto simp: credentials_update_def Let_def split: on_ok_split sum.split)
qed

lemma cred_handle_effect:
  "snd (cred_handle B q s d) = d \<or>
   (\<exists>u path. require_user path s d = Inr u \<and> cred_effect B u (active_tenant_id s u) d (snd (cred_handle B q s d)))"
proof (cases q)
  case (Cred_Assign i org)
  then show ?thesis
    by (auto simp: credentials_assign_org_def Let_def split: on_ok_split sum.split org_error.split
        dest!: cred_or_404_InrD require_role_user intro: ce_audit ce_assign)
next
  case (Cred_Create f)
  then show ?thesis
    using credentials_create_effect by simp
next
  case (Cred_New_Dynamic n)
  have eff: "cred_effect B u tid d d1" if "in_scope tid t" "add_credential d (new_dynamic m t u d) = Inr d1" for u tid t m d1
    using that by (intro ce_add [OF _ _ _ _ that(2)])
      (simp_all add: new_dynamic_def cred_row_ok_def CRED_KINDS_def VISIBILITIES_def)
  show ?thesis
    using Cred_New_Dynamic
    by (auto simp: my_credentials_new_def Let_def split: on_ok_split sum.split
        dest!: require_role_user require_active_tenant_scope intro: ce_audit eff)
next
  case (Cred_Rename i n)
  have eff: "cred_effect B u tid d d1" if "c \<in> set (d_credentials d)" "cred_access u tid c"
      "save_credential d (touch_cred d (c_name_update (\<lambda>_. py_strip n)) c) = Inr d1" for u tid c d1
    using that by (intro ce_save [OF _ _ _ _ _ _ _ that(3), of c])
      (auto simp: touch_cred_def cred_row_ok_def)
  show ?thesis
    using Cred_Rename
    by (auto simp: credentials_rename_def Let_def split: on_ok_split sum.split
        dest!: cred_or_404_InrD require_role_user intro: ce_audit eff)
next
  case (Cred_Set_Mine i n pw)
  have eff: "cred_effect B u tid d d1" if "set_user_material B c (u_id u) x y d = (r, d1)"
      "c \<in> set (d_credentials d)" "cred_access u tid c" for u tid c x y r d1
    using ce_secret [OF ce_none, of c d u tid "user_path c (u_id u)" B "dumps_material x y"] that
    by (simp add: set_user_material_def cred_paths_def)
  show ?thesis
    using Cred_Set_Mine
    by (auto simp: my_credentials_set_def split: on_ok_split sum.split prod.split dest!: dynamic_or_404_InrD intro: ce_audit eff)
next
  case (Cred_Clear_Mine i)
  have eff: "cred_effect B u tid d d1" if "clear_user_material B c (u_id u) d = (r, d1)"
      "c \<in> set (d_credentials d)" "cred_access u tid c" for u tid c r d1
  proof -
    have "snd (clear_user_material B c (u_id u) d) = snd (be_delete B (user_path c (u_id u)) d)"
      by (simp add: clear_user_material_def split: prod.split sum.split secret_error.split)
    then show ?thesis
      using ce_clear [OF ce_none, of c d u tid "user_path c (u_id u)" B] that by (simp add: cred_paths_def)
  qed
  show ?thesis
    using Cred_Clear_Mine
    by (auto simp: my_credentials_clear_def split: on_ok_split sum.split prod.split dest!: dynamic_or_404_InrD intro: ce_audit eff)
next
  case (Cred_Update i f)
  then show ?thesis
    using credentials_update_effect by simp
next
  case (Cred_Delete i)
  then show ?thesis
    by (auto simp: credentials_delete_def split: on_ok_split sum.split
        dest!: cred_or_404_InrD require_role_user intro: ce_audit ce_delete)
qed

section \<open>The invariant\<close>

definition creds_ok :: "db \<Rightarrow> bool" where
  "creds_ok d \<longleftrightarrow> uniq_ids c_id (d_credentials d) \<and> distinct (map (\<lambda>c. (c_tenant_id c, c_name c)) (d_credentials d)) \<and>
     (\<forall>c \<in> set (d_credentials d). cred_row_ok c \<and> c_tenant_id c \<in> t_id ` set (d_tenants d) \<and>
        set_option (c_org_unit_id c) \<subseteq> o_id ` set (d_org_units d) \<and> set_option (c_owner_id c) \<subseteq> u_id ` set (d_users d))"

lemma creds_ok_frame [simp]:
  "creds_ok (add_audit t a x g e i d) = creds_ok d" "creds_ok (d\<lparr>d_secrets := bs\<rparr>) = creds_ok d"
  "hosts_ok (d\<lparr>d_secrets := bs\<rparr>) = hosts_ok d" "pipes_ok (d\<lparr>d_secrets := bs\<rparr>) = pipes_ok d"
  "pipes_ok (d\<lparr>d_credentials := cs\<rparr>) = pipes_ok d"
  by (simp_all add: creds_ok_def hosts_ok_def host_ok_def ref_ok_iff tags_ok_def pipes_ok_def)

lemma get_row_None_image: "get_row key t i = None \<longleftrightarrow> i \<notin> key ` set t"
  by (auto simp: get_row_None_iff)

lemma cred_integrity_None: "cred_integrity d c = None \<longleftrightarrow>
    (\<forall>x \<in> set (d_credentials d). c_id x \<noteq> c_id c \<longrightarrow> (c_tenant_id x, c_name x) \<noteq> (c_tenant_id c, c_name c)) \<and>
    c_tenant_id c \<in> t_id ` set (d_tenants d) \<and> set_option (c_org_unit_id c) \<subseteq> o_id ` set (d_org_units d) \<and>
    set_option (c_owner_id c) \<subseteq> u_id ` set (d_users d)"
  by (auto simp: cred_integrity_def get_row_None_image split: option.splits)

lemma cred_integrity_NoneD:
  assumes "cred_integrity d c = None"
  shows "x \<in> set (d_credentials d) \<Longrightarrow> c_id x \<noteq> c_id c \<Longrightarrow> (c_tenant_id x, c_name x) \<noteq> (c_tenant_id c, c_name c)"
    and "c_tenant_id c \<in> t_id ` set (d_tenants d)"
    and "set_option (c_org_unit_id c) \<subseteq> o_id ` set (d_org_units d)" and "set_option (c_owner_id c) \<subseteq> u_id ` set (d_users d)"
  using assms unfolding cred_integrity_None by blast+

lemma creds_ok_add:
  assumes "creds_ok d" and "c_id c = next_id c_id (d_credentials d)" and "cred_row_ok c" and "cred_integrity d c = None"
  shows "creds_ok (d\<lparr>d_credentials := d_credentials d @ [c]\<rparr>)"
proof -
  have "\<And>x. x \<in> set (d_credentials d) \<Longrightarrow> c_id x \<noteq> c_id c"
    using next_id_gt [of _ "d_credentials d" c_id] assms(2) by fastforce
  then have "(c_tenant_id c, c_name c) \<notin> (\<lambda>c. (c_tenant_id c, c_name c)) ` set (d_credentials d)"
    using cred_integrity_NoneD(1) [OF assms(4)] by fastforce
  then show ?thesis
    using assms(1-3) cred_integrity_NoneD(2-4) [OF assms(4)] by (auto simp: creds_ok_def uniq_ids_append_new)
qed

lemma creds_ok_upd:
  assumes "creds_ok d" and "\<And>x. c_id (f x) = c_id x"
    and "\<And>x. x \<in> set (d_credentials d) \<Longrightarrow> c_id x = i \<Longrightarrow> cred_row_ok (f x) \<and> cred_integrity d (f x) = None"
  shows "creds_ok (d\<lparr>d_credentials := upd_row c_id i f (d_credentials d)\<rparr>)"
proof -
  have "distinct (map (\<lambda>c. (c_tenant_id c, c_name c)) (upd_row c_id i f (d_credentials d)))"
  proof (rule distinct_map_upd_at)
    fix x y assume "x \<in> set (d_credentials d)" "y \<in> set (d_credentials d)" "c_id x = i" "c_id y \<noteq> i"
    then show "(c_tenant_id y, c_name y) \<noteq> (c_tenant_id (f x), c_name (f x))"
      using cred_integrity_NoneD(1) [of d "f x" y] assms(2,3) by simp
  qed (use assms(1) in \<open>simp_all add: creds_ok_def\<close>)
  moreover have "uniq_ids c_id (upd_row c_id i f (d_credentials d))"
    using assms by (simp add: creds_ok_def uniq_ids_upd_row)
  moreover have "cred_row_ok c \<and> c_tenant_id c \<in> t_id ` set (d_tenants d) \<and> set_option (c_org_unit_id c) \<subseteq> o_id ` set (d_org_units d) \<and>
      set_option (c_owner_id c) \<subseteq> u_id ` set (d_users d)"
    if "c \<in> set (upd_row c_id i f (d_credentials d))" for c
  proof -
    obtain x where "x \<in> set (d_credentials d)" "c = (if c_id x = i then f x else x)"
      using \<open>c \<in> set (upd_row c_id i f (d_credentials d))\<close> by (auto simp: set_upd_row)
    then show ?thesis
      using assms(1) assms(3) [of x] cred_integrity_NoneD(2-4) [of d "f x"] by (cases "c_id x = i") (simp_all add: creds_ok_def)
  qed
  ultimately show ?thesis
    by (simp add: creds_ok_def)
qed

lemma hosts_ok_creds:
  assumes "hosts_ok d" and "\<And>i c. get_row c_id (d_credentials d) i = Some c \<Longrightarrow>
      \<exists>c'. get_row c_id cs i = Some c' \<and> c_tenant_id c' = c_tenant_id c"
  shows "hosts_ok (d\<lparr>d_credentials := cs\<rparr>)"
proof -
  have "host_ok (d\<lparr>d_credentials := cs\<rparr>) h" if "host_ok d h" for h
    using that assms(2) by (simp add: host_ok_def ref_ok_iff) metis
  then show ?thesis
    using assms(1) by (simp add: hosts_ok_def tags_ok_def ref_ok_iff)
qed

lemma fk_delete_credential_ok:
  assumes "hosts_ok d" and "creds_ok d"
  shows "hosts_ok (fk_delete_credential i d)" and "creds_ok (fk_delete_credential i d)"
proof -
  let ?g = "\<lambda>h. h\<lparr>h_credential_id := null_if (\<lambda>x. x = i) (h_credential_id h),
      h_ft_credential_id := null_if (\<lambda>x. x = i) (h_ft_credential_id h)\<rparr>"
  have rows: "get_row c_id (del_rows (\<lambda>c. c_id c = i) (d_credentials d)) j = (if j = i then None else get_row c_id (d_credentials d) j)" for j
    by (rule get_row_del_rows)
  have hst: "get_row h_id (map ?g hs) j = map_option ?g (get_row h_id hs j)" for hs j
    by (rule get_row_map) simp
  have "host_ok (fk_delete_credential i d) (?g h)" if "host_ok d h" for h
    using that by (auto simp: host_ok_def ref_ok_iff fk_delete_credential_def rows ft_ok_def split: option.splits)
  moreover have "jump_ref_ok (map ?g hs) (?g h)" if "jump_ref_ok hs h" for hs h
    using that by (auto simp: jump_ref_ok_def hst split: option.splits)
  moreover have "tag_link_ok (fk_delete_credential i d) x" if "tag_link_ok d x" for x
    using that by (auto simp: tag_link_ok_def fk_delete_credential_def hst split: option.splits)
  ultimately show "hosts_ok (fk_delete_credential i d)"
    using assms(1) by (auto simp: hosts_ok_def fk_delete_credential_def tags_ok_def uniq_ids_def comp_def)
  show "creds_ok (fk_delete_credential i d)"
    using assms(2) by (auto simp: creds_ok_def fk_delete_credential_def uniq_ids_def del_rows_def distinct_map_filter)
qed

lemma fk_delete_credential_pipes: "pipes_ok d \<Longrightarrow> pipes_ok (fk_delete_credential i d)"
proof -
  have "pipe_ok (p\<lparr>p_credential_id := v\<rparr>) = pipe_ok p" for p v
    by (simp add: pipe_ok_def config_of_def)
  then show "pipes_ok d \<Longrightarrow> pipes_ok (fk_delete_credential i d)"
    by (auto simp: pipes_ok_def pipelines_ok_def runs_ok_def payloads_ok_def fk_delete_credential_def uniq_ids_def comp_def image_image)
qed

lemma creds_ok_integrity:
  assumes "creds_ok d" and "c \<in> set (d_credentials d)"
  shows "cred_integrity d c = None"
proof -
  have "\<not> (c_tenant_id x = c_tenant_id c \<and> c_name x = c_name c)" if "x \<in> set (d_credentials d)" "c_id x \<noteq> c_id c" for x
    using assms that by (auto simp: creds_ok_def distinct_map inj_on_def)
  then show ?thesis
    using assms unfolding cred_integrity_None creds_ok_def by blast
qed

lemma assign_integrity:
  assumes "creds_ok d" and "x \<in> set (d_credentials d)" and "assign_to_unit d t oid = Inr v"
  shows "cred_integrity d (touch_cred d (\<lambda>x. x\<lparr>c_org_unit_id := v\<rparr>) x) = None"
  using creds_ok_integrity [OF assms(1,2)] assms(3)
  by (auto simp: cred_integrity_def touch_cred_def assign_to_unit_def split: if_splits option.splits)

lemma touch_cred_keeps [simp]:
  "c_id (touch_cred d (\<lambda>x. x\<lparr>c_org_unit_id := v\<rparr>) c) = c_id c"
  "c_tenant_id (touch_cred d (\<lambda>x. x\<lparr>c_org_unit_id := v\<rparr>) c) = c_tenant_id c"
  "cred_row_ok (touch_cred d (\<lambda>x. x\<lparr>c_org_unit_id := v\<rparr>) c) = cred_row_ok c"
  by (simp_all add: touch_cred_def cred_row_ok_def)

lemma upd_same_tenant:
  assumes "\<And>x. c_id (f x) = c_id x"
    and "\<And>x. x \<in> set (d_credentials d) \<Longrightarrow> c_id x = j \<Longrightarrow> c_tenant_id (f x) = c_tenant_id x"
    and "get_row c_id (d_credentials d) i = Some c"
  shows "\<exists>c'. get_row c_id (upd_row c_id j f (d_credentials d)) i = Some c' \<and> c_tenant_id c' = c_tenant_id c"
  using assms(3) assms(2) [of c] get_row_SomeD [OF assms(3)] by (auto simp: get_row_upd_row [of c_id f, OF assms(1)])

definition store_ok :: "db \<Rightarrow> bool" where
  \<comment> \<open>the credential table together with the rows that refer to it\<close>
  "store_ok d \<longleftrightarrow> creds_ok d \<and> hosts_ok d \<and> pipes_ok d"

lemma store_ok_frame [simp]:
  "store_ok (add_audit t a x g e i d) = store_ok d" "store_ok (d\<lparr>d_secrets := bs\<rparr>) = store_ok d"
  by (simp_all add: store_ok_def)

context backend_frame
begin

lemma cred_effect_ok: "cred_effect B u tid d d' \<Longrightarrow> store_ok d \<Longrightarrow> store_ok d'"
proof (induction rule: cred_effect.induct)
  case (ce_add c d1)
  then have d1: "d1 = d\<lparr>d_credentials := d_credentials d @ [c]\<rparr>" "cred_integrity d c = None"
    by (auto dest: add_credential_InrD)
  have "hosts_ok d1"
    unfolding d1(1) using ce_add.prems by (intro hosts_ok_creds) (auto simp: store_ok_def get_row_append)
  then show ?case
    using ce_add d1 creds_ok_add by (simp add: store_ok_def)
next
  case (ce_save c c1 d1)
  then have d1: "d1 = d\<lparr>d_credentials := upd_row c_id (c_id c1) (\<lambda>x. if c_id x = c_id c1 then c1 else x) (d_credentials d)\<rparr>"
    and i: "cred_integrity d c1 = None"
    by (auto simp: upd_row_def dest!: save_credential_InrD cong: if_cong)
  have one: "x = c" if "x \<in> set (d_credentials d)" "c_id x = c_id c1" for x
    using ce_save.hyps(1,3) ce_save.prems that by (auto simp: store_ok_def creds_ok_def intro: uniq_row)
  have "cred_row_ok c1"
    using ce_save by (auto simp: store_ok_def creds_ok_def)
  then have "creds_ok d1"
    unfolding d1 using ce_save.prems i by (intro creds_ok_upd) (auto simp: store_ok_def)
  moreover have "hosts_ok d1"
    unfolding d1 using ce_save.prems ce_save.hyps(4) one by (intro hosts_ok_creds upd_same_tenant) (auto simp: store_ok_def)
  ultimately show ?case
    using ce_save.prems d1 by (simp add: store_ok_def)
next
  case (ce_assign c oid v)
  have "creds_ok (d\<lparr>d_credentials := upd_row c_id (c_id c) (touch_cred d (\<lambda>x. x\<lparr>c_org_unit_id := v\<rparr>)) (d_credentials d)\<rparr>)"
    using ce_assign by (intro creds_ok_upd) (auto simp: store_ok_def creds_ok_def [of d] intro: assign_integrity)
  moreover have "hosts_ok (d\<lparr>d_credentials := upd_row c_id (c_id c) (touch_cred d (\<lambda>x. x\<lparr>c_org_unit_id := v\<rparr>)) (d_credentials d)\<rparr>)"
    using ce_assign by (intro hosts_ok_creds upd_same_tenant) (auto simp: store_ok_def)
  ultimately show ?case
    using ce_assign.prems by (simp add: store_ok_def)
next
  case (ce_delete c)
  then show ?case
    using fk_delete_credential_ok fk_delete_credential_pipes by (auto simp: store_ok_def)
next
  case (ce_secret d1 c p v)
  then show ?case
    using set_keeps [of store_ok] by simp
next
  case (ce_clear d1 c p)
  then show ?case
    using delete_keeps [of store_ok] by simp
qed simp_all

end

section \<open>What a request leaves alone\<close>

definition hidden_creds :: "user \<Rightarrow> int option \<Rightarrow> db \<Rightarrow> int set" where
  "hidden_creds u tid d = c_id ` {c \<in> set (d_credentials d). \<not> cred_access u tid c}"

definition cred_rest :: "int set \<Rightarrow> db \<Rightarrow> credential list \<times> host list \<times> pipeline list \<times> org_unit list \<times> user list" where
  \<comment> \<open>the profiles of \<open>H\<close>, and the other tables up to the columns a deletion may clear\<close>
  "cred_rest H d = (filter (\<lambda>c. c_id c \<in> H) (d_credentials d), map (\<lambda>h. h\<lparr>h_ft_credential_id := None\<rparr>) (d_hosts d),
     map (\<lambda>p. p\<lparr>p_credential_id := None\<rparr>) (d_pipelines d), d_org_units d, d_users d)"

lemma cred_rest_frame [simp]:
  "cred_rest H (add_audit t a x g e i d) = cred_rest H d" "cred_rest H (d\<lparr>d_secrets := bs\<rparr>) = cred_rest H d"
  by (simp_all add: cred_rest_def)

lemma access_not_hidden:
  assumes "creds_ok d" and "c \<in> set (d_credentials d)" and "cred_access u tid c"
  shows "c_id c \<notin> hidden_creds u tid d"
  using assms uniq_row [of c_id "d_credentials d" c] by (auto simp: hidden_creds_def creds_ok_def)

lemma next_cred_not_hidden: "next_id c_id (d_credentials d) \<notin> hidden_creds u tid d"
  using next_id_gt [of _ "d_credentials d" c_id] by (fastforce simp: hidden_creds_def)

lemma hosts_using_0: "hosts_using d i = 0 \<Longrightarrow> h \<in> set (d_hosts d) \<Longrightarrow> null_if (\<lambda>x. x = i) (h_credential_id h) = h_credential_id h"
  by (auto simp: hosts_using_def filter_empty_conv intro: null_if_id)

context backend_frame
begin

lemma cred_effect_hidden:
  assumes "cred_effect B u tid d d'" and ok: "creds_ok d"
  shows "cred_rest (hidden_creds u tid d) d' = cred_rest (hidden_creds u tid d) d"
  using assms(1)
proof (induction rule: cred_effect.induct)
  case (ce_add c d1)
  then show ?case
    using next_cred_not_hidden by (auto simp: cred_rest_def dest!: add_credential_InrD)
next
  case (ce_save c c1 d1)
  then show ?case
    using access_not_hidden [OF ok ce_save.hyps(1,2)]
    by (auto simp: cred_rest_def dest!: save_credential_InrD intro!: filter_upd_row)
next
  case (ce_assign c oid v)
  then show ?case
    using access_not_hidden [OF ok ce_assign.hyps(1,2)] by (auto simp: cred_rest_def intro!: filter_upd_row)
next
  case (ce_delete c)
  then show ?case
    using access_not_hidden [OF ok ce_delete.hyps(1,2)]
    by (auto simp: cred_rest_def fk_delete_credential_def hosts_using_0 intro!: filter_del_rows)
next
  case (ce_secret d1 c p v)
  then show ?case
    using set_keeps [of "\<lambda>d'. cred_rest (hidden_creds u tid d) d' = cred_rest (hidden_creds u tid d) d"] by simp
next
  case (ce_clear d1 c p)
  then show ?case
    using delete_keeps [of "\<lambda>d'. cred_rest (hidden_creds u tid d) d' = cred_rest (hidden_creds u tid d) d"] by simp
qed simp_all

end

definition own_path :: "user \<Rightarrow> int option \<Rightarrow> credential list \<Rightarrow> string \<Rightarrow> bool" where
  \<comment> \<open>a secret path of a profile in the list that \<open>u\<close> can access\<close>
  "own_path u tid cs p \<longleftrightarrow> (\<exists>c \<in> set cs. cred_access u tid c \<and> p \<in> cred_paths u c)"

lemma cred_effect_secrets:
  assumes "cred_effect (local_backend enc dec iv) u tid d d'" and ok: "blobs_ok (d_secrets d)"
  shows "blobs_ok (d_secrets d') \<and>
    (\<forall>p. \<not> own_path u tid (d_credentials d @ d_credentials d') p \<longrightarrow> token_at (d_secrets d') p = token_at (d_secrets d) p)"
  using assms(1)
proof (induction rule: cred_effect.induct)
  case (ce_secret d1 c p v)
  then show ?case
    using ok by (auto simp: local_backend_def secret_set_def blobs.inv_put blobs.lookup_put own_path_def)
next
  case (ce_clear d1 c p)
  then show ?case
    using ok by (auto simp: local_backend_def secret_delete_def Let_def blobs.inv_del blobs.lookup_del own_path_def)
qed (auto simp: ok fk_delete_credential_def dest!: add_credential_InrD save_credential_InrD)

section \<open>Properties\<close>


text \<open>C33: No credential route changes a profile the caller cannot access, be it of another tenant
  or private to another user, nor any host or pipeline beyond the reference a deleted profile
  leaves, nor any other secret than those at the paths of a profile the caller can access.\<close>

theorem credential_routes_isolate:
  assumes "creds_ok d" and "blobs_ok (d_secrets d)" and "get_current_user s d = Some u"
    and "d' = snd (cred_handle (local_backend enc dec iv) q s d)"
  shows "cred_rest (hidden_creds u (active_tenant_id s u) d) d' = cred_rest (hidden_creds u (active_tenant_id s u) d) d \<and>
    blobs_ok (d_secrets d') \<and>
    (\<forall>p. \<not> own_path u (active_tenant_id s u) (d_credentials d @ d_credentials d') p \<longrightarrow>
       token_at (d_secrets d') p = token_at (d_secrets d) p)"
proof -
  consider "d' = d" | "cred_effect (local_backend enc dec iv) u (active_tenant_id s u) d d'"
    using cred_handle_effect [of "local_backend enc dec iv" q s d] assms(3,4) by (auto simp: require_user_def)
  then show ?thesis
    using assms(1,2) local_be.cred_effect_hidden cred_effect_secrets by cases blast+
qed

definition demo_profile :: "int \<Rightarrow> int \<Rightarrow> string \<Rightarrow> string \<Rightarrow> int option \<Rightarrow> credential" where
  "demo_profile i t kind vis owner = (demo_cred i t vis owner)\<lparr>c_kind := kind\<rparr>"

definition demo_vault :: db where
  \<comment> \<open>profiles of tenant 1 (shared, private to user 2, dynamic) and of tenant 2, with a secret each\<close>
  "demo_vault = demo_db\<lparr>d_credentials := [demo_profile 1 1 ''login'' ''shared'' (Some 1), demo_profile 2 1 ''login'' ''private'' (Some 2),
       demo_profile 3 1 ''dynamic'' ''shared'' (Some 2), demo_profile 4 2 ''login'' ''shared'' None],
     d_secrets := map (\<lambda>i. \<lparr>sb_path = ''creds/c'' @ str_int i, sb_value = ''old'', sb_created_at = 0, sb_updated_at = 0\<rparr>) [1, 2, 4]\<rparr>"

abbreviation demo_backend :: secret_backend where
  "demo_backend \<equiv> local_backend (\<lambda>_ v. v) Some 0"

definition demo_cred_form :: "string \<Rightarrow> string \<Rightarrow> cred_form" where
  "demo_cred_form ref v = \<lparr>cf_name = ''mine'', cf_kind = ''login'', cf_username = ''u'', cf_domain = [], cf_secret_ref = ref,
     cf_secret_value = v, cf_org_unit_id = [], cf_visibility = ''shared''\<rparr>"

lemma demo_vault_ok: "creds_ok demo_vault" "store_ok demo_vault" "blobs_ok (d_secrets demo_vault)"
  by code_simp+

lemma demo_vault_user: "get_current_user (demo_session 1) demo_vault = Some (demo_user 1 ''operator'' (Some 1))"
  by code_simp


theorem credential_routes_isolate_witness:
  "cred_rest {2, 4} (snd (cred_handle demo_backend (Cred_Update 1 (demo_cred_form [] ''pw'')) (demo_session 1) demo_vault))
     = cred_rest {2, 4} demo_vault \<and>
   secret_get Some (snd (cred_handle demo_backend (Cred_Update 1 (demo_cred_form [] ''pw'')) (demo_session 1) demo_vault)) ''creds/c1'' = Inr ''pw''"
proof
  have "hidden_creds (demo_user 1 ''operator'' (Some 1)) (active_tenant_id (demo_session 1) (demo_user 1 ''operator'' (Some 1))) demo_vault = {2, 4}"
    by code_simp
  then show "cred_rest {2, 4} (snd (cred_handle demo_backend (Cred_Update 1 (demo_cred_form [] ''pw'')) (demo_session 1) demo_vault))
     = cred_rest {2, 4} demo_vault"
    using credential_routes_isolate [OF demo_vault_ok(1,3) demo_vault_user refl, of "\<lambda>_ v. v" Some 0
        "Cred_Update 1 (demo_cred_form [] ''pw'')"] by simp
qed code_simp

lemma str_int_inj: "str_int i = str_int j \<longleftrightarrow> i = j"
proof -
  have d: "str_nat n \<noteq> CHR ''-'' # xs" for n xs
    using str_nat_digits [of n] by (auto simp: is_digit_def code_point_def)
  show ?thesis
    using d d [THEN not_sym] by (auto simp: str_int_def str_nat_inj split: if_splits)
qed

lemma get_current_user_cong:
  assumes "d_users d' = d_users d" and "d_tenants d' = d_tenants d"
  shows "get_current_user s d' = get_current_user s d"
  unfolding get_current_user_def assms by (rule refl)

lemma user_path_inj: "user_path c i = user_path c j \<longleftrightarrow> i = j"
  by (simp add: user_path_def str_int_inj)

text \<open>Per-user credentials work and are per user: after a user stores a user name and password
  for a dynamic profile, resolving the profile for that user gives exactly these, the material of
  every other user is what it was, and after clearing it there is none.\<close>

theorem dynamic_material_round_trip:
  assumes ok: "blobs_ok (d_secrets d)" and u: "get_current_user s d = Some u"
    and c: "dynamic_or_404 d i (active_tenant_id s u) u = Inr c"
    and dec: "dec (enc iv (dumps_material (py_strip name) pw)) = Some (dumps_material (py_strip name) pw)"
    and loads: "loads (dumps_material (py_strip name) pw) = Some (JObj [(''username'', JStr (py_strip name)), (''password'', JStr pw)])"
    and B: "B = local_backend enc dec iv" and d1: "d1 = snd (my_credentials_set B i name pw s d)"
  shows "fst (my_credentials_set B i name pw s d) = Redirect ''/credentials/mine?saved=1'' \<and>
    resolve_dynamic B loads d1 (Some (u_id u)) c = Inr (JStr (py_strip name), JStr pw) \<and>
    (\<forall>v. v \<noteq> u_id u \<longrightarrow> get_user_material B loads d1 c (Some v) = get_user_material B loads d c (Some v)) \<and>
    get_user_material B loads (snd (my_credentials_clear B i s d1)) c (Some (u_id u)) = Inr None"
proof -
  have r: "my_credentials_set B i name pw s d = (Redirect ''/credentials/mine?saved=1'',
      add_audit (Some (c_tenant_id c)) (Some (u_id u)) ''credential.user_secret.set'' (Some (cred_target (c_id c)))
        (Some (''user='' @ str_int (u_id u))) None (secret_set enc iv (user_path c (u_id u)) (dumps_material (py_strip name) pw) d))"
    by (simp add: my_credentials_set_def require_user_def u c set_user_material_def B local_backend_def)
  have tok: "token_at (d_secrets d1) p = (if p = user_path c (u_id u) then Some (enc iv (dumps_material (py_strip name) pw))
      else token_at (d_secrets d) p)" for p
    using ok by (simp add: d1 r secret_set_def blobs.lookup_put)
  have get: "be_get B x p = (case token_at (d_secrets x) p of None \<Rightarrow> Inl (Secret_Not_Found p)
      | Some t \<Rightarrow> (case dec t of None \<Rightarrow> Inl (Secret_Runtime (decrypt_failure p)) | Some v \<Rightarrow> Inr v))" for x p
    by (simp add: B local_backend_def secret_get_token)
  have f: "material_field [(''username'', JStr (py_strip name)), (''password'', JStr pw)] ''username'' = JStr (py_strip name)"
    "material_field [(''username'', JStr (py_strip name)), (''password'', JStr pw)] ''password'' = JStr pw"
    by (simp_all add: material_field_def dict_get_def json_truthy_def)
  have same: "get_current_user s d1 = get_current_user s d" "dynamic_or_404 d1 i (active_tenant_id s u) u = dynamic_or_404 d i (active_tenant_id s u) u"
    by (auto simp: d1 r secret_set_def dynamic_or_404_def get_credential_def intro!: get_current_user_cong)
  have "d_secrets (snd (my_credentials_clear B i s d1)) = drop_blob (user_path c (u_id u)) (d_secrets d1)"
    by (simp add: my_credentials_clear_def require_user_def same u c clear_user_material_def B local_backend_def secret_delete_def Let_def)
  moreover have "blobs_ok (d_secrets d1)"
    using ok by (simp add: d1 r secret_set_def blobs.inv_put)
  ultimately have "be_get B (snd (my_credentials_clear B i s d1)) (user_path c (u_id u)) = Inl (Secret_Not_Found (user_path c (u_id u)))"
    by (simp add: get blobs.lookup_del)
  then show ?thesis
    by (simp add: resolve_dynamic_def get_user_material_def get tok dec loads f user_path_inj) (simp add: r)
qed

theorem dynamic_material_round_trip_witness:
  "resolve_dynamic demo_backend (\<lambda>_. Some (JObj [(''username'', JStr ''ana''), (''password'', JStr ''pw'')]))
     (snd (my_credentials_set demo_backend 3 '' ana '' ''pw'' (demo_session 1) demo_vault)) (Some 1) (demo_profile 3 1 ''dynamic'' ''shared'' (Some 2))
   = Inr (JStr ''ana'', JStr ''pw'')"
proof -
  have c: "dynamic_or_404 demo_vault 3 (active_tenant_id (demo_session 1) (demo_user 1 ''operator'' (Some 1))) (demo_user 1 ''operator'' (Some 1))
      = Inr (demo_profile 3 1 ''dynamic'' ''shared'' (Some 2))"
    by code_simp
  have n: "py_strip '' ana '' = ''ana''" "u_id (demo_user 1 ''operator'' (Some 1)) = 1"
    by code_simp+
  show ?thesis
    using dynamic_material_round_trip [OF demo_vault_ok(3) demo_vault_user c, of Some "\<lambda>_ v. v" 0 "'' ana ''" "''pw''"
        "\<lambda>_. Some (JObj [(''username'', JStr ''ana''), (''password'', JStr ''pw'')])" demo_backend]
    by (simp add: n)
qed

text \<open>The secret path of a profile is not confined to its tenant: for every path whatsoever,
  creating a profile with that \<open>secret_ref\<close> succeeds (the name being free) and gives the caller a usable
  profile of their own on it; with a secret value the secret stored there, whoever it belongs to, is
  overwritten, and without one it stays there for the new profile to read.\<close>

theorem secret_ref_not_confined:
  assumes u: "require_operator path0 s d = Inr u" and t: "require_active_tenant s u = Inr tid"
    and kind: "cf_kind f \<in> set CRED_KINDS" "cf_kind f \<noteq> ''dynamic''" and name: "py_strip (cf_name f) \<noteq> []" and org: "cf_org_unit_id f = []"
    and free: "(tid, py_strip (cf_name f)) \<notin> (\<lambda>c. (c_tenant_id c, c_name c)) ` set (d_credentials d)"
    and tenant: "tid \<in> t_id ` set (d_tenants d)" and path: "py_strip (cf_secret_ref f) = path" "path \<noteq> []"
    and ok: "blobs_ok (d_secrets d)" and dec: "dec (enc iv (cf_secret_value f)) = Some (cf_secret_value f)"
    and d': "d' = snd (credentials_create (local_backend enc dec iv) f s d)"
  shows "(\<exists>c \<in> set (d_credentials d'). c_secret_ref c = path \<and> c_tenant_id c = tid \<and> c_owner_id c = Some (u_id u)) \<and>
    secret_get dec d' path = (if cf_secret_value f = [] then secret_get dec d path else Inr (cf_secret_value f))"
proof -
  obtain c where c: "create_args f tid u d = Inr c" "c_tenant_id c = tid" "c_name c = py_strip (cf_name f)" "c_secret_ref c = path"
      "c_owner_id c = Some (u_id u)" "c_org_unit_id c = None" "c_kind c = cf_kind f"
    using kind name path by (simp add: create_args_def Let_def parse_int_or_none_def org)
  have "u_id u \<in> u_id ` set (d_users d)"
    using require_role_user [OF u] by (auto simp: require_user_def split: option.splits dest!: get_current_user_SomeD)
  then have "cred_integrity d c = None"
    using free tenant by (auto simp: cred_integrity_None c image_iff)
  then have a: "add_credential d c = Inr (d\<lparr>d_credentials := d_credentials d @ [c]\<rparr>)"
    by (simp add: add_credential_def)
  have u': "require_operator ''/credentials/new'' s d = Inr u"
    using u by (auto simp: require_role_def require_user_def bind_r_Inr_iff split: option.splits if_splits)
  let ?a = "add_audit (Some tid) (Some (u_id u)) ''credential.create'' (Some (cred_target (c_id c))) (Some (create_details f c)) None
      (d\<lparr>d_credentials := d_credentials d @ [c]\<rparr>)"
  have "d' = (if cf_secret_value f = [] then ?a else secret_set enc iv path (cf_secret_value f) ?a)"
    using kind(2) by (simp add: d' credentials_create_def u' t c(1,4,7) a Let_def local_backend_def)
  then show ?thesis
    using ok dec c by (auto simp: secret_get_token secret_set_def blobs.lookup_put)
qed

theorem secret_ref_not_confined_witness:
  "secret_get Some (snd (credentials_create demo_backend (demo_cred_form ''creds/c4'' ''pwned'') (demo_session 1) demo_vault)) ''creds/c4'' = Inr ''pwned'' \<and>
   map c_tenant_id (filter (\<lambda>c. c_secret_ref c = ''creds/c4'') (d_credentials demo_vault)) = [2]"
proof
  have h: "require_operator [] (demo_session 1) demo_vault = Inr (demo_user 1 ''operator'' (Some 1))"
      "require_active_tenant (demo_session 1) (demo_user 1 ''operator'' (Some 1)) = Inr 1"
      "cf_kind (demo_cred_form ''creds/c4'' ''pwned'') \<in> set CRED_KINDS" "cf_kind (demo_cred_form ''creds/c4'' ''pwned'') \<noteq> ''dynamic''"
      "py_strip (cf_name (demo_cred_form ''creds/c4'' ''pwned'')) \<noteq> []" "cf_org_unit_id (demo_cred_form ''creds/c4'' ''pwned'') = []"
      "(1, py_strip (cf_name (demo_cred_form ''creds/c4'' ''pwned''))) \<notin> (\<lambda>c. (c_tenant_id c, c_name c)) ` set (d_credentials demo_vault)"
      "1 \<in> t_id ` set (d_tenants demo_vault)" "py_strip (cf_secret_ref (demo_cred_form ''creds/c4'' ''pwned'')) = ''creds/c4''"
    by code_simp+
  show "secret_get Some (snd (credentials_create demo_backend (demo_cred_form ''creds/c4'' ''pwned'') (demo_session 1) demo_vault)) ''creds/c4'' = Inr ''pwned''"
    using secret_ref_not_confined [OF h _ demo_vault_ok(3), of Some "\<lambda>_ v. v" 0, OF _ _ refl] by (simp add: demo_cred_form_def)
qed code_simp

end
