(* ===== verification/Dosm_Agent.thy ===== *)
theory Dosm_Agent
  imports Dosm_Credentials
begin

text \<open>
  The agent's plan cards: the action registry and command policy of \<open>dosm/agent/actions.py\<close>, the review
  routes of \<open>dosm/agent/routes.py\<close>, the conversation routes of \<open>dosm/llm/routes.py\<close> and the part of its
  reply generation that stores the proposed cards. A card is proposed by the model, approved or rejected
  by an operator, and executed by the runner of its tool. A runner may wait for the network, so an
  approval has two commits with other requests between them: the claim of the card, and the recording of
  the result. The last sections make this a transition system: one task per approved request, and steps
  of tasks and requests in any order. What a runner does to the database is a parameter here and is
  modelled in \<open>Dosm_Actions\<close>.
\<close>

section \<open>Shell patterns\<close>

text \<open>\<open>fnmatch.fnmatch\<close> on a system with case-sensitive paths.\<close>

datatype glob_token = Star | Any_Char | Class bool "(char \<times> char) list" | Literal char

fun class_ranges :: "string \<Rightarrow> (char \<times> char) list" where
  \<comment> \<open>the content of \<open>[...]\<close>: a hyphen between two characters makes a range\<close>
  "class_ranges (a # b # c # s) = (if b = CHR ''-'' then (a, c) # class_ranges s else (a, a) # class_ranges (b # c # s))"
| "class_ranges (a # s) = (a, a) # class_ranges s"
| "class_ranges [] = []"

definition class_split :: "string \<Rightarrow> (string \<times> string) option" where
  \<comment> \<open>content and rest after \<open>[\<close> or \<open>[!\<close>; the first character is never the closing bracket\<close>
  "class_split s = (case s of [] \<Rightarrow> None | c # cs \<Rightarrow>
     (case dropWhile (\<lambda>x. x \<noteq> CHR '']'') cs of [] \<Rightarrow> None
      | _ # r \<Rightarrow> Some (c # takeWhile (\<lambda>x. x \<noteq> CHR '']'') cs, r)))"

lemma class_split_shorter: "class_split s = Some (x, r) \<Longrightarrow> length r < length s"
proof -
  assume "class_split s = Some (x, r)"
  then obtain c cs y where "s = c # cs" "dropWhile (\<lambda>x. x \<noteq> CHR '']'') cs = y # r"
    by (auto simp: class_split_def split: list.splits)
  then show ?thesis
    using length_dropWhile_le [of "\<lambda>x. x \<noteq> CHR '']''" cs] by simp
qed

function glob_tokens :: "string \<Rightarrow> glob_token list" where
  "glob_tokens [] = []"
| "glob_tokens (c # cs) =
     (if c = CHR ''*'' then Star # glob_tokens cs
      else if c = CHR ''?'' then Any_Char # glob_tokens cs
      else if c = CHR ''['' then
        (case cs of b # bs \<Rightarrow>
           (if b = CHR ''!'' then (case class_split bs of Some (x, r) \<Rightarrow> Class True (class_ranges x) # glob_tokens r
                                  | None \<Rightarrow> Literal c # glob_tokens cs)
            else (case class_split cs of Some (x, r) \<Rightarrow> Class False (class_ranges x) # glob_tokens r
                  | None \<Rightarrow> Literal c # glob_tokens cs))
         | [] \<Rightarrow> [Literal c])
      else Literal c # glob_tokens cs)"
  by pat_completeness auto
termination
  by (relation "measure length") (auto dest: class_split_shorter)

fun token_ok :: "glob_token \<Rightarrow> char \<Rightarrow> bool" where
  "token_ok Star c = True"
| "token_ok Any_Char c = True"
| "token_ok (Class neg rs) c = (neg \<noteq> (\<exists>(a, b) \<in> set rs. code_point a \<le> code_point c \<and> code_point c \<le> code_point b))"
| "token_ok (Literal x) c = (c = x)"

fun glob_match :: "glob_token list \<Rightarrow> string \<Rightarrow> bool" where
  "glob_match [] s \<longleftrightarrow> s = []"
| "glob_match (t # ts) s \<longleftrightarrow>
     (if t = Star then glob_match ts s \<or> (case s of [] \<Rightarrow> False | _ # cs \<Rightarrow> glob_match (t # ts) cs)
      else (case s of [] \<Rightarrow> False | c # cs \<Rightarrow> token_ok t c \<and> glob_match ts cs))"

definition fnmatch :: "string \<Rightarrow> string \<Rightarrow> bool" where
  "fnmatch name pat = glob_match (glob_tokens pat) name"

section \<open>The action registry\<close>

record action_spec =
  sp_name :: string
  sp_args :: "(string \<times> string \<times> bool) list"
  sp_classify :: "dict \<Rightarrow> string"
  sp_confirm :: "string option"

definition ssh_exec_classify :: "dict \<Rightarrow> string" where
  "ssh_exec_classify a = (if dict_get a ''_pre_classified'' = Some (JStr ''safe'') then ''safe'' else ''elevated'')"

definition run_pipeline_classify :: "dict \<Rightarrow> string" where
  "run_pipeline_classify a = ''safe''"

text \<open>The registered actions: name, arguments with their type and whether they are required,
  classification and confirmation field. The descriptions for the model are left out.\<close>

definition SSH_EXEC :: action_spec where
  "SSH_EXEC = \<lparr>sp_name = ''ssh_exec'',
     sp_args = [(''host'', ''string'', True), (''command'', ''string'', True), (''timeout'', ''number'', False)],
     sp_classify = ssh_exec_classify, sp_confirm = (Some ''host'')\<rparr>"

definition LOCAL_EXEC :: action_spec where
  "LOCAL_EXEC = \<lparr>sp_name = ''local_exec'',
     sp_args = [(''command'', ''string'', True), (''timeout'', ''number'', False)],
     sp_classify = (\<lambda>_. ''elevated''), sp_confirm = None\<rparr>"

definition WINRM_EXEC :: action_spec where
  "WINRM_EXEC = \<lparr>sp_name = ''winrm_exec'',
     sp_args = [(''host'', ''string'', True), (''command'', ''string'', True), (''timeout'', ''number'', False)],
     sp_classify = (\<lambda>_. ''elevated''), sp_confirm = (Some ''host'')\<rparr>"

definition RUN_PIPELINE :: action_spec where
  "RUN_PIPELINE = \<lparr>sp_name = ''run_pipeline'',
     sp_args = [(''name'', ''string'', True), (''inputs'', ''object'', False)],
     sp_classify = run_pipeline_classify, sp_confirm = None\<rparr>"

definition CREATE_PIPELINE :: action_spec where
  "CREATE_PIPELINE = \<lparr>sp_name = ''create_pipeline'',
     sp_args = [(''name'', ''string'', True), (''provider'', ''string'', True), (''config'', ''string'', True),
     (''description'', ''string'', False), (''inputs_schema'', ''string'', False),
     (''credential_id'', ''number'', False)],
     sp_classify = (\<lambda>_. ''elevated''), sp_confirm = (Some ''name'')\<rparr>"

definition UPDATE_PIPELINE :: action_spec where
  "UPDATE_PIPELINE = \<lparr>sp_name = ''update_pipeline'',
     sp_args = [(''name'', ''string'', True), (''provider'', ''string'', False),
     (''config'', ''string'', False), (''description'', ''string'', False),
     (''inputs_schema'', ''string'', False), (''credential_id'', ''number'', False)],
     sp_classify = (\<lambda>_. ''elevated''), sp_confirm = (Some ''name'')\<rparr>"

definition DELETE_PIPELINE :: action_spec where
  "DELETE_PIPELINE = \<lparr>sp_name = ''delete_pipeline'',
     sp_args = [(''name'', ''string'', True)],
     sp_classify = (\<lambda>_. ''elevated''), sp_confirm = (Some ''name'')\<rparr>"

definition UPSERT_DOC :: action_spec where
  "UPSERT_DOC = \<lparr>sp_name = ''upsert_doc'',
     sp_args = [(''path'', ''string'', False), (''title'', ''string'', True),
     (''folder_slug'', ''string'', False), (''body_md'', ''textarea'', True)],
     sp_classify = (\<lambda>_. ''safe''), sp_confirm = None\<rparr>"

definition DELETE_DOC :: action_spec where
  "DELETE_DOC = \<lparr>sp_name = ''delete_doc'',
     sp_args = [(''path'', ''string'', True)],
     sp_classify = (\<lambda>_. ''elevated''), sp_confirm = (Some ''path'')\<rparr>"

definition SYNC_ORG_GROUP :: action_spec where
  "SYNC_ORG_GROUP = \<lparr>sp_name = ''sync_org_group'',
     sp_args = [(''group_name'', ''string'', True)],
     sp_classify = (\<lambda>_. ''safe''), sp_confirm = None\<rparr>"

definition CREATE_HOST :: action_spec where
  "CREATE_HOST = \<lparr>sp_name = ''create_host'',
     sp_args = [(''name'', ''string'', True), (''hostname'', ''string'', True), (''port'', ''number'', False),
     (''protocol'', ''string'', False), (''description'', ''string'', False),
     (''credential_id'', ''number'', False), (''is_jumpbox'', ''boolean'', False),
     (''tags'', ''string'', False)],
     sp_classify = (\<lambda>_. ''safe''), sp_confirm = None\<rparr>"

definition UPDATE_HOST :: action_spec where
  "UPDATE_HOST = \<lparr>sp_name = ''update_host'',
     sp_args = [(''name'', ''string'', True), (''hostname'', ''string'', False), (''port'', ''number'', False),
     (''protocol'', ''string'', False), (''description'', ''string'', False),
     (''credential_id'', ''number'', False), (''tags'', ''string'', False)],
     sp_classify = (\<lambda>_. ''elevated''), sp_confirm = (Some ''name'')\<rparr>"

definition CREATE_CREDENTIAL :: action_spec where
  "CREATE_CREDENTIAL = \<lparr>sp_name = ''create_credential'',
     sp_args = [(''name'', ''string'', True), (''kind'', ''string'', True), (''username'', ''string'', False),
     (''domain'', ''string'', False), (''secret_value'', ''secret'', True)],
     sp_classify = (\<lambda>_. ''elevated''), sp_confirm = (Some ''name'')\<rparr>"

definition UPDATE_CREDENTIAL :: action_spec where
  "UPDATE_CREDENTIAL = \<lparr>sp_name = ''update_credential'',
     sp_args = [(''name'', ''string'', True), (''username'', ''string'', False),
     (''domain'', ''string'', False), (''secret_value'', ''secret'', False)],
     sp_classify = (\<lambda>_. ''elevated''), sp_confirm = (Some ''name'')\<rparr>"

definition DELETE_CREDENTIAL :: action_spec where
  "DELETE_CREDENTIAL = \<lparr>sp_name = ''delete_credential'',
     sp_args = [(''name'', ''string'', True)],
     sp_classify = (\<lambda>_. ''elevated''), sp_confirm = (Some ''name'')\<rparr>"

definition DELETE_HOST :: action_spec where
  "DELETE_HOST = \<lparr>sp_name = ''delete_host'',
     sp_args = [(''name'', ''string'', True)],
     sp_classify = (\<lambda>_. ''elevated''), sp_confirm = (Some ''name'')\<rparr>"

definition CREATE_MONITORING_SOURCE :: action_spec where
  "CREATE_MONITORING_SOURCE = \<lparr>sp_name = ''create_monitoring_source'',
     sp_args = [(''name'', ''string'', True), (''tool'', ''string'', True), (''url'', ''string'', True),
     (''username'', ''string'', False), (''token'', ''secret'', False),
     (''token2'', ''secret'', False), (''enabled'', ''boolean'', False)],
     sp_classify = (\<lambda>_. ''elevated''), sp_confirm = (Some ''name'')\<rparr>"

definition UPDATE_MONITORING_SOURCE :: action_spec where
  "UPDATE_MONITORING_SOURCE = \<lparr>sp_name = ''update_monitoring_source'',
     sp_args = [(''name'', ''string'', True), (''tool'', ''string'', False), (''url'', ''string'', False),
     (''username'', ''string'', False), (''token'', ''secret'', False),
     (''token2'', ''secret'', False), (''enabled'', ''boolean'', False)],
     sp_classify = (\<lambda>_. ''elevated''), sp_confirm = (Some ''name'')\<rparr>"

definition DELETE_MONITORING_SOURCE :: action_spec where
  "DELETE_MONITORING_SOURCE = \<lparr>sp_name = ''delete_monitoring_source'',
     sp_args = [(''name'', ''string'', True)],
     sp_classify = (\<lambda>_. ''elevated''), sp_confirm = (Some ''name'')\<rparr>"

definition ENABLE_MONITORING_SOURCE :: action_spec where
  "ENABLE_MONITORING_SOURCE = \<lparr>sp_name = ''enable_monitoring_source'',
     sp_args = [(''name'', ''string'', True)],
     sp_classify = (\<lambda>_. ''safe''), sp_confirm = None\<rparr>"

definition DISABLE_MONITORING_SOURCE :: action_spec where
  "DISABLE_MONITORING_SOURCE = \<lparr>sp_name = ''disable_monitoring_source'',
     sp_args = [(''name'', ''string'', True)],
     sp_classify = (\<lambda>_. ''safe''), sp_confirm = None\<rparr>"

definition actions_registry :: "action_spec list" where
  \<comment> \<open>the order of the \<open>register_action\<close> calls\<close>
  "actions_registry = [SSH_EXEC, LOCAL_EXEC, WINRM_EXEC, RUN_PIPELINE, CREATE_PIPELINE, UPDATE_PIPELINE,
     DELETE_PIPELINE, UPSERT_DOC, DELETE_DOC, SYNC_ORG_GROUP, CREATE_HOST, UPDATE_HOST, CREATE_CREDENTIAL,
     UPDATE_CREDENTIAL, DELETE_CREDENTIAL, DELETE_HOST, CREATE_MONITORING_SOURCE, UPDATE_MONITORING_SOURCE,
     DELETE_MONITORING_SOURCE, ENABLE_MONITORING_SOURCE, DISABLE_MONITORING_SOURCE]"

definition sp_fields :: "action_spec \<Rightarrow> string list" where
  "sp_fields spec = map fst (sp_args spec)"

lemmas registry_defs = actions_registry_def SSH_EXEC_def LOCAL_EXEC_def WINRM_EXEC_def RUN_PIPELINE_def CREATE_PIPELINE_def UPDATE_PIPELINE_def DELETE_PIPELINE_def UPSERT_DOC_def DELETE_DOC_def SYNC_ORG_GROUP_def CREATE_HOST_def UPDATE_HOST_def CREATE_CREDENTIAL_def UPDATE_CREDENTIAL_def DELETE_CREDENTIAL_def DELETE_HOST_def CREATE_MONITORING_SOURCE_def UPDATE_MONITORING_SOURCE_def DELETE_MONITORING_SOURCE_def ENABLE_MONITORING_SOURCE_def DISABLE_MONITORING_SOURCE_def

definition get_action :: "string \<Rightarrow> action_spec option" where
  "get_action n = find (\<lambda>a. sp_name a = n) actions_registry"

definition COMMAND_CLASSIFY_TOOLS :: "string list" where
  "COMMAND_CLASSIFY_TOOLS = [''ssh_exec'', ''local_exec'', ''winrm_exec'']"

definition default_allow_list :: "string list" where
  \<comment> \<open>the default of \<open>ssh_command_policy.allow_list\<close>\<close>
  "default_allow_list = [''uptime'', ''whoami'', ''hostname'', ''id'', ''date'', ''df -h'', ''df -h *'', ''free -m'', ''free -h'',
     ''ps auxf'', ''ps -ef'', ''ls *'', ''cat /etc/os-release'', ''cat /proc/cpuinfo'', ''cat /proc/meminfo'', ''tail -n [0-9]* *'',
     ''journalctl --since * --no-pager'', ''journalctl -u * --no-pager'', ''systemctl status *'', ''systemctl is-active *'']"

definition classify_command :: "string list \<Rightarrow> string \<Rightarrow> string" where
  "classify_command allow command = (let cmd = py_strip command in
     if cmd = [] then ''elevated'' else if \<exists>p \<in> set allow. fnmatch cmd p then ''safe'' else ''elevated'')"

definition card_tier :: "string list \<Rightarrow> action_spec \<Rightarrow> dict \<Rightarrow> response + string" where
  \<comment> \<open>a command that is not a string has no \<open>strip\<close>\<close>
  "card_tier allow spec a = (if sp_name spec \<in> set COMMAND_CLASSIFY_TOOLS
     then (case dict_get a ''command'' of None \<Rightarrow> Inr (classify_command allow [])
           | Some (JStr c) \<Rightarrow> Inr (classify_command allow c) | Some _ \<Rightarrow> Inl (Crash ''AttributeError''))
     else Inr (sp_classify spec a))"

section \<open>Results of actions\<close>

record action_result =
  ar_ok :: bool
  ar_summary :: string
  ar_stdout :: string
  ar_stderr :: string
  ar_exit_code :: "int option"
  ar_duration_ms :: "int option"
  ar_extra :: dict

definition opt_json :: "int option \<Rightarrow> json" where
  "opt_json v = (case v of None \<Rightarrow> JNull | Some i \<Rightarrow> JInt i)"

definition result_dict :: "action_result \<Rightarrow> dict" where
  \<comment> \<open>\<open>ActionResult.to_dict\<close>\<close>
  "result_dict r = [(''ok'', JBool (ar_ok r)), (''summary'', JStr (ar_summary r)), (''stdout'', JStr (ar_stdout r)),
     (''stderr'', JStr (ar_stderr r)), (''exit_code'', opt_json (ar_exit_code r)), (''duration_ms'', opt_json (ar_duration_ms r)),
     (''extra'', JObj (ar_extra r))]"

definition plain_result :: "bool \<Rightarrow> string \<Rightarrow> action_result" where
  "plain_result ok summary = \<lparr>ar_ok = ok, ar_summary = summary, ar_stdout = [], ar_stderr = [], ar_exit_code = None,
     ar_duration_ms = None, ar_extra = []\<rparr>"

record py_exception =
  ex_type :: string
  ex_str :: string
  ex_repr :: string

type_synonym action_runner = "string \<Rightarrow> dict \<Rightarrow> int option \<Rightarrow> db \<Rightarrow> (py_exception + action_result) \<times> db"

definition crashed_result :: "py_exception \<Rightarrow> action_result" where
  "crashed_result e = (plain_result False (''runner crashed: '' @ ex_type e @ '': '' @ ex_str e))\<lparr>ar_stderr := ex_repr e\<rparr>"

definition new_line :: string where
  "new_line = [CHR 0x0A]"

definition exec_result_message :: "string \<Rightarrow> action_result \<Rightarrow> string" where
  "exec_result_message tool r = ''[tool: '' @ tool @ ''] '' @ ar_summary r @ new_line @ new_line
     @ (if ar_stdout r \<noteq> [] then ''stdout:'' @ new_line @ take 4000 (ar_stdout r) @ new_line else [])
     @ (if ar_stderr r \<noteq> [] then ''stderr:'' @ new_line @ take 2000 (ar_stderr r) @ new_line else [])"

section \<open>Review routes\<close>

definition next_ord :: "db \<Rightarrow> int \<Rightarrow> int" where
  "next_ord d cid = (case rev (sort (map cm_ord (filter (\<lambda>m. cm_conversation_id m = cid) (d_messages d)))) of
     [] \<Rightarrow> 0 | n # _ \<Rightarrow> n + 1)"

definition own_card_or_404 :: "db \<Rightarrow> int \<Rightarrow> int \<Rightarrow> int \<Rightarrow> response + (conversation \<times> plan_card)" where
  "own_card_or_404 d cid card_id uid = (case get_row cv_id (d_conversations d) cid of
     None \<Rightarrow> Inl (HttpError 404 ''Not Found'')
   | Some cv \<Rightarrow> if cv_user_id cv \<noteq> Some uid then Inl (HttpError 404 ''Not Found'') else
       (case get_row pc_id (d_plan_cards d) card_id of None \<Rightarrow> Inl (HttpError 404 ''Not Found'')
        | Some c \<Rightarrow> if pc_conversation_id c \<noteq> cid then Inl (HttpError 404 ''Not Found'') else Inr (cv, c)))"

definition card_args :: "json_text \<Rightarrow> response + dict" where
  \<comment> \<open>\<open>json.loads\<close>, an empty object for text that does not parse; a value that is no object has no \<open>get\<close>\<close>
  "card_args t = (case t of None \<Rightarrow> Inr [] | Some (JObj a) \<Rightarrow> Inr a | Some _ \<Rightarrow> Inl (Crash ''AttributeError''))"

definition chat_page :: "int \<Rightarrow> response" where
  "chat_page cid = Redirect (''/chat/'' @ str_int cid)"

definition upd_card :: "int \<Rightarrow> (plan_card \<Rightarrow> plan_card) \<Rightarrow> db \<Rightarrow> db" where
  "upd_card i f d = d\<lparr>d_plan_cards := upd_row pc_id i f (d_plan_cards d)\<rparr>"

definition card_target :: "int \<Rightarrow> string" where
  "card_target i = ''plan_card:'' @ str_int i"

definition plan_reject :: "int \<Rightarrow> int \<Rightarrow> session \<Rightarrow> db \<Rightarrow> response \<times> db" where
  "plan_reject cid card_id s d = on_ok (require_operator ''/chat/plan/reject'' s d) d (\<lambda>u.
     on_ok (own_card_or_404 d cid card_id (u_id u)) d (\<lambda>(cv, c).
       if pc_status c \<noteq> ''pending'' then (chat_page cid, d)
       else on_ok (card_args (pc_args c)) d (\<lambda>_.
         (chat_page cid, add_audit None (Some (u_id u)) ''agent.plan.reject'' (Some (card_target (pc_id c)))
            (Some (''tool='' @ pc_tool c)) None
            (upd_card (pc_id c) (\<lambda>x. x\<lparr>pc_status := ''rejected'', pc_approver_id := Some (u_id u), pc_approved_at := Some (d_now d)\<rparr>) d)))))"

definition unknown_tool_result :: "string \<Rightarrow> json" where
  "unknown_tool_result tool = JObj [(''ok'', JBool False), (''summary'', JStr (''unknown tool '' @ py_repr tool))]"

fun apply_edits :: "form \<Rightarrow> string list \<Rightarrow> dict \<Rightarrow> dict" where
  \<comment> \<open>the operator's edits: a non-empty form value wins\<close>
  "apply_edits f [] a = a"
| "apply_edits f (n # ns) a = (let v = form_text f (''arg_'' @ n) in
     apply_edits f ns (if v = [] then a else dict_set a n (JStr v)))"

record job =
  j_card :: int
  j_tool :: string
  j_args :: json

record task =
  tk_conv :: int
  tk_tenant :: int
  tk_user :: int
  tk_group :: bool
  tk_jobs :: "job list"
  tk_result :: "action_result option"

definition confirmed :: "action_spec \<Rightarrow> string \<Rightarrow> dict \<Rightarrow> form \<Rightarrow> bool" where
  \<comment> \<open>the typed confirmation an elevated action with a confirmation field needs\<close>
  "confirmed spec tier a f = (if tier = ''elevated'' \<and> sp_confirm spec \<noteq> None \<and> sp_confirm spec \<noteq> Some []
     then form_text f ''confirmation'' = (case dict_get a (the (sp_confirm spec)) of None \<Rightarrow> [] | Some v \<Rightarrow> py_str v)
     else True)"

definition approve_card :: "user \<Rightarrow> dict \<Rightarrow> string \<Rightarrow> stamp \<Rightarrow> plan_card \<Rightarrow> plan_card" where
  "approve_card u a tier now c = c\<lparr>pc_tier := tier, pc_effective_args := Some (Some (JObj a)), pc_status := ''approved'',
     pc_approver_id := Some (u_id u), pc_approved_at := Some now\<rparr>"

definition plan_approve :: "string list \<Rightarrow> int \<Rightarrow> int \<Rightarrow> form \<Rightarrow> session \<Rightarrow> db \<Rightarrow> (response \<times> db) + (db \<times> task)" where
  \<comment> \<open>up to the commit of the claim: \<open>Inl\<close> when the request ends there, \<open>Inr\<close> the task that runs on\<close>
  "plan_approve allow cid card_id f s d = (case require_operator ''/chat/plan/approve'' s d of Inl r \<Rightarrow> Inl (r, d)
   | Inr u \<Rightarrow> (case own_card_or_404 d cid card_id (u_id u) of Inl r \<Rightarrow> Inl (r, d)
   | Inr (cv, c) \<Rightarrow>
       if pc_status c \<noteq> ''pending'' then Inl (chat_page cid, d)
       else (case get_action (pc_tool c) of
         None \<Rightarrow> Inl (chat_page cid, add_audit None (Some (u_id u)) ''agent.plan.fail'' (Some (card_target (pc_id c))) (Some ''unknown tool'') None
             (upd_card (pc_id c) (\<lambda>x. x\<lparr>pc_status := ''failed'', pc_result := Some (Some (unknown_tool_result (pc_tool c)))\<rparr>) d))
       | Some spec \<Rightarrow> (case card_args (pc_args c) of Inl r \<Rightarrow> Inl (r, d)
       | Inr a0 \<Rightarrow> (let a = apply_edits f (sp_fields spec) a0 in
           (case card_tier allow spec a of Inl r \<Rightarrow> Inl (r, d)
            | Inr tier \<Rightarrow>
                if \<not> confirmed spec tier a f
                then Inl (Redirect (''/chat/'' @ str_int cid @ ''?elevated_card='' @ str_int (pc_id c)),
                          upd_card (pc_id c) (\<lambda>x. x\<lparr>pc_tier := ''elevated''\<rparr>) d)
                else Inr (add_audit None (Some (u_id u)) ''agent.plan.approve'' (Some (card_target (pc_id c)))
                            (Some (''tool='' @ pc_tool c @ '' tier='' @ tier)) None
                            (upd_card (pc_id c) (approve_card u a tier (d_now d)) d),
                          \<lparr>tk_conv = cid, tk_tenant = cv_tenant_id cv, tk_user = u_id u, tk_group = False,
                           tk_jobs = [\<lparr>j_card = pc_id c, j_tool = pc_tool c, j_args = JObj a\<rparr>], tk_result = None\<rparr>)))))))"

definition claimable :: "int \<Rightarrow> int \<Rightarrow> plan_card \<Rightarrow> bool" where
  "claimable cid mid c \<longleftrightarrow> pc_conversation_id c = cid \<and> pc_message_id c = Some mid \<and> pc_status c = ''pending'' \<and> pc_tier c = ''safe''"

fun group_claim :: "user \<Rightarrow> plan_card list \<Rightarrow> db \<Rightarrow> db \<times> job list" where
  \<comment> \<open>the loop over the pending cards\<close>
  "group_claim u [] d = (d, [])"
| "group_claim u (c # cs) d = (case get_action (pc_tool c) of
     None \<Rightarrow> group_claim u cs (upd_card (pc_id c)
         (\<lambda>x. x\<lparr>pc_status := ''failed'', pc_result := Some (Some (unknown_tool_result (pc_tool c)))\<rparr>) d)
   | Some _ \<Rightarrow>
       (let a = (case pc_args c of None \<Rightarrow> JObj [] | Some j \<Rightarrow> j);
            (d', js) = group_claim u cs (add_audit None (Some (u_id u)) ''agent.plan.approve'' (Some (card_target (pc_id c)))
              (Some (''tool='' @ pc_tool c @ '' tier=safe group=true'')) None
              (upd_card (pc_id c) (\<lambda>x. x\<lparr>pc_effective_args := Some (Some a), pc_status := ''approved'', pc_approver_id := Some (u_id u),
                 pc_approved_at := Some (d_now d)\<rparr>) d))
        in (d', \<lparr>j_card = pc_id c, j_tool = pc_tool c, j_args = a\<rparr> # js)))"

definition plan_approve_group :: "int \<Rightarrow> int \<Rightarrow> session \<Rightarrow> db \<Rightarrow> (response \<times> db) + (db \<times> task)" where
  "plan_approve_group cid mid s d = (case require_operator ''/chat/plan/approve_group'' s d of Inl r \<Rightarrow> Inl (r, d)
   | Inr u \<Rightarrow> (case get_row cv_id (d_conversations d) cid of None \<Rightarrow> Inl (HttpError 404 ''Not Found'', d)
   | Some cv \<Rightarrow> if cv_user_id cv \<noteq> Some (u_id u) then Inl (HttpError 404 ''Not Found'', d) else
       (let cards = sort_key pc_id (filter (claimable cid mid) (d_plan_cards d)) in
        if cards = [] then Inl (chat_page cid, d)
        else let (d', js) = group_claim u cards d
             in Inr (d', \<lparr>tk_conv = cid, tk_tenant = cv_tenant_id cv, tk_user = u_id u, tk_group = True, tk_jobs = js, tk_result = None\<rparr>))))"

definition run_job :: "action_runner \<Rightarrow> task \<Rightarrow> string \<Rightarrow> dict \<Rightarrow> db \<Rightarrow> action_result \<times> db" where
  "run_job run t tool a d = (case run tool a (Some (tk_tenant t)) d of
     (Inl e, d') \<Rightarrow> (crashed_result e, d') | (Inr r, d') \<Rightarrow> (r, d'))"

definition show_opt :: "int option \<Rightarrow> string" where
  "show_opt v = (case v of None \<Rightarrow> ''None'' | Some i \<Rightarrow> str_int i)"

definition finish_job :: "task \<Rightarrow> job \<Rightarrow> action_result \<Rightarrow> db \<Rightarrow> string + db" where
  \<comment> \<open>recording a result; a message of a conversation that is gone breaks its foreign key\<close>
  "finish_job t j r d = (case get_row cv_id (d_conversations d) (tk_conv t) of None \<Rightarrow> Inl ''IntegrityError''
     | Some _ \<Rightarrow> Inr (add_audit None (Some (tk_user t)) ''agent.plan.execute'' (Some (card_target (j_card j)))
         (Some (''ok='' @ (if ar_ok r then ''True'' else ''False'') @ '' exit='' @ show_opt (ar_exit_code r) @ '' dur=''
            @ show_opt (ar_duration_ms r) @ ''ms'' @ (if tk_group t then '' group=true'' else []))) None
         (let d1 = upd_card (j_card j) (\<lambda>c. c\<lparr>pc_result := Some (Some (JObj (result_dict r))),
                pc_status := (if ar_ok r then ''executed'' else ''failed'')\<rparr>) d
          in d1\<lparr>d_messages := d_messages d @ [\<lparr>cm_id = next_id cm_id (d_messages d), cm_conversation_id = tk_conv t,
                  cm_role = ''assistant'', cm_content = exec_result_message (j_tool j) r, cm_citations = None, cm_thinking = None,
                  cm_error = None, cm_generation_ms = None, cm_created_at = d_now d, cm_ord = next_ord d (tk_conv t)\<rparr>],
                d_conversations := upd_row cv_id (tk_conv t) (\<lambda>c. c\<lparr>cv_updated_at := d_now d\<rparr>) (d_conversations d)\<rparr>)))"

section \<open>Conversations\<close>

definition get_owned_conversation :: "db \<Rightarrow> int \<Rightarrow> user \<Rightarrow> int option \<Rightarrow> conversation option" where
  "get_owned_conversation d cid u tid = (case get_row cv_id (d_conversations d) cid of None \<Rightarrow> None
     | Some cv \<Rightarrow> if cv_user_id cv \<noteq> Some (u_id u) then None
         else if tid \<noteq> None \<and> tid \<noteq> Some (cv_tenant_id cv) then None else Some cv)"

definition latest_messages :: "db \<Rightarrow> int \<Rightarrow> chat_message list" where
  "latest_messages d cid = sort_key cm_ord (filter (\<lambda>m. cm_conversation_id m = cid) (d_messages d))"

definition auto_title :: "string \<Rightarrow> string \<Rightarrow> string" where
  \<comment> \<open>\<open>ell\<close> is the ellipsis character, which is outside the modelled code points\<close>
  "auto_title ell message = (let t = (if py_strip message \<noteq> [] then hd (py_splitlines (py_strip message)) else ''New chat'')
     in if length t > 80 then take 80 t @ ell else t)"

definition chat_new :: "session \<Rightarrow> db \<Rightarrow> response \<times> db" where
  "chat_new s d = on_ok (require_user ''/chat/new'' s d) d (\<lambda>u. on_ok (require_active_tenant s u) d (\<lambda>tid.
     if get_row t_id (d_tenants d) tid = None then (Crash ''IntegrityError'', d)
     else let i = next_id cv_id (d_conversations d) in
       (chat_page i, d\<lparr>d_conversations := d_conversations d @ [\<lparr>cv_id = i, cv_tenant_id = tid, cv_user_id = Some (u_id u),
          cv_title = ''New chat'', cv_created_at = d_now d, cv_updated_at = d_now d, cv_model = None, cv_mode = ''agent''\<rparr>]\<rparr>)))"

definition touch_conv :: "db \<Rightarrow> (conversation \<Rightarrow> conversation) \<Rightarrow> conversation \<Rightarrow> conversation" where
  "touch_conv d f c = (if f c = c then c else (f c)\<lparr>cv_updated_at := d_now d\<rparr>)"

definition chat_rename :: "int \<Rightarrow> string \<Rightarrow> session \<Rightarrow> db \<Rightarrow> response \<times> db" where
  "chat_rename cid title0 s d = on_ok (require_user ''/chat/rename'' s d) d (\<lambda>u.
     case get_owned_conversation d cid u (active_tenant_id s u) of None \<Rightarrow> (HttpError 404 ''Not Found'', d)
     | Some cv \<Rightarrow> (let t = take 255 (py_strip title0); title = (if t = [] then ''New chat'' else t)
         in (chat_page cid, add_audit (Some (cv_tenant_id cv)) (Some (u_id u)) ''chat.rename'' (Some (''conversation:'' @ str_int cid)) (Some title) None
              (d\<lparr>d_conversations := upd_row cv_id cid (touch_conv d (\<lambda>c. c\<lparr>cv_title := title\<rparr>)) (d_conversations d)\<rparr>))))"

definition fk_delete_conversation :: "int \<Rightarrow> db \<Rightarrow> db" where
  \<comment> \<open>\<open>ChatMessage.conversation_id\<close> and \<open>PlanCard.conversation_id\<close> are CASCADE\<close>
  "fk_delete_conversation i d = d\<lparr>d_conversations := del_rows (\<lambda>c. cv_id c = i) (d_conversations d),
     d_messages := del_rows (\<lambda>m. cm_conversation_id m = i) (d_messages d),
     d_plan_cards := map (\<lambda>p. p\<lparr>pc_message_id := null_if (\<lambda>x. \<exists>m \<in> set (d_messages d). cm_id m = x \<and> cm_conversation_id m = i) (pc_message_id p)\<rparr>)
                       (del_rows (\<lambda>p. pc_conversation_id p = i) (d_plan_cards d))\<rparr>"

definition chat_delete :: "int \<Rightarrow> session \<Rightarrow> db \<Rightarrow> response \<times> db" where
  "chat_delete cid s d = on_ok (require_user ''/chat/delete'' s d) d (\<lambda>u.
     case get_owned_conversation d cid u (active_tenant_id s u) of None \<Rightarrow> (HttpError 404 ''Not Found'', d)
     | Some cv \<Rightarrow> (Redirect ''/chat'', add_audit (Some (cv_tenant_id cv)) (Some (u_id u)) ''chat.delete'' (Some (''conversation:'' @ str_int cid)) None None
          (fk_delete_conversation cid d)))"

definition new_message :: "db \<Rightarrow> int \<Rightarrow> string \<Rightarrow> string \<Rightarrow> int \<Rightarrow> chat_message" where
  "new_message d cid r content n = \<lparr>cm_id = next_id cm_id (d_messages d), cm_conversation_id = cid, cm_role = r, cm_content = content,
     cm_citations = None, cm_thinking = None, cm_error = None, cm_generation_ms = None, cm_created_at = d_now d, cm_ord = n\<rparr>"

definition chat_post_message :: "string \<Rightarrow> int \<Rightarrow> string \<Rightarrow> session \<Rightarrow> db \<Rightarrow> response \<times> db" where
  "chat_post_message ell cid content0 s d = on_ok (require_user ''/chat/message'' s d) d (\<lambda>u.
     case get_owned_conversation d cid u (active_tenant_id s u) of None \<Rightarrow> (HttpError 404 ''Not Found'', d)
     | Some cv \<Rightarrow> (let content = py_strip content0; existing = latest_messages d cid;
           m = new_message d cid ''user'' content (if existing = [] then 0 else cm_ord (last existing) + 1)
         in if content = [] then (chat_page cid, d)
            else (Redirect (''/chat/'' @ str_int cid @ ''?reply_to='' @ str_int (cm_id m)),
              d\<lparr>d_messages := d_messages d @ [m], d_conversations := upd_row cv_id cid
                (\<lambda>c. c\<lparr>cv_title := (if cv_title cv = ''New chat'' \<or> existing = [] then auto_title ell content else cv_title c),
                       cv_updated_at := d_now d\<rparr>) (d_conversations d)\<rparr>)))"

section \<open>Proposed cards\<close>

record reply =
  rp_content :: string
  rp_citations :: "json list"
  rp_thinking :: "json list"
  rp_error :: "string option"
  rp_generation_ms :: int
  rp_ord :: int
  rp_calls :: "(string \<times> dict) list"

fun pending_cards :: "string list \<Rightarrow> (string \<times> dict) list \<Rightarrow> response + (string \<times> dict \<times> string) list" where
  \<comment> \<open>the tool calls of a round that name an action, with their tier; other names are answered in the chat\<close>
  "pending_cards allow [] = Inr []"
| "pending_cards allow ((tool, a) # cs) = (case get_action tool of
     None \<Rightarrow> pending_cards allow cs
   | Some spec \<Rightarrow> bind_r (card_tier allow spec a) (\<lambda>tier. bind_r (pending_cards allow cs) (\<lambda>rest. Inr ((tool, a, tier) # rest))))"

fun add_cards :: "int \<Rightarrow> int \<Rightarrow> (string \<times> dict \<times> string) list \<Rightarrow> db \<Rightarrow> db" where
  "add_cards cid mid [] d = d"
| "add_cards cid mid ((tool, a, tier) # cs) d = add_cards cid mid cs (d\<lparr>d_plan_cards := d_plan_cards d @
     [\<lparr>pc_id = next_id pc_id (d_plan_cards d), pc_conversation_id = cid, pc_message_id = Some mid, pc_tool = tool, pc_args = Some (JObj a),
       pc_effective_args = None, pc_rationale = None, pc_rollback = None, pc_tier = tier, pc_status = ''pending'', pc_result = None,
       pc_approver_id = None, pc_approved_at = None, pc_created_at = d_now d\<rparr>]\<rparr>)"

definition reply_message :: "db \<Rightarrow> int \<Rightarrow> reply \<Rightarrow> chat_message" where
  "reply_message d cid p = (new_message d cid ''assistant'' (rp_content p) (rp_ord p))\<lparr>cm_citations := Some (Some (JArr (rp_citations p))),
     cm_thinking := (if rp_thinking p = [] then None else Some (Some (JArr (rp_thinking p)))), cm_error := rp_error p,
     cm_generation_ms := Some (rp_generation_ms p)\<rparr>"

definition reply_details :: "reply \<Rightarrow> nat \<Rightarrow> string" where
  "reply_details p plans = ''citations='' @ str_nat (length (rp_citations p)) @ '' plans='' @ str_nat plans
     @ (case rp_error p of None \<Rightarrow> [] | Some e \<Rightarrow> if e = [] then [] else '' error='' @ take 80 e)"

definition persist_reply :: "string list \<Rightarrow> string \<Rightarrow> int \<Rightarrow> int option \<Rightarrow> reply \<Rightarrow> db \<Rightarrow> response + db" where
  \<comment> \<open>the end of \<open>_generate_reply\<close>: classification of the calls, then one transaction\<close>
  "persist_reply allow model cid actor p d = bind_r (pending_cards allow (rp_calls p)) (\<lambda>cards.
     case get_row cv_id (d_conversations d) cid of None \<Rightarrow> Inl (Crash ''IntegrityError'')
     | Some cv \<Rightarrow>
         (let m = reply_message d cid p; d1 = add_cards cid (cm_id m) cards (d\<lparr>d_messages := d_messages d @ [m]\<rparr>)
          in Inr (add_audit (Some (cv_tenant_id cv)) actor ''chat.reply'' (Some (''conversation:'' @ str_int cid))
               (Some (reply_details p (length cards))) None
               (d1\<lparr>d_conversations := upd_row cv_id cid (\<lambda>c. c\<lparr>cv_updated_at := d_now d,
                  cv_model := (if cv_model c = None \<or> cv_model c = Some [] then Some model else cv_model c)\<rparr>) (d_conversations d)\<rparr>))))"

section \<open>Interleaved executions\<close>

text \<open>
  The trace records when a card is proposed and when the runner of a card is invoked. A card id may be
  reused: deleting a conversation deletes its cards, and SQLite hands the highest id out again.
\<close>

datatype agent_event = Proposed int | Started int

record agent_sys =
  as_db :: db
  as_tasks :: "task list"
  as_trace :: "agent_event list"

definition proposals :: "db \<Rightarrow> db \<Rightarrow> agent_event list" where
  "proposals d d' = map (\<lambda>c. Proposed (pc_id c)) (drop (length (d_plan_cards d)) (d_plan_cards d'))"

inductive agent_step :: "string list \<Rightarrow> string \<Rightarrow> action_runner \<Rightarrow> agent_sys \<Rightarrow> agent_sys \<Rightarrow> bool" for allow model run where
  st_other: "d_plan_cards d' = d_plan_cards (as_db x) \<Longrightarrow> agent_step allow model run x (x\<lparr>as_db := d'\<rparr>)"
| st_reply: "persist_reply allow model cid actor p (as_db x) = Inr d' \<Longrightarrow>
    agent_step allow model run x (x\<lparr>as_db := d', as_trace := as_trace x @ proposals (as_db x) d'\<rparr>)"
| st_delete: "agent_step allow model run x (x\<lparr>as_db := snd (chat_delete cid s (as_db x))\<rparr>)"
| st_reject: "agent_step allow model run x (x\<lparr>as_db := snd (plan_reject cid i s (as_db x))\<rparr>)"
| st_approve_end: "plan_approve allow cid i f s (as_db x) = Inl (r, d') \<Longrightarrow> agent_step allow model run x (x\<lparr>as_db := d'\<rparr>)"
| st_approve: "plan_approve allow cid i f s (as_db x) = Inr (d', t) \<Longrightarrow>
    agent_step allow model run x (x\<lparr>as_db := d', as_tasks := as_tasks x @ [t]\<rparr>)"
| st_group_end: "plan_approve_group cid mid s (as_db x) = Inl (r, d') \<Longrightarrow> agent_step allow model run x (x\<lparr>as_db := d'\<rparr>)"
| st_group: "plan_approve_group cid mid s (as_db x) = Inr (d', t) \<Longrightarrow>
    agent_step allow model run x (x\<lparr>as_db := d', as_tasks := as_tasks x @ [t]\<rparr>)"
| st_start: "k < length (as_tasks x) \<Longrightarrow> as_tasks x ! k = t \<Longrightarrow> tk_jobs t = j # js \<Longrightarrow> tk_result t = None \<Longrightarrow> j_args j = JObj a \<Longrightarrow>
    run_job run t (j_tool j) a (as_db x) = (r, d') \<Longrightarrow>
    agent_step allow model run x (x\<lparr>as_db := d', as_tasks := (as_tasks x)[k := t\<lparr>tk_result := Some r\<rparr>],
      as_trace := as_trace x @ [Started (j_card j)]\<rparr>)"
| st_finish: "k < length (as_tasks x) \<Longrightarrow> as_tasks x ! k = t \<Longrightarrow> tk_jobs t = j # js \<Longrightarrow> tk_result t = Some r \<Longrightarrow>
    finish_job t j r (as_db x) = Inr d' \<Longrightarrow>
    agent_step allow model run x (x\<lparr>as_db := d', as_tasks := (as_tasks x)[k := t\<lparr>tk_jobs := js, tk_result := None\<rparr>]\<rparr>)"
| st_abort: "k < length (as_tasks x) \<Longrightarrow>
    agent_step allow model run x (x\<lparr>as_tasks := (as_tasks x)[k := (as_tasks x ! k)\<lparr>tk_jobs := [], tk_result := None\<rparr>]\<rparr>)"

inductive agent_run :: "string list \<Rightarrow> string \<Rightarrow> action_runner \<Rightarrow> agent_sys \<Rightarrow> agent_sys \<Rightarrow> bool" for allow model run x where
  run_refl: "agent_run allow model run x x"
| run_step: "agent_run allow model run x y \<Longrightarrow> agent_step allow model run y z \<Longrightarrow> agent_run allow model run x z"

definition todo :: "task \<Rightarrow> job list" where
  \<comment> \<open>the jobs of a task whose runner has not been invoked\<close>
  "todo t = (if tk_result t = None then tk_jobs t else tl (tk_jobs t))"

definition jobs_on :: "int \<Rightarrow> task \<Rightarrow> nat" where
  "jobs_on i t = length (filter (\<lambda>j. j_card j = i) (todo t))"

definition unspent :: "int \<Rightarrow> db \<Rightarrow> nat" where
  \<comment> \<open>a card that is still pending or was rejected\<close>
  "unspent i d = (case get_row pc_id (d_plan_cards d) i of None \<Rightarrow> 0
     | Some c \<Rightarrow> if pc_status c \<in> set [''pending'', ''rejected''] then 1 else 0)"

definition sys_ok :: "agent_sys \<Rightarrow> bool" where
  "sys_ok x \<longleftrightarrow> uniq_ids pc_id (d_plan_cards (as_db x)) \<and>
     (\<forall>i. count_list (as_trace x) (Started i) + sum_list (map (jobs_on i) (as_tasks x)) + unspent i (as_db x)
        \<le> count_list (as_trace x) (Proposed i))"

lemma unspent_cong: "d_plan_cards d' = d_plan_cards d \<Longrightarrow> unspent i d' = unspent i d"
  by (simp add: unspent_def)

lemma unspent_audit [simp]: "unspent i (add_audit t a x g e ip d) = unspent i d"
  by (rule unspent_cong) simp

lemma upd_card_audit [simp]: "d_plan_cards (upd_card i f d) = upd_row pc_id i f (d_plan_cards d)"
  by (simp add: upd_card_def)

lemma unspent_upd_card:
  assumes "\<And>c. pc_id (f c) = pc_id c"
  shows "unspent i (upd_card k f d) = (if i = k then (case get_row pc_id (d_plan_cards d) k of None \<Rightarrow> 0
      | Some c \<Rightarrow> if pc_status (f c) \<in> set [''pending'', ''rejected''] then 1 else 0) else unspent i d)"
  by (simp add: unspent_def get_row_upd_row [of pc_id f, OF assms] split: option.split)

lemma unspent_le_filter:
  assumes "uniq_ids pc_id (d_plan_cards d)"
    and "d_plan_cards d' = map g (filter P (d_plan_cards d))" and "\<And>c. pc_id (g c) = pc_id c \<and> pc_status (g c) = pc_status c"
  shows "unspent i d' \<le> unspent i d"
proof (cases "get_row pc_id (filter P (d_plan_cards d)) i")
  case (Some c)
  then have "get_row pc_id (d_plan_cards d) i = Some c"
    using assms(1) get_row_SomeD [OF Some] by (auto simp: get_row_iff)
  then show ?thesis
    using Some assms(2,3) by (simp add: unspent_def get_row_map)
qed (simp add: unspent_def assms(2,3) get_row_map)

lemma uniq_upd_card: "(\<And>c. pc_id (f c) = pc_id c) \<Longrightarrow> uniq_ids pc_id (d_plan_cards d) \<Longrightarrow> uniq_ids pc_id (d_plan_cards (upd_card k f d))"
  by (simp add: uniq_ids_upd_row)

lemma chat_delete_spends:
  assumes "uniq_ids pc_id (d_plan_cards d)"
  shows "uniq_ids pc_id (d_plan_cards (snd (chat_delete cid s d))) \<and> unspent i (snd (chat_delete cid s d)) \<le> unspent i d"
proof -
  have u: "uniq_ids pc_id (d_plan_cards (fk_delete_conversation cid d))"
    using assms by (simp add: fk_delete_conversation_def uniq_ids_def del_rows_def comp_def distinct_map_filter)
  have "unspent i (fk_delete_conversation cid d) \<le> unspent i d"
    by (rule unspent_le_filter [OF assms, where P = "\<lambda>p. pc_conversation_id p \<noteq> cid" and g = "\<lambda>p. p\<lparr>pc_message_id := null_if
        (\<lambda>x. \<exists>m \<in> set (d_messages d). cm_id m = x \<and> cm_conversation_id m = cid) (pc_message_id p)\<rparr>"])
      (simp_all add: fk_delete_conversation_def del_rows_def)
  with u show ?thesis
    using assms by (auto simp: chat_delete_def split: on_ok_split option.split)
qed

lemma own_card_InrD: "own_card_or_404 d cid i uid = Inr (cv, c) \<Longrightarrow> get_row cv_id (d_conversations d) cid = Some cv \<and> cv_user_id cv = Some uid \<and>
    get_row pc_id (d_plan_cards d) i = Some c \<and> pc_id c = i \<and> pc_conversation_id c = cid"
  by (auto simp: own_card_or_404_def dest: get_row_SomeD split: option.splits if_splits)

lemma unspent_upd_le:
  assumes "\<And>c. pc_id (f c) = pc_id c"
    and "\<And>c. get_row pc_id (d_plan_cards d) k = Some c \<Longrightarrow> pc_status (f c) \<in> set [''pending'', ''rejected''] \<Longrightarrow>
      pc_status c \<in> set [''pending'', ''rejected'']"
  shows "unspent i (upd_card k f d) \<le> unspent i d"
  using assms(2) by (auto simp: unspent_upd_card [of f, OF assms(1)] unspent_def [of k d] split: option.split)

lemma plan_reject_spends:
  assumes "uniq_ids pc_id (d_plan_cards d)"
  shows "uniq_ids pc_id (d_plan_cards (snd (plan_reject cid k s d))) \<and> unspent i (snd (plan_reject cid k s d)) \<le> unspent i d"
  using assms
  by (auto simp: plan_reject_def uniq_ids_upd_row dest!: own_card_InrD split: on_ok_split prod.split intro!: unspent_upd_le)

lemma plan_approve_end:
  assumes "plan_approve allow cid k f s d = Inl (r, d')" and "uniq_ids pc_id (d_plan_cards d)"
  shows "uniq_ids pc_id (d_plan_cards d') \<and> unspent i d' \<le> unspent i d"
  using assms
  by (auto simp: plan_approve_def Let_def uniq_ids_upd_row dest!: own_card_InrD
      split: sum.splits prod.splits option.splits if_splits intro!: unspent_upd_le)

lemma plan_approve_claim:
  assumes "plan_approve allow cid k f s d = Inr (d', t)"
  obtains u cv c spec a0 a tier where "require_operator ''/chat/plan/approve'' s d = Inr u"
    and "own_card_or_404 d cid k (u_id u) = Inr (cv, c)" and "pc_status c = ''pending''" and "get_action (pc_tool c) = Some spec"
    and "card_args (pc_args c) = Inr a0" and "a = apply_edits f (sp_fields spec) a0" and "card_tier allow spec a = Inr tier"
    and "confirmed spec tier a f"
    and "t = \<lparr>tk_conv = cid, tk_tenant = cv_tenant_id cv, tk_user = u_id u, tk_group = False,
          tk_jobs = [\<lparr>j_card = pc_id c, j_tool = pc_tool c, j_args = JObj a\<rparr>], tk_result = None\<rparr>"
    and "d' = add_audit None (Some (u_id u)) ''agent.plan.approve'' (Some (card_target (pc_id c))) (Some (''tool='' @ pc_tool c @ '' tier='' @ tier)) None
          (upd_card (pc_id c) (approve_card u a tier (d_now d)) d)"
  using assms
  by (auto simp: plan_approve_def Let_def split: sum.splits prod.splits option.splits if_splits)

lemma approve_card_simps [simp]: "pc_id (approve_card u a tier now c) = pc_id c" "pc_status (approve_card u a tier now c) = ''approved''"
  by (simp_all add: approve_card_def)

lemma plan_approve_spends:
  assumes "plan_approve allow cid k f s d = Inr (d', t)" and "uniq_ids pc_id (d_plan_cards d)"
  shows "uniq_ids pc_id (d_plan_cards d') \<and> jobs_on i t + unspent i d' \<le> unspent i d"
  using assms(1)
proof (rule plan_approve_claim)
  fix u cv c spec a0 a tier
  assume h: "own_card_or_404 d cid k (u_id u) = Inr (cv, c)" "pc_status c = ''pending''"
    "t = \<lparr>tk_conv = cid, tk_tenant = cv_tenant_id cv, tk_user = u_id u, tk_group = False,
          tk_jobs = [\<lparr>j_card = pc_id c, j_tool = pc_tool c, j_args = JObj a\<rparr>], tk_result = None\<rparr>"
    "d' = add_audit None (Some (u_id u)) ''agent.plan.approve'' (Some (card_target (pc_id c))) (Some (''tool='' @ pc_tool c @ '' tier='' @ tier)) None
          (upd_card (pc_id c) (approve_card u a tier (d_now d)) d)"
  have "get_row pc_id (d_plan_cards d) (pc_id c) = Some c"
    using own_card_InrD [OF h(1)] by auto
  then show ?thesis
    using assms(2) h by (simp add: uniq_ids_upd_row unspent_upd_card jobs_on_def todo_def) (simp add: unspent_def)
qed

lemma group_claim_spends:
  assumes "uniq_ids pc_id (d_plan_cards d)" and "distinct (map pc_id cs)" and "\<And>c. c \<in> set cs \<Longrightarrow> unspent (pc_id c) d = 1"
  shows "uniq_ids pc_id (d_plan_cards (fst (group_claim u cs d))) \<and>
    length (filter (\<lambda>j. j_card j = i) (snd (group_claim u cs d))) + unspent i (fst (group_claim u cs d)) \<le> unspent i d"
  using assms
proof (induction u cs d rule: group_claim.induct)
  case (2 u c cs d)
  have "pc_id c \<notin> pc_id ` set cs"
    using 2(4) by simp
  then have ne: "pc_id x \<noteq> pc_id c" if "x \<in> set cs" for x
    using that by (metis imageI)
  show ?case
  proof (cases "get_action (pc_tool c)")
    case None
    let ?d = "upd_card (pc_id c) (\<lambda>x. x\<lparr>pc_status := ''failed'', pc_result := Some (Some (unknown_tool_result (pc_tool c)))\<rparr>) d"
    have un: "unspent k ?d = (if k = pc_id c then 0 else unspent k d)" for k
      by (simp add: unspent_upd_card split: option.split)
    have "unspent (pc_id x) ?d = 1" if "x \<in> set cs" for x
      using ne [OF that] 2(5) [of x] that by (simp add: un)
    then have "uniq_ids pc_id (d_plan_cards (fst (group_claim u cs ?d))) \<and>
        length (filter (\<lambda>j. j_card j = i) (snd (group_claim u cs ?d))) + unspent i (fst (group_claim u cs ?d)) \<le> unspent i ?d"
      using 2(3,4) by (intro 2(1) [OF None]) (simp_all add: uniq_ids_upd_row)
    then show ?thesis
      using None un [of i] by (auto split: if_splits)
  next
    case (Some sp)
    define a where "a = (case pc_args c of None \<Rightarrow> JObj [] | Some j \<Rightarrow> j)"
    let ?d = "add_audit None (Some (u_id u)) ''agent.plan.approve'' (Some (card_target (pc_id c)))
        (Some (''tool='' @ pc_tool c @ '' tier=safe group=true'')) None
        (upd_card (pc_id c) (\<lambda>x. x\<lparr>pc_effective_args := Some (Some a), pc_status := ''approved'', pc_approver_id := Some (u_id u),
           pc_approved_at := Some (d_now d)\<rparr>) d)"
    have un: "unspent k (upd_card (pc_id c) (\<lambda>x. x\<lparr>pc_effective_args := Some (Some a), pc_status := ''approved'', pc_approver_id := Some (u_id u),
           pc_approved_at := Some (d_now d)\<rparr>) d) = (if k = pc_id c then 0 else unspent k d)" for k
      by (simp add: unspent_upd_card split: option.split)
    have "unspent (pc_id x) ?d = 1" if "x \<in> set cs" for x
      using ne [OF that] 2(5) [of x] that by (simp add: un)
    then have ih: "uniq_ids pc_id (d_plan_cards (fst (group_claim u cs ?d))) \<and>
        length (filter (\<lambda>j. j_card j = i) (snd (group_claim u cs ?d))) + unspent i (fst (group_claim u cs ?d)) \<le> unspent i ?d"
      using 2(3,4) by (intro 2(2) [OF Some a_def]) (simp_all add: uniq_ids_upd_row)
    have "group_claim u (c # cs) d = (fst (group_claim u cs ?d), \<lparr>j_card = pc_id c, j_tool = pc_tool c, j_args = a\<rparr> # snd (group_claim u cs ?d))"
      using Some by (simp add: a_def Let_def split_def)
    then show ?thesis
      using ih un [of i] 2(5) [of c] by auto
  qed
qed simp

lemma approve_group_end:
  assumes "plan_approve_group cid mid s d = Inl (r, d')"
  shows "d' = d"
  using assms by (auto simp: plan_approve_group_def Let_def split: sum.splits option.splits prod.splits if_splits)

lemma approve_group_claim:
  assumes "plan_approve_group cid mid s d = Inr (d', t)"
  obtains u cv cs where "require_operator ''/chat/plan/approve_group'' s d = Inr u"
    and "get_row cv_id (d_conversations d) cid = Some cv" and "cv_user_id cv = Some (u_id u)"
    and "cs = sort_key pc_id (filter (claimable cid mid) (d_plan_cards d))"
    and "d' = fst (group_claim u cs d)"
    and "t = \<lparr>tk_conv = cid, tk_tenant = cv_tenant_id cv, tk_user = u_id u, tk_group = True, tk_jobs = snd (group_claim u cs d), tk_result = None\<rparr>"
  using assms
  by (auto simp: plan_approve_group_def Let_def split: sum.splits option.splits prod.splits if_splits)

lemma approve_group_spends:
  assumes "plan_approve_group cid mid s d = Inr (d', t)" and "uniq_ids pc_id (d_plan_cards d)"
  shows "uniq_ids pc_id (d_plan_cards d') \<and> jobs_on i t + unspent i d' \<le> unspent i d"
  using assms(1)
proof (rule approve_group_claim)
  fix u cv cs
  assume h: "cs = sort_key pc_id (filter (claimable cid mid) (d_plan_cards d))" "d' = fst (group_claim u cs d)"
    "t = \<lparr>tk_conv = cid, tk_tenant = cv_tenant_id cv, tk_user = u_id u, tk_group = True, tk_jobs = snd (group_claim u cs d), tk_result = None\<rparr>"
  have "distinct (map pc_id cs)"
    using assms(2) by (simp add: h(1) uniq_ids_def distinct_map_filter distinct_map inj_on_def)
  moreover have "unspent (pc_id c) d = 1" if "c \<in> set cs" for c
    using that assms(2) by (auto simp: h(1) unspent_def claimable_def get_row_in)
  ultimately show ?thesis
    using group_claim_spends [OF assms(2), of cs u i] h by (simp add: jobs_on_def todo_def)
qed

text \<open>The cards a reply adds are pending, and their ids are the proposals of the trace.\<close>

lemma add_cards_spends:
  assumes "uniq_ids pc_id (d_plan_cards d)"
  shows "\<exists>cs. d_plan_cards (add_cards cid mid ps d) = d_plan_cards d @ cs \<and> uniq_ids pc_id (d_plan_cards d @ cs) \<and>
    unspent i (add_cards cid mid ps d) \<le> unspent i d + count_list (map (\<lambda>c. Proposed (pc_id c)) cs) (Proposed i)"
  using assms
proof (induction cid mid ps d rule: add_cards.induct)
  case (2 cid mid tool a tier ps d)
  let ?c = "\<lparr>pc_id = next_id pc_id (d_plan_cards d), pc_conversation_id = cid, pc_message_id = Some mid, pc_tool = tool, pc_args = Some (JObj a),
       pc_effective_args = None, pc_rationale = None, pc_rollback = None, pc_tier = tier, pc_status = ''pending'', pc_result = None,
       pc_approver_id = None, pc_approved_at = None, pc_created_at = d_now d\<rparr>"
  let ?d = "d\<lparr>d_plan_cards := d_plan_cards d @ [?c]\<rparr>"
  obtain cs where "d_plan_cards (add_cards cid mid ps ?d) = d_plan_cards ?d @ cs" "uniq_ids pc_id (d_plan_cards ?d @ cs)"
      "unspent i (add_cards cid mid ps ?d) \<le> unspent i ?d + count_list (map (\<lambda>c. Proposed (pc_id c)) cs) (Proposed i)"
    using 2 uniq_ids_append_new [of pc_id "d_plan_cards d" ?c] by auto
  moreover have "unspent i ?d \<le> unspent i d + (if pc_id ?c = i then 1 else 0)"
    by (auto simp: unspent_def get_row_append get_row_Cons split: option.split)
  ultimately show ?case
    by (intro exI [of _ "?c # cs"]) (auto split: if_splits)
qed simp

lemma persist_reply_spends:
  assumes "persist_reply allow model cid actor p d = Inr d'" and "uniq_ids pc_id (d_plan_cards d)"
  shows "uniq_ids pc_id (d_plan_cards d') \<and> unspent i d' \<le> unspent i d + count_list (proposals d d') (Proposed i)"
proof -
  obtain cards mid ms where c: "d_plan_cards d' = d_plan_cards (add_cards cid mid cards (d\<lparr>d_messages := ms\<rparr>))"
    using assms(1) by (auto simp: persist_reply_def Let_def bind_r_Inr_iff split: option.splits)
  moreover have "unspent i d' = unspent i (add_cards cid mid cards (d\<lparr>d_messages := ms\<rparr>))"
    using c by (rule unspent_cong)
  moreover have "unspent i (d\<lparr>d_messages := ms\<rparr>) = unspent i d"
    by (rule unspent_cong) simp
  ultimately show ?thesis
    using add_cards_spends [of "d\<lparr>d_messages := ms\<rparr>" cid mid cards i] assms(2) by (auto simp: proposals_def)
qed

lemma finish_job_spends:
  assumes "finish_job t j r d = Inr d'" and "uniq_ids pc_id (d_plan_cards d)"
  shows "uniq_ids pc_id (d_plan_cards d') \<and> unspent i d' \<le> unspent i d"
proof -
  let ?f = "\<lambda>c. c\<lparr>pc_result := Some (Some (JObj (result_dict r))), pc_status := (if ar_ok r then ''executed'' else ''failed'')\<rparr>"
  have "d_plan_cards d' = d_plan_cards (upd_card (j_card j) ?f d)"
    using assms(1) by (auto simp: finish_job_def Let_def split: option.splits)
  then show ?thesis
    using uniq_upd_card [of ?f] unspent_upd_le [of ?f d "j_card j" i] assms(2) unspent_cong [of d' "upd_card (j_card j) ?f d" i]
    by (auto split: if_splits)
qed

lemma sys_ok_step:
  assumes "sys_ok x" and "uniq_ids pc_id (d_plan_cards (as_db y))"
    and "\<And>i. count_list (as_trace y) (Started i) + sum_list (map (jobs_on i) (as_tasks y)) + unspent i (as_db y) + count_list (as_trace x) (Proposed i)
      \<le> count_list (as_trace x) (Started i) + sum_list (map (jobs_on i) (as_tasks x)) + unspent i (as_db x) + count_list (as_trace y) (Proposed i)"
  shows "sys_ok y"
  unfolding sys_ok_def
proof (intro conjI allI assms(2))
  fix i
  have "count_list (as_trace x) (Started i) + sum_list (map (jobs_on i) (as_tasks x)) + unspent i (as_db x) \<le> count_list (as_trace x) (Proposed i)"
    using assms(1) by (simp add: sys_ok_def)
  then show "count_list (as_trace y) (Started i) + sum_list (map (jobs_on i) (as_tasks y)) + unspent i (as_db y) \<le> count_list (as_trace y) (Proposed i)"
    using assms(3) [of i] by linarith
qed

section \<open>The contract of a runner\<close>

locale card_runner =
  fixes run :: action_runner
  assumes keeps_cards: "d_plan_cards (snd (run tool a tid d)) = d_plan_cards d"
begin

lemma run_job_cards: "run_job run t tool a d = (r, d') \<Longrightarrow> d_plan_cards d' = d_plan_cards d"
  using keeps_cards [of tool a "Some (tk_tenant t)" d] by (auto simp: run_job_def split: prod.splits sum.splits)

lemma jobs_upd: "k < length ts \<Longrightarrow> ts ! k = t \<Longrightarrow>
    sum_list (map (jobs_on i) (ts[k := t'])) + jobs_on i t = sum_list (map (jobs_on i) ts) + jobs_on i t'"
proof -
  assume k: "k < length ts" "ts ! k = t"
  have "jobs_on i (ts ! k) \<le> sum_list (map (jobs_on i) ts)"
    using elem_le_sum_list [of k "map (jobs_on i) ts"] k(1) by simp
  then show ?thesis
    using k sum_list_update [of k "map (jobs_on i) ts" "jobs_on i t'"] by (simp add: map_update)
qed

lemma step_ok:
  assumes "agent_step allow model run x y" and "sys_ok x"
  shows "sys_ok y"
proof -
  have uq: "uniq_ids pc_id (d_plan_cards (as_db x))"
    using assms(2) by (simp add: sys_ok_def)
  show ?thesis
  using assms(1)
proof cases
  case (st_other d')
  then show ?thesis
    using assms(2) unspent_cong [OF st_other(2)] by (simp add: sys_ok_def)
next
  case (st_reply cid actor p d')
  have "count_list (proposals (as_db x) d') (Started i) = 0" for i
    by (auto simp: proposals_def count_list_0_iff)
  then show ?thesis
    using st_reply(1) persist_reply_spends [OF st_reply(2)] uq by (intro sys_ok_step [OF assms(2)]) simp_all
next
  case (st_delete cid s)
  then show ?thesis
    using chat_delete_spends [OF uq] by (intro sys_ok_step [OF assms(2)]) simp_all
next
  case (st_reject cid i s)
  then show ?thesis
    using plan_reject_spends [OF uq] by (intro sys_ok_step [OF assms(2)]) simp_all
next
  case (st_approve_end cid i f s r d')
  then show ?thesis
    using plan_approve_end [OF st_approve_end(2) uq] by (intro sys_ok_step [OF assms(2)]) simp_all
next
  case (st_approve cid i f s d' t)
  then show ?thesis
    using plan_approve_spends [OF st_approve(2) uq] by (intro sys_ok_step [OF assms(2)]) simp_all
next
  case (st_group_end cid mid s r d')
  then show ?thesis
    using approve_group_end [OF st_group_end(2)] assms(2) by simp
next
  case (st_group cid mid s d' t)
  then show ?thesis
    using approve_group_spends [OF st_group(2) uq] by (intro sys_ok_step [OF assms(2)]) simp_all
next
  case (st_start k t j js a r d')
  have "jobs_on i t = (if j_card j = i then 1 else 0) + jobs_on i (t\<lparr>tk_result := Some r\<rparr>)" for i
    using st_start by (simp add: jobs_on_def todo_def)
  then have "sum_list (map (jobs_on i) ((as_tasks x)[k := t\<lparr>tk_result := Some r\<rparr>])) + (if j_card j = i then 1 else 0) = sum_list (map (jobs_on i) (as_tasks x))" for i
    using jobs_upd [OF st_start(2,3), of i "t\<lparr>tk_result := Some r\<rparr>"] by simp
  note n = this
  have c: "d_plan_cards d' = d_plan_cards (as_db x)"
    using run_job_cards st_start by blast
  show ?thesis
  proof (rule sys_ok_step [OF assms(2)])
    fix i
    show "count_list (as_trace y) (Started i) + sum_list (map (jobs_on i) (as_tasks y)) + unspent i (as_db y) + count_list (as_trace x) (Proposed i)
      \<le> count_list (as_trace x) (Started i) + sum_list (map (jobs_on i) (as_tasks x)) + unspent i (as_db x) + count_list (as_trace y) (Proposed i)"
      using n [of i] unspent_cong [OF c, of i] by (simp add: st_start(1) split: if_splits)
  qed (simp add: st_start(1) c uq)
next
  case (st_finish k t j js r d')
  have "sum_list (map (jobs_on i) ((as_tasks x)[k := t\<lparr>tk_jobs := js, tk_result := None\<rparr>])) = sum_list (map (jobs_on i) (as_tasks x))" for i
    using jobs_upd [OF st_finish(2,3), of i "t\<lparr>tk_jobs := js, tk_result := None\<rparr>"] st_finish(4,5) by (simp add: jobs_on_def todo_def)
  then show ?thesis
    using finish_job_spends [OF st_finish(6) uq] st_finish(1) by (intro sys_ok_step [OF assms(2)]) simp_all
next
  case (st_abort k)
  have "sum_list (map (jobs_on i) ((as_tasks x)[k := (as_tasks x ! k)\<lparr>tk_jobs := [], tk_result := None\<rparr>])) \<le> sum_list (map (jobs_on i) (as_tasks x))" for i
    using jobs_upd [OF st_abort(2) refl, of i "(as_tasks x ! k)\<lparr>tk_jobs := [], tk_result := None\<rparr>"] by (simp add: jobs_on_def todo_def)
  then show ?thesis
    using st_abort(1) uq by (intro sys_ok_step [OF assms(2)]) simp_all
qed
qed

lemma run_ok: "agent_run allow model run x y \<Longrightarrow> sys_ok x \<Longrightarrow> sys_ok y"
  by (induction rule: agent_run.induct) (auto intro: step_ok)

end

section \<open>Properties\<close>

lemma unspent_initial:
  assumes "uniq_ids pc_id (d_plan_cards d)"
  shows "unspent i d \<le> count_list (map (\<lambda>c. Proposed (pc_id c)) (filter (\<lambda>c. pc_status c \<in> set [''pending'', ''rejected'']) (d_plan_cards d))) (Proposed i)"
proof (cases "get_row pc_id (d_plan_cards d) i")
  case (Some c)
  have "0 < count_list (map (\<lambda>c. Proposed (pc_id c)) (filter (\<lambda>c. pc_status c \<in> set [''pending'', ''rejected'']) (d_plan_cards d))) (Proposed i)"
    if "pc_status c \<in> set [''pending'', ''rejected'']"
    using that get_row_SomeD [OF Some] by (force simp: neq0_conv [symmetric] count_list_0_iff)
  then show ?thesis
    using Some by (auto simp: unspent_def)
qed (simp add: unspent_def)


definition demo_conv :: "int \<Rightarrow> int \<Rightarrow> conversation" where
  "demo_conv i uid = \<lparr>cv_id = i, cv_tenant_id = 1, cv_user_id = Some uid, cv_title = ''t'', cv_created_at = 0, cv_updated_at = 0,
     cv_model = None, cv_mode = ''agent''\<rparr>"

definition demo_card :: "int \<Rightarrow> string \<Rightarrow> dict \<Rightarrow> string \<Rightarrow> string \<Rightarrow> plan_card" where
  "demo_card i tool a tier st = \<lparr>pc_id = i, pc_conversation_id = 1, pc_message_id = Some 1, pc_tool = tool, pc_args = Some (JObj a),
     pc_effective_args = None, pc_rationale = None, pc_rollback = None, pc_tier = tier, pc_status = st, pc_result = None,
     pc_approver_id = None, pc_approved_at = None, pc_created_at = 0\<rparr>"

definition demo_chat :: db where
  \<comment> \<open>a conversation of user 1 with an elevated, a safe and a rejected card\<close>
  "demo_chat = demo_db\<lparr>d_conversations := [demo_conv 1 1],
     d_plan_cards := [demo_card 1 ''delete_host'' [(''name'', JStr ''web'')] ''elevated'' ''pending'',
       demo_card 2 ''local_exec'' [(''command'', JStr ''uptime'')] ''safe'' ''pending'',
       demo_card 3 ''delete_host'' [(''name'', JStr ''db'')] ''elevated'' ''rejected'']\<rparr>"

definition demo_sys :: agent_sys where
  "demo_sys = \<lparr>as_db = demo_chat, as_tasks = [], as_trace = [Proposed 1, Proposed 2, Proposed 3]\<rparr>"

definition idle_runner :: action_runner where
  "idle_runner tool a tid d = (Inr (plain_result True ''done''), d)"

interpretation idle: card_runner idle_runner
  by unfold_locales (simp add: idle_runner_def)

lemma demo_group_run:
  "\<exists>y. agent_run default_allow_list ''m'' idle_runner demo_sys y \<and> as_trace y = [Proposed 1, Proposed 2, Proposed 3, Started 2]"
proof -
  obtain d1 t where g: "plan_approve_group 1 1 (demo_session 1) demo_chat = Inr (d1, t)"
      and t: "tk_jobs t = [\<lparr>j_card = 2, j_tool = ''local_exec'', j_args = JObj [(''command'', JStr ''uptime'')]\<rparr>]" "tk_result t = None"
  proof -
    have "case plan_approve_group 1 1 (demo_session 1) demo_chat of Inl _ \<Rightarrow> False
        | Inr (_, t) \<Rightarrow> tk_jobs t = [\<lparr>j_card = 2, j_tool = ''local_exec'', j_args = JObj [(''command'', JStr ''uptime'')]\<rparr>] \<and> tk_result t = None"
      by code_simp
    then show ?thesis
      using that by (auto split: sum.splits)
  qed
  let ?x1 = "demo_sys\<lparr>as_db := d1, as_tasks := [t]\<rparr>"
  have a: "agent_step default_allow_list ''m'' idle_runner demo_sys ?x1"
    using st_group [of 1 1 "demo_session 1" demo_sys d1 t default_allow_list "''m''" idle_runner] g by (simp add: demo_sys_def)
  have b: "agent_step default_allow_list ''m'' idle_runner ?x1
      (?x1\<lparr>as_db := d1, as_tasks := [t\<lparr>tk_result := Some (plain_result True ''done'')\<rparr>], as_trace := as_trace demo_sys @ [Started 2]\<rparr>)"
    using st_start [of 0 ?x1 t _ "[]" "[(''command'', JStr ''uptime'')]" idle_runner "plain_result True ''done''" d1 default_allow_list "''m''"] t
    by (simp add: run_job_def idle_runner_def)
  have "agent_run default_allow_list ''m'' idle_runner demo_sys
      (?x1\<lparr>as_db := d1, as_tasks := [t\<lparr>tk_result := Some (plain_result True ''done'')\<rparr>], as_trace := as_trace demo_sys @ [Started 2]\<rparr>)"
    by (rule run_step [OF run_step [OF run_refl a] b])
  then show ?thesis
    by (intro exI [of _ "?x1\<lparr>as_db := d1, as_tasks := [t\<lparr>tk_result := Some (plain_result True ''done'')\<rparr>], as_trace := as_trace demo_sys @ [Started 2]\<rparr>"])
      (simp add: demo_sys_def)
qed




lemma group_claim_jobs: "snd (group_claim u cs d) = map (\<lambda>c. \<lparr>j_card = pc_id c, j_tool = pc_tool c,
    j_args = (case pc_args c of None \<Rightarrow> JObj [] | Some x \<Rightarrow> x)\<rparr>) (filter (\<lambda>c. get_action (pc_tool c) \<noteq> None) cs)"
  by (induction cs arbitrary: d) (simp_all add: Let_def split_def split: option.split)

text \<open>A group approval claims, for the owner of the conversation only, just cards of that message
  that were pending and of the safe tier, with the arguments the model proposed.\<close>

theorem group_claims_only_safe:
  assumes "plan_approve_group cid mid s d = Inr (d', t)" and "j \<in> set (tk_jobs t)"
  shows "\<exists>u cv c. get_current_user s d = Some u \<and> user_has_role (Some u) Operator \<and>
    get_row cv_id (d_conversations d) cid = Some cv \<and> cv_user_id cv = Some (u_id u) \<and> tk_tenant t = cv_tenant_id cv \<and>
    c \<in> set (d_plan_cards d) \<and> pc_id c = j_card j \<and> pc_tool c = j_tool j \<and> pc_conversation_id c = cid \<and> pc_message_id c = Some mid \<and>
    pc_status c = ''pending'' \<and> pc_tier c = ''safe'' \<and> j_args j = (case pc_args c of None \<Rightarrow> JObj [] | Some x \<Rightarrow> x)"
  using assms(1)
proof (rule approve_group_claim)
  fix u cv cs
  assume h: "require_operator ''/chat/plan/approve_group'' s d = Inr u" "get_row cv_id (d_conversations d) cid = Some cv" "cv_user_id cv = Some (u_id u)"
    "cs = sort_key pc_id (filter (claimable cid mid) (d_plan_cards d))"
    "t = \<lparr>tk_conv = cid, tk_tenant = cv_tenant_id cv, tk_user = u_id u, tk_group = True, tk_jobs = snd (group_claim u cs d), tk_result = None\<rparr>"
  have u: "get_current_user s d = Some u" "user_has_role (Some u) Operator"
    using h(1) get_current_user_SomeD [of s d u]
    by (auto simp: require_role_def require_user_def bind_r_Inr_iff user_has_role_def split: option.splits if_splits)
  obtain c where "c \<in> set cs" "j_card j = pc_id c" "j_tool j = pc_tool c" "j_args j = (case pc_args c of None \<Rightarrow> JObj [] | Some x \<Rightarrow> x)"
    using assms(2) h(5) by (auto simp: group_claim_jobs)
  then show ?thesis
    using u h by (intro exI [of _ u] exI [of _ cv] exI [of _ c]) (auto simp: claimable_def)
qed

theorem group_claims_only_safe_witness:
  "\<exists>d' t. plan_approve_group 1 1 (demo_session 1) demo_chat = Inr (d', t) \<and> map j_card (tk_jobs t) = [2] \<and>
     (\<exists>c. c \<in> set (d_plan_cards demo_chat) \<and> pc_id c = 2 \<and> pc_tier c = ''safe'')"
proof -
  have "case plan_approve_group 1 1 (demo_session 1) demo_chat of Inl _ \<Rightarrow> False | Inr (_, t) \<Rightarrow> map j_card (tk_jobs t) = [2]"
    by code_simp
  then obtain d' t where p: "plan_approve_group 1 1 (demo_session 1) demo_chat = Inr (d', t)" "map j_card (tk_jobs t) = [2]"
    by (auto split: sum.splits)
  then obtain j where j: "j \<in> set (tk_jobs t)" "j_card j = 2"
    by (metis list.set_intros(1) list.simps(9) map_eq_Cons_conv)
  show ?thesis
    using group_claims_only_safe [OF p(1) j(1)] p j(2) by auto
qed

lemma glob_literal_star: "glob_match (map Literal p @ [Star]) (p @ s)"
proof (induction p)
  case Nil
  have "glob_match [Star] s"
    by (induction s) auto
  then show ?case
    by simp
qed simp

text \<open>The default allow list does not look at what follows: any command that begins with
  \<open>ls\<close> and a space, whatever else it runs, classifies as safe, so none of the command tools asks for
  the typed confirmation.\<close>

theorem allow_list_admits_chains:
  assumes "rest \<noteq> []" and "\<not> py_isspace (last rest)" and "sp_name spec \<in> set COMMAND_CLASSIFY_TOOLS"
  shows "card_tier default_allow_list spec [(''command'', JStr (''ls '' @ rest))] = Inr ''safe'' \<and>
    confirmed spec ''safe'' a f"
proof -
  have st: "py_strip (''ls '' @ rest) = ''ls '' @ rest"
    using assms(1,2) by (intro py_strip_fixed) (simp add: py_isspace_def code_point_def)
  have "glob_tokens ''ls *'' = map Literal ''ls '' @ [Star]"
    by code_simp
  then have "fnmatch (''ls '' @ rest) ''ls *''"
    using glob_literal_star [of "''ls ''" rest] by (simp add: fnmatch_def)
  moreover have "''ls *'' \<in> set default_allow_list"
    by (simp add: default_allow_list_def)
  ultimately have "classify_command default_allow_list (''ls '' @ rest) = ''safe''"
    unfolding classify_command_def st Let_def by auto
  then show ?thesis
    using assms(3) by (simp add: card_tier_def dict_get_def confirmed_def)
qed

theorem allow_list_admits_chains_witness:
  "card_tier default_allow_list LOCAL_EXEC [(''command'', JStr ''ls x; rm -rf /'')] = Inr ''safe''"
proof -
  have "\<not> py_isspace (last ''x; rm -rf /'')"
    by code_simp
  then show ?thesis
    using allow_list_admits_chains [of "''x; rm -rf /''" LOCAL_EXEC]
    by (simp add: LOCAL_EXEC_def COMMAND_CLASSIFY_TOOLS_def)
qed

end
