(* ===== verification/Dosm_Actions.thy ===== *)
theory Dosm_Actions
  imports Dosm_Agent
begin

text \<open>
  The action runners of \<open>dosm/agent/actions.py\<close> that work on the database: hosts, pipelines and
  credential profiles. A runner takes the JSON arguments of the approved card and the tenant the agent
  works in (\<open>None\<close>: all tenants) and gives the result shown in the chat, or the exception that leaves
  it. \<open>session_scope\<close> commits when its block is left normally, also by a \<open>return\<close> in it, and rolls back
  on an exception. The environment holds what the code only calls: the pipeline providers, the secrets
  backend, \<open>int()\<close> of a float, the texts of exceptions and of JSON errors, and what the database driver
  does with a value that is no text. The runners that open SSH, WinRM or local processes, write
  documents or ask a directory server stay a parameter.
\<close>

section \<open>Reading arguments\<close>

record action_env =
  ax_pipe :: pipe_env
  ax_backend :: secret_backend
  ax_float_int :: "string \<Rightarrow> py_exception + int"
  ax_exn :: "string \<Rightarrow> py_exception"
  ax_json_error :: "string \<Rightarrow> string"
  ax_bind_text :: "json \<Rightarrow> py_exception + string"
  ax_ms :: int

definition py_exn :: "string \<Rightarrow> string \<Rightarrow> py_exception" where
  "py_exn t m = \<lparr>ex_type = t, ex_str = m, ex_repr = t @ ''('' @ py_repr m @ '')''\<rparr>"

definition py_type_name :: "json \<Rightarrow> string" where
  "py_type_name v = (case v of JNull \<Rightarrow> ''NoneType'' | JBool _ \<Rightarrow> ''bool'' | JInt _ \<Rightarrow> ''int'' | JFloat _ \<Rightarrow> ''float''
     | JStr _ \<Rightarrow> ''str'' | JArr _ \<Rightarrow> ''list'' | JObj _ \<Rightarrow> ''dict'')"

definition no_attribute :: "json \<Rightarrow> string \<Rightarrow> py_exception" where
  "no_attribute v m = py_exn ''AttributeError''
     (py_repr (py_type_name v) @ '' object has no attribute '' @ py_repr m)"

definition strip_json :: "json \<Rightarrow> py_exception + string" where
  "strip_json v = (case v of JStr s \<Rightarrow> Inr (py_strip s) | _ \<Rightarrow> Inl (no_attribute v ''strip''))"

definition arg_text :: "dict \<Rightarrow> string \<Rightarrow> string \<Rightarrow> py_exception + string" where
  \<comment> \<open>\<open>(args.get(k) or dflt).strip()\<close>\<close>
  "arg_text a k dflt = (case dict_get a k of None \<Rightarrow> Inr (py_strip dflt)
     | Some v \<Rightarrow> if json_truthy v then strip_json v else Inr (py_strip dflt))"

definition json_int :: "action_env \<Rightarrow> json \<Rightarrow> py_exception + int" where
  \<comment> \<open>\<open>int(v)\<close>\<close>
  "json_int X v = (case v of JInt i \<Rightarrow> Inr i | JBool b \<Rightarrow> Inr (if b then 1 else 0) | JFloat f \<Rightarrow> ax_float_int X f
     | JStr s \<Rightarrow> (case py_int s of Some i \<Rightarrow> Inr i
         | None \<Rightarrow> Inl (py_exn ''ValueError'' (''invalid literal for int() with base 10: '' @ py_repr s)))
     | _ \<Rightarrow> Inl (py_exn ''TypeError'' (''int() argument must be a string, a bytes-like object or a real number, not ''
         @ py_repr (py_type_name v))))"

definition int_except :: "action_env \<Rightarrow> json \<Rightarrow> (int \<Rightarrow> 'a) \<Rightarrow> 'a \<Rightarrow> py_exception + 'a" where
  \<comment> \<open>\<open>try: int(v)\<close>, \<open>except (TypeError, ValueError): dflt\<close>\<close>
  "int_except X v f dflt = (case json_int X v of Inr i \<Rightarrow> Inr (f i)
     | Inl e \<Rightarrow> if ex_type e \<in> set [''TypeError'', ''ValueError''] then Inr dflt else Inl e)"

definition optional_int :: "action_env \<Rightarrow> dict \<Rightarrow> string \<Rightarrow> py_exception + int option" where
  \<comment> \<open>\<open>int(x) if x else None\<close>\<close>
  "optional_int X a k = (case dict_get a k of None \<Rightarrow> Inr None
     | Some v \<Rightarrow> if json_truthy v then int_except X v Some None else Inr None)"

definition kept_int :: "action_env \<Rightarrow> dict \<Rightarrow> string \<Rightarrow> int option \<Rightarrow> py_exception + int option" where
  \<comment> \<open>\<open>int(x) if x is not None else old\<close>\<close>
  "kept_int X a k old = (case dict_get a k of None \<Rightarrow> Inr old | Some JNull \<Rightarrow> Inr old | Some v \<Rightarrow> int_except X v Some old)"

definition port_arg :: "action_env \<Rightarrow> dict \<Rightarrow> int \<Rightarrow> int \<Rightarrow> py_exception + int" where
  \<comment> \<open>\<open>int(args.get("port") or dflt)\<close> with a fallback\<close>
  "port_arg X a dflt fallback = (case dict_get a ''port'' of None \<Rightarrow> Inr dflt
     | Some v \<Rightarrow> if json_truthy v then int_except X v (\<lambda>i. i) fallback else Inr dflt)"

definition arg_flag :: "dict \<Rightarrow> string \<Rightarrow> bool" where
  "arg_flag a k = (case dict_get a k of None \<Rightarrow> False | Some v \<Rightarrow> json_truthy v)"

definition one_or_none :: "action_env \<Rightarrow> 'r list \<Rightarrow> py_exception + 'r option" where
  \<comment> \<open>\<open>scalar_one_or_none()\<close>\<close>
  "one_or_none X rs = (case rs of [] \<Rightarrow> Inr None | [r] \<Rightarrow> Inr (Some r) | _ \<Rightarrow> Inl (ax_exn X ''MultipleResultsFound''))"

type_synonym run_result = "(py_exception + action_result) \<times> db"

definition settle :: "db \<Rightarrow> py_exception + (action_result \<times> db) \<Rightarrow> run_result" where
  \<comment> \<open>an exception rolls back\<close>
  "settle d m = (case m of Inl e \<Rightarrow> (Inl e, d) | Inr (r, d') \<Rightarrow> (Inr r, d'))"

definition refuse :: "db \<Rightarrow> string \<Rightarrow> py_exception + (action_result \<times> db)" where
  "refuse d summary = Inr (plain_result False summary, d)"

definition fail_with :: "db \<Rightarrow> string \<Rightarrow> string \<Rightarrow> py_exception + (action_result \<times> db)" where
  "fail_with d summary err = Inr ((plain_result False summary)\<lparr>ar_stderr := err\<rparr>, d)"

definition fail_exn :: "db \<Rightarrow> string \<Rightarrow> py_exception \<Rightarrow> py_exception + (action_result \<times> db)" where
  \<comment> \<open>\<open>f"{prefix}: {type(e).__name__}: {e}"\<close>\<close>
  "fail_exn d pre e = fail_with d (pre @ '': '' @ ex_type e @ '': '' @ ex_str e) (ex_str e)"

definition done_with :: "db \<Rightarrow> string \<Rightarrow> dict \<Rightarrow> py_exception + (action_result \<times> db)" where
  "done_with d summary extra = Inr ((plain_result True summary)\<lparr>ar_extra := extra\<rparr>, d)"

definition agent_audit :: "int option \<Rightarrow> string \<Rightarrow> string \<Rightarrow> int \<Rightarrow> string \<Rightarrow> db \<Rightarrow> db" where
  "agent_audit t action kind i details d = add_audit t None action (Some (kind @ '':'' @ str_int i)) (Some details) None d"

section \<open>Hosts\<close>

definition find_host :: "action_env \<Rightarrow> db \<Rightarrow> string \<Rightarrow> int option \<Rightarrow> py_exception + host option" where
  "find_host X d name tid = one_or_none X (where_opt (tenant_clause h_tenant_id tid) (filter (\<lambda>h. h_name h = name) (d_hosts d)))"

definition agent_host_args :: "string \<Rightarrow> string \<Rightarrow> int \<Rightarrow> string \<Rightarrow> string option \<Rightarrow> int option \<Rightarrow> int option \<Rightarrow> string \<Rightarrow> bool \<Rightarrow> host_args" where
  \<comment> \<open>the runners leave the remaining parameters at their defaults\<close>
  "agent_host_args name hostname port protocol desc cred jump tags box = \<lparr>ha_name = name, ha_hostname = hostname,
     ha_port = port, ha_protocol = protocol, ha_description = desc, ha_credential_id = cred, ha_jump_host_id = jump,
     ha_tags_csv = tags, ha_is_jumpbox = box, ha_ft_method = None, ha_ft_port = None, ha_ft_credential_id = None,
     ha_org_unit_id = None\<rparr>"

definition default_port :: "string \<Rightarrow> int" where
  "default_port protocol = (if protocol = ''ssh'' then 22 else if protocol = ''rdp'' then 3389 else 5900)"

definition create_host_runner :: "action_env \<Rightarrow> dict \<Rightarrow> int option \<Rightarrow> db \<Rightarrow> run_result" where
  "create_host_runner X a tid d = settle d (case tid of
     None \<Rightarrow> refuse d ''select an active tenant before creating a host''
   | Some t \<Rightarrow>
     bind_r (arg_text a ''name'' []) (\<lambda>name. bind_r (arg_text a ''hostname'' []) (\<lambda>hostname.
     if name = [] \<or> hostname = [] then refuse d ''name and hostname are required'' else
     bind_r (arg_text a ''protocol'' ''ssh'') (\<lambda>protocol.
     bind_r (port_arg X a (default_port protocol) 22) (\<lambda>port.
     bind_r (arg_text a ''description'' []) (\<lambda>desc.
     bind_r (optional_int X a ''credential_id'') (\<lambda>cred.
     bind_r (optional_int X a ''jump_host_id'') (\<lambda>jump.
     bind_r (arg_text a ''tags'' []) (\<lambda>tags.
       (case create_host d t (agent_host_args name hostname port protocol (or_none desc) cred jump tags (arg_flag a ''is_jumpbox'')) None of
          Inl (Host_Validation e) \<Rightarrow> fail_with d (''Validation error: '' @ e) e
        | Inl (Host_Integrity e) \<Rightarrow> fail_exn d ''Create failed'' (ax_exn X e)
        | Inr (h, d1) \<Rightarrow> done_with (agent_audit (Some t) ''host.create'' ''host'' (h_id h) (''agent name='' @ name) d1)
            (''Created host '' @ py_repr name @ '' (id='' @ str_int (h_id h) @ '')'')
            [(''host_id'', JInt (h_id h)), (''host'', JStr name)]))))))))))"

definition description_arg :: "action_env \<Rightarrow> dict \<Rightarrow> string option \<Rightarrow> py_exception + string option" where
  \<comment> \<open>\<open>args.get("description", old)\<close>, stripped when it is text; \<open>Inl\<close>: the flush fails on the value\<close>
  "description_arg X a old = (case dict_get a ''description'' of
     None \<Rightarrow> Inr (case old of None \<Rightarrow> None | Some s \<Rightarrow> or_none (py_strip s))
   | Some (JStr s) \<Rightarrow> Inr (or_none (py_strip s))
   | Some v \<Rightarrow> if json_truthy v then bind_r (ax_bind_text X v) (\<lambda>s. Inr (Some s)) else Inr None)"

definition broken_session :: "action_env \<Rightarrow> py_exception" where
  \<comment> \<open>a \<open>return\<close> inside \<open>session_scope\<close> after a failed flush: the commit raises\<close>
  "broken_session X = ax_exn X ''PendingRollbackError''"

definition update_host_runner :: "action_env \<Rightarrow> dict \<Rightarrow> int option \<Rightarrow> db \<Rightarrow> run_result" where
  "update_host_runner X a tid d = settle d (
     bind_r (arg_text a ''name'' []) (\<lambda>name.
     if name = [] then refuse d ''name is required'' else
     bind_r (find_host X d name tid) (\<lambda>found. case found of
       None \<Rightarrow> refuse d (''Host '' @ py_repr name @ '' not found'')
     | Some h \<Rightarrow>
     bind_r (arg_text a ''protocol'' (h_protocol h)) (\<lambda>protocol.
     bind_r (port_arg X a (h_port h) (h_port h)) (\<lambda>port.
     bind_r (arg_text a ''hostname'' (h_hostname h)) (\<lambda>hostname.
     bind_r (kept_int X a ''credential_id'' (h_credential_id h)) (\<lambda>cred.
     bind_r (kept_int X a ''jump_host_id'' (h_jump_host_id h)) (\<lambda>jump.
     bind_r (arg_text a ''tags'' []) (\<lambda>tags.
       let box = (if dict_get a ''is_jumpbox'' = None then h_is_jumpbox h else arg_flag a ''is_jumpbox'');
           desc = description_arg X a (h_description h);
           args = agent_host_args name hostname port protocol (case desc of Inl _ \<Rightarrow> None | Inr s \<Rightarrow> s) cred jump tags box
       in (case update_host d h args of
          Inl (Host_Validation e) \<Rightarrow> fail_with d (''Validation error: '' @ e) e
        | Inl (Host_Integrity e) \<Rightarrow> Inl (broken_session X)
        | Inr (h', d1) \<Rightarrow> (case desc of Inl e \<Rightarrow> Inl (broken_session X)
            | Inr _ \<Rightarrow> done_with (agent_audit (Some (h_tenant_id h)) ''host.update'' ''host'' (h_id h) (''agent name='' @ name) d1)
                (''Updated host '' @ py_repr name) [(''host'', JStr name)])))))))))))"

definition delete_host_runner :: "action_env \<Rightarrow> dict \<Rightarrow> int option \<Rightarrow> db \<Rightarrow> run_result" where
  "delete_host_runner X a tid d = settle d (
     bind_r (arg_text a ''name'' []) (\<lambda>name.
     if name = [] then refuse d ''name is required'' else
     bind_r (find_host X d name tid) (\<lambda>found. case found of
       None \<Rightarrow> refuse d (''Host '' @ py_repr name @ '' not found'')
     | Some h \<Rightarrow> done_with (agent_audit (Some (h_tenant_id h)) ''host.delete'' ''host'' (h_id h) ''agent'' (delete_host d h))
         (''Deleted host '' @ py_repr name) [])))"

section \<open>Pipelines\<close>

definition loads_text :: "action_env \<Rightarrow> json \<Rightarrow> string + json" where
  \<comment> \<open>\<open>json.loads(raw) if isinstance(raw, str) else raw\<close>; \<open>Inl\<close>: the text that is not JSON\<close>
  "loads_text X v = (case v of JStr s \<Rightarrow> (case pe_loads (ax_pipe X) s of None \<Rightarrow> Inl s | Some j \<Rightarrow> Inr j) | _ \<Rightarrow> Inr v)"

definition bad_config :: "action_env \<Rightarrow> db \<Rightarrow> string \<Rightarrow> py_exception + (action_result \<times> db)" where
  "bad_config X d s = refuse d (''config is not valid JSON: '' @ ax_json_error X s)"

definition schema_arg :: "action_env \<Rightarrow> json option \<Rightarrow> json" where
  \<comment> \<open>\<open>json.loads(raw) if isinstance(raw, str) and raw else None\<close>, \<open>None\<close> when it is not JSON\<close>
  "schema_arg X v = (case v of Some (JStr s) \<Rightarrow> if s = [] then JNull else
       (case pe_loads (ax_pipe X) s of None \<Rightarrow> JNull | Some j \<Rightarrow> j)
     | _ \<Rightarrow> JNull)"

definition agent_pipe_args :: "string \<Rightarrow> string \<Rightarrow> string option \<Rightarrow> dict \<Rightarrow> json \<Rightarrow> int option \<Rightarrow> string option \<Rightarrow> pipe_args" where
  "agent_pipe_args name provider desc cfg schema cred vis = \<lparr>pa_name = name, pa_provider = provider, pa_description = desc,
     pa_config = cfg, pa_inputs_schema = schema, pa_credential_id = cred, pa_org_unit_id = None, pa_visibility = vis\<rparr>"

definition pipe_failure :: "action_env \<Rightarrow> db \<Rightarrow> string \<Rightarrow> bool \<Rightarrow> pipe_error \<Rightarrow> py_exception + (action_result \<times> db)" where
  \<comment> \<open>the \<open>except\<close> clauses of the create and update runners; the flag: a clause for \<open>IntegrityError\<close>\<close>
  "pipe_failure X d pre dup e = (case e of
     Pipe_Adapter (Provider_Error m) \<Rightarrow> fail_with d (''Provider config error: '' @ m) m
   | Pipe_Adapter (Unreachable m) \<Rightarrow> fail_exn d pre (ax_exn X m)
   | Pipe_Adapter (Adapter_Crash m) \<Rightarrow> fail_exn d pre (ax_exn X m)
   | Pipe_Integrity m \<Rightarrow> if dup then fail_with d (''Duplicate pipeline name: '' @ m) (ex_str (ax_exn X m))
                         else fail_exn d pre (ax_exn X m))"

definition create_pipeline_runner :: "action_env \<Rightarrow> dict \<Rightarrow> int option \<Rightarrow> db \<Rightarrow> run_result" where
  "create_pipeline_runner X a tid d = settle d (case tid of
     None \<Rightarrow> refuse d ''select an active tenant before creating a pipeline''
   | Some t \<Rightarrow>
     bind_r (arg_text a ''name'' []) (\<lambda>name. bind_r (arg_text a ''provider'' []) (\<lambda>provider.
     if name = [] then refuse d ''name is required''
     else if provider = [] then refuse d ''provider is required''
     else if provider \<notin> set list_providers
     then refuse d (''unknown provider '' @ py_repr provider @ ''; valid: '' @ join_with '', '' list_providers)
     else (let raw = (case dict_get a ''config'' of None \<Rightarrow> JStr ''{}'' | Some v \<Rightarrow> if json_truthy v then v else JStr ''{}'') in
     (case loads_text X raw of Inl s \<Rightarrow> bad_config X d s
      | Inr cfg \<Rightarrow>
     bind_r (optional_int X a ''credential_id'') (\<lambda>cred.
     bind_r (arg_text a ''description'' []) (\<lambda>desc.
       (case cfg of
          JObj c \<Rightarrow> (case create_pipeline d t (agent_pipe_args name provider (or_none desc) c
                 (schema_arg X (dict_get a ''inputs_schema'')) cred (Some ''shared'')) None of
               Inl e \<Rightarrow> pipe_failure X d ''Create failed'' True e
             | Inr (p, d1) \<Rightarrow> done_with (agent_audit (Some t) ''pipeline.create'' ''pipeline'' (p_id p) (''agent provider='' @ provider) d1)
                 (''Created pipeline '' @ py_repr name @ '' (id='' @ str_int (p_id p) @ '')'')
                 [(''pipeline_id'', JInt (p_id p)), (''pipeline'', JStr name)])
        | v \<Rightarrow> fail_exn d ''Create failed'' (no_attribute v ''get'')))))))))"

definition stored_json :: "action_env \<Rightarrow> json_text \<Rightarrow> py_exception + json" where
  "stored_json X t = (case t of None \<Rightarrow> Inl (ax_exn X ''JSONDecodeError'') | Some j \<Rightarrow> Inr j)"

definition except_fail :: "db \<Rightarrow> string \<Rightarrow> py_exception + (action_result \<times> db) \<Rightarrow> py_exception + (action_result \<times> db)" where
  \<comment> \<open>\<open>except Exception as e\<close> around the session: rolled back, reported\<close>
  "except_fail d pre m = (case m of Inl e \<Rightarrow> fail_exn d pre e | Inr r \<Rightarrow> Inr r)"

definition find_pipeline :: "action_env \<Rightarrow> db \<Rightarrow> string \<Rightarrow> int option \<Rightarrow> py_exception + pipeline option" where
  "find_pipeline X d name tid = (case get_pipeline_by_name d name tid of Inl e \<Rightarrow> Inl (ax_exn X e) | Inr p \<Rightarrow> Inr p)"

definition update_pipeline_runner :: "action_env \<Rightarrow> dict \<Rightarrow> int option \<Rightarrow> db \<Rightarrow> run_result" where
  "update_pipeline_runner X a tid d = settle d (
     bind_r (arg_text a ''name'' []) (\<lambda>name.
     if name = [] then refuse d ''name is required'' else
     except_fail d ''Update failed'' (
     bind_r (find_pipeline X d name tid) (\<lambda>found. case found of
       None \<Rightarrow> refuse d (''Pipeline '' @ py_repr name @ '' not found'')
     | Some p \<Rightarrow>
     bind_r (arg_text a ''provider'' (p_provider p)) (\<lambda>provider.
     if provider \<notin> set list_providers then refuse d (''unknown provider '' @ py_repr provider) else
     (case (case dict_get a ''config'' of None \<Rightarrow> bind_r (stored_json X (p_config p)) (\<lambda>j. Inr (Inr j))
            | Some JNull \<Rightarrow> bind_r (stored_json X (p_config p)) (\<lambda>j. Inr (Inr j))
            | Some v \<Rightarrow> Inr (loads_text X v)) of
        Inl e \<Rightarrow> Inl e
      | Inr (Inl s) \<Rightarrow> bad_config X d s
      | Inr (Inr cfg) \<Rightarrow>
     bind_r (if dict_get a ''inputs_schema'' \<in> {None, Some JNull}
             then (case p_inputs_schema p of None \<Rightarrow> Inr JNull | Some t \<Rightarrow> stored_json X t)
             else Inr (schema_arg X (dict_get a ''inputs_schema''))) (\<lambda>schema.
     bind_r (kept_int X a ''credential_id'' (p_credential_id p)) (\<lambda>cred.
     let desc = description_arg X a (p_description p) in
       (case cfg of
          JObj c \<Rightarrow> (case update_pipeline d p (agent_pipe_args name provider (case desc of Inl _ \<Rightarrow> None | Inr t \<Rightarrow> t) c schema cred None) of
               Inl (Pipe_Adapter e) \<Rightarrow> pipe_failure X d ''Update failed'' False (Pipe_Adapter e)
             | u \<Rightarrow> bind_r desc (\<lambda>_. case u of Inl e \<Rightarrow> pipe_failure X d ''Update failed'' False e
                 | Inr d1 \<Rightarrow> done_with (agent_audit None ''pipeline.update'' ''pipeline'' (p_id p) (''agent name='' @ name) d1)
                     (''Updated pipeline '' @ py_repr name) [(''pipeline'', JStr name)]))
        | v \<Rightarrow> Inl (no_attribute v ''get''))))))))))"

definition delete_pipeline_runner :: "action_env \<Rightarrow> dict \<Rightarrow> int option \<Rightarrow> db \<Rightarrow> run_result" where
  "delete_pipeline_runner X a tid d = settle d (
     bind_r (arg_text a ''name'' []) (\<lambda>name.
     if name = [] then refuse d ''name is required'' else
     bind_r (find_pipeline X d name tid) (\<lambda>found. case found of
       None \<Rightarrow> refuse d (''Pipeline '' @ py_repr name @ '' not found'')
     | Some p \<Rightarrow> done_with (agent_audit None ''pipeline.delete'' ''pipeline'' (p_id p) (''agent name='' @ name) (delete_pipeline d p))
         (''Deleted pipeline '' @ py_repr name) [(''pipeline'', JStr name)])))"

definition trigger_leftover :: "db \<Rightarrow> pipeline \<Rightarrow> dict \<Rightarrow> db" where
  \<comment> \<open>what the session holds when \<open>trigger_pipeline\<close> raises: the row flushed before the provider is called\<close>
  "trigger_leftover d p inputs = (case get_adapter (p_provider p) of Inl _ \<Rightarrow> d
     | Inr _ \<Rightarrow> if p_config p = None then d else d\<lparr>d_runs := d_runs d @ [new_run d p inputs None]\<rparr>)"

definition opt_str :: "string option \<Rightarrow> json" where
  "opt_str v = (case v of None \<Rightarrow> JNull | Some s \<Rightarrow> JStr s)"

definition run_summary :: "action_env \<Rightarrow> string \<Rightarrow> pipeline_run \<Rightarrow> string" where
  "run_summary X name r = join_with '' '' ([''pipeline '' @ py_repr name @ '' to '' @ r_status r]
     @ (case r_external_id r of None \<Rightarrow> [] | Some e \<Rightarrow> if e = [] then [] else [''external='' @ e])
     @ [''in '' @ str_int (ax_ms X) @ ''ms''])
     @ (case r_error r of None \<Rightarrow> [] | Some e \<Rightarrow> if e = [] then [] else '' (err: '' @ take 80 e @ '')'')"

definition run_pipeline_result :: "action_env \<Rightarrow> string \<Rightarrow> pipeline_run \<Rightarrow> action_result" where
  "run_pipeline_result X name r = \<lparr>ar_ok = r_status r \<notin> set [''failed'', ''cancelled''],
     ar_summary = run_summary X name r, ar_stdout = or_default (r_html_url r) [], ar_stderr = or_default (r_error r) [],
     ar_exit_code = None, ar_duration_ms = Some (ax_ms X),
     ar_extra = [(''pipeline'', JStr name), (''run_id'', JInt (r_id r)), (''external_id'', opt_str (r_external_id r)),
       (''html_url'', opt_str (r_html_url r)), (''dosm_run_url'', JStr (''/pipelines/runs/'' @ str_int (r_id r)))]\<rparr>"

definition run_pipeline_runner :: "action_env \<Rightarrow> dict \<Rightarrow> int option \<Rightarrow> db \<Rightarrow> run_result" where
  "run_pipeline_runner X a tid d = settle d (
     bind_r (arg_text a ''name'' []) (\<lambda>name.
     let inputs = (case dict_get a ''inputs'' of None \<Rightarrow> JObj [] | Some v \<Rightarrow> if json_truthy v then v else JObj []) in
     if name = [] then refuse d ''run_pipeline requires `name`'' else
     (case inputs of JObj i \<Rightarrow>
        bind_r (find_pipeline X d name tid) (\<lambda>found. case found of
          None \<Rightarrow> refuse d (''pipeline '' @ py_repr name @ '' not found'')
        | Some p \<Rightarrow> (case trigger_pipeline (ax_pipe X) d p i None of
             Inl e \<Rightarrow> Inr (\<lparr>ar_ok = False, ar_summary = ''trigger crashed: '' @ ex_type (ax_exn X e) @ '': '' @ ex_str (ax_exn X e),
                 ar_stdout = [], ar_stderr = ex_repr (ax_exn X e), ar_exit_code = None, ar_duration_ms = Some (ax_ms X),
                 ar_extra = [(''pipeline'', JStr name)]\<rparr>, trigger_leftover d p i)
           | Inr (r, d1) \<Rightarrow> Inr (run_pipeline_result X name r, d1)))
      | _ \<Rightarrow> refuse d ''`inputs` must be an object'')))"

section \<open>Credential profiles\<close>

definition tenant_slug :: "db \<Rightarrow> int \<Rightarrow> string" where
  "tenant_slug d t = (case get_row t_id (d_tenants d) t of None \<Rightarrow> str_int t | Some x \<Rightarrow> t_slug x)"

definition find_credential :: "action_env \<Rightarrow> db \<Rightarrow> string \<Rightarrow> int option \<Rightarrow> py_exception + credential option" where
  "find_credential X d name tid = one_or_none X (where_opt (tenant_clause c_tenant_id tid) (filter (\<lambda>c. c_name c = name) (d_credentials d)))"

definition agent_credential :: "db \<Rightarrow> int \<Rightarrow> string \<Rightarrow> string \<Rightarrow> string option \<Rightarrow> string option \<Rightarrow> credential" where
  "agent_credential d t name kind username domain = \<lparr>c_id = next_id c_id (d_credentials d), c_name = name, c_tenant_id = t,
     c_kind = kind, c_username = username, c_domain = domain, c_secret_ref = auto_secret_ref name (tenant_slug d t),
     c_owner_id = None, c_visibility = ''shared'', c_org_unit_id = None, c_created_at = d_now d, c_updated_at = d_now d\<rparr>"

definition create_credential_runner :: "action_env \<Rightarrow> dict \<Rightarrow> int option \<Rightarrow> db \<Rightarrow> run_result" where
  "create_credential_runner X a tid d = settle d (case tid of
     None \<Rightarrow> refuse d ''select an active tenant before creating a credential''
   | Some t \<Rightarrow>
     bind_r (arg_text a ''name'' []) (\<lambda>name. bind_r (arg_text a ''kind'' ''login'') (\<lambda>kind.
     bind_r (arg_text a ''username'' []) (\<lambda>username. bind_r (arg_text a ''domain'' []) (\<lambda>domain.
     bind_r (arg_text a ''secret_value'' []) (\<lambda>secret.
     if name = [] then refuse d ''name is required''
     else if kind \<notin> set [''login'', ''ssh_key'', ''pat'']
     then refuse d (''invalid kind '' @ py_repr kind @ ''; use login, ssh_key, or pat'')
     else if secret = [] then refuse d ''secret_value is required - enter it in the plan card form''
     else (let c = agent_credential d t name kind (or_none username) (or_none domain) in
       (case add_credential d c of Inl _ \<Rightarrow> Inl (broken_session X)
        | Inr d1 \<Rightarrow> (let d2 = agent_audit (Some t) ''credential.create'' ''credential'' (c_id c) (''agent kind='' @ kind) d1 in
            (case be_set (ax_backend X) (c_secret_ref c) secret d2 of
               (Inl e, d3) \<Rightarrow> fail_with d3 (''Credential row created (id='' @ str_int (c_id c) @ '') but secret write failed: '' @ e) e
             | (Inr _, d3) \<Rightarrow> done_with d3 (''Created credential '' @ py_repr name @ '' (id='' @ str_int (c_id c) @ '')'')
                 [(''credential_id'', JInt (c_id c))]))))))))))"

definition text_field_arg :: "dict \<Rightarrow> string \<Rightarrow> string option \<Rightarrow> py_exception + string option" where
  \<comment> \<open>\<open>if v is not None: field = v.strip() or None\<close>\<close>
  "text_field_arg a k old = (case dict_get a k of None \<Rightarrow> Inr old | Some JNull \<Rightarrow> Inr old
     | Some v \<Rightarrow> bind_r (strip_json v) (\<lambda>s. Inr (or_none s)))"

definition update_credential_runner :: "action_env \<Rightarrow> dict \<Rightarrow> int option \<Rightarrow> db \<Rightarrow> run_result" where
  "update_credential_runner X a tid d = settle d (
     bind_r (arg_text a ''name'' []) (\<lambda>name.
     if name = [] then refuse d ''name is required'' else
     bind_r (arg_text a ''secret_value'' []) (\<lambda>secret.
     bind_r (find_credential X d name tid) (\<lambda>found. case found of
       None \<Rightarrow> refuse d (''Credential '' @ py_repr name @ '' not found'')
     | Some c \<Rightarrow>
     bind_r (text_field_arg a ''username'' (c_username c)) (\<lambda>username.
     bind_r (text_field_arg a ''domain'' (c_domain c)) (\<lambda>domain.
       let f = (\<lambda>c. c\<lparr>c_username := username, c_domain := domain, c_updated_at := d_now d\<rparr>);
           d1 = agent_audit (Some (c_tenant_id c)) ''credential.update'' ''credential'' (c_id c) ''agent''
                  (d\<lparr>d_credentials := upd_row c_id (c_id c) f (d_credentials d)\<rparr>);
           ok = (\<lambda>d'. done_with d' (''Updated credential '' @ py_repr name) [(''credential_id'', JInt (c_id c))])
       in if secret = [] then ok d1
          else (case be_set (ax_backend X) (c_secret_ref c) secret d1 of
             (Inl e, d2) \<Rightarrow> fail_with d2 (''Metadata updated but secret write failed: '' @ e) e
           | (Inr _, d2) \<Rightarrow> ok d2)))))))"

definition delete_credential_runner :: "action_env \<Rightarrow> dict \<Rightarrow> int option \<Rightarrow> db \<Rightarrow> run_result" where
  "delete_credential_runner X a tid d = settle d (
     bind_r (arg_text a ''name'' []) (\<lambda>name.
     if name = [] then refuse d ''name is required'' else
     bind_r (find_credential X d name tid) (\<lambda>found. case found of
       None \<Rightarrow> refuse d (''Credential '' @ py_repr name @ '' not found'')
     | Some c \<Rightarrow> (let d1 = agent_audit (Some (c_tenant_id c)) ''credential.delete'' ''credential'' (c_id c) ''agent''
           (fk_delete_credential (c_id c) d) in
         done_with (snd (be_delete (ax_backend X) (c_secret_ref c) d1)) (''Deleted credential '' @ py_repr name) []))))"

section \<open>Dispatch\<close>

definition db_runners :: "(string \<times> (action_env \<Rightarrow> dict \<Rightarrow> int option \<Rightarrow> db \<Rightarrow> run_result)) list" where
  "db_runners = [(''run_pipeline'', run_pipeline_runner), (''create_pipeline'', create_pipeline_runner),
     (''update_pipeline'', update_pipeline_runner), (''delete_pipeline'', delete_pipeline_runner),
     (''create_host'', create_host_runner), (''update_host'', update_host_runner), (''delete_host'', delete_host_runner),
     (''create_credential'', create_credential_runner), (''update_credential'', update_credential_runner),
     (''delete_credential'', delete_credential_runner)]"

definition run_action :: "action_env \<Rightarrow> action_runner \<Rightarrow> action_runner" where
  \<comment> \<open>\<open>spec.runner\<close> of the registered action; \<open>other\<close> is the runner of the tools that reach outside\<close>
  "run_action X other tool a tid d = (case map_of db_runners tool of Some r \<Rightarrow> r X a tid d | None \<Rightarrow> other tool a tid d)"

section \<open>What a runner may do\<close>

text \<open>
  One operation of a repository on a row in scope, then a write or deletion at the secret path of a
  profile in scope, and audit rows. A run that is left behind by a crashed trigger is queued.
\<close>

inductive runner_effect :: "secret_backend \<Rightarrow> int option \<Rightarrow> db \<Rightarrow> db \<Rightarrow> bool" for B tid d where
  re_none: "runner_effect B tid d d"
| re_host_create: "tid = Some t \<Longrightarrow> create_host d t ha src = Inr (h, d1) \<Longrightarrow> runner_effect B tid d d1"
| re_host_update: "h \<in> set (d_hosts d) \<Longrightarrow> in_scope tid (h_tenant_id h) \<Longrightarrow> update_host d h ha = Inr (h', d1) \<Longrightarrow> runner_effect B tid d d1"
| re_host_delete: "h \<in> set (d_hosts d) \<Longrightarrow> in_scope tid (h_tenant_id h) \<Longrightarrow> runner_effect B tid d (delete_host d h)"
| re_pipe_create: "tid = Some t \<Longrightarrow> create_pipeline d t pa ow = Inr (p, d1) \<Longrightarrow> runner_effect B tid d d1"
| re_pipe_update: "p \<in> set (d_pipelines d) \<Longrightarrow> in_scope tid (p_tenant_id p) \<Longrightarrow> update_pipeline d p pa = Inr d1 \<Longrightarrow> runner_effect B tid d d1"
| re_pipe_delete: "p \<in> set (d_pipelines d) \<Longrightarrow> in_scope tid (p_tenant_id p) \<Longrightarrow> runner_effect B tid d (delete_pipeline d p)"
| re_trigger: "p \<in> set (d_pipelines d) \<Longrightarrow> in_scope tid (p_tenant_id p) \<Longrightarrow> trigger_pipeline E d p i u = Inr (r, d1) \<Longrightarrow>
    runner_effect B tid d d1"
| re_crashed: "p \<in> set (d_pipelines d) \<Longrightarrow> in_scope tid (p_tenant_id p) \<Longrightarrow>
    runner_effect B tid d (d\<lparr>d_runs := d_runs d @ [new_run d p i u]\<rparr>)"
| re_cred_add: "tid = Some (c_tenant_id c) \<Longrightarrow> c_id c = next_id c_id (d_credentials d) \<Longrightarrow> cred_row_ok c \<Longrightarrow>
    add_credential d c = Inr d1 \<Longrightarrow> runner_effect B tid d d1"
| re_cred_update: "c \<in> set (d_credentials d) \<Longrightarrow> in_scope tid (c_tenant_id c) \<Longrightarrow>
    runner_effect B tid d (d\<lparr>d_credentials := upd_row c_id (c_id c)
      (\<lambda>c. c\<lparr>c_username := un, c_domain := dm, c_updated_at := now\<rparr>) (d_credentials d)\<rparr>)"
| re_cred_delete: "c \<in> set (d_credentials d) \<Longrightarrow> in_scope tid (c_tenant_id c) \<Longrightarrow> runner_effect B tid d (fk_delete_credential (c_id c) d)"
| re_secret: "runner_effect B tid d d1 \<Longrightarrow> c \<in> set (d_credentials d) \<union> set (d_credentials d1) \<Longrightarrow> in_scope tid (c_tenant_id c) \<Longrightarrow>
    runner_effect B tid d (snd (be_set B (c_secret_ref c) v d1))"
| re_clear: "runner_effect B tid d d1 \<Longrightarrow> c \<in> set (d_credentials d) \<Longrightarrow> in_scope tid (c_tenant_id c) \<Longrightarrow>
    runner_effect B tid d (snd (be_delete B (c_secret_ref c) d1))"
| re_audit: "runner_effect B tid d d1 \<Longrightarrow> runner_effect B tid d (add_audit t a x g e i d1)"

definition ends_in :: "(db \<Rightarrow> bool) \<Rightarrow> py_exception + (action_result \<times> db) \<Rightarrow> bool" where
  \<comment> \<open>the state that is committed, if one is\<close>
  "ends_in P m \<longleftrightarrow> (case m of Inl _ \<Rightarrow> True | Inr (_, d') \<Rightarrow> P d')"

named_theorems ends

lemma settle_ends: "P d \<Longrightarrow> ends_in P m \<Longrightarrow> P (snd (settle d m))"
  by (auto simp: settle_def ends_in_def split: sum.splits)

lemma ends_bind [ends]: "(\<And>x. m = Inr x \<Longrightarrow> ends_in P (f x)) \<Longrightarrow> ends_in P (bind_r m f)"
  by (cases m) (simp_all add: bind_r_def ends_in_def)

lemma ends_result [ends]:
  "P d \<Longrightarrow> ends_in P (refuse d s)" "P d \<Longrightarrow> ends_in P (fail_with d s e)" "P d \<Longrightarrow> ends_in P (fail_exn d p x)"
  "P d \<Longrightarrow> ends_in P (done_with d s y)" "P d \<Longrightarrow> ends_in P (Inr (r, d))" "ends_in P (Inl z)"
  by (simp_all add: refuse_def fail_exn_def fail_with_def done_with_def ends_in_def)

lemma ends_except [ends]: "P d \<Longrightarrow> ends_in P m \<Longrightarrow> ends_in P (except_fail d p m)"
  by (auto simp: except_fail_def ends_in_def fail_exn_def fail_with_def split: sum.splits)

lemma ends_pipe_failure [ends]: "P d \<Longrightarrow> ends_in P (pipe_failure X d p k e)"
  by (auto simp: pipe_failure_def intro: ends split: pipe_error.split adapter_error.split)

lemma ends_bad_config [ends]: "P d \<Longrightarrow> ends_in P (bad_config X d s)"
  by (simp add: bad_config_def ends)

lemma ends_if [ends]: "(b \<Longrightarrow> ends_in P m) \<Longrightarrow> (\<not> b \<Longrightarrow> ends_in P n) \<Longrightarrow> ends_in P (if b then m else n)"
  by simp

lemma ends_case [ends]:
  "(\<And>e. m = Inl e \<Longrightarrow> ends_in P (f e)) \<Longrightarrow> (\<And>x. m = Inr x \<Longrightarrow> ends_in P (g x)) \<Longrightarrow>
    ends_in P (case m of Inl e \<Rightarrow> f e | Inr x \<Rightarrow> g x)"
  by (cases m) simp_all

lemma ends_option [ends]:
  "(z = None \<Longrightarrow> ends_in P m) \<Longrightarrow> (\<And>x. z = Some x \<Longrightarrow> ends_in P (h x)) \<Longrightarrow>
    ends_in P (case z of None \<Rightarrow> m | Some x \<Rightarrow> h x)"
  by (cases z) simp_all

lemma ends_pair [ends]: "(\<And>x y. z = (x, y) \<Longrightarrow> ends_in P (h x y)) \<Longrightarrow> ends_in P (case z of (x, y) \<Rightarrow> h x y)"
  by (cases z) simp

lemma ends_json [ends]:
  "ends_in P n \<Longrightarrow> (\<And>x. ends_in P (b x)) \<Longrightarrow> (\<And>x. ends_in P (i x)) \<Longrightarrow> (\<And>x. ends_in P (f x)) \<Longrightarrow>
    (\<And>x. ends_in P (s x)) \<Longrightarrow> (\<And>x. ends_in P (l x)) \<Longrightarrow> (\<And>x. j = JObj x \<Longrightarrow> ends_in P (h x)) \<Longrightarrow>
    ends_in P (case j of JNull \<Rightarrow> n | JBool x \<Rightarrow> b x | JInt x \<Rightarrow> i x | JFloat x \<Rightarrow> f x | JStr x \<Rightarrow> s x | JArr x \<Rightarrow> l x | JObj x \<Rightarrow> h x)"
  by (cases j) simp_all

lemma ends_host_error [ends]: "(\<And>x. ends_in P (f x)) \<Longrightarrow> (\<And>x. ends_in P (g x)) \<Longrightarrow>
    ends_in P (case e of Host_Validation x \<Rightarrow> f x | Host_Integrity x \<Rightarrow> g x)"
  by (cases e) simp_all

lemma ends_pipe_error [ends]: "(\<And>x. ends_in P (f x)) \<Longrightarrow> (\<And>x. ends_in P (g x)) \<Longrightarrow>
    ends_in P (case e of Pipe_Adapter x \<Rightarrow> f x | Pipe_Integrity x \<Rightarrow> g x)"
  by (cases e) simp_all

lemma one_or_none_in: "one_or_none X rs = Inr (Some x) \<Longrightarrow> x \<in> set rs"
  by (auto simp: one_or_none_def split: list.splits)

lemma find_in:
  "find_host X d n tid = Inr (Some h) \<Longrightarrow> h \<in> set (d_hosts d) \<and> in_scope tid (h_tenant_id h) \<and> h_name h = n"
  "find_credential X d n tid = Inr (Some c) \<Longrightarrow> c \<in> set (d_credentials d) \<and> in_scope tid (c_tenant_id c) \<and> c_name c = n"
  by (auto simp: find_host_def find_credential_def dest!: one_or_none_in)

lemma find_pipeline_in:
  "find_pipeline X d n tid = Inr (Some p) \<Longrightarrow> p \<in> set (d_pipelines d) \<and> in_scope tid (p_tenant_id p) \<and> p_name p = n"
proof -
  assume "find_pipeline X d n tid = Inr (Some p)"
  then have "where_opt (tenant_clause p_tenant_id tid) (filter (\<lambda>p. p_name p = n) (d_pipelines d)) = [p]"
    unfolding find_pipeline_def get_pipeline_by_name_def by (auto split: list.splits sum.splits)
  then have "set (filter (\<lambda>r. in_scope tid (p_tenant_id r)) (filter (\<lambda>p. p_name p = n) (d_pipelines d))) = {p}"
    unfolding where_opt_tenant by (metis list.set(1) list.simps(15))
  then show ?thesis
    by auto
qed

lemma agent_auditI: "runner_effect B tid d d1 \<Longrightarrow> runner_effect B tid d (agent_audit t a k i s d1)"
  by (simp add: agent_audit_def re_audit)

lemmas runner_steps = ends re_none agent_auditI

lemma create_host_runner_effect: "runner_effect B tid d (snd (create_host_runner X a tid d))"
  unfolding create_host_runner_def
  by (rule settle_ends; intro runner_steps) (auto intro: re_host_create dest!: find_in(1) find_pipeline_in)

lemma update_host_runner_effect: "runner_effect B tid d (snd (update_host_runner X a tid d))"
  unfolding update_host_runner_def Let_def
  by (rule settle_ends; intro runner_steps) (auto intro: re_host_update dest!: find_in(1) find_pipeline_in)

lemma delete_host_runner_effect: "runner_effect B tid d (snd (delete_host_runner X a tid d))"
  unfolding delete_host_runner_def
  by (rule settle_ends; intro runner_steps) (auto intro: re_host_delete dest!: find_in(1) find_pipeline_in)

lemma create_pipeline_runner_effect: "runner_effect B tid d (snd (create_pipeline_runner X a tid d))"
  unfolding create_pipeline_runner_def Let_def
  by (rule settle_ends; intro runner_steps) (auto intro: re_pipe_create dest!: find_in(1) find_pipeline_in)

lemma update_pipeline_runner_effect: "runner_effect B tid d (snd (update_pipeline_runner X a tid d))"
  unfolding update_pipeline_runner_def Let_def
  by (rule settle_ends; intro runner_steps) (auto intro: re_pipe_update dest!: find_in(1) find_pipeline_in)

lemma delete_pipeline_runner_effect: "runner_effect B tid d (snd (delete_pipeline_runner X a tid d))"
  unfolding delete_pipeline_runner_def
  by (rule settle_ends; intro runner_steps) (auto intro: re_pipe_delete dest!: find_in(1) find_pipeline_in)

lemma trigger_leftover_effect:
  "p \<in> set (d_pipelines d) \<Longrightarrow> in_scope tid (p_tenant_id p) \<Longrightarrow> runner_effect B tid d (trigger_leftover d p i)"
  by (auto simp: trigger_leftover_def intro: re_none re_crashed split: sum.split)

lemma run_pipeline_runner_effect: "runner_effect B tid d (snd (run_pipeline_runner X a tid d))"
  unfolding run_pipeline_runner_def Let_def
  by (rule settle_ends; intro runner_steps) (auto intro: re_trigger trigger_leftover_effect dest!: find_in(1) find_pipeline_in)

lemma agent_credential_sel [simp]:
  "c_id (agent_credential d t n k un dm) = next_id c_id (d_credentials d)" "c_tenant_id (agent_credential d t n k un dm) = t"
  "c_kind (agent_credential d t n k un dm) = k" "c_visibility (agent_credential d t n k un dm) = ''shared''"
  by (simp_all add: agent_credential_def)

lemma create_credential_step:
  assumes "kind \<in> set [''login'', ''ssh_key'', ''pat'']" and "add_credential d (agent_credential d t n kind un dm) = Inr d1"
  shows "runner_effect B (Some t) d d1"
proof (rule re_cred_add [OF _ _ _ assms(2)])
  show "cred_row_ok (agent_credential d t n kind un dm)"
    using assms(1) by (auto simp: cred_row_ok_def CRED_KINDS_def VISIBILITIES_def)
qed simp_all

lemma agent_audit_credentials [simp]: "d_credentials (agent_audit t a k i x d) = d_credentials d"
  by (simp add: agent_audit_def)

lemma created_credential: "add_credential d c = Inr d1 \<Longrightarrow> c \<in> set (d_credentials d1)"
  by (auto dest: add_credential_InrD)

lemma runner_secretI:
  assumes "be_set B (c_secret_ref c) v d1 = (o', d2)" and "runner_effect B tid d d1"
    and "c \<in> set (d_credentials d) \<union> set (d_credentials d1)" and "in_scope tid (c_tenant_id c)"
  shows "runner_effect B tid d d2"
  using re_secret [OF assms(2-4), of v] assms(1) by simp

lemma create_credential_runner_effect: "runner_effect (ax_backend X) tid d (snd (create_credential_runner X a tid d))"
  unfolding create_credential_runner_def Let_def
  by (rule settle_ends; intro runner_steps)
     (auto intro!: agent_auditI simp: created_credential intro: create_credential_step elim!: runner_secretI simp del: insert_iff)

lemma update_credential_runner_effect: "runner_effect (ax_backend X) tid d (snd (update_credential_runner X a tid d))"
  unfolding update_credential_runner_def Let_def
  by (rule settle_ends; intro runner_steps)
     (auto intro!: agent_auditI intro: re_cred_update elim!: runner_secretI dest!: find_in(2))

lemma delete_credential_runner_effect: "runner_effect (ax_backend X) tid d (snd (delete_credential_runner X a tid d))"
  unfolding delete_credential_runner_def Let_def
  by (rule settle_ends; intro runner_steps)
     (auto intro!: re_clear agent_auditI intro: re_cred_delete dest!: find_in(2))

lemmas runner_effects = run_pipeline_runner_effect create_pipeline_runner_effect update_pipeline_runner_effect
  delete_pipeline_runner_effect create_host_runner_effect update_host_runner_effect delete_host_runner_effect
  create_credential_runner_effect update_credential_runner_effect delete_credential_runner_effect

lemma db_runner_effect: "map_of db_runners tool = Some r \<Longrightarrow> runner_effect (ax_backend X) tid d (snd (r X a tid d))"
  by (auto simp: db_runners_def runner_effects split: if_splits)

section \<open>The store\<close>

lemma get_or_create_tag_rest:
  "d_tenants (snd (get_or_create_tag d n t)) = d_tenants d" "d_users (snd (get_or_create_tag d n t)) = d_users d"
  "d_pipelines (snd (get_or_create_tag d n t)) = d_pipelines d" "d_runs (snd (get_or_create_tag d n t)) = d_runs d"
  "d_payloads (snd (get_or_create_tag d n t)) = d_payloads d" "d_plan_cards (snd (get_or_create_tag d n t)) = d_plan_cards d"
  by (simp_all add: get_or_create_tag_def Let_def split: option.splits)

lemma add_tags_rest [simp]:
  "d_tenants (add_tags h t ns d) = d_tenants d" "d_users (add_tags h t ns d) = d_users d"
  "d_pipelines (add_tags h t ns d) = d_pipelines d" "d_runs (add_tags h t ns d) = d_runs d"
  "d_payloads (add_tags h t ns d) = d_payloads d" "d_plan_cards (add_tags h t ns d) = d_plan_cards d"
  by (induction ns arbitrary: d) (simp_all add: split_def Let_def get_or_create_tag_rest)

lemma host_ops_frame:
  assumes "create_host d t ha src = Inr (h, d1) \<or> update_host d g ha = Inr (h, d1) \<or> d1 = delete_host d g"
  shows "d_tenants d1 = d_tenants d" "d_users d1 = d_users d" "d_org_units d1 = d_org_units d" "d_credentials d1 = d_credentials d"
    "d_pipelines d1 = d_pipelines d" "d_runs d1 = d_runs d" "d_payloads d1 = d_payloads d" "d_plan_cards d1 = d_plan_cards d"
  using assms by (auto simp: delete_host_def fk_delete_host_def dest!: create_host_InrD update_host_InrD)

lemma host_ops_store:
  assumes "create_host d t ha src = Inr (h, d1) \<or> update_host d g ha = Inr (h, d1) \<or> d1 = delete_host d g"
  shows "creds_ok d1 = creds_ok d" "pipes_ok d1 = pipes_ok d"
  by (simp_all add: creds_ok_def pipes_ok_def host_ops_frame [OF assms])

lemma pipe_ops_store:
  "creds_ok (d\<lparr>d_pipelines := ps\<rparr>) = creds_ok d" "hosts_ok (d\<lparr>d_pipelines := ps\<rparr>) = hosts_ok d"
  "creds_ok (d\<lparr>d_runs := rs\<rparr>) = creds_ok d" "hosts_ok (d\<lparr>d_runs := rs\<rparr>) = hosts_ok d"
  "creds_ok (delete_pipeline d p) = creds_ok d" "hosts_ok (delete_pipeline d p) = hosts_ok d"
  by (simp_all add: creds_ok_def hosts_ok_def host_ok_def ref_ok_iff tags_ok_def delete_pipeline_def fk_delete_pipeline_def)

lemma crashed_run_ok: "pipes_ok d \<Longrightarrow> p \<in> set (d_pipelines d) \<Longrightarrow> pipes_ok (d\<lparr>d_runs := d_runs d @ [new_run d p i u]\<rparr>)"
  by (auto simp: pipes_ok_def runs_ok_def uniq_ids_append_new new_run_def RUN_STATUSES_def)

lemma filled_credential:
  assumes "creds_ok d"
  shows "creds_ok (d\<lparr>d_credentials := upd_row c_id i (\<lambda>c. c\<lparr>c_username := un, c_domain := dm, c_updated_at := now\<rparr>) (d_credentials d)\<rparr>)"
proof (rule creds_ok_upd [OF assms])
  fix x assume "x \<in> set (d_credentials d)"
  then show "cred_row_ok (x\<lparr>c_username := un, c_domain := dm, c_updated_at := now\<rparr>) \<and>
      cred_integrity d (x\<lparr>c_username := un, c_domain := dm, c_updated_at := now\<rparr>) = None"
    using creds_ok_integrity [OF assms, of x] assms by (simp add: creds_ok_def cred_row_ok_def cred_integrity_None)
qed simp

context backend_frame
begin

lemma runner_effect_store: "runner_effect B tid d d' \<Longrightarrow> store_ok d \<Longrightarrow> store_ok d'"
proof (induction rule: runner_effect.induct)
  case (re_host_create t ha src h d1)
  then show ?case
    using host_ops_store [of d t ha src h d1] create_host_ok [of d t ha src h d1] by (simp add: store_ok_def)
next
  case (re_host_update h ha h' d1)
  then show ?case
    using host_ops_store [of d _ ha _ h' d1 h] update_host_ok [of d h ha h' d1] by (simp add: store_ok_def)
next
  case (re_host_delete h)
  then show ?case
    using host_ops_store [OF disjI2 [OF disjI2 [OF refl]], of d h] delete_host_ok [of d h] by (simp add: store_ok_def)
next
  case (re_pipe_create t pa ow p d1)
  then show ?case
    using create_pipeline_InrD [of d t pa ow p d1] create_pipeline_ok [of d t pa ow p d1] by (auto simp: store_ok_def pipe_ops_store)
next
  case (re_pipe_update p pa d1)
  then show ?case
    using update_pipeline_InrD [of d p pa d1] update_pipeline_ok [of d p pa d1] by (auto simp: store_ok_def pipe_ops_store)
next
  case (re_pipe_delete p)
  then show ?case
    using delete_pipeline_ok by (simp add: store_ok_def pipe_ops_store)
next
  case (re_trigger p E i u r d1)
  then show ?case
    using trigger_pipeline_InrD [of E d p i u r d1] trigger_pipeline_ok [of d p E i u r d1] by (auto simp: store_ok_def pipe_ops_store)
next
  case (re_crashed p i u)
  then show ?case
    using crashed_run_ok by (simp add: store_ok_def pipe_ops_store)
next
  case (re_cred_add c d1)
  then have d1: "d1 = d\<lparr>d_credentials := d_credentials d @ [c]\<rparr>" "cred_integrity d c = None"
    by (auto dest: add_credential_InrD)
  have "hosts_ok d1"
    unfolding d1(1) using re_cred_add.prems by (intro hosts_ok_creds) (auto simp: store_ok_def get_row_append)
  then show ?case
    using re_cred_add d1 creds_ok_add by (simp add: store_ok_def)
next
  case (re_cred_update c now dm un)
  have "hosts_ok (d\<lparr>d_credentials := upd_row c_id (c_id c) (\<lambda>c. c\<lparr>c_username := un, c_domain := dm, c_updated_at := now\<rparr>) (d_credentials d)\<rparr>)"
    using re_cred_update.prems by (intro hosts_ok_creds upd_same_tenant) (auto simp: store_ok_def)
  then show ?case
    using re_cred_update.prems filled_credential by (simp add: store_ok_def)
next
  case (re_cred_delete c)
  then show ?case
    using fk_delete_credential_ok fk_delete_credential_pipes by (auto simp: store_ok_def)
next
  case (re_secret d1 c v)
  then show ?case
    using set_keeps [of store_ok] by simp
next
  case (re_clear d1 c)
  then show ?case
    using delete_keeps [of store_ok] by simp
qed simp_all

lemma runner_effect_cards: "runner_effect B tid d d' \<Longrightarrow> d_plan_cards d' = d_plan_cards d"
proof (induction rule: runner_effect.induct)
  case (re_host_create t ha src h d1)
  then show ?case
    using host_ops_frame(8) [of d t ha src h d1] by simp
next
  case (re_host_update h ha h' d1)
  then show ?case
    using host_ops_frame(8) [of d _ ha _ h' d1 h] by simp
next
  case (re_secret d1 c v)
  then show ?case
    using set_keeps [of "\<lambda>x. d_plan_cards x = d_plan_cards d"] by simp
next
  case (re_clear d1 c)
  then show ?case
    using delete_keeps [of "\<lambda>x. d_plan_cards x = d_plan_cards d"] by simp
qed (auto simp: delete_host_def fk_delete_host_def delete_pipeline_def fk_delete_pipeline_def fk_delete_credential_def
    dest!: create_pipeline_InrD update_pipeline_InrD trigger_pipeline_InrD add_credential_InrD)

end

section \<open>Rows of other tenants\<close>

definition other_pipelines :: "int \<Rightarrow> db \<Rightarrow> int set" where
  "other_pipelines t d = p_id ` {p \<in> set (d_pipelines d). p_tenant_id p \<noteq> t}"

definition others_part :: "int \<Rightarrow> int set \<Rightarrow> db \<Rightarrow> (host list \<times> tag list \<times> credential list \<times> pipeline list)
    \<times> (pipeline_run list \<times> pipeline_payload list \<times> org_unit list \<times> user list)" where
  \<comment> \<open>the rows of the tenants other than \<open>t\<close>; of their pipelines without the credential, which another
    tenant's profile may be, and which its deletion then clears\<close>
  "others_part t ps d = ((filter (\<lambda>h. h_tenant_id h \<noteq> t) (d_hosts d), filter (\<lambda>g. tg_tenant_id g \<noteq> t) (d_tags d),
      filter (\<lambda>c. c_tenant_id c \<noteq> t) (d_credentials d),
      map (\<lambda>p. p\<lparr>p_credential_id := None\<rparr>) (filter (\<lambda>p. p_tenant_id p \<noteq> t) (d_pipelines d))),
    filter (\<lambda>r. r_pipeline_id r \<in> ps) (d_runs d), filter (\<lambda>p. pl_pipeline_id p \<in> ps) (d_payloads d), d_org_units d, d_users d)"

lemma others_part_frame [simp]:
  "others_part t ps (add_audit q a x g e i d) = others_part t ps d" "others_part t ps (d\<lparr>d_secrets := bs\<rparr>) = others_part t ps d"
  by (simp_all add: others_part_def)

lemma own_pipeline_not_other:
  assumes "pipes_ok d" and "p \<in> set (d_pipelines d)" and "p_tenant_id p = t"
  shows "p_id p \<notin> other_pipelines t d" and "x \<in> set (d_pipelines d) \<Longrightarrow> p_id x = p_id p \<Longrightarrow> p_tenant_id x = t"
  using assms uniq_row [of p_id "d_pipelines d"] by (fastforce simp: other_pipelines_def pipes_ok_def pipelines_ok_def)+

lemma host_ops_others:
  assumes "create_host d t ha src = Inr (h, d1) \<or> update_host d g ha = Inr (h, d1) \<or> d1 = delete_host d g"
    and "foreign_rows t d1 = foreign_rows t d"
  shows "others_part t ps d1 = others_part t ps d"
  using assms(2) by (simp add: others_part_def foreign_rows_def host_ops_frame [OF assms(1)])

lemma touched_pipeline_tenant: "p_tenant_id (touch_pipeline d (fill_pipeline a cfg) p) = p_tenant_id p"
  by (simp add: touch_pipeline_def fill_pipeline_def)

lemma deleted_credential_others:
  assumes ok: "store_ok d" and c: "c \<in> set (d_credentials d)" "c_tenant_id c = t"
  shows "others_part t ps (fk_delete_credential (c_id c) d) = others_part t ps d"
proof -
  let ?f = "\<lambda>h. h\<lparr>h_credential_id := null_if (\<lambda>x. x = c_id c) (h_credential_id h),
      h_ft_credential_id := null_if (\<lambda>x. x = c_id c) (h_ft_credential_id h)\<rparr>"
  have uq: "uniq_ids c_id (d_credentials d)"
    using ok by (simp add: store_ok_def creds_ok_def)
  have refs: "h_credential_id h \<noteq> Some (c_id c) \<and> h_ft_credential_id h \<noteq> Some (c_id c)"
    if "h \<in> set (d_hosts d)" "h_tenant_id h \<noteq> t" for h
    using ok that c get_row_in [OF uq c(1)] by (auto simp: store_ok_def hosts_ok_def host_ok_def ref_ok_iff)
  have "?f h = h" if "h \<in> set (d_hosts d)" "h_tenant_id h \<noteq> t" for h
    using refs [OF that] by (cases h) (auto simp: null_if_def split: option.splits)
  then have "map ?f (filter (\<lambda>h. h_tenant_id h \<noteq> t) (d_hosts d)) = filter (\<lambda>h. h_tenant_id h \<noteq> t) (d_hosts d)"
    by (intro map_idI) auto
  then have "filter (\<lambda>h. h_tenant_id h \<noteq> t) (map ?f (d_hosts d)) = filter (\<lambda>h. h_tenant_id h \<noteq> t) (d_hosts d)"
    by (simp add: filter_map comp_def)
  moreover have "x = c" if "x \<in> set (d_credentials d)" "c_id x = c_id c" for x
    using uniq_row [OF uq that(1) c(1) that(2)] .
  then have "filter (\<lambda>x. c_tenant_id x \<noteq> t) (del_rows (\<lambda>x. c_id x = c_id c) (d_credentials d)) =
      filter (\<lambda>x. c_tenant_id x \<noteq> t) (d_credentials d)"
    using c(2) by (intro filter_del_rows) auto
  ultimately show ?thesis
    by (simp add: others_part_def fk_delete_credential_def filter_map comp_def)
qed

context backend_frame
begin

lemma runner_effect_others:
  assumes "runner_effect B (Some t) d d'" and ok: "store_ok d"
  shows "others_part t (other_pipelines t d) d' = others_part t (other_pipelines t d) d"
  using assms(1)
proof (induction rule: runner_effect.induct)
  case (re_host_create t' ha src h d1)
  then show ?case
    using host_ops_others [of d t ha src h d1] create_host_foreign [of d t ha src h d1] by simp
next
  case (re_host_update h ha h' d1)
  then show ?case
    using host_ops_others [of d t ha _ h' d1 h] update_host_foreign [of d h t ha h' d1] ok by (simp add: store_ok_def)
next
  case (re_host_delete h)
  then show ?case
    using host_ops_others [OF disjI2 [OF disjI2 [OF refl]], of t d h] delete_host_foreign [of d h t] ok by (simp add: store_ok_def)
next
  case (re_pipe_create t' pa ow p d1)
  then show ?case
    using create_pipeline_InrD [of d t pa ow p d1] by (auto simp: others_part_def)
next
  case (re_pipe_update p pa d1)
  then obtain cfg where "d1 = d\<lparr>d_pipelines := upd_row p_id (p_id p) (touch_pipeline d (fill_pipeline pa cfg)) (d_pipelines d)\<rparr>"
    using update_pipeline_InrD by blast
  moreover have "filter (\<lambda>p. p_tenant_id p \<noteq> t) (upd_row p_id (p_id p) (touch_pipeline d (fill_pipeline pa cfg)) (d_pipelines d)) =
      filter (\<lambda>p. p_tenant_id p \<noteq> t) (d_pipelines d)"
    using own_pipeline_not_other(2) re_pipe_update(1,2) ok
    by (intro filter_upd_row) (auto simp: touched_pipeline_tenant store_ok_def)
  ultimately show ?case
    by (simp add: others_part_def)
next
  case (re_pipe_delete p)
  then have p: "p_id p \<notin> other_pipelines t d" "\<And>x. x \<in> set (d_pipelines d) \<Longrightarrow> p_id x = p_id p \<Longrightarrow> p_tenant_id x = t"
    using own_pipeline_not_other [of d p t] ok by (auto simp: store_ok_def)
  have "filter (\<lambda>x. p_tenant_id x \<noteq> t) (del_rows (\<lambda>x. p_id x = p_id p) (d_pipelines d)) = filter (\<lambda>x. p_tenant_id x \<noteq> t) (d_pipelines d)"
    using p(2) by (intro filter_del_rows) auto
  then show ?case
    using p(1) by (auto simp: others_part_def delete_pipeline_def fk_delete_pipeline_def intro!: filter_del_rows)
next
  case (re_trigger p E i u r d1)
  then show ?case
    using trigger_pipeline_InrD [of E d p i u r d1] own_pipeline_not_other(1) [of d p t] ok by (auto simp: others_part_def store_ok_def)
next
  case (re_crashed p i u)
  then show ?case
    using own_pipeline_not_other(1) [of d p t] ok by (auto simp: others_part_def store_ok_def new_run_def)
next
  case (re_cred_add c d1)
  then show ?case
    by (auto simp: others_part_def dest!: add_credential_InrD)
next
  case (re_cred_update c now dm un)
  have "c_tenant_id x = t" if "x \<in> set (d_credentials d)" "c_id x = c_id c" for x
    using uniq_row [of c_id "d_credentials d" x c] ok that re_cred_update by (auto simp: store_ok_def creds_ok_def)
  then have "filter (\<lambda>c. c_tenant_id c \<noteq> t) (upd_row c_id (c_id c) (\<lambda>c. c\<lparr>c_username := un, c_domain := dm, c_updated_at := now\<rparr>)
      (d_credentials d)) = filter (\<lambda>c. c_tenant_id c \<noteq> t) (d_credentials d)"
    by (intro filter_upd_row) auto
  then show ?case
    by (simp add: others_part_def)
next
  case (re_cred_delete c)
  then show ?case
    using deleted_credential_others [OF ok, of c t] by simp
next
  case (re_secret d1 c v)
  then show ?case
    using set_keeps [of "\<lambda>x. others_part t (other_pipelines t d) x = others_part t (other_pipelines t d) d"] by simp
next
  case (re_clear d1 c)
  then show ?case
    using delete_keeps [of "\<lambda>x. others_part t (other_pipelines t d) x = others_part t (other_pipelines t d) d"] by simp
qed simp_all

end

section \<open>What the tools leave behind\<close>

text \<open>
  The description of \<open>update_host\<close> promises that omitted fields keep their value; whatever the
  arguments, the file-transfer settings and the organizational unit are cleared, and without a
  \<open>tags\<close> argument the tags too.
\<close>

lemma validate_none: "validate_ft None = Inr None" "validate_org_unit d None t = Inr None" "validate_credential d None q = Inr None"
    "normalize_tags [] = []"
  by (code_simp | simp add: validate_org_unit_def validate_credential_def)+

lemma touch_host_columns:
  "h_ft_method (touch_host d f h) = h_ft_method (f h)" "h_ft_credential_id (touch_host d f h) = h_ft_credential_id (f h)"
  "h_org_unit_id (touch_host d f h) = h_org_unit_id (f h)"
  by (simp_all add: touch_host_def)

lemma drop_jump_columns:
  "ha_ft_method (drop_jump a) = ha_ft_method a" "ha_ft_credential_id (drop_jump a) = ha_ft_credential_id a"
  "ha_org_unit_id (drop_jump a) = ha_org_unit_id a" "ha_tags_csv (drop_jump a) = ha_tags_csv a"
  by (simp_all add: drop_jump_def)

lemma update_host_clears:
  assumes "update_host d h (agent_host_args n hn port proto desc cred jump tags box) = Inr (h', d1)"
  shows "h_ft_method h' = None" "h_ft_credential_id h' = None" "h_org_unit_id h' = None"
    "tags = [] \<Longrightarrow> filter (\<lambda>x. ht_host_id x = h_id h) (d_host_tags d1) = []"
proof -
  obtain a where a: "checked_host d (h_tenant_id h) (agent_host_args n hn port proto desc cred jump tags box) = Inr a"
      "h' = touch_host d (fill_host (drop_jump a)) h" "d1 = add_tags (h_id h) (h_tenant_id h) (normalize_tags (ha_tags_csv (drop_jump a)))
        (d\<lparr>d_hosts := upd_row h_id (h_id h) (touch_host d (fill_host (drop_jump a))) (d_hosts d),
           d_host_tags := del_rows (\<lambda>t. ht_host_id t = h_id h) (d_host_tags d)\<rparr>)"
    using update_host_InrD [OF assms] by auto
  have f: "ha_ft_method a = None" "ha_ft_credential_id a = None" "ha_org_unit_id a = None" "ha_tags_csv a = tags"
    using a(1) by (auto simp: checked_host_def agent_host_args_def bind_r_Inr_iff validate_none Let_def split: if_splits)
  show "h_ft_method h' = None" "h_ft_credential_id h' = None" "h_org_unit_id h' = None"
    using f by (simp_all add: a(2) touch_host_columns drop_jump_columns)
  show "filter (\<lambda>x. ht_host_id x = h_id h) (d_host_tags d1) = []" if "tags = []"
    using f that by (simp add: a(3) drop_jump_columns validate_none del_rows_def filter_empty_conv)
qed

text \<open>A crash of the provider client after the flush leaves a run that no job belongs to, queued for good.\<close>

lemma crashed_trigger_commits:
  assumes "arg_text a ''name'' [] = Inr name" and "name \<noteq> []" and "dict_get a ''inputs'' = None"
    and "find_pipeline X d name tid = Inr (Some p)" and "get_adapter (p_provider p) = Inr ad" and "p_config p = Some (JObj c)"
    and "trigger_pipeline (ax_pipe X) d p [] None = Inl e"
  shows "d_runs (snd (run_pipeline_runner X a tid d)) = d_runs d @ [new_run d p [] None] \<and> r_status (new_run d p [] None) = ''queued''"
  using assms by (simp add: run_pipeline_runner_def bind_r_def settle_def trigger_leftover_def new_run_def)

section \<open>Properties\<close>

lemma run_action_db: "map_of db_runners tool = Some r \<Longrightarrow> run_action X other tool a tid d = r X a tid d"
  by (simp add: run_action_def)

lemma run_action_cards:
  assumes "backend_frame (ax_backend X)" and "card_runner other"
  shows "card_runner (run_action X other)"
proof
  fix tool a tid d
  show "d_plan_cards (snd (run_action X other tool a tid d)) = d_plan_cards d"
    using backend_frame.runner_effect_cards [OF assms(1) db_runner_effect] card_runner.keeps_cards [OF assms(2)]
    by (cases "map_of db_runners tool") (simp_all add: run_action_def)
qed

text \<open>The tools of the code keep the plan cards, so that a card runs at most once with them too.\<close>

interpretation db_tools: card_runner "run_action (X\<lparr>ax_backend := local_backend enc dec iv\<rparr>) idle_runner" for X enc dec iv
  by (rule run_action_cards) (simp_all add: local_be.backend_frame_axioms idle.card_runner_axioms)

definition demo_actions :: action_env where
  \<comment> \<open>the local backend, one network answer, no JSON text\<close>
  "demo_actions = \<lparr>ax_pipe = demo_pipe_env, ax_backend = demo_backend, ax_float_int = (\<lambda>_. Inr 0),
     ax_exn = (\<lambda>m. py_exn m m), ax_json_error = (\<lambda>s. s), ax_bind_text = (\<lambda>_. Inr []), ax_ms = 0\<rparr>"


definition demo_site :: db where
  \<comment> \<open>the profiles of \<open>demo_vault\<close>, a host of tenant 1 and one of tenant 2 that use them, the pipelines of \<open>demo_pipes\<close>\<close>
  "demo_site = demo_vault\<lparr>d_hosts := [(demo_host 1 1 None)\<lparr>h_credential_id := Some 1\<rparr>, (demo_host 2 2 None)\<lparr>h_credential_id := Some 4\<rparr>],
     d_pipelines := d_pipelines demo_pipes, d_payloads := d_payloads demo_pipes, d_runs := d_runs demo_pipes\<rparr>"


lemma one_or_none_unique: "filter P xs = [x] \<Longrightarrow> one_or_none X (filter P xs) = Inr (Some x)"
  by (simp add: one_or_none_def)

lemma filter_key_unique: "distinct (map k xs) \<Longrightarrow> x \<in> set xs \<Longrightarrow> filter (\<lambda>y. k y = k x) xs = [x]"
  by (induction xs) (auto simp: filter_empty_conv image_iff)

lemma find_credential_unique:
  assumes "creds_ok d" and "c \<in> set (d_credentials d)"
  shows "find_credential X d (c_name c) (Some (c_tenant_id c)) = Inr (Some c)"
proof -
  let ?k = "\<lambda>c. (c_tenant_id c, c_name c)"
  have "filter (\<lambda>x. ?k x = ?k c) (d_credentials d) = [c]"
    using assms by (intro filter_key_unique) (simp_all add: creds_ok_def)
  then have "filter (\<lambda>x. in_scope (Some (c_tenant_id c)) (c_tenant_id x)) (filter (\<lambda>x. c_name x = c_name c) (d_credentials d)) = [c]"
    by (simp add: conj_commute)
  then show ?thesis
    unfolding find_credential_def where_opt_tenant by (rule one_or_none_unique)
qed

text \<open>C34: The agent works outside the visibility rule of profiles: a user for whom a private profile
  of their own tenant does not exist on the credential routes (404) overwrites its secret by approving an
  \<open>update_credential\<close> card in a conversation of that tenant.\<close>

theorem agent_ignores_visibility:
  assumes "creds_ok d" and "blobs_ok (d_secrets d)" and "c \<in> set (d_credentials d)" and "\<not> can_see_credential (Some u) c"
    and "ax_backend X = local_backend enc dec iv" and "dec (enc iv v) = Some v"
    and "py_strip (c_name c) = c_name c" and "c_name c \<noteq> []" and "py_strip v = v" and "v \<noteq> []"
    and "run_action X other ''update_credential'' [(''name'', JStr (c_name c)), (''secret_value'', JStr v)] (Some (c_tenant_id c)) d = (r, d')"
  shows "cred_or_404 d (c_id c) (Some (c_tenant_id c)) u = Inl (HttpError 404 ''Not Found'') \<and>
    (\<exists>x. r = Inr x \<and> ar_ok x) \<and> be_get (ax_backend X) d' (c_secret_ref c) = Inr v"
proof -
  have f: "find_credential X d (c_name c) (Some (c_tenant_id c)) = Inr (Some c)"
    using find_credential_unique assms by simp
  have a: "arg_text [(''name'', JStr (c_name c)), (''secret_value'', JStr v)] ''name'' [] = Inr (c_name c)"
    "arg_text [(''name'', JStr (c_name c)), (''secret_value'', JStr v)] ''secret_value'' [] = Inr v"
    "text_field_arg [(''name'', JStr (c_name c)), (''secret_value'', JStr v)] ''username'' w = Inr w"
    "text_field_arg [(''name'', JStr (c_name c)), (''secret_value'', JStr v)] ''domain'' w = Inr w" for w
    using assms(7-10) by (simp_all add: arg_text_def text_field_arg_def dict_get_def json_truthy_def strip_json_def)
  have "get_row c_id (d_credentials d) (c_id c) = Some c"
    using assms(1,3) by (simp add: creds_ok_def get_row_in)
  then have "cred_or_404 d (c_id c) (Some (c_tenant_id c)) u = Inl (HttpError 404 ''Not Found'')"
    using assms(4) by (simp add: cred_or_404_def get_credential_def)
  moreover have "(\<exists>x. r = Inr x \<and> ar_ok x) \<and> be_get (ax_backend X) d' (c_secret_ref c) = Inr v"
    using assms(11,2,6,8,10)
    by (auto simp: run_action_def db_runners_def update_credential_runner_def settle_def f a assms(5) Let_def bind_r_def local_backend_def
        secret_set_def secret_get_token blobs.lookup_put done_with_def plain_result_def agent_audit_def)
  ultimately show ?thesis
    by blast
qed

theorem agent_ignores_visibility_witness:
  "be_get demo_backend (snd (run_action demo_actions idle_runner ''update_credential''
     [(''name'', JStr ''c2''), (''secret_value'', JStr ''new'')] (Some 1) demo_vault)) ''creds/c2'' = Inr ''new''"
proof -
  let ?c = "demo_profile 2 1 ''login'' ''private'' (Some 2)"
  have c: "c_name ?c = ''c2''" "c_tenant_id ?c = 1" "c_secret_ref ?c = ''creds/c2''"
    by code_simp+
  have n: "\<not> can_see_credential (Some (demo_user 1 ''operator'' (Some 1))) ?c" and m: "?c \<in> set (d_credentials demo_vault)"
    and st: "py_strip ''c2'' = ''c2''" "py_strip ''new'' = ''new''"
    by code_simp+
  have b: "ax_backend demo_actions = demo_backend"
    by (simp add: demo_actions_def)
  obtain r d' where r: "run_action demo_actions idle_runner ''update_credential''
      [(''name'', JStr ''c2''), (''secret_value'', JStr ''new'')] (Some 1) demo_vault = (r, d')"
    by fastforce
  have "be_get (ax_backend demo_actions) d' (c_secret_ref ?c) = Inr ''new''"
    using agent_ignores_visibility [OF demo_vault_ok(1,3) m n b, of "''new''" idle_runner r d'] c st r by simp
  then show ?thesis
    by (simp add: r b c)
qed

end
