(* ===== verification/Dosm_Vault.thy ===== *)
theory Dosm_Vault
  imports Dosm_Models
begin

text \<open>
  The documents side that needs no database: the chunker (\<open>dosm/docs_index/chunker.py\<close>), the path
  rule and the local store (\<open>store.py\<close>) and the vault helpers (\<open>vault.py\<close>). Positions are Python
  integers. The directory is the \<open>vault\<close> of the state: there are no symbolic links in it, a file
  holds the text that \<open>read_text\<close> decodes. The SMB store only forwards to a network client.
\<close>

section \<open>Slices and searches of text\<close>

definition py_bound :: "string \<Rightarrow> int \<Rightarrow> nat" where
  \<comment> \<open>how a slice reads an index: negative from the end, then into the text\<close>
  "py_bound s i = (let n = int (length s); j = (if i < 0 then i + n else i) in nat (max 0 (min n j)))"

definition py_slice :: "string \<Rightarrow> int \<Rightarrow> int \<Rightarrow> string" where
  "py_slice s i j = take (py_bound s j - py_bound s i) (drop (py_bound s i) s)"

definition occurs_at :: "string \<Rightarrow> string \<Rightarrow> nat \<Rightarrow> bool" where
  "occurs_at sub s i \<longleftrightarrow> take (length sub) (drop i s) = sub"

definition py_rfind :: "string \<Rightarrow> string \<Rightarrow> int \<Rightarrow> int \<Rightarrow> int" where
  \<comment> \<open>\<open>s.rfind(sub, i, j)\<close> for a non-empty \<open>sub\<close>\<close>
  "py_rfind s sub i j = (case filter (occurs_at sub s) (rev [py_bound s i..<py_bound s j + 1 - length sub]) of
     [] \<Rightarrow> -1 | k # _ \<Rightarrow> int k)"

definition py_find :: "string \<Rightarrow> string \<Rightarrow> int \<Rightarrow> int" where
  \<comment> \<open>\<open>s.find(sub, i)\<close> for a non-empty \<open>sub\<close>\<close>
  "py_find s sub i = (case filter (occurs_at sub s) [py_bound s i..<length s + 1 - length sub] of
     [] \<Rightarrow> -1 | k # _ \<Rightarrow> int k)"

section \<open>The chunker\<close>

record chunk =
  cu_ord :: int
  cu_text :: string
  cu_start :: int
  cu_end :: int

definition BREAKPOINTS :: "string list" where
  "BREAKPOINTS = [[CHR 0x0A, CHR 0x0A], [CHR 0x0A], ''. '', '' '']"

fun break_loop :: "string list \<Rightarrow> string \<Rightarrow> int \<Rightarrow> int \<Rightarrow> int" where
  "break_loop [] text target_end min_end = target_end"
| "break_loop (sep # seps) text target_end min_end =
     (let idx = py_rfind text sep min_end target_end
      in if idx \<noteq> -1 then idx + int (length sep) else break_loop seps text target_end min_end)"

definition find_break :: "string \<Rightarrow> int \<Rightarrow> int \<Rightarrow> int" where
  "find_break text target_end min_end = break_loop BREAKPOINTS text target_end min_end"

definition window_end :: "string \<Rightarrow> int \<Rightarrow> int \<Rightarrow> int \<Rightarrow> int" where
  "window_end text width overlap start =
     (let n = int (length text); target_end = min n (start + width)
      in if target_end < n then find_break text target_end (max (start + (width - overlap)) (target_end - overlap)) else n)"

definition add_piece :: "string \<Rightarrow> int \<Rightarrow> int \<Rightarrow> chunk list \<Rightarrow> chunk list" where
  "add_piece text start stop out = (let piece = py_strip (py_slice text start stop)
     in if piece = [] then out
        else out @ [\<lparr>cu_ord = int (length out), cu_text = piece, cu_start = start, cu_end = stop\<rparr>])"

partial_function (option) chunk_loop :: "string \<Rightarrow> int \<Rightarrow> int \<Rightarrow> int \<Rightarrow> chunk list \<Rightarrow> chunk list option" where
  \<comment> \<open>\<open>None\<close>: the loop does not end; \<open>ord_\<close> is the number of pieces so far\<close>
  "chunk_loop text width overlap start out =
     (if start < int (length text)
      then (let stop = window_end text width overlap start; out1 = add_piece text start stop out
            in if int (length text) \<le> stop then Some out1
               else chunk_loop text width overlap (max (start + (width - overlap)) (stop - overlap)) out1)
      else Some out)"

declare chunk_loop.simps [code]

definition chunk_text :: "string \<Rightarrow> int \<Rightarrow> int \<Rightarrow> chunk list option" where
  "chunk_text text0 width overlap0 = (let text = py_strip text0;
       overlap = (if width \<le> overlap0 then width div 5 else overlap0)
     in if text = [] then Some [] else chunk_loop text width overlap 0 [])"

lemma py_bound_in [simp]: "0 \<le> i \<Longrightarrow> i \<le> int (length s) \<Longrightarrow> py_bound s i = nat i"
  by (simp add: py_bound_def Let_def)

lemma filter_rev_upt: "filter P (rev [a..<b]) = k # ks \<Longrightarrow> P k \<and> a \<le> k \<and> k < b"
proof -
  assume "filter P (rev [a..<b]) = k # ks"
  then have "k \<in> set (filter P (rev [a..<b]))"
    by (metis list.set_intros(1))
  then show ?thesis
    by simp
qed

lemma py_rfind_bounds:
  assumes "py_rfind s sub i j \<noteq> -1" and "0 \<le> i" and "i \<le> int (length s)" and "0 \<le> j" and "j \<le> int (length s)"
  shows "i \<le> py_rfind s sub i j" and "py_rfind s sub i j + int (length sub) \<le> j"
proof -
  obtain k ks where k: "filter (occurs_at sub s) (rev [nat i..<nat j + 1 - length sub]) = k # ks"
    using assms by (auto simp: py_rfind_def split: list.splits)
  then have "nat i \<le> k" "k < nat j + 1 - length sub"
    by (auto dest: filter_rev_upt)
  moreover have "py_rfind s sub i j = int k"
    using k assms(2-5) by (simp add: py_rfind_def)
  ultimately show "i \<le> py_rfind s sub i j" "py_rfind s sub i j + int (length sub) \<le> j"
    using assms(2,4) by auto
qed

lemma break_loop_bounds:
  assumes "0 \<le> lo" and "lo < hi" and "hi \<le> int (length text)" and "[] \<notin> set seps"
  shows "lo < break_loop seps text hi lo \<and> break_loop seps text hi lo \<le> hi"
  using assms(4)
proof (induction seps)
  case (Cons sep seps)
  then obtain c r where "sep = c # r"
    by (cases sep) auto
  then show ?case
    using Cons py_rfind_bounds [of "text" sep lo hi] assms(1-3) by (auto simp: Let_def)
qed (simp add: assms)

lemma find_break_bounds: "0 \<le> lo \<Longrightarrow> lo < hi \<Longrightarrow> hi \<le> int (length text) \<Longrightarrow>
    lo < find_break text hi lo \<and> find_break text hi lo \<le> hi"
  unfolding find_break_def by (rule break_loop_bounds) (auto simp: BREAKPOINTS_def)

lemma window_end_bounds:
  assumes "0 \<le> overlap" and "overlap < width" and "0 \<le> start" and "start < int (length text)"
  shows "start < window_end text width overlap start" "window_end text width overlap start \<le> start + width"
    "window_end text width overlap start \<le> int (length text)"
    "window_end text width overlap start < int (length text) \<Longrightarrow> start + (width - overlap) \<le> window_end text width overlap start"
proof -
  let ?n = "int (length text)"
  let ?lo = "start + (width - overlap)"
  have "window_end text width overlap start = ?n \<and> ?n \<le> start + width \<or>
      (window_end text width overlap start = find_break text (start + width) (start + width - overlap) \<and> start + width < ?n)"
    by (auto simp: window_end_def Let_def min_def max_def algebra_simps)
  moreover have "start + width < ?n \<Longrightarrow> overlap > 0 \<Longrightarrow> ?lo < find_break text (start + width) (start + width - overlap) \<and>
      find_break text (start + width) (start + width - overlap) \<le> start + width"
    using find_break_bounds [of "start + width - overlap" "start + width" "text"] assms by (simp add: algebra_simps)
  moreover have "find_break text (start + width) (start + width - 0) = start + width" if "start + width < ?n"
  proof -
    have "py_rfind text sep (start + width) (start + width) = -1" if "sep \<noteq> []" for sep
    proof (rule ccontr)
      assume "py_rfind text sep (start + width) (start + width) \<noteq> -1"
      then have "int (length sep) \<le> 0"
        using py_rfind_bounds [of "text" sep "start + width" "start + width"] assms \<open>start + width < ?n\<close> by linarith
      then show False
        using that by simp
    qed
    then show ?thesis
      by (simp add: find_break_def BREAKPOINTS_def)
  qed
  ultimately show "start < window_end text width overlap start" "window_end text width overlap start \<le> start + width"
    "window_end text width overlap start \<le> int (length text)"
    "window_end text width overlap start < int (length text) \<Longrightarrow> start + (width - overlap) \<le> window_end text width overlap start"
    using assms by (cases "overlap = 0"; auto)+
qed

definition chunks_fit :: "string \<Rightarrow> int \<Rightarrow> chunk list \<Rightarrow> bool" where
  "chunks_fit text width cs \<longleftrightarrow> map cu_ord cs = map int [0..<length cs] \<and>
     (\<forall>c \<in> set cs. 0 \<le> cu_start c \<and> cu_end c \<le> int (length text) \<and> cu_end c - cu_start c \<le> width \<and>
        cu_text c \<noteq> [] \<and> cu_text c = py_strip (py_slice text (cu_start c) (cu_end c)))"

definition covered :: "chunk list \<Rightarrow> int \<Rightarrow> bool" where
  "covered cs i \<longleftrightarrow> (\<exists>c \<in> set cs. cu_start c \<le> i \<and> i < cu_end c)"

definition gap_free :: "string \<Rightarrow> chunk list \<Rightarrow> int \<Rightarrow> bool" where
  \<comment> \<open>every character before \<open>m\<close> that is no white space lies in a chunk\<close>
  "gap_free text cs m \<longleftrightarrow> (\<forall>i. 0 \<le> i \<and> i < m \<and> \<not> py_isspace (text ! nat i) \<longrightarrow> covered cs i)"

lemma py_strip_empty: "py_strip s = [] \<longleftrightarrow> (\<forall>c \<in> set s. py_isspace c)"
proof -
  have "dropWhile py_isspace (rev (dropWhile py_isspace s)) = [] \<longleftrightarrow> (\<forall>c \<in> set (dropWhile py_isspace s). py_isspace c)"
    by simp
  also have "\<dots> \<longleftrightarrow> (\<forall>c \<in> set s. py_isspace c)"
    by (induction s) auto
  finally show ?thesis
    by (simp add: py_strip_def py_lstrip_def py_rstrip_def)
qed

lemma py_slice_nth:
  assumes "0 \<le> i" and "i \<le> k" and "k < j" and "j \<le> int (length s)"
  shows "s ! nat k \<in> set (py_slice s i j)"
proof -
  obtain a b m where n: "i = int a" "j = int b" "k = int m"
    using assms by (metis nonneg_int_cases order_trans less_imp_le)
  then have "a \<le> m" "m < b" "b \<le> length s"
    using assms by simp_all
  then have "take (b - a) (drop a s) ! (m - a) = s ! m" "m - a < length (take (b - a) (drop a s))"
    by auto
  then have "s ! m \<in> set (take (b - a) (drop a s))"
    by (metis nth_mem)
  then show ?thesis
    using assms n by (simp add: py_slice_def)
qed

lemma add_piece_fit:
  assumes "chunks_fit text width out" and "0 \<le> start" and "stop \<le> int (length text)" and "stop - start \<le> width"
  shows "chunks_fit text width (add_piece text start stop out)"
  using assms by (auto simp: chunks_fit_def add_piece_def Let_def)

lemma add_piece_gap_free:
  assumes "gap_free text out start" and "0 \<le> start" and "stop \<le> int (length text)"
  shows "gap_free text (add_piece text start stop out) stop"
  unfolding gap_free_def
proof (intro allI impI)
  fix i
  assume i: "0 \<le> i \<and> i < stop \<and> \<not> py_isspace (text ! nat i)"
  show "covered (add_piece text start stop out) i"
  proof (cases "i < start")
    case True
    then have "covered out i"
      using assms(1) i by (simp add: gap_free_def)
    then show ?thesis
      by (auto simp: covered_def add_piece_def Let_def)
  next
    case False
    then have "text ! nat i \<in> set (py_slice text start stop)"
      using i assms(2,3) by (intro py_slice_nth) auto
    then have "py_strip (py_slice text start stop) \<noteq> []"
      using i by (auto simp: py_strip_empty)
    then show ?thesis
      using i False by (auto simp: covered_def add_piece_def Let_def)
  qed
qed

lemma chunk_loop_fits:
  assumes "0 \<le> overlap" and "overlap < width" and "0 \<le> start" and "chunks_fit text width out" and "gap_free text out start"
  shows "\<exists>cs. chunk_loop text width overlap start out = Some cs \<and> chunks_fit text width cs \<and> gap_free text cs (int (length text))"
  using assms(3-5)
proof (induction "nat (int (length text) - start)" arbitrary: start out rule: less_induct)
  case less
  let ?n = "int (length text)" and ?stop = "window_end text width overlap start"
  let ?out = "add_piece text start ?stop out" and ?next = "max (start + (width - overlap)) (?stop - overlap)"
  show ?case
  proof (cases "start < ?n")
    case False
    then have "gap_free text out ?n"
      using less.prems(3) by (auto simp: gap_free_def)
    then show ?thesis
      using False less.prems by (subst chunk_loop.simps) simp
  next
    case True
    note b = window_end_bounds [OF assms(1,2) less.prems(1) True]
    have fit: "chunks_fit text width ?out" and gap: "gap_free text ?out ?stop"
      using add_piece_fit [OF less.prems(2,1)] add_piece_gap_free [OF less.prems(3,1)] b by auto
    show ?thesis
    proof (cases "?n \<le> ?stop")
      case full: True
      then have "?stop = ?n"
        using b by simp
      then show ?thesis
        using True fit gap by (subst chunk_loop.simps) (simp add: Let_def)
    next
      case False
      then have step: "start < ?next" "?next \<le> ?stop"
        using b assms(1,2) by auto
      then have "gap_free text ?out ?next"
        using gap by (auto simp: gap_free_def)
      then have "\<exists>cs. chunk_loop text width overlap ?next ?out = Some cs \<and> chunks_fit text width cs \<and> gap_free text cs ?n"
        using less.hyps [of ?next ?out] less.prems(1) fit step(1) True by simp
      then show ?thesis
        using True False by (subst chunk_loop.simps) (simp add: Let_def)
    qed
  qed
qed



text \<open>The configuration admits a window of width 0; then the loop stands still on every text.\<close>

lemma window_end_0: "start = 0 \<Longrightarrow> text \<noteq> [] \<Longrightarrow> window_end text 0 0 start = 0"
proof -
  assume "start = 0" "text \<noteq> []"
  moreover have "py_rfind text sep 0 0 = -1" if "sep \<noteq> []" for sep
    using that by (cases sep) (simp_all add: py_rfind_def py_bound_def)
  then have "find_break text 0 0 = 0"
    by (simp add: find_break_def BREAKPOINTS_def)
  ultimately show ?thesis
    by (simp add: window_end_def)
qed

lemma chunk_loop_stands_still:
  assumes "chunk_loop text width overlap start out = Some cs"
  shows "\<not> (text \<noteq> [] \<and> width = 0 \<and> overlap = 0 \<and> start = 0)"
proof (rule chunk_loop.raw_induct [where P = "\<lambda>s w ov st out cs. \<not> (s \<noteq> [] \<and> w = 0 \<and> ov = 0 \<and> st = 0)", OF _ assms])
  fix lp s w ov st out and cs :: "chunk list"
  assume ih: "\<And>s w ov st out cs. lp s w ov st out = Some cs \<Longrightarrow> \<not> (s \<noteq> [] \<and> w = 0 \<and> ov = 0 \<and> st = 0)"
    and eq: "(if st < int (length s) then let stop = window_end s w ov st; out1 = add_piece s st stop out
        in if int (length s) \<le> stop then Some out1 else lp s w ov (max (st + (w - ov)) (stop - ov)) out1 else Some out) = Some cs"
  show "\<not> (s \<noteq> [] \<and> w = 0 \<and> ov = 0 \<and> st = 0)"
  proof
    assume a: "s \<noteq> [] \<and> w = 0 \<and> ov = 0 \<and> st = 0"
    then have "lp s w ov st (add_piece s 0 0 out) = Some cs"
      using eq window_end_0 [of 0 s] by (simp add: Let_def)
    then show False
      using ih a by blast
  qed
qed

lemma zero_window_never_ends:
  assumes "py_strip text \<noteq> []" and "0 \<le> overlap"
  shows "chunk_text text 0 overlap = None"
  using assms chunk_loop_stands_still [of "py_strip text" 0 0 0 "[]"]
  by (cases "chunk_loop (py_strip text) 0 0 0 []") (auto simp: chunk_text_def Let_def)

section \<open>Paths\<close>

definition posix_parts :: "string \<Rightarrow> string list" where
  \<comment> \<open>\<open>PurePosixPath(r).parts\<close> of a relative path\<close>
  "posix_parts r = filter (\<lambda>p. p \<noteq> [] \<and> p \<noteq> ''.'') (split_on CHR ''/'' r)"

definition normalize_rel :: "string \<Rightarrow> string + string" where
  \<comment> \<open>\<open>Inl\<close>: the text of the \<open>ValueError\<close>\<close>
  "normalize_rel rel = (let r = py_strip (replace_char CHR 0x5C CHR ''/'' rel); parts = posix_parts r
     in if starts_with r ''/'' then Inl (''absolute path rejected: '' @ py_repr rel)
        else if ''..'' \<in> set parts then Inl (''path traversal rejected: '' @ py_repr rel)
        else if parts = [] then Inl (''empty doc path: '' @ py_repr rel)
        else Inr (join_with ''/'' parts))"

definition parent_dirs :: "string \<Rightarrow> string list" where
  \<comment> \<open>the directories above a path, outermost first\<close>
  "parent_dirs p = (let ps = split_on CHR ''/'' p in map (\<lambda>k. join_with ''/'' (take k ps)) [1..<length ps])"

definition path_name :: "string \<Rightarrow> string" where
  "path_name p = last (split_on CHR ''/'' p)"

definition path_parent :: "string \<Rightarrow> string" where
  \<comment> \<open>the directory of a path, empty for the root\<close>
  "path_parent p = join_with ''/'' (butlast (split_on CHR ''/'' p))"

section \<open>The local store\<close>

datatype store_error =
    Bad_Path string
  | No_Such_File
  | Os_Error string

definition file_at :: "vault \<Rightarrow> string \<Rightarrow> vfile option" where
  "file_at v p = map_of (va_files v) p"

definition put_file :: "string \<Rightarrow> vfile \<Rightarrow> vault \<Rightarrow> vault" where
  "put_file p f v = v\<lparr>va_files := (if file_at v p = None then va_files v @ [(p, f)]
       else map (\<lambda>(q, g). (q, if q = p then f else g)) (va_files v)),
     va_dirs := va_dirs v @ filter (\<lambda>a. a \<notin> set (va_dirs v)) (parent_dirs p)\<rparr>"

definition drop_file :: "string \<Rightarrow> vault \<Rightarrow> vault" where
  "drop_file p v = v\<lparr>va_files := filter (\<lambda>(q, _). q \<noteq> p) (va_files v)\<rparr>"

definition open_path :: "vault \<Rightarrow> string \<Rightarrow> store_error + vfile" where
  \<comment> \<open>opening, stating or unlinking a path of the tree\<close>
  "open_path v p = (case file_at v p of Some f \<Rightarrow> Inr f
     | None \<Rightarrow> if p \<in> set (va_dirs v) then Inl (Os_Error ''IsADirectoryError'')
         else if \<exists>a \<in> set (parent_dirs p). file_at v a \<noteq> None then Inl (Os_Error ''NotADirectoryError'')
         else Inl No_Such_File)"

definition safe_rel :: "string \<Rightarrow> store_error + string" where
  \<comment> \<open>without symbolic links the resolved path stays below the root\<close>
  "safe_rel rel = (case normalize_rel rel of Inl e \<Rightarrow> Inl (Bad_Path e) | Inr p \<Rightarrow> Inr p)"

definition store_open :: "vault \<Rightarrow> string \<Rightarrow> store_error + vfile" where
  "store_open v rel = bind_r (safe_rel rel) (open_path v)"

definition store_is_file :: "vault \<Rightarrow> string \<Rightarrow> bool" where
  "store_is_file v rel = (case safe_rel rel of Inl _ \<Rightarrow> False | Inr p \<Rightarrow> file_at v p \<noteq> None)"

definition store_read_text :: "vault \<Rightarrow> string \<Rightarrow> store_error + string" where
  "store_read_text v rel = bind_r (store_open v rel) (\<lambda>f. Inr (vf_text f))"

definition store_mtime :: "vault \<Rightarrow> string \<Rightarrow> store_error + int" where
  "store_mtime v rel = bind_r (store_open v rel) (\<lambda>f. Inr (vf_mtime f))"

definition utf8_size :: "string \<Rightarrow> int" where
  "utf8_size s = sum_list (map (\<lambda>c. if code_point c < 128 then 1 else 2) s)"

definition store_write :: "stamp \<Rightarrow> vault \<Rightarrow> string \<Rightarrow> string \<Rightarrow> store_error + vault" where
  "store_write now v rel text = bind_r (safe_rel rel) (\<lambda>p.
     if \<exists>a \<in> set (parent_dirs p). file_at v a \<noteq> None
     then Inl (Os_Error (if file_at v (path_parent p) \<noteq> None then ''FileExistsError'' else ''NotADirectoryError''))
     else if p \<in> set (va_dirs v) then Inl (Os_Error ''IsADirectoryError'')
     else Inr (put_file p \<lparr>vf_text = text, vf_mtime = now div 1000\<rparr> v))"

definition store_delete :: "vault \<Rightarrow> string \<Rightarrow> store_error + vault" where
  "store_delete v rel = bind_r (safe_rel rel) (\<lambda>p. bind_r (open_path v p) (\<lambda>_. Inr (drop_file p v)))"

definition store_files :: "vault \<Rightarrow> string list" where
  \<comment> \<open>\<open>iter_files\<close>; the order of a directory walk is arbitrary\<close>
  "store_files v = map fst (va_files v)"

definition children :: "vault \<Rightarrow> string \<Rightarrow> string list" where
  "children v dir = map path_name (filter (\<lambda>p. path_parent p = dir) (map fst (va_files v) @ va_dirs v))"

definition store_child_names :: "vault \<Rightarrow> string \<Rightarrow> store_error + string list" where
  "store_child_names v rel = (if strip_char CHR ''/'' rel = [] then Inr (children v [])
     else bind_r (safe_rel rel) (\<lambda>dir. Inr (if dir \<in> set (va_dirs v) then children v dir else [])))"

section \<open>Copying and probing stores\<close>

record migration =
  mi_copied :: "string list"
  mi_skipped :: "string list"
  mi_errors :: "(string \<times> string) list"

fun migrate_loop :: "(store_error \<Rightarrow> string) \<Rightarrow> stamp \<Rightarrow> bool \<Rightarrow> bool \<Rightarrow> vault \<Rightarrow> string list \<Rightarrow> vault \<Rightarrow> migration \<Rightarrow> migration \<times> vault" where
  \<comment> \<open>\<open>txt\<close> is \<open>str()\<close> of an exception\<close>
  "migrate_loop txt now dry over src [] dst m = (m, dst)"
| "migrate_loop txt now dry over src (rel # rels) dst m =
     (if dry then migrate_loop txt now dry over src rels dst (m\<lparr>mi_copied := mi_copied m @ [rel]\<rparr>)
      else if \<not> over \<and> store_is_file dst rel
      then migrate_loop txt now dry over src rels dst (m\<lparr>mi_skipped := mi_skipped m @ [rel]\<rparr>)
      else (case bind_r (store_read_text src rel) (store_write now dst rel) of
          Inl e \<Rightarrow> migrate_loop txt now dry over src rels dst (m\<lparr>mi_errors := mi_errors m @ [(rel, txt e)]\<rparr>)
        | Inr dst1 \<Rightarrow> migrate_loop txt now dry over src rels dst1 (m\<lparr>mi_copied := mi_copied m @ [rel]\<rparr>)))"

definition migrate_docs :: "(store_error \<Rightarrow> string) \<Rightarrow> stamp \<Rightarrow> bool \<Rightarrow> bool \<Rightarrow> vault \<Rightarrow> vault \<Rightarrow> migration \<times> vault" where
  "migrate_docs txt now dry over src dst =
     migrate_loop txt now dry over src (store_files src) dst \<lparr>mi_copied = [], mi_skipped = [], mi_errors = []\<rparr>"

section \<open>The vault\<close>

definition UNFILED_SLUG :: string where
  "UNFILED_SLUG = ''_unfiled''"

definition nfkd_ascii :: "char \<Rightarrow> string" where
  \<comment> \<open>the ASCII part of the compatibility decomposition of a code point below 256\<close>
  "nfkd_ascii c = (let n = code_point c in
     if n < 128 then [c]
     else if n \<in> set [160, 168, 175, 180, 184] then '' ''
     else if n = 170 then ''a'' else if n = 186 then ''o''
     else if n = 178 then ''2'' else if n = 179 then ''3'' else if n = 185 then ''1''
     else if n = 188 then ''14'' else if n = 189 then ''12'' else if n = 190 then ''34''
     else if 192 \<le> n \<and> n \<le> 197 then ''A'' else if n = 199 then ''C'' else if 200 \<le> n \<and> n \<le> 203 then ''E''
     else if 204 \<le> n \<and> n \<le> 207 then ''I'' else if n = 209 then ''N'' else if 210 \<le> n \<and> n \<le> 214 then ''O''
     else if 217 \<le> n \<and> n \<le> 220 then ''U'' else if n = 221 then ''Y''
     else if 224 \<le> n \<and> n \<le> 229 then ''a'' else if n = 231 then ''c'' else if 232 \<le> n \<and> n \<le> 235 then ''e''
     else if 236 \<le> n \<and> n \<le> 239 then ''i'' else if n = 241 then ''n'' else if 242 \<le> n \<and> n \<le> 246 then ''o''
     else if 249 \<le> n \<and> n \<le> 252 then ''u'' else if n = 253 \<or> n = 255 then ''y'' else [])"

definition word_char :: "char \<Rightarrow> bool" where
  \<comment> \<open>\<open>\\w\<close> on ASCII\<close>
  "word_char c \<longleftrightarrow> (let n = code_point c in (48 \<le> n \<and> n \<le> 57) \<or> (65 \<le> n \<and> n \<le> 90) \<or> n = 95 \<or> (97 \<le> n \<and> n \<le> 122))"

fun dash_runs :: "bool \<Rightarrow> string \<Rightarrow> string" where
  \<comment> \<open>\<open>re.sub(r"[-\\s]+", "-", s)\<close>; the flag: inside a run that is already replaced\<close>
  "dash_runs in_run [] = []"
| "dash_runs in_run (c # cs) = (if c = CHR ''-'' \<or> py_isspace c
     then (if in_run then dash_runs True cs else CHR ''-'' # dash_runs True cs) else c # dash_runs False cs)"

definition slugify :: "string \<Rightarrow> string" where
  "slugify text = (let a = concat (map nfkd_ascii text);
       b = filter (\<lambda>c. word_char c \<or> py_isspace c \<or> c = CHR ''-'') a;
       s = dash_runs False (py_lower (py_strip b))
     in if s = [] then ''doc'' else s)"

definition find_unique_slug :: "vault \<Rightarrow> string \<Rightarrow> string \<Rightarrow> store_error + string" where
  "find_unique_slug v dir base = bind_r (store_child_names v dir) (\<lambda>existing.
     if base @ ''.md'' \<notin> set existing then Inr base
     else (case first_free (Suc (length existing)) (\<lambda>n. dash_name base n @ ''.md'') existing 2 of
         None \<Rightarrow> Inl (Os_Error ''the loop does not end'')
       | Some s \<Rightarrow> Inr (take (length s - 3) s)))"

record yaml_env =
  ye_load :: "string \<Rightarrow> json option"
  ye_dump :: "dict \<Rightarrow> string"
  ye_stamp :: "stamp \<Rightarrow> string"

definition parse_frontmatter :: "yaml_env \<Rightarrow> string \<Rightarrow> dict \<times> string" where
  \<comment> \<open>\<open>yaml.safe_load\<close> is \<open>ye_load\<close>, \<open>None\<close>: it raises\<close>
  "parse_frontmatter Y text =
     (if \<not> starts_with text ''---'' then ([], text)
      else let stop = py_find text (CHR 0x0A # ''---'') 3
        in if stop = -1 then ([], text)
           else let block = py_strip (py_slice text 3 stop);
                    body = dropWhile (\<lambda>c. c = CHR 0x0A) (py_slice text (stop + 4) (int (length text)))
             in (case ye_load Y block of Some (JObj m) \<Rightarrow> (m, body) | _ \<Rightarrow> ([], body)))"

definition serialize_doc :: "yaml_env \<Rightarrow> string \<Rightarrow> string \<Rightarrow> string \<Rightarrow> json \<Rightarrow> stamp \<Rightarrow> string" where
  \<comment> \<open>\<open>yaml.safe_dump\<close> is \<open>ye_dump\<close>, \<open>strftime\<close> is \<open>ye_stamp\<close>; the author of an agent card may be any JSON\<close>
  "serialize_doc Y title dir body author now = ''---'' @ [CHR 0x0A] @
     ye_dump Y [(''title'', JStr title), (''folder'', JStr dir), (''author'', author), (''updated_at'', JStr (ye_stamp Y now))]
     @ ''---'' @ [CHR 0x0A, CHR 0x0A] @ py_rstrip body @ [CHR 0x0A]"

definition save_doc :: "yaml_env \<Rightarrow> stamp \<Rightarrow> vault \<Rightarrow> string \<Rightarrow> string \<Rightarrow> string \<Rightarrow> string \<Rightarrow> json \<Rightarrow> store_error + (string \<times> vault)" where
  "save_doc Y now v dir slug title body author =
     bind_r (safe_rel (dir @ ''/'' @ slug @ ''.md'')) (\<lambda>rel.
     bind_r (store_write now v rel (serialize_doc Y title dir body author now)) (\<lambda>v1. Inr (rel, v1)))"

definition delete_doc :: "vault \<Rightarrow> string \<Rightarrow> store_error + vault" where
  "delete_doc v rel = bind_r (safe_rel rel) (store_delete v)"

section \<open>Laws of paths\<close>

lemma split_on_app: "split_on d (a @ d # b) = split_on d a @ split_on d b"
  by (induction a) (auto split: list.splits)

lemma split_on_pieces: "p \<in> set (split_on d s) \<Longrightarrow> d \<notin> set p"
proof (induction s arbitrary: p)
  case (Cons c s)
  then show ?case
    by (cases "split_on d s") (auto split: if_splits)
qed simp

lemma split_on_join: "ps \<noteq> [] \<Longrightarrow> (\<And>p. p \<in> set ps \<Longrightarrow> d \<notin> set p) \<Longrightarrow> split_on d (join_with [d] ps) = ps"
proof (induction ps rule: induct_list012)
  case (2 x)
  then show ?case
    by (simp add: split_on_no_sep)
next
  case (3 x y ys)
  then have "split_on d (x @ d # join_with [d] (y # ys)) = split_on d x @ split_on d (join_with [d] (y # ys))"
    by (simp add: split_on_app)
  then show ?case
    using 3 by (simp add: split_on_no_sep)
qed simp

lemma join_split_on: "join_with [d] (split_on d s) = s"
proof (induction s)
  case (Cons c s)
  then show ?case
    by (cases "split_on d s" rule: remdups_adj.cases) auto
qed simp

definition clean_path :: "string \<Rightarrow> bool" where
  \<comment> \<open>a relative path without empty, \<open>.\<close> or \<open>..\<close> segments\<close>
  "clean_path p \<longleftrightarrow> (\<forall>s \<in> set (split_on CHR ''/'' p). s \<noteq> [] \<and> s \<noteq> ''.'' \<and> s \<noteq> ''..'')"

lemma posix_parts_seg: "s \<in> set (posix_parts r) \<Longrightarrow> s \<noteq> [] \<and> s \<noteq> ''.'' \<and> CHR ''/'' \<notin> set s"
  by (auto simp: posix_parts_def dest: split_on_pieces)

lemma normalize_rel_InrD:
  assumes "normalize_rel rel = Inr p"
  shows "clean_path p" and "split_on CHR ''/'' p = posix_parts (py_strip (replace_char CHR 0x5C CHR ''/'' rel))"
proof -
  let ?ps = "posix_parts (py_strip (replace_char CHR 0x5C CHR ''/'' rel))"
  have p: "p = join_with ''/'' ?ps" "?ps \<noteq> []" "''..'' \<notin> set ?ps"
    using assms by (auto simp: normalize_rel_def Let_def split: if_splits)
  then show s: "split_on CHR ''/'' p = ?ps"
    using split_on_join [of ?ps "CHR ''/''"] posix_parts_seg by blast
  show "clean_path p"
    using p(3) posix_parts_seg by (auto simp: clean_path_def s)
qed

lemma starts_with_slash: "starts_with p ''/'' \<longleftrightarrow> (\<exists>q. p = CHR ''/'' # q)"
  by (cases p) (auto simp: starts_with_def)

lemma clean_path_parts: "clean_path p \<Longrightarrow> posix_parts p = split_on CHR ''/'' p"
  by (auto simp: clean_path_def posix_parts_def intro!: filter_True)

lemma clean_path_not_abs: "clean_path p \<Longrightarrow> \<not> starts_with p ''/''"
proof
  assume c: "clean_path p" and "starts_with p ''/''"
  then obtain q where "p = CHR ''/'' # q"
    by (auto simp: starts_with_slash)
  then have "[] \<in> set (split_on CHR ''/'' p)"
    by simp
  then show False
    using c unfolding clean_path_def by blast
qed

lemma clean_path_not_Nil: "clean_path p \<Longrightarrow> p \<noteq> []"
proof
  assume c: "clean_path p" and "p = []"
  then have "[] \<in> set (split_on CHR ''/'' p)"
    by simp
  then show False
    using c unfolding clean_path_def by blast
qed

lemma normalize_clean:
  assumes "clean_path p" and "CHR 0x5C \<notin> set p" and "py_strip p = p"
  shows "normalize_rel p = Inr p"
proof -
  have "replace_char CHR 0x5C CHR ''/'' p = p"
    using assms(2) by (auto simp: replace_char_def intro!: map_idI)
  then have r: "py_strip (replace_char CHR 0x5C CHR ''/'' p) = p"
    by (simp only: assms(3))
  have "''..'' \<notin> set (split_on CHR ''/'' p)"
    using assms(1) unfolding clean_path_def by blast
  then show ?thesis
    unfolding normalize_rel_def Let_def r clean_path_parts [OF assms(1)]
    using clean_path_not_abs [OF assms(1)] by (simp only: join_split_on split_on_not_Nil if_False if_True)
qed

lemma path_parent_name: "path_parent p = d \<Longrightarrow> d \<noteq> [] \<Longrightarrow> p = d @ ''/'' @ path_name p"
proof -
  assume "path_parent p = d" "d \<noteq> []"
  then have b: "join_with ''/'' (butlast (split_on CHR ''/'' p)) = d" "butlast (split_on CHR ''/'' p) \<noteq> []"
    by (auto simp: path_parent_def)
  have "join_with sep (xs @ [y]) = join_with sep xs @ sep @ y" if "xs \<noteq> []" for sep xs and y :: string
    using that by (induction sep xs rule: join_with.induct) auto
  from this [OF b(2), of "''/''" "last (split_on CHR ''/'' p)"] show ?thesis
    using b(1) join_split_on [of "CHR ''/''" p] by (simp add: path_name_def)
qed

lemma path_snoc:
  assumes "CHR ''/'' \<notin> set n"
  shows "path_parent (d @ ''/'' @ n) = d" "path_name (d @ ''/'' @ n) = n"
  using assms split_on_app [of "CHR ''/''" d n] join_split_on [of "CHR ''/''" d]
  by (simp_all add: path_parent_def path_name_def split_on_no_sep butlast_append)

lemma path_top:
  assumes "CHR ''/'' \<notin> set n"
  shows "path_parent n = []" "path_name n = n"
  using assms by (simp_all add: path_parent_def path_name_def split_on_no_sep)

lemma parent_in_dirs: "path_parent p \<noteq> [] \<Longrightarrow> path_parent p \<in> set (parent_dirs p)"
proof -
  assume a: "path_parent p \<noteq> []"
  let ?ps = "split_on CHR ''/'' p"
  have "butlast ?ps \<noteq> []"
    using a by (auto simp: path_parent_def)
  then have "length ?ps - 1 \<in> set [1..<length ?ps]"
    by (cases ?ps rule: remdups_adj.cases) auto
  then show ?thesis
    by (force simp: parent_dirs_def Let_def path_parent_def butlast_conv_take)
qed

section \<open>Laws of the store\<close>

definition vault_ok :: "vault \<Rightarrow> bool" where
  \<comment> \<open>a tree: one entry per path, every file below directories, no file where a directory is\<close>
  "vault_ok v \<longleftrightarrow> distinct (map fst (va_files v)) \<and>
     (\<forall>p \<in> set (map fst (va_files v)). set (parent_dirs p) \<subseteq> set (va_dirs v) \<and> p \<notin> set (va_dirs v) \<and> clean_path p)"

lemma map_of_upd_at: "map_of (map (\<lambda>(q, g). (q, if q = p then f else g)) xs) q =
    (if q = p then map_option (\<lambda>_. f) (map_of xs q) else map_of xs q)"
  by (induction xs) auto

lemma file_at_put: "file_at (put_file p f v) q = (if q = p then Some f else file_at v q)"
proof (cases "file_at v p")
  case None
  then show ?thesis
    by (auto simp: put_file_def file_at_def map_add_def split: option.split)
next
  case (Some g)
  then show ?thesis
    by (simp add: put_file_def file_at_def map_of_upd_at)
qed

lemma file_at_drop: "file_at (drop_file p v) q = (if q = p then None else file_at v q)"
proof -
  have "map_of (filter (\<lambda>(q, _). q \<noteq> p) xs) q = (if q = p then None else map_of xs q)" for xs :: "(string \<times> vfile) list"
    by (induction xs) auto
  then show ?thesis
    by (simp add: drop_file_def file_at_def)
qed

lemma file_at_Some_in: "file_at v p = Some f \<Longrightarrow> p \<in> set (map fst (va_files v))"
  unfolding file_at_def by (metis domI dom_map_of_conv_image_fst list.set_map)

lemma file_at_None_iff: "file_at v p = None \<longleftrightarrow> p \<notin> set (map fst (va_files v))"
  by (simp add: file_at_def map_of_eq_None_iff)

lemma put_file_keys: "map fst (va_files (put_file p f v)) =
    map fst (va_files v) @ (if file_at v p = None then [p] else [])"
proof -
  have "map fst (map (\<lambda>(q, g). (q, if q = p then f else g)) xs) = map fst xs" for xs :: "(string \<times> vfile) list"
    by (induction xs) auto
  then show ?thesis
    by (simp add: put_file_def del: map_map)
qed

lemma put_file_dirs [simp]: "set (va_dirs (put_file p f v)) = set (va_dirs v) \<union> set (parent_dirs p)"
  by (auto simp: put_file_def)

lemma store_write_InrD:
  assumes "store_write now v rel s = Inr v1"
  shows "\<exists>p. safe_rel rel = Inr p \<and> v1 = put_file p \<lparr>vf_text = s, vf_mtime = now div 1000\<rparr> v \<and> p \<notin> set (va_dirs v) \<and>
    (\<forall>a \<in> set (parent_dirs p). file_at v a = None)"
  using assms by (auto simp: store_write_def bind_r_Inr_iff split: if_splits)

lemma safe_rel_Inr_iff: "safe_rel rel = Inr p \<longleftrightarrow> normalize_rel rel = Inr p"
  by (auto simp: safe_rel_def split: sum.splits)

lemma parent_dirs_split:
  assumes "a \<in> set (parent_dirs p)"
  shows "length (split_on CHR ''/'' a) < length (split_on CHR ''/'' p)"
proof -
  let ?ps = "split_on CHR ''/'' p"
  obtain k where k: "1 \<le> k" "k < length ?ps" "a = join_with ''/'' (take k ?ps)"
    using assms by (auto simp: parent_dirs_def Let_def)
  have "split_on CHR ''/'' a = take k ?ps"
    unfolding k(3) using k(1,2) split_on_pieces by (intro split_on_join) (auto dest: in_set_takeD)
  then show ?thesis
    using k(2) by simp
qed

lemma not_own_parent: "p \<notin> set (parent_dirs p)"
  using parent_dirs_split by blast

lemma put_file_ok:
  assumes ok: "vault_ok v" and p: "clean_path p" "p \<notin> set (va_dirs v)" "\<forall>a \<in> set (parent_dirs p). file_at v a = None"
  shows "vault_ok (put_file p f v)"
proof -
  have "distinct (map fst (va_files (put_file p f v)))"
    using ok unfolding put_file_keys by (auto simp: vault_ok_def file_at_None_iff)
  moreover have "set (parent_dirs q) \<subseteq> set (va_dirs (put_file p f v)) \<and> q \<notin> set (va_dirs (put_file p f v)) \<and> clean_path q"
    if "q \<in> set (map fst (va_files (put_file p f v)))" for q
  proof (cases "q = p")
    case True
    then show ?thesis
      using p not_own_parent by auto
  next
    case False
    then have q: "q \<in> set (map fst (va_files v))"
      using that unfolding put_file_keys by (auto split: if_splits)
    then have "q \<notin> set (parent_dirs p)"
      using p(3) file_at_None_iff by blast
    then show ?thesis
      using ok q by (auto simp: vault_ok_def)
  qed
  ultimately show ?thesis
    by (simp add: vault_ok_def)
qed

lemma drop_file_ok: "vault_ok v \<Longrightarrow> vault_ok (drop_file p v)"
  by (auto simp: vault_ok_def drop_file_def distinct_map_filter)

lemma store_write_ok: "vault_ok v \<Longrightarrow> store_write now v rel s = Inr v1 \<Longrightarrow> vault_ok v1"
  using put_file_ok normalize_rel_InrD(1) by (fastforce dest!: store_write_InrD simp: safe_rel_Inr_iff)

text \<open>
  What the clients of a store rely on: a map from clean paths to texts, in which a write or deletion
  that is reported to have worked changes that one entry.
\<close>

locale doc_store =
  fixes ok :: "'s \<Rightarrow> bool"
    and look :: "'s \<Rightarrow> string \<Rightarrow> string option"
    and norm :: "string \<Rightarrow> string option"
    and put :: "'s \<Rightarrow> string \<Rightarrow> string \<Rightarrow> 's option"
    and erase :: "'s \<Rightarrow> string \<Rightarrow> 's option"
  assumes write_ok: "ok s \<Longrightarrow> put s r t = Some s' \<Longrightarrow> ok s'"
    and write_look: "ok s \<Longrightarrow> put s r t = Some s' \<Longrightarrow> \<exists>p. norm r = Some p \<and> (\<forall>q. look s' q = (if q = p then Some t else look s q))"
    and remove_ok: "ok s \<Longrightarrow> erase s r = Some s' \<Longrightarrow> ok s'"
    and remove_look: "ok s \<Longrightarrow> erase s r = Some s' \<Longrightarrow>
      \<exists>p. norm r = Some p \<and> look s p \<noteq> None \<and> (\<forall>q. look s' q = (if q = p then None else look s q))"
begin

lemma write_fresh_keeps: "ok s \<Longrightarrow> put s r t = Some s' \<Longrightarrow> norm r = Some p \<Longrightarrow> look s p = None \<Longrightarrow> look s q = Some x \<Longrightarrow> look s' q = Some x"
  using write_look by fastforce

lemma remove_gone: "ok s \<Longrightarrow> erase s r = Some s' \<Longrightarrow> erase s' r = None"
proof (rule ccontr)
  assume a: "ok s" "erase s r = Some s'" and "erase s' r \<noteq> None"
  then obtain s'' where "erase s' r = Some s''"
    by blast
  then show False
    using remove_look [OF a] remove_look [OF remove_ok [OF a]] by fastforce
qed

end

definition text_at :: "vault \<Rightarrow> string \<Rightarrow> string option" where
  "text_at v p = map_option vf_text (file_at v p)"

definition ok_of :: "'e + 'a \<Rightarrow> 'a option" where
  "ok_of m = (case m of Inl _ \<Rightarrow> None | Inr x \<Rightarrow> Some x)"

lemma ok_of_Some [simp]: "ok_of m = Some x \<longleftrightarrow> m = Inr x"
  by (simp add: ok_of_def split: sum.splits)

lemma open_path_Inr [simp]: "open_path v p = Inr f \<longleftrightarrow> file_at v p = Some f"
  by (auto simp: open_path_def split: option.splits)

lemma text_at_put: "text_at (put_file p f v) q = (if q = p then Some (vf_text f) else text_at v q)"
  by (simp add: text_at_def file_at_put)

lemma store_delete_InrD: "store_delete v r = Inr v1 \<Longrightarrow> \<exists>p. normalize_rel r = Inr p \<and> file_at v p \<noteq> None \<and> v1 = drop_file p v"
  by (auto simp: store_delete_def bind_r_Inr_iff safe_rel_Inr_iff)

interpretation local_docs: doc_store vault_ok text_at "\<lambda>r. ok_of (normalize_rel r)"
    "\<lambda>v r t. ok_of (store_write now v r t)" "\<lambda>v r. ok_of (store_delete v r)" for now
proof unfold_locales
  fix v r t v1
  assume "vault_ok v" "ok_of (store_write now v r t) = Some v1"
  then show "vault_ok v1"
    using store_write_ok by simp
next
  fix v r t v1
  assume "ok_of (store_write now v r t) = Some v1"
  then obtain p where "normalize_rel r = Inr p" "v1 = put_file p \<lparr>vf_text = t, vf_mtime = now div 1000\<rparr> v"
    using store_write_InrD by (fastforce simp: safe_rel_Inr_iff)
  then show "\<exists>p. ok_of (normalize_rel r) = Some p \<and> (\<forall>q. text_at v1 q = (if q = p then Some t else text_at v q))"
    by (intro exI [of _ p]) (simp add: text_at_put)
next
  fix v r v1
  assume "vault_ok v" "ok_of (store_delete v r) = Some v1"
  then show "vault_ok v1"
    using store_delete_InrD drop_file_ok by fastforce
next
  fix v r v1
  assume "ok_of (store_delete v r) = Some v1"
  then obtain p where "normalize_rel r = Inr p" "file_at v p \<noteq> None" "v1 = drop_file p v"
    using store_delete_InrD by fastforce
  then show "\<exists>p. ok_of (normalize_rel r) = Some p \<and> text_at v p \<noteq> None \<and> (\<forall>q. text_at v1 q = (if q = p then None else text_at v q))"
    by (intro exI [of _ p]) (simp add: text_at_def file_at_drop)
qed

section \<open>Fresh document names\<close>

definition safe_slug :: "string \<Rightarrow> bool" where
  "safe_slug s \<longleftrightarrow> s \<noteq> [] \<and> (\<forall>c \<in> set s. word_char c \<or> c = CHR ''-'')"

lemma dash_runs_set: "c \<in> set (dash_runs b s) \<Longrightarrow> c = CHR ''-'' \<or> (c \<in> set s \<and> \<not> py_isspace c)"
  by (induction b s rule: dash_runs.induct) (auto split: if_splits)

lemma word_char_lower: "word_char c \<Longrightarrow> word_char (lower_char c)"
  by (auto simp: word_char_def lower_char_def Let_def)

lemma isspace_lower: "py_isspace c \<Longrightarrow> lower_char c = c"
  by (auto simp: py_isspace_def lower_char_def Let_def)

lemma py_strip_subset: "set (py_strip s) \<subseteq> set s"
  unfolding py_strip_def py_rstrip_def py_lstrip_def
  by (metis set_dropWhileD set_rev subsetI)

lemma slugify_safe: "safe_slug (slugify s)"
proof -
  let ?b = "filter (\<lambda>c. word_char c \<or> py_isspace c \<or> c = CHR ''-'') (concat (map nfkd_ascii s))"
  have "word_char c \<or> c = CHR ''-''" if "c \<in> set (dash_runs False (py_lower (py_strip ?b)))" for c
  proof -
    have "c = CHR ''-'' \<or> (c \<in> lower_char ` set ?b \<and> \<not> py_isspace c)"
      using dash_runs_set [OF that] py_strip_subset [of ?b] by (auto simp: py_lower_def)
    then show ?thesis
      by (auto simp: word_char_lower isspace_lower) (simp add: lower_char_def code_point_def)
  qed
  moreover have "safe_slug ''doc''"
    by (simp add: safe_slug_def word_char_def code_point_def)
  ultimately show ?thesis
    by (simp add: slugify_def Let_def safe_slug_def)
qed

interpretation md: fresh_name "\<lambda>n. dash_name base n @ ''.md''" for base
  by unfold_locales (simp add: dash_name_def str_nat_inj)

lemma find_unique_slug_free:
  assumes "store_child_names v dir = Inr names"
  shows "\<exists>s. find_unique_slug v dir base = Inr s \<and> s @ ''.md'' \<notin> set names \<and> (s = base \<or> (\<exists>n. s = dash_name base n))"
proof (cases "base @ ''.md'' \<in> set names")
  case True
  obtain s where s: "first_free (Suc (length names)) (\<lambda>n. dash_name base n @ ''.md'') names 2 = Some s" "s \<notin> set names"
    using md.fresh by blast
  then obtain k where "s = dash_name base k @ ''.md''"
    using first_free_SomeD by blast
  then show ?thesis
    using True s assms by (auto simp: find_unique_slug_def)
qed (use assms in \<open>simp add: find_unique_slug_def\<close>)

lemma dash_name_safe: "safe_slug base \<Longrightarrow> safe_slug (dash_name base n)"
  using str_nat_digits [of n] by (auto simp: safe_slug_def dash_name_def word_char_def is_digit_def Let_def)

lemma safe_slug_chars:
  assumes "safe_slug s" and "n = s @ ''.md''"
  shows "CHR ''/'' \<notin> set n" "CHR 0x5C \<notin> set n" "n \<noteq> ''..''" "n \<noteq> ''.''" "n \<noteq> []" "\<not> py_isspace (last n)"
proof -
  have c: "\<not> word_char CHR ''/''" "\<not> word_char CHR 0x5C" "\<not> word_char CHR ''.''"
    by (simp_all add: word_char_def code_point_def)
  show "CHR ''/'' \<notin> set n" "CHR 0x5C \<notin> set n"
    using assms c by (auto simp: safe_slug_def)
  obtain x xs where s: "s = x # xs" "x \<noteq> CHR ''.''"
    using assms(1) c(3) by (cases s) (auto simp: safe_slug_def)
  then show "n \<noteq> ''..''" "n \<noteq> ''.''" "n \<noteq> []"
    by (simp_all add: assms(2))
  show "\<not> py_isspace (last n)"
    by (simp add: assms(2) py_isspace_def code_point_def)
qed

lemma posix_parts_app: "posix_parts (a @ CHR ''/'' # b) = posix_parts a @ posix_parts b"
  by (simp add: posix_parts_def split_on_app)

lemma py_strip_app:
  assumes "py_strip d = d" and "d \<noteq> []" and "n \<noteq> []" and "\<not> py_isspace (last n)"
  shows "py_strip (d @ ''/'' @ n) = d @ ''/'' @ n"
  using py_strip_ends(1) [of d] assms by (intro py_strip_fixed) simp

lemma replace_char_strip:
  "\<not> py_isspace b \<Longrightarrow> \<not> py_isspace a \<Longrightarrow> py_strip d = d \<Longrightarrow> py_strip (replace_char a b d) = replace_char a b d"
proof (cases "d = []")
  case False
  assume "\<not> py_isspace b" "\<not> py_isspace a" "py_strip d = d"
  then show ?thesis
    using False py_strip_ends [of d] by (intro py_strip_fixed) (auto simp: replace_char_def hd_map last_map)
qed (simp add: replace_char_def)

lemma normalize_below:
  assumes d: "py_strip d = d" "d \<noteq> []" and n: "safe_slug s" and abs: "normalize_rel (d @ ''/'' @ s @ ''.md'') = Inr p"
    and r: "normalize_rel d = Inr q"
  shows "p = q @ ''/'' @ s @ ''.md''"
proof -
  let ?n = "s @ ''.md''" and ?d = "replace_char CHR 0x5C CHR ''/'' d"
  note c = safe_slug_chars [OF n refl]
  have sp: "\<not> py_isspace CHR ''/''" "\<not> py_isspace CHR 0x5C"
    by (simp_all add: py_isspace_def code_point_def)
  have sd: "py_strip ?d = ?d"
    using replace_char_strip [OF sp d(1)] .
  have dn: "?d \<noteq> []"
    using d(2) by (simp add: replace_char_def)
  have "replace_char CHR 0x5C CHR ''/'' (d @ ''/'' @ ?n) = ?d @ ''/'' @ replace_char CHR 0x5C CHR ''/'' ?n"
    by (simp add: replace_char_def)
  moreover have rn: "replace_char CHR 0x5C CHR ''/'' ?n = ?n"
    using c(2) unfolding replace_char_def by (intro map_idI) auto
  ultimately have "py_strip (replace_char CHR 0x5C CHR ''/'' (d @ ''/'' @ ?n)) = ?d @ ''/'' @ ?n"
    using py_strip_app [OF sd dn c(5,6)] by (simp only:)
  moreover have "posix_parts (?d @ ''/'' @ ?n) = posix_parts ?d @ [?n]"
    using c(1,4,5) posix_parts_app [of ?d ?n] by (simp add: posix_parts_def split_on_no_sep)
  ultimately have "split_on CHR ''/'' p = split_on CHR ''/'' q @ [?n]"
    using normalize_rel_InrD(2) [OF abs] normalize_rel_InrD(2) [OF r] sd by (simp only:)
  also have "\<dots> = split_on CHR ''/'' (q @ ''/'' @ ?n)"
    using split_on_app [of "CHR ''/''" q ?n] c(1) by (simp add: split_on_no_sep)
  finally show ?thesis
    by (metis join_split_on)
qed

lemma child_listed:
  assumes "vault_ok v" and "store_child_names v d = Inr names" and "normalize_rel d = Inr q" and "file_at v (q @ ''/'' @ n) = Some f"
    and "CHR ''/'' \<notin> set n"
  shows "n \<in> set names \<or> strip_char CHR ''/'' d = []"
proof -
  let ?p = "q @ ''/'' @ n"
  have p: "?p \<in> set (map fst (va_files v))"
    using file_at_Some_in [OF assms(4)] .
  have "q \<noteq> []"
    using normalize_rel_InrD(1) [OF assms(3)] clean_path_not_Nil by blast
  then have "q \<in> set (parent_dirs ?p)"
    using parent_in_dirs [of ?p] path_snoc(1) [OF assms(5)] by simp
  then have "q \<in> set (va_dirs v)"
    using assms(1) p unfolding vault_ok_def by blast
  moreover have "n \<in> set (children v q)"
    using p path_snoc [OF assms(5), of q] by (force simp: children_def)
  ultimately show ?thesis
    using assms(2,3) by (auto simp: store_child_names_def safe_rel_def bind_r_Inr_iff split: if_splits)
qed

lemma py_rstrip_Cons: "\<not> py_isspace c \<Longrightarrow> py_rstrip (c # x) = c # py_rstrip x"
proof (cases "\<forall>y \<in> set x. py_isspace y")
  case True
  moreover have "dropWhile py_isspace (rev x @ [c]) = dropWhile py_isspace [c]"
    using True by (simp add: dropWhile_append)
  ultimately show "\<not> py_isspace c \<Longrightarrow> ?thesis"
    by (simp add: py_rstrip_def)
next
  case False
  then show ?thesis
    by (auto simp: py_rstrip_def dropWhile_append)
qed

lemma root_rejected:
  assumes "strip_char CHR ''/'' d = []" and "d \<noteq> []"
  shows "normalize_rel (d @ ''/'' @ n) = Inl (''absolute path rejected: '' @ py_repr (d @ ''/'' @ n))"
proof -
  let ?P = "\<lambda>x. x = CHR ''/''"
  have all: "\<forall>x \<in> set (dropWhile ?P d). ?P x"
    using assms(1) unfolding strip_char_def by (simp only: rev_is_Nil_conv dropWhile_eq_Nil_conv set_rev)
  have "dropWhile ?P d = []"
  proof (rule ccontr)
    assume n: "dropWhile ?P d \<noteq> []"
    then have "?P (hd (dropWhile ?P d))"
      using all hd_in_set by blast
    then show False
      using hd_dropWhile [OF n] by simp
  qed
  then have "\<forall>x \<in> set d. ?P x"
    by (simp only: dropWhile_eq_Nil_conv)
  then have "hd d = CHR ''/''"
    using assms(2) hd_in_set by blast
  then obtain x where d: "replace_char CHR 0x5C CHR ''/'' (d @ ''/'' @ n) = CHR ''/'' # x"
    using assms(2) by (cases d) (simp_all add: replace_char_def)
  have sp: "\<not> py_isspace CHR ''/''"
    by (simp add: py_isspace_def code_point_def)
  have "py_strip (CHR ''/'' # x) = CHR ''/'' # py_rstrip x"
    using sp py_rstrip_Cons [OF sp] by (simp add: py_strip_def py_lstrip_def)
  then show ?thesis
    unfolding normalize_rel_def Let_def d by (simp add: starts_with_def)
qed

lemma new_doc_fresh:
  assumes ok: "vault_ok v" and d: "clean_path d" "CHR 0x5C \<notin> set d" "py_strip d = d" and b: "safe_slug base"
    and s: "find_unique_slug v d base = Inr s" and w: "save_doc Y now v d s title body author = Inr (rel, v1)"
  shows "rel = d @ ''/'' @ s @ ''.md'' \<and> file_at v rel = None \<and>
    (\<forall>q. text_at v1 q = (if q = rel then Some (serialize_doc Y title d body author now) else text_at v q))"
proof -
  have nd: "normalize_rel d = Inr d"
    using normalize_clean [OF d] .
  have dn: "d \<noteq> []"
    using clean_path_not_Nil [OF d(1)] .
  obtain names where names: "store_child_names v d = Inr names"
    using s by (auto simp: find_unique_slug_def bind_r_Inr_iff)
  then have free: "s @ ''.md'' \<notin> set names" and safe: "safe_slug s"
    using find_unique_slug_free [OF names, of base] s b dash_name_safe by auto
  note c = safe_slug_chars [OF safe refl]
  have rel: "normalize_rel (d @ ''/'' @ s @ ''.md'') = Inr rel" and w1: "store_write now v rel (serialize_doc Y title d body author now) = Inr v1"
    using w by (auto simp: save_doc_def bind_r_Inr_iff safe_rel_Inr_iff)
  have r: "rel = d @ ''/'' @ s @ ''.md''"
    using normalize_below [OF d(3) dn safe rel nd] .
  have "strip_char CHR ''/'' d \<noteq> []"
    using root_rejected [OF _ dn, of "s @ ''.md''"] rel by auto
  then have none: "file_at v rel = None"
    using child_listed [OF ok names nd, of "s @ ''.md''"] free c(1) r by (cases "file_at v rel") auto
  have "normalize_rel rel = Inr rel"
  proof (rule normalize_clean)
    show "clean_path rel"
      using normalize_rel_InrD(1) [OF rel] .
    show "CHR 0x5C \<notin> set rel"
      using d(2) c(2) by (simp add: r)
    show "py_strip rel = rel"
      using py_strip_app [OF d(3) dn c(5,6)] by (simp add: r)
  qed
  then have "v1 = put_file rel \<lparr>vf_text = serialize_doc Y title d body author now, vf_mtime = now div 1000\<rparr> v"
    using store_write_InrD [OF w1] by (auto simp: safe_rel_Inr_iff)
  then show ?thesis
    using r none by (simp add: text_at_put)
qed

section \<open>Front matter\<close>

lemma filter_first: "a \<le> k \<Longrightarrow> k < b \<Longrightarrow> P k \<Longrightarrow> (\<And>i. a \<le> i \<Longrightarrow> i < k \<Longrightarrow> \<not> P i) \<Longrightarrow> \<exists>ks. filter P [a..<b] = k # ks"
proof -
  assume a: "a \<le> k" "k < b" "P k" "\<And>i. a \<le> i \<Longrightarrow> i < k \<Longrightarrow> \<not> P i"
  then have "[a..<b] = [a..<k] @ k # [Suc k..<b]"
    by (metis le_imp_less_Suc less_imp_add_positive upt_add_eq_append upt_conv_Cons less_or_eq_imp_le)
  moreover have "filter P [a..<k] = []"
    using a(4) by (simp add: filter_empty_conv)
  ultimately show ?thesis
    using a(3) by simp
qed

definition fence :: string where
  "fence = CHR 0x0A # ''---''"

lemma take_drop_app: "i + k \<le> length a \<Longrightarrow> take k (drop i (a @ b)) = take k (drop i a)"
  by simp

lemma nth_window: "take n (drop i X) = f \<Longrightarrow> k < n \<Longrightarrow> i \<le> length X \<Longrightarrow> f ! k = X ! (i + k)"
  by auto

lemma fence_first:
  assumes no: "\<And>i. \<not> occurs_at fence (CHR 0x0A # e) i" and "i \<le> length e"
  shows "\<not> occurs_at fence (CHR 0x0A # e @ fence @ r) i"
proof
  let ?s = "CHR 0x0A # e"
  assume "occurs_at fence (CHR 0x0A # e @ fence @ r) i"
  then have o: "take 4 (drop i (?s @ fence @ r)) = fence"
    by (simp add: occurs_at_def fence_def numeral_eq_Suc)
  show False
  proof (cases "i + 4 \<le> length ?s")
    case True
    then have "take 4 (drop i (?s @ fence @ r)) = take 4 (drop i ?s)"
      by (rule take_drop_app)
    then show False
      using no [of i] o by (simp add: occurs_at_def fence_def numeral_eq_Suc)
  next
    case False
    let ?k = "length ?s - i"
    have k: "1 \<le> ?k" "?k < 4"
      using False assms(2) by auto
    let ?X = "?s @ fence @ r"
    have "i \<le> length ?X"
      using assms(2) by simp
    then have "fence ! ?k = ?X ! (i + ?k)"
      using nth_window [OF o k(2)] by blast
    also have "i + ?k = length ?s"
      using assms(2) by simp
    also have "?X ! length ?s = CHR 0x0A"
      unfolding nth_append by (simp add: fence_def)
    finally have "fence ! ?k = CHR 0x0A" .
    moreover have "?k = 1 \<or> ?k = 2 \<or> ?k = 3"
      using k by linarith
    ultimately show False
      by (auto simp: fence_def)
  qed
qed

lemma prefix_cuts: "n = length a \<Longrightarrow> drop n (a @ b) = b" "n = length a \<Longrightarrow> take n (a @ b) = a"
  by simp_all

lemma drop_dashes: "drop (3 + i) (''---'' @ X) = drop i X"
  by (simp add: numeral_3_eq_3)

lemma parse_frontmatter_at:
  assumes "starts_with x ''---''" and "py_find x fence 3 = int k" and "py_slice x 3 (int k) = a"
    and "py_slice x (int k + 4) (int (length x)) = r" and "ye_load Y (py_strip a) = Some (JObj fm)"
  shows "parse_frontmatter Y x = (fm, dropWhile (\<lambda>c. c = CHR 0x0A) r)"
  using assms by (simp add: parse_frontmatter_def fence_def)

definition has_fence :: "string \<Rightarrow> bool" where
  \<comment> \<open>some line after the first starts with three dashes\<close>
  "has_fence s \<longleftrightarrow> list_ex (occurs_at fence s) [0..<length s]"

lemma no_fence: "\<not> has_fence s \<Longrightarrow> \<not> occurs_at fence s i"
proof (cases "i < length s")
  case False
  then show "\<not> has_fence s \<Longrightarrow> ?thesis"
    by (simp add: occurs_at_def fence_def)
qed (simp add: has_fence_def list_ex_iff)


definition demo_yaml :: yaml_env where
  \<comment> \<open>a writer and a reader for one document\<close>
  "demo_yaml = \<lparr>ye_load = (\<lambda>_. Some (JObj [(''title'', JStr ''T''), (''folder'', JStr ''ops''), (''author'', JStr ''ana''), (''updated_at'', JStr ''now'')])),
     ye_dump = (\<lambda>_. ''title: T'' @ [CHR 0x0A] @ ''folder: ops'' @ [CHR 0x0A]), ye_stamp = (\<lambda>_. ''now'')\<rparr>"


end
