(* ===== verification/Dosm_Indexer.thy ===== *)
theory Dosm_Indexer
  imports Dosm_Agent Dosm_Inputs Dosm_Vault
begin

text \<open>
  The document parsers (\<open>dosm/docs_index/parsers.py\<close>) and the indexer (\<open>indexer.py\<close>): which files of
  the store are documents, how one file becomes a row with its chunks, how a whole run adds, refreshes
  and prunes rows. YAML, the content hash, the PDF reader, the embedding model and the text of
  exceptions are fields of \<open>docs_env\<close>. A run is sequential: the lock only lets one run at a time.
  Files hold UTF-8 text, so the size of a file is the size of its encoded text.
\<close>

section \<open>Environment\<close>

record docs_env =
  de_yaml :: yaml_env
  de_digest :: "string \<Rightarrow> string"
  de_pdf :: "string \<Rightarrow> string + (string option list \<times> string option)"
  de_embed :: "(string list \<Rightarrow> string + string list) option"
  de_short :: string
  de_embedder_name :: string
  de_bind :: "json \<Rightarrow> string + string"
  de_os_text :: "store_error \<Rightarrow> string"
  de_orm_text :: "string \<Rightarrow> string"
  de_hms :: "stamp \<Rightarrow> string"
  de_label :: string
  de_fallback :: "string option"
  de_width :: int
  de_overlap :: int
  de_includes :: "string list"
  de_excludes :: "string list"

definition store_text :: "docs_env \<Rightarrow> store_error \<Rightarrow> string" where
  \<comment> \<open>\<open>str(e)\<close>\<close>
  "store_text E e = (case e of Bad_Path m \<Rightarrow> m | _ \<Rightarrow> de_os_text E e)"

section \<open>Lines\<close>

definition eol_char :: "char \<Rightarrow> bool" where
  "eol_char c \<longleftrightarrow> code_point c \<in> {10, 11, 12, 13, 28, 29, 30, 133}"

fun split_lines :: "string \<Rightarrow> string \<Rightarrow> string list" where
  \<comment> \<open>\<open>s.splitlines()\<close>; the first argument is the line read so far, reversed\<close>
  "split_lines cur [] = (if cur = [] then [] else [rev cur])"
| "split_lines cur (c # cs) =
     (if c = CHR 0x0D \<and> starts_with cs [CHR 0x0A] then rev cur # split_lines [] (tl cs)
      else if eol_char c then rev cur # split_lines [] cs
      else split_lines (c # cur) cs)"

abbreviation splitlines :: "string \<Rightarrow> string list" where
  "splitlines s \<equiv> split_lines [] s"

definition join_lines :: "string list \<Rightarrow> string" where
  "join_lines ls = join_with [CHR 0x0A] ls"

section \<open>Shedding markdown\<close>

definition drop_heading :: "string \<Rightarrow> string" where
  \<comment> \<open>\<open>re.sub(r"^#{1,6}\\s+", "", line)\<close>\<close>
  "drop_heading line = (let h = takeWhile (\<lambda>c. c = CHR ''#'') line; r = drop (length h) line
     in if 1 \<le> length h \<and> length h \<le> 6 \<and> r \<noteq> [] \<and> py_isspace (hd r) then py_lstrip r else line)"

function sub_links :: "string \<Rightarrow> string" where
  \<comment> \<open>\<open>re.sub(r"\\[([^\\]]+)\\]\\(([^)]+)\\)", r"\\1 (\\2)", line)\<close>\<close>
  "sub_links [] = []"
| "sub_links (c # cs) = (let t = takeWhile (\<lambda>x. x \<noteq> CHR '']'') cs; r = drop (length t) cs;
       u = takeWhile (\<lambda>x. x \<noteq> CHR '')'') (drop 2 r); v = drop (length u) (drop 2 r)
     in if c = CHR ''['' \<and> t \<noteq> [] \<and> starts_with r ''](''  \<and> u \<noteq> [] \<and> v \<noteq> []
        then t @ '' ('' @ u @ '')'' @ sub_links (tl v)
        else c # sub_links cs)"
  by pat_completeness auto
termination
  by (relation "measure length") (auto simp: Let_def)

fun find_close :: "string \<Rightarrow> string \<Rightarrow> nat \<Rightarrow> nat option" where
  \<comment> \<open>the least position from \<open>k\<close> on at which the closing mark stands\<close>
  "find_close m [] k = None"
| "find_close m (c # cs) k = (if starts_with (c # cs) m then Some k else find_close m cs (Suc k))"

definition emphasized :: "string list \<Rightarrow> string \<Rightarrow> (nat \<times> nat) option" where
  \<comment> \<open>\<open>(m)(.+?)\\1\<close> at the start of the text: length of the mark and of the body\<close>
  "emphasized marks s = (case filter (starts_with s) marks of [] \<Rightarrow> None
     | m # _ \<Rightarrow> (case drop (length m) s of [] \<Rightarrow> None
         | _ # cs \<Rightarrow> map_option (\<lambda>k. (length m, k)) (find_close m cs 1)))"

function sub_marks :: "string list \<Rightarrow> string \<Rightarrow> string" where
  "sub_marks marks [] = []"
| "sub_marks marks (c # cs) = (case emphasized marks (c # cs) of
     None \<Rightarrow> c # sub_marks marks cs
   | Some (m, k) \<Rightarrow> take k (drop m (c # cs)) @ sub_marks marks (drop (m + (k + (m - 1))) cs))"
  by pat_completeness auto
termination
  by (relation "measure (\<lambda>(_, s). length s)") auto

definition plain_line :: "string \<Rightarrow> string" where
  "plain_line line = sub_marks [''*'', ''_''] (sub_marks [''**'', ''__''] (sub_links (drop_heading line)))"

fun strip_lines :: "bool \<Rightarrow> string list \<Rightarrow> string list" where
  "strip_lines in_code [] = []"
| "strip_lines in_code (line # ls) =
     (if starts_with (py_strip line) ''```'' then line # strip_lines (\<not> in_code) ls
      else if in_code then line # strip_lines in_code ls
      else plain_line line # strip_lines in_code ls)"

definition strip_markdown :: "string \<Rightarrow> string" where
  "strip_markdown text = join_lines (strip_lines False (splitlines text))"

definition strip_frontmatter :: "string \<Rightarrow> string" where
  "strip_frontmatter text =
     (if \<not> starts_with text ''---'' then text
      else let stop = py_find text (CHR 0x0A # ''---'') 3
        in if stop = -1 then text else dropWhile (\<lambda>c. c = CHR 0x0A) (py_slice text (stop + 4) (int (length text))))"

section \<open>Parsers\<close>

definition suffix_at :: "string \<Rightarrow> nat option" where
  \<comment> \<open>where the suffix of a file name starts\<close>
  "suffix_at name = (case filter (\<lambda>i. name ! i = CHR ''.'') (rev [1..<length name - 1]) of [] \<Rightarrow> None | i # _ \<Rightarrow> Some i)"

definition path_suffix :: "string \<Rightarrow> string" where
  "path_suffix p = (case suffix_at (path_name p) of None \<Rightarrow> [] | Some i \<Rightarrow> drop i (path_name p))"

definition path_stem :: "string \<Rightarrow> string" where
  "path_stem p = (case suffix_at (path_name p) of None \<Rightarrow> path_name p | Some i \<Rightarrow> take i (path_name p))"

definition parser_text :: "docs_env \<Rightarrow> vault \<Rightarrow> string \<Rightarrow> string + string" where
  \<comment> \<open>\<open>_read_text\<close>; \<open>Inl\<close>: the text of the \<open>ParseError\<close>\<close>
  "parser_text E v rel = (case store_read_text v rel of Inr t \<Rightarrow> Inr t
     | Inl e \<Rightarrow> Inl (''Could not read '' @ rel @ '': '' @ store_text E e))"

definition filled_lines :: "string \<Rightarrow> string list" where
  "filled_lines text = filter (\<lambda>l. l \<noteq> []) (map py_strip (splitlines text))"

definition first_title :: "string \<Rightarrow> string option" where
  "first_title text = (case filled_lines text of [] \<Rightarrow> None | l # _ \<Rightarrow> Some (take 120 l))"

definition markdown_title :: "string \<Rightarrow> string option" where
  "markdown_title body = (case filled_lines body of [] \<Rightarrow> None
     | l # _ \<Rightarrow> Some (if starts_with l ''# '' then py_strip (drop 2 l) else take 120 l))"

definition parse_markdown :: "docs_env \<Rightarrow> vault \<Rightarrow> string \<Rightarrow> string + (string \<times> string option)" where
  "parse_markdown E v rel = bind_r (parser_text E v rel) (\<lambda>raw. let body = strip_frontmatter raw in
     Inr (strip_markdown body, markdown_title body))"

definition parse_txt :: "docs_env \<Rightarrow> vault \<Rightarrow> string \<Rightarrow> string + (string \<times> string option)" where
  "parse_txt E v rel = bind_r (parser_text E v rel) (\<lambda>raw. Inr (raw, first_title raw))"

definition parse_pdf :: "docs_env \<Rightarrow> vault \<Rightarrow> string \<Rightarrow> string + (string \<times> string option)" where
  \<comment> \<open>the reader gives the text of each page, \<open>None\<close> where the extraction raises, and the title of the
      metadata\<close>
  "parse_pdf E v rel = (case store_read_text v rel of
     Inl e \<Rightarrow> Inl (''failed to open PDF: '' @ store_text E e)
   | Inr raw \<Rightarrow> (case de_pdf E raw of
       Inl m \<Rightarrow> Inl (''failed to open PDF: '' @ m)
     | Inr (pages, meta) \<Rightarrow>
         let text = join_with [CHR 0x0A, CHR 0x0A] (filter (\<lambda>p. p \<noteq> []) (map py_strip (List.map_filter (\<lambda>p. p) pages)));
             title = (case meta of Some t \<Rightarrow> or_none (take 120 t) | None \<Rightarrow> None)
         in Inr (text, if title = None then first_title text else title)))"

definition parse_doc :: "docs_env \<Rightarrow> vault \<Rightarrow> string \<Rightarrow> string + (string \<times> string option)" where
  "parse_doc E v rel = (let suffix = py_lower (path_suffix rel) in
     if suffix \<in> set [''.md'', ''.markdown''] then parse_markdown E v rel
     else if suffix = ''.pdf'' then parse_pdf E v rel
     else parse_txt E v rel)"

section \<open>Which files are documents\<close>

definition matches_any :: "string \<Rightarrow> string list \<Rightarrow> bool" where
  "matches_any rel patterns \<longleftrightarrow> (\<exists>p \<in> set patterns. fnmatch rel p \<or> (starts_with p ''**/'' \<and> fnmatch rel (drop 3 p)))"

definition doc_files :: "docs_env \<Rightarrow> vault \<Rightarrow> string list" where
  "doc_files E v = sort (filter (\<lambda>rel. matches_any rel (de_includes E) \<and> \<not> matches_any rel (de_excludes E)) (store_files v))"

section \<open>Indexing one file\<close>

definition is_markdown :: "string \<Rightarrow> bool" where
  "is_markdown rel \<longleftrightarrow> ends_with (py_lower rel) ''.md'' \<or> ends_with (py_lower rel) ''.markdown''"

definition index_tenant :: "docs_env \<Rightarrow> db \<Rightarrow> string + int" where
  \<comment> \<open>\<open>_default_tenant_id\<close>, whose \<open>scalar_one\<close> raises unless there is one row\<close>
  "index_tenant E d = (case filter (\<lambda>t. t_slug t = ''default'') (d_tenants d) of
     [t] \<Rightarrow> Inr (t_id t) | [] \<Rightarrow> Inl (de_orm_text E ''NoResultFound'') | _ \<Rightarrow> Inl (de_orm_text E ''MultipleResultsFound''))"

definition orm_one_or_none :: "docs_env \<Rightarrow> 'r list \<Rightarrow> string + 'r option" where
  "orm_one_or_none E rs = (case rs of [] \<Rightarrow> Inr None | [r] \<Rightarrow> Inr (Some r) | _ \<Rightarrow> Inl (de_orm_text E ''MultipleResultsFound''))"

definition front_fields :: "docs_env \<Rightarrow> vault \<Rightarrow> string \<Rightarrow> string option \<times> json option" where
  \<comment> \<open>the title and the truthy folder entry of the front matter\<close>
  "front_fields E v rel = (if \<not> is_markdown rel then (None, None)
     else case store_read_text v rel of Inl _ \<Rightarrow> (None, None)
       | Inr text \<Rightarrow> let fm = fst (parse_frontmatter (de_yaml E) text);
             truthy = (\<lambda>k. case dict_get fm k of Some x \<Rightarrow> if json_truthy x then Some x else None | None \<Rightarrow> None)
         in (map_option (\<lambda>x. take 255 (py_str x)) (truthy ''title''), truthy ''folder''))"

definition folder_for :: "docs_env \<Rightarrow> db \<Rightarrow> string \<Rightarrow> json option \<Rightarrow> string + (int option \<times> string list)" where
  \<comment> \<open>the folder id and what is logged; \<open>de_bind\<close> is what the driver makes of the compared value\<close>
  "folder_for E d rel slug = (case slug of None \<Rightarrow> Inr (None, [])
     | Some x \<Rightarrow> bind_r (case x of JStr s \<Rightarrow> Inr s | _ \<Rightarrow> de_bind E x) (\<lambda>key.
         bind_r (orm_one_or_none E (filter (\<lambda>f. fd_slug f = key) (d_folders d))) (\<lambda>row. Inr (case row of
           Some f \<Rightarrow> (Some (fd_id f), [])
         | None \<Rightarrow> (None, [''unknown folder slug '' @ json_repr x @ '' in '' @ rel])))))"

definition embed_chunks :: "docs_env \<Rightarrow> string \<Rightarrow> chunk list \<Rightarrow> string option list \<times> string list" where
  \<comment> \<open>one vector per chunk; a failed batch is logged\<close>
  "embed_chunks E rel cs = (let none = (replicate (length cs) None, []); failed = (\<lambda>e. (replicate (length cs) None,
         [''embed failed for '' @ rel @ '': '' @ e])) in
     case de_embed E of None \<Rightarrow> none
     | Some f \<Rightarrow> if cs = [] then none
         else (case f (map cu_text cs) of Inl e \<Rightarrow> failed e
           | Inr vs \<Rightarrow> if length vs < length cs then failed (de_short E) else (map Some (take (length cs) vs), [])))"

definition chunk_rows :: "int \<Rightarrow> int \<Rightarrow> (chunk \<times> string option) list \<Rightarrow> doc_chunk list" where
  "chunk_rows first doc cvs = map (\<lambda>(i, c, v). \<lparr>ck_id = first + int i, ck_doc_id = doc, ck_ord = cu_ord c, ck_text = cu_text c,
     ck_start_char = cu_start c, ck_end_char = cu_end c, ck_embedding = v\<rparr>) (enumerate 0 cvs)"

definition drop_chunks :: "int \<Rightarrow> db \<Rightarrow> db" where
  "drop_chunks i d = d\<lparr>d_chunks := del_rows (\<lambda>k. ck_doc_id k = i) (d_chunks d)\<rparr>"

definition same_stat :: "int \<Rightarrow> int \<Rightarrow> document option \<Rightarrow> bool" where
  "same_stat bytes mtime doc \<longleftrightarrow> (case doc of None \<Rightarrow> False
     | Some x \<Rightarrow> dc_status x = ''indexed'' \<and> dc_size_bytes x = bytes \<and> dc_modified_at x = mtime)"

definition same_content :: "string \<Rightarrow> document option \<Rightarrow> bool" where
  "same_content digest doc \<longleftrightarrow> (case doc of None \<Rightarrow> False | Some x \<Rightarrow> dc_sha256 x = digest \<and> dc_status x = ''indexed'')"

definition put_stat :: "string \<Rightarrow> int \<Rightarrow> int \<Rightarrow> document \<Rightarrow> document" where
  "put_stat digest bytes mtime x = x\<lparr>dc_sha256 := digest, dc_size_bytes := bytes, dc_modified_at := mtime\<rparr>"

definition upd_doc :: "int \<Rightarrow> (document \<Rightarrow> document) \<Rightarrow> db \<Rightarrow> db" where
  "upd_doc i f d = d\<lparr>d_documents := upd_row dc_id i f (d_documents d)\<rparr>"

definition blank_document :: "int \<Rightarrow> int \<Rightarrow> string \<Rightarrow> string option \<Rightarrow> document" where
  "blank_document i t rel title = \<lparr>dc_id = i, dc_tenant_id = t, dc_rel_path = rel, dc_sha256 = [], dc_size_bytes = 0,
     dc_modified_at = 0, dc_indexed_at = None, dc_status = ''pending'', dc_error = None, dc_chunk_count = 0, dc_title = title,
     dc_folder_id = None, dc_frontmatter_title = None\<rparr>"

definition place_doc :: "docs_env \<Rightarrow> string \<Rightarrow> string option \<Rightarrow> document option \<Rightarrow> db \<Rightarrow> string + (int \<times> db)" where
  \<comment> \<open>the row of the file; a missing one is added for the default tenant, its other columns follow\<close>
  "place_doc E rel title doc d = (case doc of Some x \<Rightarrow> Inr (dc_id x, d)
     | None \<Rightarrow> bind_r (index_tenant E d) (\<lambda>t. let i = next_id dc_id (d_documents d) in
         Inr (i, d\<lparr>d_documents := d_documents d @ [blank_document i t rel title]\<rparr>)))"

definition error_row :: "stamp \<Rightarrow> string \<Rightarrow> int option \<Rightarrow> string option \<Rightarrow> document \<Rightarrow> document" where
  "error_row now e app fm_title x = x\<lparr>dc_status := ''error'', dc_error := Some e, dc_indexed_at := Some now,
     dc_chunk_count := 0, dc_folder_id := app, dc_frontmatter_title := fm_title\<rparr>"

definition indexed_row :: "stamp \<Rightarrow> string option \<Rightarrow> nat \<Rightarrow> int option \<Rightarrow> string option \<Rightarrow> document \<Rightarrow> document" where
  "indexed_row now title n app fm_title x = x\<lparr>dc_title := title, dc_folder_id := app, dc_frontmatter_title := fm_title,
     dc_chunk_count := int n, dc_status := ''indexed'', dc_error := None, dc_indexed_at := Some now\<rparr>"

definition add_chunks :: "int \<Rightarrow> (chunk \<times> string option) list \<Rightarrow> db \<Rightarrow> db" where
  "add_chunks i cvs d = d\<lparr>d_chunks := d_chunks d @ chunk_rows (next_id ck_id (d_chunks d)) i cvs\<rparr>"

definition display_title :: "string option \<Rightarrow> string option \<Rightarrow> string option" where
  \<comment> \<open>\<open>title or fm_title\<close>\<close>
  "display_title title fm_title = (if title = None \<or> title = Some [] then fm_title else title)"

type_synonym indexed = "(string + string) \<times> string list \<times> db"

definition index_content :: "docs_env \<Rightarrow> db \<Rightarrow> string \<Rightarrow> vfile \<Rightarrow> document option \<Rightarrow> indexed option" where
  \<comment> \<open>the part after the checks for a change: parse, chunk, embed, store\<close>
  "index_content E d rel f doc = (let stat = put_stat (de_digest E (vf_text f)) (utf8_size (vf_text f)) (vf_mtime f);
       front = front_fields E (d_vault d) rel; fm_title = fst front in
     case folder_for E d rel (snd front) of Inl e \<Rightarrow> Some (Inl e, [], d)
   | Inr (app, logs) \<Rightarrow> (case parse_doc E (d_vault d) rel of
       Inl e \<Rightarrow> Some (case place_doc E rel None doc d of Inl x \<Rightarrow> (Inl x, logs, d)
         | Inr (i, d1) \<Rightarrow> (Inr ''error'', logs, drop_chunks i (upd_doc i (error_row (d_now d) e app fm_title \<circ> stat) d1)))
     | Inr (text, title) \<Rightarrow> (case chunk_text text (de_width E) (de_overlap E) of
         None \<Rightarrow> None
       | Some cs \<Rightarrow> let emb = embed_chunks E rel cs; shown = display_title title fm_title in
           Some (case place_doc E rel shown doc d of Inl x \<Rightarrow> (Inl x, logs @ snd emb, d)
             | Inr (i, d1) \<Rightarrow> (Inr ''indexed'', logs @ snd emb,
                 add_chunks i (zip cs (fst emb)) (drop_chunks i
                   (upd_doc i (indexed_row (d_now d) shown (length cs) app fm_title \<circ> stat) d1)))))))"

definition index_one :: "docs_env \<Rightarrow> bool \<Rightarrow> db \<Rightarrow> string \<Rightarrow> indexed option" where
  \<comment> \<open>outcome or text of the exception, what was logged, the committed state; \<open>None\<close>: it does not return\<close>
  "index_one E force d rel = (case store_open (d_vault d) rel of Inl e \<Rightarrow> Some (Inl (store_text E e), [], d)
   | Inr f \<Rightarrow> (case orm_one_or_none E (filter (\<lambda>x. dc_rel_path x = rel) (d_documents d)) of Inl e \<Rightarrow> Some (Inl e, [], d)
     | Inr doc \<Rightarrow>
       let digest = de_digest E (vf_text f); bytes = utf8_size (vf_text f); mtime = vf_mtime f in
       if \<not> force \<and> same_stat bytes mtime doc then Some (Inr ''unchanged'', [], d)
       else if \<not> force \<and> same_content digest doc
       then Some (Inr ''unchanged'', [], (case doc of None \<Rightarrow> d | Some x \<Rightarrow> upd_doc (dc_id x) (put_stat digest bytes mtime) d))
       else index_content E d rel f doc))"

section \<open>A whole run\<close>

definition remove_deleted :: "string list \<Rightarrow> db \<Rightarrow> nat \<times> db" where
  "remove_deleted paths d = (let stale = remdups (filter (\<lambda>p. p \<notin> set paths) (map dc_rel_path (d_documents d)));
       gone = map dc_id (filter (\<lambda>x. dc_rel_path x \<in> set stale) (d_documents d)) in
     (length stale, if stale = [] then d else d\<lparr>d_documents := del_rows (\<lambda>x. dc_id x \<in> set gone) (d_documents d),
       d_chunks := del_rows (\<lambda>k. ck_doc_id k \<in> set gone) (d_chunks d)\<rparr>))"

record index_stats =
  ix_locked :: bool
  ix_running :: bool
  ix_total :: int
  ix_processed :: int
  ix_indexed :: int
  ix_skipped :: int
  ix_errors :: int
  ix_started :: "stamp option"
  ix_finished :: "stamp option"
  ix_last_error :: "string option"
  ix_embedder :: string
  ix_messages :: "string list"

definition with_lock :: "(index_stats \<Rightarrow> ('a \<times> index_stats) option) \<Rightarrow> index_stats \<Rightarrow> ('a \<times> index_stats) option" where
  \<comment> \<open>a \<open>threading.Lock\<close> is not reentrant: taking it while it is held by the same thread never returns\<close>
  "with_lock f st = (if ix_locked st then None else (case f (st\<lparr>ix_locked := True\<rparr>) of None \<Rightarrow> None
     | Some (x, st1) \<Rightarrow> Some (x, st1\<lparr>ix_locked := False\<rparr>)))"

definition get_index_status :: "index_stats \<Rightarrow> (index_stats \<times> index_stats) option" where
  "get_index_status = with_lock (\<lambda>st. Some (st\<lparr>ix_messages := drop (length (ix_messages st) - 20) (ix_messages st)\<rparr>, st))"

definition log_msg :: "docs_env \<Rightarrow> stamp \<Rightarrow> string \<Rightarrow> index_stats \<Rightarrow> index_stats" where
  "log_msg E now m st = st\<lparr>ix_messages := ix_messages st @ [de_hms E now @ '' '' @ m]\<rparr>"

definition count_outcome :: "string + string \<Rightarrow> index_stats \<Rightarrow> index_stats" where
  "count_outcome r st0 = (let st = st0\<lparr>ix_processed := ix_processed st0 + 1\<rparr> in
     if r = Inr ''indexed'' then st\<lparr>ix_indexed := ix_indexed st + 1\<rparr>
     else if r = Inr ''unchanged'' then st\<lparr>ix_skipped := ix_skipped st + 1\<rparr>
     else st\<lparr>ix_errors := ix_errors st + 1\<rparr>)"

definition note_error :: "docs_env \<Rightarrow> stamp \<Rightarrow> string \<Rightarrow> string + string \<Rightarrow> index_stats \<Rightarrow> index_stats" where
  "note_error E now rel r st = (case r of Inr _ \<Rightarrow> st
     | Inl e \<Rightarrow> (log_msg E now (''error '' @ rel @ '': '' @ e) st)\<lparr>ix_last_error := Some (rel @ '': '' @ e)\<rparr>)"

fun index_loop :: "docs_env \<Rightarrow> bool \<Rightarrow> string list \<Rightarrow> index_stats \<Rightarrow> db \<Rightarrow> (index_stats \<times> db) option" where
  "index_loop E force [] st d = Some (st, d)"
| "index_loop E force (rel # rels) st d = (case index_one E force d rel of None \<Rightarrow> None
     | Some (r, logs, d1) \<Rightarrow>
         index_loop E force rels (count_outcome r (note_error E (d_now d) rel r (fold (log_msg E (d_now d)) logs st))) d1)"

definition run_started :: "stamp \<Rightarrow> index_stats \<Rightarrow> index_stats" where
  "run_started now st = st\<lparr>ix_running := True, ix_started := Some now, ix_finished := None, ix_total := 0, ix_processed := 0,
     ix_indexed := 0, ix_skipped := 0, ix_errors := 0, ix_last_error := None, ix_messages := []\<rparr>"

definition scan_status :: "docs_env \<Rightarrow> bool \<Rightarrow> nat \<Rightarrow> stamp \<Rightarrow> index_stats \<Rightarrow> index_stats" where
  "scan_status E force n now st0 = (let st1 = st0\<lparr>ix_embedder := de_embedder_name E\<rparr>;
       st2 = (case de_fallback E of None \<Rightarrow> st1
         | Some e \<Rightarrow> let m = ''SMB source unavailable, using local: '' @ e in (log_msg E now m st1)\<lparr>ix_last_error := Some m\<rparr>)
     in log_msg E now (''scanning '' @ str_int (int n) @ '' docs from '' @ de_label E @ '' (embedder=''
         @ de_embedder_name E @ '', force='' @ (if force then ''True'' else ''False'') @ '')'') (st2\<lparr>ix_total := int n\<rparr>))"

definition prune_files :: "docs_env \<Rightarrow> string list \<Rightarrow> index_stats \<times> db \<Rightarrow> index_stats \<times> db" where
  "prune_files E files s = (let (n, d) = remove_deleted files (snd s) in
     (if n = 0 then fst s else log_msg E (d_now d) (''pruned '' @ str_int (int n) @ '' deleted files'') (fst s), d))"

definition run_body :: "docs_env \<Rightarrow> bool \<Rightarrow> index_stats \<Rightarrow> db \<Rightarrow> (index_stats \<times> db) option" where
  "run_body E force st d = (let files = doc_files E (d_vault d) in
     map_option (prune_files E files) (index_loop E force files (scan_status E force (length files) (d_now d) st) d))"

definition reindex :: "docs_env \<Rightarrow> bool \<Rightarrow> index_stats \<Rightarrow> db \<Rightarrow> (index_stats \<times> index_stats \<times> db) option" where
  \<comment> \<open>the returned status, the module's status and the database; \<open>None\<close>: it does not return\<close>
  "reindex E force st d =
     (case with_lock (\<lambda>st. if ix_running st then map_option (\<lambda>(r, st1). (Some r, st1)) (get_index_status st)
                           else Some (None, run_started (d_now d) st)) st of
        None \<Rightarrow> None
      | Some (Some r, st1) \<Rightarrow> Some (r, st1, d)
      | Some (None, st1) \<Rightarrow> (case run_body E force st1 d of None \<Rightarrow> None
          | Some (st2, d1) \<Rightarrow> (case get_index_status (st2\<lparr>ix_running := False, ix_finished := Some (d_now d)\<rparr>) of
              None \<Rightarrow> None
            | Some (r, st3) \<Rightarrow> Some (r, st3, d1))))"

section \<open>Rows and their chunks\<close>

definition docs_ok :: "db \<Rightarrow> bool" where
  \<comment> \<open>keys are keys, and every chunk belongs to a row\<close>
  "docs_ok d \<longleftrightarrow> uniq_ids dc_id (d_documents d) \<and> distinct (map dc_rel_path (d_documents d)) \<and>
     ck_doc_id ` set (d_chunks d) \<subseteq> dc_id ` set (d_documents d)"

definition doc_entry :: "db \<Rightarrow> string \<Rightarrow> (document \<times> doc_chunk list) list" where
  \<comment> \<open>the rows for a path, each with its chunks\<close>
  "doc_entry d rel = map (\<lambda>x. (x, filter (\<lambda>k. ck_doc_id k = dc_id x) (d_chunks d)))
     (filter (\<lambda>x. dc_rel_path x = rel) (d_documents d))"

definition same_rest :: "db \<Rightarrow> db \<Rightarrow> bool" where
  \<comment> \<open>the two states differ in documents and chunks at most\<close>
  "same_rest d d1 \<longleftrightarrow> (\<exists>xs ks. d1 = d\<lparr>d_documents := xs, d_chunks := ks\<rparr>)"

lemma same_rest_fields:
  assumes "same_rest d d1"
  shows "d_vault d1 = d_vault d" "d_folders d1 = d_folders d" "d_tenants d1 = d_tenants d" "d_now d1 = d_now d" "d_users d1 = d_users d"
  using assms by (auto simp: same_rest_def)

lemma same_rest_set [simp]: "same_rest d (d\<lparr>d_documents := xs, d_chunks := ks\<rparr>)"
  unfolding same_rest_def by blast

lemma same_rest_refl [simp]: "same_rest d d"
  unfolding same_rest_def by (intro exI [of _ "d_documents d"] exI [of _ "d_chunks d"]) simp

lemma same_rest_docs [simp]: "same_rest d (d\<lparr>d_documents := xs\<rparr>)"
  unfolding same_rest_def by (intro exI [of _ xs] exI [of _ "d_chunks d"]) simp

lemma same_rest_trans: "same_rest d d1 \<Longrightarrow> same_rest d1 d2 \<Longrightarrow> same_rest d d2"
  unfolding same_rest_def by (elim exE) (rule exI, rule exI, simp)

lemma filter_key: "distinct (map f xs) \<Longrightarrow> x \<in> set xs \<Longrightarrow> filter (\<lambda>y. f y = f x) xs = [x]"
proof (induction xs)
  case (Cons y ys)
  then show ?case
    by (cases "x = y") (auto simp: filter_empty_conv image_iff)
qed simp

lemma place_doc_row:
  assumes ok: "docs_ok d" and doc: "orm_one_or_none E (filter (\<lambda>x. dc_rel_path x = rel) (d_documents d)) = Inr doc"
    and p: "place_doc E rel t doc d = Inr (i, d1)"
  shows "docs_ok d1" and "same_rest d d1" and "d_chunks d1 = d_chunks d"
    and "\<exists>x \<in> set (d_documents d1). dc_id x = i \<and> dc_rel_path x = rel"
    and "rel' \<noteq> rel \<Longrightarrow> doc_entry d1 rel' = doc_entry d rel'"
    and "dc_rel_path ` set (d_documents d1) = insert rel (dc_rel_path ` set (d_documents d))"
proof -
  have "docs_ok d1 \<and> same_rest d d1 \<and> d_chunks d1 = d_chunks d \<and> (\<exists>x \<in> set (d_documents d1). dc_id x = i \<and> dc_rel_path x = rel) \<and>
      (rel' \<noteq> rel \<longrightarrow> doc_entry d1 rel' = doc_entry d rel') \<and>
      dc_rel_path ` set (d_documents d1) = insert rel (dc_rel_path ` set (d_documents d))"
  proof (cases doc)
    case None
    then have no: "filter (\<lambda>x. dc_rel_path x = rel) (d_documents d) = []"
      using doc by (auto simp: orm_one_or_none_def split: list.splits)
    obtain n where n: "d1 = d\<lparr>d_documents := d_documents d @ [blank_document (next_id dc_id (d_documents d)) n rel t]\<rparr>"
        "i = next_id dc_id (d_documents d)"
      using p by (auto simp: None place_doc_def bind_r_Inr_iff Let_def)
    let ?y = "blank_document i n rel t"
    have y: "d1 = d\<lparr>d_documents := d_documents d @ [?y]\<rparr>" "dc_id ?y = next_id dc_id (d_documents d)" "dc_rel_path ?y = rel" "i = dc_id ?y"
      using n by (simp_all add: blank_document_def)
    have "rel \<notin> dc_rel_path ` set (d_documents d)"
      using no by (auto simp: filter_empty_conv)
    then have "docs_ok d1"
      using ok y uniq_ids_append_new [of dc_id "d_documents d" ?y] by (auto simp: docs_ok_def)
    moreover have "doc_entry d1 rel' = doc_entry d rel'" if "rel' \<noteq> rel"
      using y(1,3) that by (simp add: doc_entry_def)
    ultimately show ?thesis
      using y by simp
  next
    case (Some x)
    then have "filter (\<lambda>x. dc_rel_path x = rel) (d_documents d) = [x]"
      using doc by (auto simp: orm_one_or_none_def split: list.splits)
    then have "x \<in> set (filter (\<lambda>x. dc_rel_path x = rel) (d_documents d))"
      by (simp only: list.set_intros)
    then show ?thesis
      using Some p ok by (auto simp: place_doc_def)
  qed
  then show "docs_ok d1" "same_rest d d1" "d_chunks d1 = d_chunks d" "\<exists>x \<in> set (d_documents d1). dc_id x = i \<and> dc_rel_path x = rel"
    "rel' \<noteq> rel \<Longrightarrow> doc_entry d1 rel' = doc_entry d rel'"
    "dc_rel_path ` set (d_documents d1) = insert rel (dc_rel_path ` set (d_documents d))"
    by blast+
qed

lemma store_entry:
  assumes ok: "docs_ok d" and x: "x \<in> set (d_documents d)" "dc_id x = i" "dc_rel_path x = rel"
    and g: "\<And>y. dc_id (g y) = dc_id y" "\<And>y. dc_rel_path (g y) = dc_rel_path y" and ks: "\<forall>k \<in> set ks. ck_doc_id k = i"
    and d1: "d1 = d\<lparr>d_documents := upd_row dc_id i g (d_documents d), d_chunks := del_rows (\<lambda>k. ck_doc_id k = i) (d_chunks d) @ ks\<rparr>"
  shows "docs_ok d1" and "same_rest d d1" and "doc_entry d1 rel = [(g x, ks)]"
    and "rel' \<noteq> rel \<Longrightarrow> doc_entry d1 rel' = doc_entry d rel'"
    and "dc_rel_path ` set (d_documents d1) = dc_rel_path ` set (d_documents d)"
proof -
  let ?D = "d_documents d" and ?g = "\<lambda>r. if dc_id r = i then g r else r"
  have u: "uniq_ids dc_id ?D" "distinct (map dc_rel_path ?D)"
    using ok by (auto simp: docs_ok_def)
  have m: "map dc_id (upd_row dc_id i g ?D) = map dc_id ?D" "map dc_rel_path (upd_row dc_id i g ?D) = map dc_rel_path ?D"
    using g by (auto simp: upd_row_def)
  have ids: "dc_id ` set (upd_row dc_id i g ?D) = dc_id ` set ?D"
    using m(1) by (metis list.set_map)
  have "ck_doc_id ` set (d_chunks d1) \<subseteq> dc_id ` set (d_documents d1)"
    using ok ks x(1,2) by (auto simp: d1 ids docs_ok_def)
  then show "docs_ok d1"
    using u m by (simp add: docs_ok_def d1 uniq_ids_def)
  show "same_rest d d1"
    by (simp add: d1)
  have "dc_rel_path ` set (upd_row dc_id i g ?D) = dc_rel_path ` set ?D"
    using m(2) by (metis list.set_map)
  then show "dc_rel_path ` set (d_documents d1) = dc_rel_path ` set ?D"
    by (simp add: d1)
  have own: "dc_id y = i \<longleftrightarrow> dc_rel_path y = rel" if "y \<in> set ?D" for y
    using u x that unfolding uniq_ids_def distinct_map inj_on_def by blast
  have f: "filter (\<lambda>r. dc_rel_path r = q) (upd_row dc_id i g ?D) = map ?g (filter (\<lambda>r. dc_rel_path r = q) ?D)" for q
  proof -
    have "dc_rel_path (?g r) = dc_rel_path r" for r
      by (simp add: g)
    then show ?thesis
      by (simp add: upd_row_def filter_map comp_def)
  qed
  show "doc_entry d1 rel = [(g x, ks)]"
    using filter_key [OF u(2) x(1)] x ks
    by (simp add: doc_entry_def d1 f g del_rows_def filter_empty_conv)
  assume "rel' \<noteq> rel"
  then have "dc_id y \<noteq> i" if "y \<in> set ?D" "dc_rel_path y = rel'" for y
    using own that by blast
  moreover have "filter (\<lambda>k. ck_doc_id k = j) (d_chunks d1) = filter (\<lambda>k. ck_doc_id k = j) (d_chunks d)" if "j \<noteq> i" for j
  proof -
    have "filter (\<lambda>k. ck_doc_id k = j) ks = []"
      using ks that by (auto simp: filter_empty_conv)
    moreover have "filter (\<lambda>k. ck_doc_id k \<noteq> i \<and> ck_doc_id k = j) (d_chunks d) = filter (\<lambda>k. ck_doc_id k = j) (d_chunks d)"
      using that by (metis (lifting))
    ultimately show ?thesis
      by (simp add: d1 del_rows_def)
  qed
  ultimately have "(?g y, filter (\<lambda>k. ck_doc_id k = dc_id (?g y)) (d_chunks d1)) = (y, filter (\<lambda>k. ck_doc_id k = dc_id y) (d_chunks d))"
    if "y \<in> set ?D" "dc_rel_path y = rel'" for y
    using that by simp
  then have e: "map (\<lambda>y. (?g y, filter (\<lambda>k. ck_doc_id k = dc_id (?g y)) (d_chunks d1))) (filter (\<lambda>r. dc_rel_path r = rel') ?D) = doc_entry d rel'"
    unfolding doc_entry_def by (intro map_cong refl) (simp only: set_filter mem_Collect_eq)
  have dd: "d_documents d1 = upd_row dc_id i g ?D"
    by (simp add: d1)
  show "doc_entry d1 rel' = doc_entry d rel'"
    unfolding doc_entry_def [of d1] dd f map_map comp_def by (rule e)
qed

section \<open>One file after a forced pass\<close>

lemma chunk_text_ends:
  assumes "1 \<le> width" and "0 \<le> overlap"
  shows "\<exists>cs. chunk_text text width overlap = Some cs"
proof (cases "py_strip text = []")
  case False
  let ?o = "if width \<le> overlap then width div 5 else overlap"
  have "0 \<le> ?o" "?o < width"
    using assms by auto
  moreover have "chunks_fit (py_strip text) width []" "gap_free (py_strip text) [] 0"
    by (auto simp: chunks_fit_def gap_free_def)
  ultimately have "\<exists>cs. chunk_loop (py_strip text) width ?o 0 [] = Some cs"
    using chunk_loop_fits [of ?o width 0] by blast
  then show ?thesis
    using False by (simp add: chunk_text_def Let_def)
qed (simp add: chunk_text_def)

definition index_ready :: "docs_env \<Rightarrow> db \<Rightarrow> bool" where
  \<comment> \<open>nothing makes a file raise: a window that moves, one default tenant, folder slugs unique over all
      tenants, comparable folder entries, and files whose names the path rule leaves as they are\<close>
  "index_ready E d \<longleftrightarrow> 1 \<le> de_width E \<and> 0 \<le> de_overlap E \<and> (\<exists>t. index_tenant E d = Inr t) \<and>
     distinct (map fd_slug (d_folders d)) \<and> (\<forall>x. \<exists>s. de_bind E x = Inr s) \<and>
     (\<forall>p \<in> set (store_files (d_vault d)). normalize_rel p = Inr p)"

definition chunk_view :: "doc_chunk \<Rightarrow> int \<times> string \<times> int \<times> int \<times> string option" where
  "chunk_view k = (ck_ord k, ck_text k, ck_start_char k, ck_end_char k, ck_embedding k)"

definition piece_view :: "chunk \<times> string option \<Rightarrow> int \<times> string \<times> int \<times> int \<times> string option" where
  "piece_view p = (cu_ord (fst p), cu_text (fst p), cu_start (fst p), cu_end (fst p), snd p)"

definition indexed_as :: "docs_env \<Rightarrow> db \<Rightarrow> string \<Rightarrow> document \<Rightarrow> doc_chunk list \<Rightarrow> bool" where
  \<comment> \<open>the row and its chunks say what the file says now\<close>
  "indexed_as E d rel x ks \<longleftrightarrow> (\<exists>f app logs. file_at (d_vault d) rel = Some f \<and>
     folder_for E d rel (snd (front_fields E (d_vault d) rel)) = Inr (app, logs) \<and>
     dc_sha256 x = de_digest E (vf_text f) \<and> dc_size_bytes x = utf8_size (vf_text f) \<and> dc_modified_at x = vf_mtime f \<and>
     dc_folder_id x = app \<and> dc_frontmatter_title x = fst (front_fields E (d_vault d) rel) \<and>
     (case parse_doc E (d_vault d) rel of
        Inl e \<Rightarrow> dc_status x = ''error'' \<and> dc_error x = Some e \<and> dc_chunk_count x = 0 \<and> ks = []
      | Inr (text, title) \<Rightarrow> dc_status x = ''indexed'' \<and> dc_error x = None \<and>
          dc_title x = display_title title (fst (front_fields E (d_vault d) rel)) \<and>
          (\<exists>cs. chunk_text text (de_width E) (de_overlap E) = Some cs \<and> dc_chunk_count x = int (length cs) \<and>
             map chunk_view ks = map piece_view (zip cs (fst (embed_chunks E rel cs))))))"

definition file_indexed :: "docs_env \<Rightarrow> db \<Rightarrow> string \<Rightarrow> bool" where
  \<comment> \<open>there is exactly one row for the path, and it is that of the file\<close>
  "file_indexed E d rel \<longleftrightarrow> (\<exists>x ks. doc_entry d rel = [(x, ks)] \<and> indexed_as E d rel x ks)"

lemma folder_for_ready:
  assumes "index_ready E d"
  shows "\<exists>app logs. folder_for E d rel slug = Inr (app, logs)"
proof -
  have one: "\<exists>r. orm_one_or_none E (filter (\<lambda>f. fd_slug f = key) (d_folders d)) = Inr r" for key
  proof (cases "filter (\<lambda>f. fd_slug f = key) (d_folders d)")
    case (Cons f fs)
    then have "f \<in> set (filter (\<lambda>f. fd_slug f = key) (d_folders d))"
      by (simp only: list.set_intros)
    then have "f \<in> set (d_folders d)" "fd_slug f = key"
      by simp_all
    then have "filter (\<lambda>f. fd_slug f = key) (d_folders d) = [f]"
      using assms filter_key [of fd_slug "d_folders d" f] by (simp add: index_ready_def)
    then show ?thesis
      by (simp add: orm_one_or_none_def)
  qed (simp add: orm_one_or_none_def)
  show ?thesis
  proof (cases slug)
    case (Some x)
    have "\<exists>s. (case x of JStr s \<Rightarrow> Inr s | _ \<Rightarrow> de_bind E x) = Inr s"
      using assms by (cases x) (auto simp: index_ready_def)
    then obtain s where s: "(case x of JStr s \<Rightarrow> Inr s | _ \<Rightarrow> de_bind E x) = Inr s"
      by blast
    obtain r where "orm_one_or_none E (filter (\<lambda>f. fd_slug f = s) (d_folders d)) = Inr r"
      using one by blast
    then show ?thesis
      using Some s by (cases r) (simp_all add: folder_for_def)
  qed (simp add: folder_for_def)
qed

lemma chunk_rows_laws:
  shows "k \<in> set (chunk_rows n i cvs) \<Longrightarrow> ck_doc_id k = i" and "map chunk_view (chunk_rows n i cvs) = map piece_view cvs"
proof -
  show "k \<in> set (chunk_rows n i cvs) \<Longrightarrow> ck_doc_id k = i"
    by (auto simp: chunk_rows_def)
  have "map (\<lambda>(j, p). piece_view p) (enumerate m cvs) = map piece_view cvs" for m
    by (induction cvs arbitrary: m) simp_all
  moreover have "map chunk_view (chunk_rows n i cvs) = map (\<lambda>(j, p). piece_view p) (enumerate 0 cvs)"
    by (auto simp: chunk_rows_def chunk_view_def piece_view_def)
  ultimately show "map chunk_view (chunk_rows n i cvs) = map piece_view cvs"
    by simp
qed

lemma embed_length: "length (fst (embed_chunks E rel cs)) = length cs"
  by (auto simp: embed_chunks_def Let_def split: option.split sum.split)

lemma row_laws [simp]:
  "dc_id (put_stat g b m x) = dc_id x" "dc_rel_path (put_stat g b m x) = dc_rel_path x"
  "dc_id (error_row t e a f x) = dc_id x" "dc_rel_path (error_row t e a f x) = dc_rel_path x"
  "dc_id (indexed_row t h n a f x) = dc_id x" "dc_rel_path (indexed_row t h n a f x) = dc_rel_path x"
  by (simp_all add: put_stat_def error_row_def indexed_row_def)

definition pass_of :: "docs_env \<Rightarrow> string \<Rightarrow> db \<Rightarrow> db \<Rightarrow> bool" where
  \<comment> \<open>what one file may change\<close>
  "pass_of E rel d d1 \<longleftrightarrow> docs_ok d1 \<and> same_rest d d1 \<and> file_indexed E d1 rel \<and>
     (\<forall>q. q \<noteq> rel \<longrightarrow> doc_entry d1 q = doc_entry d q) \<and>
     dc_rel_path ` set (d_documents d1) = insert rel (dc_rel_path ` set (d_documents d))"

lemma indexed_as_rest: "same_rest d d1 \<Longrightarrow> indexed_as E d1 rel x ks = indexed_as E d rel x ks"
proof -
  assume "same_rest d d1"
  then have r: "d_vault d1 = d_vault d" "d_folders d1 = d_folders d"
    by (simp_all add: same_rest_fields)
  then have f: "folder_for E d1 rel s = folder_for E d rel s" for s
    by (simp add: folder_for_def cong: option.case_cong)
  show ?thesis
    unfolding indexed_as_def r f ..
qed

lemma pass_step:
  assumes "docs_ok d" and "orm_one_or_none E (filter (\<lambda>x. dc_rel_path x = rel) (d_documents d)) = Inr doc"
    and "place_doc E rel t doc d = Inr (i, d0)" and "\<And>y. dc_id (g y) = dc_id y" and "\<And>y. dc_rel_path (g y) = dc_rel_path y"
    and "\<forall>k \<in> set ks. ck_doc_id k = i" and "\<And>x. indexed_as E d rel (g x) ks"
  shows "pass_of E rel d (d0\<lparr>d_documents := upd_row dc_id i g (d_documents d0),
      d_chunks := del_rows (\<lambda>k. ck_doc_id k = i) (d_chunks d0) @ ks\<rparr>)"
proof -
  note p = place_doc_row [OF assms(1-3)]
  obtain x where x: "x \<in> set (d_documents d0)" "dc_id x = i" "dc_rel_path x = rel"
    using p(4) by blast
  note s = store_entry [OF p(1) x assms(4,5,6) refl]
  let ?d = "d0\<lparr>d_documents := upd_row dc_id i g (d_documents d0), d_chunks := del_rows (\<lambda>k. ck_doc_id k = i) (d_chunks d0) @ ks\<rparr>"
  have r: "same_rest d ?d"
    using same_rest_trans [OF p(2) s(2)] .
  then have "indexed_as E ?d rel (g x) ks"
    using assms(7) by (simp only: indexed_as_rest)
  then have "file_indexed E ?d rel"
    unfolding file_indexed_def using s(3) by blast
  moreover have "doc_entry ?d q = doc_entry d q" if "q \<noteq> rel" for q
    using s(4) [OF that] p(5) [OF that] by (simp only:)
  ultimately show ?thesis
    unfolding pass_of_def using r s(1) trans [OF s(5) p(6)] by blast
qed

lemma index_one_forced:
  assumes ok: "docs_ok d" and ready: "index_ready E d" and rel: "rel \<in> set (store_files (d_vault d))"
  shows "\<exists>r logs d1. index_one E True d rel = Some (Inr r, logs, d1) \<and> pass_of E rel d d1"
proof -
  let ?v = "d_vault d" and ?fm = "fst (front_fields E (d_vault d) rel)"
  obtain f where f: "file_at ?v rel = Some f"
    using rel by (cases "file_at ?v rel") (auto simp: file_at_None_iff store_files_def)
  have n: "normalize_rel rel = Inr rel"
    using ready rel by (simp add: index_ready_def)
  then have open_f: "store_open ?v rel = Inr f"
    using f by (simp add: store_open_def safe_rel_def)
  let ?rows = "filter (\<lambda>x. dc_rel_path x = rel) (d_documents d)"
  obtain doc where doc: "orm_one_or_none E ?rows = Inr doc"
  proof (cases ?rows)
    case (Cons x xs)
    then have "x \<in> set ?rows"
      by (simp only: list.set_intros)
    then have "?rows = [x]"
      using filter_key [of dc_rel_path "d_documents d" x] ok by (simp add: docs_ok_def)
    then show ?thesis
      using that by (simp add: orm_one_or_none_def)
  qed (use that in \<open>simp add: orm_one_or_none_def\<close>)
  obtain app logs where fd: "folder_for E d rel (snd (front_fields E ?v rel)) = Inr (app, logs)"
    using folder_for_ready [OF ready] by blast
  have place: "\<exists>i d0. place_doc E rel t doc d = Inr (i, d0)" for t
    using ready by (auto simp: place_doc_def index_ready_def Let_def split: option.split)
  let ?stat = "put_stat (de_digest E (vf_text f)) (utf8_size (vf_text f)) (vf_mtime f)"
  have "\<exists>r logs d1. index_content E d rel f doc = Some (Inr r, logs, d1) \<and> pass_of E rel d d1"
  proof (cases "parse_doc E ?v rel")
    case (Inl e)
    obtain i d0 where p: "place_doc E rel None doc d = Inr (i, d0)"
      using place by blast
    let ?g = "error_row (d_now d) e app ?fm \<circ> ?stat"
    have "indexed_as E d rel (?g x) []" for x
      using f fd Inl by (auto simp: indexed_as_def error_row_def put_stat_def)
    then have "pass_of E rel d (drop_chunks i (upd_doc i ?g d0))"
      using pass_step [OF ok doc p, of ?g "[]"] by (simp add: drop_chunks_def upd_doc_def)
    then show ?thesis
      using Inl p fd by (simp add: index_content_def Let_def)
  next
    case (Inr tt)
    obtain body title where tt: "tt = (body, title)"
      by (cases tt)
    obtain cs where cs: "chunk_text body (de_width E) (de_overlap E) = Some cs"
      using ready chunk_text_ends by (fastforce simp: index_ready_def)
    let ?shown = "display_title title ?fm" and ?vs = "fst (embed_chunks E rel cs)"
    obtain i d0 where p: "place_doc E rel ?shown doc d = Inr (i, d0)"
      using place by blast
    let ?g = "indexed_row (d_now d) ?shown (length cs) app ?fm \<circ> ?stat"
    let ?ks = "chunk_rows (next_id ck_id (d_chunks (drop_chunks i (upd_doc i ?g d0)))) i (zip cs ?vs)"
    have "indexed_as E d rel (?g x) ?ks" for x
      using f fd Inr tt cs chunk_rows_laws(2) by (auto simp: indexed_as_def indexed_row_def put_stat_def)
    then have "pass_of E rel d (add_chunks i (zip cs ?vs) (drop_chunks i (upd_doc i ?g d0)))"
      using pass_step [OF ok doc p, of ?g ?ks] chunk_rows_laws(1) by (simp add: drop_chunks_def upd_doc_def add_chunks_def)
    then show ?thesis
      using Inr p fd tt cs by (simp add: index_content_def Let_def)
  qed
  then show ?thesis
    using open_f doc by (simp add: index_one_def Let_def)
qed

section \<open>A forced run\<close>

lemma file_indexed_rest: "same_rest d d1 \<Longrightarrow> doc_entry d1 q = doc_entry d q \<Longrightarrow> file_indexed E d1 q = file_indexed E d q"
  by (simp add: file_indexed_def indexed_as_rest)

lemma index_ready_rest: "same_rest d d1 \<Longrightarrow> index_ready E d1 = index_ready E d"
  by (simp add: index_ready_def index_tenant_def same_rest_fields)

definition counts_ok :: "index_stats \<Rightarrow> bool" where
  "counts_ok st \<longleftrightarrow> ix_processed st = ix_indexed st + ix_skipped st + ix_errors st"

lemma log_fields [simp]:
  "ix_locked (log_msg E t m st) = ix_locked st" "ix_running (log_msg E t m st) = ix_running st"
  "ix_total (log_msg E t m st) = ix_total st" "ix_processed (log_msg E t m st) = ix_processed st"
  "counts_ok (log_msg E t m st) = counts_ok st"
  by (simp_all add: log_msg_def counts_ok_def)

lemma fold_log_fields [simp]:
  "ix_locked (fold (log_msg E t) ms st) = ix_locked st" "ix_running (fold (log_msg E t) ms st) = ix_running st"
  "ix_total (fold (log_msg E t) ms st) = ix_total st" "ix_processed (fold (log_msg E t) ms st) = ix_processed st"
  "counts_ok (fold (log_msg E t) ms st) = counts_ok st"
  by (induction ms arbitrary: st) simp_all

lemma note_fields [simp]:
  "ix_locked (note_error E t rel r st) = ix_locked st" "ix_running (note_error E t rel r st) = ix_running st"
  "ix_total (note_error E t rel r st) = ix_total st" "ix_processed (note_error E t rel r st) = ix_processed st"
  "counts_ok (note_error E t rel r st) = counts_ok st"
  by (auto simp: note_error_def log_msg_def counts_ok_def split: sum.split)

lemma count_fields [simp]:
  "ix_locked (count_outcome r st) = ix_locked st" "ix_running (count_outcome r st) = ix_running st"
  "ix_total (count_outcome r st) = ix_total st" "ix_processed (count_outcome r st) = ix_processed st + 1"
  "counts_ok (count_outcome r st) = counts_ok st"
  by (auto simp: count_outcome_def counts_ok_def Let_def)

lemma index_loop_stats:
  "index_loop E force rels st d = Some (st1, d1) \<Longrightarrow> ix_locked st1 = ix_locked st \<and> ix_total st1 = ix_total st \<and>
     ix_processed st1 = ix_processed st + int (length rels) \<and> counts_ok st1 = counts_ok st"
  by (induction rels arbitrary: st d) (fastforce split: option.splits)+

lemma index_loop_forced:
  assumes "docs_ok d" and "index_ready E d" and "set rels \<subseteq> set (store_files (d_vault d))"
  shows "\<exists>st1 d1. index_loop E True rels st d = Some (st1, d1) \<and> docs_ok d1 \<and> same_rest d d1 \<and>
    (\<forall>q. q \<in> set rels \<or> file_indexed E d q \<longrightarrow> file_indexed E d1 q) \<and>
    dc_rel_path ` set (d_documents d1) = set rels \<union> dc_rel_path ` set (d_documents d)"
  using assms
proof (induction rels arbitrary: st d)
  case (Cons rel rels)
  obtain r logs d1 where one: "index_one E True d rel = Some (Inr r, logs, d1)" and p: "pass_of E rel d d1"
    using index_one_forced [OF Cons.prems(1,2), of rel] Cons.prems(3) by auto
  have d1: "docs_ok d1" "same_rest d d1" "file_indexed E d1 rel"
      "dc_rel_path ` set (d_documents d1) = insert rel (dc_rel_path ` set (d_documents d))"
    using p by (auto simp: pass_of_def)
  have keep: "file_indexed E d1 q" if "q = rel \<or> file_indexed E d q" for q
    using that d1(3) p file_indexed_rest [OF d1(2)] by (cases "q = rel") (auto simp: pass_of_def)
  let ?st = "count_outcome (Inr r) (note_error E (d_now d) rel (Inr r) (fold (log_msg E (d_now d)) logs st))"
  have "set rels \<subseteq> set (store_files (d_vault d1))"
    using Cons.prems(3) d1(2) by (simp add: same_rest_fields)
  moreover have "index_ready E d1"
    using Cons.prems(2) index_ready_rest [OF d1(2)] by simp
  ultimately obtain st2 d2 where l: "index_loop E True rels ?st d1 = Some (st2, d2)" "docs_ok d2" "same_rest d1 d2"
      "\<forall>q. q \<in> set rels \<or> file_indexed E d1 q \<longrightarrow> file_indexed E d2 q"
      "dc_rel_path ` set (d_documents d2) = set rels \<union> dc_rel_path ` set (d_documents d1)"
    using Cons.IH [OF d1(1), of ?st] by blast
  have "index_loop E True (rel # rels) st d = Some (st2, d2)"
    using one l(1) by simp
  moreover have "\<forall>q. q \<in> set (rel # rels) \<or> file_indexed E d q \<longrightarrow> file_indexed E d2 q"
    using l(4) keep by auto
  moreover have "dc_rel_path ` set (d_documents d2) = set (rel # rels) \<union> dc_rel_path ` set (d_documents d)"
    using l(5) d1(4) by auto
  ultimately show ?case
    using l(2) same_rest_trans [OF d1(2) l(3)] by blast
qed simp

lemma remove_deleted_laws:
  assumes ok: "docs_ok d" and r: "remove_deleted paths d = (n, d1)"
  shows "docs_ok d1" and "same_rest d d1"
    and "dc_rel_path ` set (d_documents d1) = set paths \<inter> dc_rel_path ` set (d_documents d)"
    and "q \<in> set paths \<Longrightarrow> doc_entry d1 q = doc_entry d q"
proof -
  let ?D = "d_documents d" and ?stale = "remdups (filter (\<lambda>p. p \<notin> set paths) (map dc_rel_path (d_documents d)))"
  let ?gone = "map dc_id (filter (\<lambda>x. dc_rel_path x \<in> set ?stale) ?D)"
  obtain G where G: "set ?gone = G"
    by blast
  have own: "dc_id x \<in> G \<longleftrightarrow> dc_rel_path x \<notin> set paths" if "x \<in> set ?D" for x
    using ok that unfolding G [symmetric] docs_ok_def uniq_ids_def distinct_map inj_on_def by fastforce
  have d1: "d1 = (if ?stale = [] then d else d\<lparr>d_documents := del_rows (\<lambda>x. dc_id x \<in> set ?gone) ?D,
      d_chunks := del_rows (\<lambda>k. ck_doc_id k \<in> set ?gone) (d_chunks d)\<rparr>)"
    using r unfolding remove_deleted_def Let_def by blast
  note d1 = d1 [unfolded G]
  have D: "d_documents d1 = filter (\<lambda>x. dc_rel_path x \<in> set paths) ?D"
  proof (cases "?stale = []")
    case True
    then have "\<forall>x \<in> set ?D. dc_rel_path x \<in> set paths"
      by (auto simp: filter_empty_conv)
    then show ?thesis
      using True by (simp add: d1)
  next
    case False
    then show ?thesis
      using own unfolding d1 del_rows_def by (auto intro!: filter_cong)
  qed
  have K: "d_chunks d1 = filter (\<lambda>k. ck_doc_id k \<notin> G) (d_chunks d)"
  proof (cases "?stale = []")
    case True
    then have "?gone = []"
      by simp
    then have "G = {}"
      using G by auto
    then show ?thesis
      using True by (simp add: d1)
  qed (simp add: d1 del_rows_def)
  have "ck_doc_id ` set (d_chunks d1) \<subseteq> dc_id ` set (d_documents d1)"
  proof
    fix i
    assume "i \<in> ck_doc_id ` set (d_chunks d1)"
    then have i: "i \<in> ck_doc_id ` set (d_chunks d)" "i \<notin> G"
      unfolding K by auto
    have "ck_doc_id ` set (d_chunks d) \<subseteq> dc_id ` set ?D"
      using ok by (simp add: docs_ok_def)
    then have "i \<in> dc_id ` set ?D"
      using i(1) by (rule subsetD)
    then obtain x where x: "x \<in> set ?D" "dc_id x = i"
      by (rule imageE) simp
    have p: "dc_rel_path x \<in> set paths"
      using own [OF x(1)] i(2) x(2) by simp
    show "i \<in> dc_id ` set (d_documents d1)"
      unfolding D x(2) [symmetric] using x(1) p by simp
  qed
  then show "docs_ok d1"
    using ok unfolding docs_ok_def uniq_ids_def by (simp add: D distinct_map_filter)
  show "same_rest d d1"
    by (simp add: d1)
  show "dc_rel_path ` set (d_documents d1) = set paths \<inter> dc_rel_path ` set ?D"
    unfolding D by auto
  assume q: "q \<in> set paths"
  have same: "filter (\<lambda>k. ck_doc_id k = j) (filter (\<lambda>k. ck_doc_id k \<notin> G) ks) = filter (\<lambda>k. ck_doc_id k = j) ks"
    if "j \<notin> G" for j G and ks :: "doc_chunk list"
    using that by (induction ks) auto
  have "filter (\<lambda>k. ck_doc_id k = dc_id x) (d_chunks d1) = filter (\<lambda>k. ck_doc_id k = dc_id x) (d_chunks d)"
    if "x \<in> set ?D" "dc_rel_path x = q" for x
    unfolding K using own that q by (intro same) blast
  moreover have "filter (\<lambda>x. dc_rel_path x = q) (d_documents d1) = filter (\<lambda>x. dc_rel_path x = q) ?D"
    unfolding D filter_filter using q by (intro filter_cong refl) blast
  ultimately show "doc_entry d1 q = doc_entry d q"
    by (simp add: doc_entry_def)
qed

lemma doc_files_sub: "set (doc_files E v) \<subseteq> set (store_files v)"
  by (auto simp: doc_files_def)

definition idle :: "index_stats \<Rightarrow> bool" where
  "idle st \<longleftrightarrow> \<not> ix_locked st \<and> \<not> ix_running st"

lemma reindex_idle:
  assumes "idle st"
  shows "reindex E force st d = (case run_body E force (run_started (d_now d) st) d of None \<Rightarrow> None
     | Some (st1, d1) \<Rightarrow> if ix_locked st1 then None else let st2 = st1\<lparr>ix_running := False, ix_finished := Some (d_now d)\<rparr> in
         Some ((st2\<lparr>ix_locked := True, ix_messages := drop (length (ix_messages st2) - 20) (ix_messages st2)\<rparr>, st2\<lparr>ix_locked := False\<rparr>, d1)))"
proof -
  have l: "run_started (d_now d) (st\<lparr>ix_locked := True\<rparr>)\<lparr>ix_locked := False\<rparr> = run_started (d_now d) st"
    using assms by (simp add: idle_def run_started_def)
  show ?thesis
    using assms by (auto simp: reindex_def with_lock_def get_index_status_def idle_def l Let_def split: option.splits)
qed

lemma run_body_forced:
  assumes "docs_ok d" and "index_ready E d" and "idle st"
  shows "\<exists>st1 d1. run_body E True (run_started (d_now d) st) d = Some (st1, d1) \<and> \<not> ix_locked st1 \<and> docs_ok d1 \<and> same_rest d d1 \<and>
    counts_ok st1 \<and> ix_processed st1 = ix_total st1 \<and> ix_total st1 = int (length (doc_files E (d_vault d))) \<and>
    dc_rel_path ` set (d_documents d1) = set (doc_files E (d_vault d)) \<and>
    (\<forall>q \<in> set (doc_files E (d_vault d)). file_indexed E d1 q)"
proof -
  let ?files = "doc_files E (d_vault d)"
  have sub: "set ?files \<subseteq> set (store_files (d_vault d))"
    by (rule doc_files_sub)
  let ?st = "scan_status E True (length ?files) (d_now d) (run_started (d_now d) st)"
  have st: "\<not> ix_locked ?st" "ix_total ?st = int (length ?files)" "ix_processed ?st = 0" "counts_ok ?st"
    using assms(3) by (auto simp: scan_status_def run_started_def idle_def counts_ok_def log_msg_def Let_def split: option.split)
  obtain st4 d1 where l: "index_loop E True ?files ?st d = Some (st4, d1)" "docs_ok d1" "same_rest d d1"
      "\<forall>q. q \<in> set ?files \<or> file_indexed E d q \<longrightarrow> file_indexed E d1 q"
      "dc_rel_path ` set (d_documents d1) = set ?files \<union> dc_rel_path ` set (d_documents d)"
    using index_loop_forced [OF assms(1,2) sub] by blast
  have c: "\<not> ix_locked st4" "counts_ok st4" "ix_processed st4 = ix_total st4" "ix_total st4 = int (length ?files)"
    using index_loop_stats [OF l(1)] st by simp_all
  obtain n d2 where r: "remove_deleted ?files d1 = (n, d2)"
    by (cases "remove_deleted ?files d1")
  note rd = remove_deleted_laws [OF l(2) r]
  have "dc_rel_path ` set (d_documents d2) = set ?files"
    using rd(3) l(5) by blast
  moreover have "file_indexed E d2 q" if "q \<in> set ?files" for q
    using l(4) that file_indexed_rest [OF rd(2) rd(4) [OF that]] by blast
  ultimately show ?thesis
    using l(1) r rd(1) same_rest_trans [OF l(3) rd(2)] c by (simp add: run_body_def prune_files_def Let_def)
qed


definition demo_docs :: docs_env where
  \<comment> \<open>no front matter is read, a short window, no embedder\<close>
  "demo_docs = \<lparr>de_yaml = \<lparr>ye_load = (\<lambda>_. None), ye_dump = (\<lambda>_. ''title: T'' @ [CHR 0x0A]), ye_stamp = (\<lambda>_. ''now'')\<rparr>,
     de_digest = (\<lambda>s. str_nat (length s)), de_pdf = (\<lambda>_. Inl ''no reader''), de_embed = None, de_short = [],
     de_embedder_name = ''none'', de_bind = (\<lambda>_. Inr []), de_os_text = (\<lambda>_. ''OSError''), de_orm_text = (\<lambda>m. m), de_hms = (\<lambda>_. ''now''),
     de_label = ''local'', de_fallback = None, de_width = 8, de_overlap = 3, de_includes = [''*.md'', ''*.pdf''], de_excludes = [''drafts/*'']\<rparr>"

definition demo_doc_vault :: vault where
  "demo_doc_vault = \<lparr>va_files = [(''ops/a.md'', \<lparr>vf_text = ''# Run'' @ [CHR 0x0A] @ ''one **two** three'', vf_mtime = 5\<rparr>),
     (''b.pdf'', \<lparr>vf_text = ''x'', vf_mtime = 6\<rparr>), (''drafts/c.md'', \<lparr>vf_text = ''y'', vf_mtime = 7\<rparr>)], va_dirs = [''ops'', ''drafts'']\<rparr>"

definition demo_stale :: document where
  "demo_stale = (blank_document 1 1 ''gone.md'' None)\<lparr>dc_status := ''indexed'', dc_chunk_count := 1\<rparr>"

definition demo_docs_db :: db where
  "demo_docs_db = demo_db\<lparr>d_vault := demo_doc_vault, d_tenants := [demo_tenant 1 ''default'', demo_tenant 2 ''acme''], d_documents := [demo_stale],
     d_chunks := [\<lparr>ck_id = 1, ck_doc_id = 1, ck_ord = 0, ck_text = ''old'', ck_start_char = 0, ck_end_char = 3, ck_embedding = None\<rparr>]\<rparr>"

definition demo_idle :: index_stats where
  "demo_idle = \<lparr>ix_locked = False, ix_running = False, ix_total = 0, ix_processed = 0, ix_indexed = 0, ix_skipped = 0, ix_errors = 0,
     ix_started = None, ix_finished = None, ix_last_error = None, ix_embedder = ''none'', ix_messages = []\<rparr>"

lemma demo_docs_ready: "docs_ok demo_docs_db" "index_ready demo_docs demo_docs_db" "idle demo_idle"
proof -
  show "docs_ok demo_docs_db"
    by (simp add: docs_ok_def demo_docs_db_def uniq_ids_def demo_stale_def blank_document_def)
  have n: "normalize_rel ''ops/a.md'' = Inr ''ops/a.md''" "normalize_rel ''b.pdf'' = Inr ''b.pdf''" "normalize_rel ''drafts/c.md'' = Inr ''drafts/c.md''"
    by code_simp+
  show "index_ready demo_docs demo_docs_db"
    using n by (simp add: index_ready_def demo_docs_db_def demo_docs_def index_tenant_def demo_tenant_def store_files_def demo_doc_vault_def
        demo_db_def empty_db_def)
  show "idle demo_idle"
    by (simp add: idle_def demo_idle_def)
qed


text \<open>Asked for while another run is under way, \<open>reindex\<close> takes the status lock a second time in
  \<open>get_index_status\<close> and never returns.\<close>

lemma second_run_hangs: "ix_running st \<Longrightarrow> reindex E force st d = None"
  by (simp add: reindex_def with_lock_def get_index_status_def)

section \<open>The tenant of the rows\<close>

definition all_default :: "docs_env \<Rightarrow> int \<Rightarrow> db \<Rightarrow> bool" where
  \<comment> \<open>every row belongs to the default tenant \<open>t\<close>\<close>
  "all_default E t d \<longleftrightarrow> index_tenant E d = Inr t \<and> (\<forall>x \<in> set (d_documents d). dc_tenant_id x = t)"

lemma row_tenant [simp]:
  "dc_tenant_id (put_stat g b m x) = dc_tenant_id x" "dc_tenant_id (error_row t e a f x) = dc_tenant_id x"
  "dc_tenant_id (indexed_row t h n a f x) = dc_tenant_id x" "dc_tenant_id (blank_document i t rel h) = t"
  by (simp_all add: put_stat_def error_row_def indexed_row_def blank_document_def)

lemma index_tenant_frame [simp]:
  "index_tenant E (d\<lparr>d_documents := xs\<rparr>) = index_tenant E d" "index_tenant E (d\<lparr>d_chunks := ks\<rparr>) = index_tenant E d"
  by (simp_all add: index_tenant_def)

lemma all_default_upd: "all_default E t d \<Longrightarrow> (\<And>x. dc_tenant_id (g x) = dc_tenant_id x) \<Longrightarrow> all_default E t (upd_doc i g d)"
  by (auto simp: all_default_def upd_doc_def upd_row_def)

lemma all_default_chunks [simp]: "all_default E t (d\<lparr>d_chunks := ks\<rparr>) = all_default E t d"
  by (simp add: all_default_def)

lemma all_default_place: "all_default E t d \<Longrightarrow> place_doc E rel h doc d = Inr (i, d1) \<Longrightarrow> all_default E t d1"
  by (auto simp: place_doc_def all_default_def bind_r_Inr_iff Let_def split: option.splits)

lemma index_content_default:
  assumes "all_default E t d" and "index_content E d rel f doc = Some (r, logs, d1)"
  shows "all_default E t d1"
proof -
  let ?fm = "fst (front_fields E (d_vault d) rel)"
  have p: "all_default E t (upd_doc j g d2)" if "place_doc E rel h doc d = Inr (i, d2)" "\<And>x. dc_tenant_id (g x) = dc_tenant_id x" for h i d2 j g
    using all_default_upd [OF all_default_place [OF assms(1) that(1)] that(2)] .
  show ?thesis
  proof (cases "folder_for E d rel (snd (front_fields E (d_vault d) rel))")
    case (Inr al)
    obtain app l where al: "al = (app, l)"
      by (cases al)
    show ?thesis
    proof (cases "parse_doc E (d_vault d) rel")
      case (Inl e)
      show ?thesis
      proof (cases "place_doc E rel None doc d")
        case (Inr id2)
        obtain i d2 where id2: "id2 = (i, d2)"
          by (cases id2)
        have "d1 = drop_chunks i (upd_doc i (error_row (d_now d) e app ?fm \<circ> put_stat (de_digest E (vf_text f)) (utf8_size (vf_text f)) (vf_mtime f)) d2)"
          using assms(2) Inl Inr id2 \<open>folder_for E d rel _ = _\<close> al by (simp add: index_content_def Let_def)
        then show ?thesis
          using p Inr id2 by (simp add: drop_chunks_def)
      qed (use assms Inl \<open>folder_for E d rel _ = _\<close> al in \<open>simp add: index_content_def Let_def\<close>)
    next
      case (Inr tt)
      obtain body title where tt: "tt = (body, title)"
        by (cases tt)
      obtain cs where cs: "chunk_text body (de_width E) (de_overlap E) = Some cs"
        using assms(2) \<open>folder_for E d rel _ = _\<close> al Inr tt by (auto simp: index_content_def Let_def split: option.splits)
      show ?thesis
      proof (cases "place_doc E rel (display_title title ?fm) doc d")
        case Inr2: (Inr id2)
        obtain i d2 where id2: "id2 = (i, d2)"
          by (cases id2)
        have "d1 = add_chunks i (zip cs (fst (embed_chunks E rel cs))) (drop_chunks i (upd_doc i (indexed_row (d_now d) (display_title title ?fm)
            (length cs) app ?fm \<circ> put_stat (de_digest E (vf_text f)) (utf8_size (vf_text f)) (vf_mtime f)) d2))"
          using assms(2) Inr Inr2 id2 \<open>folder_for E d rel _ = _\<close> al tt cs by (simp add: index_content_def Let_def)
        then show ?thesis
          using p Inr2 id2 by (simp add: drop_chunks_def add_chunks_def)
      qed (use assms Inr \<open>folder_for E d rel _ = _\<close> al tt cs in \<open>simp add: index_content_def Let_def\<close>)
    qed
  qed (use assms in \<open>simp add: index_content_def Let_def\<close>)
qed

lemma index_one_cases:
  assumes "index_one E force d rel = Some (r, logs, d1)"
  obtains "d1 = d" | i h b m where "d1 = upd_doc i (put_stat h b m) d" | f doc where "index_content E d rel f doc = Some (r, logs, d1)"
proof (cases "store_open (d_vault d) rel")
  case (Inr f)
  show ?thesis
  proof (cases "orm_one_or_none E (filter (\<lambda>x. dc_rel_path x = rel) (d_documents d))")
    case (Inl e)
    then show ?thesis
      using assms \<open>store_open _ _ = _\<close> that(1) by (simp add: index_one_def)
  next
    case Inr2: (Inr doc)
    show ?thesis
    proof (cases "\<not> force \<and> same_stat (utf8_size (vf_text f)) (vf_mtime f) doc")
      case True
      then show ?thesis
        using assms Inr Inr2 that(1) by (simp add: index_one_def Let_def)
    next
      case False
      show ?thesis
      proof (cases "\<not> force \<and> same_content (de_digest E (vf_text f)) doc")
        case True
        then obtain x where "doc = Some x"
          by (auto simp: same_content_def split: option.splits)
        then have "d1 = upd_doc (dc_id x) (put_stat (de_digest E (vf_text f)) (utf8_size (vf_text f)) (vf_mtime f)) d"
          using assms Inr Inr2 False True by (simp add: index_one_def Let_def)
        then show ?thesis
          by (rule that(2))
      next
        case no: False
        have "index_content E d rel f doc = Some (r, logs, d1)"
          using assms Inr Inr2 False no unfolding index_one_def Let_def by simp
        then show ?thesis
          by (rule that(3))
      qed
    qed
  qed
qed (use assms that(1) in \<open>simp add: index_one_def\<close>)

lemma index_one_default:
  assumes "all_default E t d" and "index_one E force d rel = Some (r, logs, d1)"
  shows "all_default E t d1"
  using assms(2)
proof (cases rule: index_one_cases)
  case (2 i h b m)
  then show ?thesis
    using all_default_upd [OF assms(1)] by simp
next
  case (3 f doc)
  then show ?thesis
    by (rule index_content_default [OF assms(1)])
qed (use assms(1) in simp)

lemma index_loop_default: "all_default E t d \<Longrightarrow> index_loop E force rels st d = Some (st1, d1) \<Longrightarrow> all_default E t d1"
  by (induction rels arbitrary: st d) (auto split: option.splits dest: index_one_default)

lemma reindex_default:
  assumes "all_default E t d" and "reindex E force st d = Some (r, st1, d1)"
  shows "all_default E t d1"
proof -
  have prune: "all_default E t (snd (prune_files E files p))" if "all_default E t (snd p)" for files p
    using that by (simp add: prune_files_def remove_deleted_def Let_def all_default_def split: prod.split)
  have body: "all_default E t d3" if r: "run_body E force st2 d = Some (st3, d3)" for st2 st3 d3
  proof -
    obtain p where p: "index_loop E force (doc_files E (d_vault d)) (scan_status E force (length (doc_files E (d_vault d))) (d_now d) st2) d = Some p"
        "(st3, d3) = prune_files E (doc_files E (d_vault d)) p"
      using r unfolding run_body_def Let_def map_option_eq_Some by (elim exE conjE) (rule that, assumption, simp only:)
    have "all_default E t (snd p)"
      using index_loop_default [OF assms(1), of force _ _ "fst p" "snd p"] p(1) by simp
    then show ?thesis
      using prune [of p] p(2) by (simp add: prod_eq_iff)
  qed
  have st: "idle st"
    using assms(2) by (auto simp: idle_def reindex_def with_lock_def get_index_status_def split: if_splits)
  obtain st3 d3 where b: "run_body E force (run_started (d_now d) st) d = Some (st3, d3)"
    using assms(2) unfolding reindex_idle [OF st] by (cases "run_body E force (run_started (d_now d) st) d") auto
  then have "d1 = d3"
    using assms(2) unfolding reindex_idle [OF st] b by (simp add: Let_def split: if_splits)
  then show ?thesis
    using body [OF b] by simp
qed
end
