(* ===== verification/Dosm_Docs.thy ===== *)
theory Dosm_Docs
  imports Dosm_Actions Dosm_Indexer
begin

text \<open>
  The document routes (\<open>dosm/docs_index/routes.py\<close>), the folder records
  (\<open>dosm/docs_index/applications.py\<close>) and the document tools of the agent (\<open>dosm/agent/actions.py\<close>).
  The vault is one tree for all tenants; a route that ends in an error has not changed it, but what it
  has written stays when the transaction is rolled back. The background run of the indexer after a save
  is a run of \<open>reindex\<close> on the state the route leaves. Rendering, uploads and conversions are left out.
\<close>

section \<open>Guards and reads\<close>

definition list_folders :: "db \<Rightarrow> int option \<Rightarrow> folder list" where
  "list_folders d tid = sort_key fd_name (where_opt (tenant_clause fd_tenant_id tid) (d_folders d))"

definition require_doc_access :: "db \<Rightarrow> string \<Rightarrow> int option \<Rightarrow> response + unit" where
  "require_doc_access d path tid = (case tid of None \<Rightarrow> Inr ()
     | Some t \<Rightarrow> (case filter (\<lambda>x. dc_rel_path x = path) (d_documents d) of [] \<Rightarrow> Inr ()
         | x # _ \<Rightarrow> if dc_tenant_id x \<noteq> t then Inl (HttpError 404 ''Not Found'') else Inr ()))"

definition get_folder_by_slug :: "db \<Rightarrow> string \<Rightarrow> int option \<Rightarrow> folder option" where
  "get_folder_by_slug d slug tid =
     (case where_opt (tenant_clause fd_tenant_id tid) (filter (\<lambda>f. fd_slug f = slug) (d_folders d)) of [] \<Rightarrow> None | f # _ \<Rightarrow> Some f)"

definition doc_count :: "db \<Rightarrow> int \<Rightarrow> int" where
  "doc_count d i = int (length (filter (\<lambda>x. dc_folder_id x = Some i) (d_documents d)))"

definition docs_home :: "session \<Rightarrow> db \<Rightarrow> response + (folder list \<times> (int \<times> int) list \<times> document list)" where
  "docs_home s d = bind_r (require_user ''/docs'' s d) (\<lambda>u. let tid = active_tenant_id s u; folders = list_folders d tid in
     Inr (folders, map (\<lambda>f. (fd_id f, doc_count d (fd_id f))) folders,
       sort_key dc_rel_path (where_opt (tenant_clause dc_tenant_id tid)
         (filter (\<lambda>x. dc_folder_id x = None \<and> \<not> starts_with (dc_rel_path x) ''org/'') (d_documents d)))))"

datatype view_page =
    Plain_Text string
  | Rendered_Page string string string "document option"

definition valid_path :: "string \<Rightarrow> response + string" where
  "valid_path path = (case safe_rel path of Inl _ \<Rightarrow> Inl (HttpError 400 ''invalid path'') | Inr rel \<Rightarrow> Inr rel)"

definition is_there :: "db \<Rightarrow> string \<Rightarrow> response + unit" where
  "is_there d rel = (if store_is_file (d_vault d) rel then Inr () else Inl (HttpError 404 ''Not Found''))"

definition docs_view :: "docs_env \<Rightarrow> string \<Rightarrow> bool \<Rightarrow> session \<Rightarrow> db \<Rightarrow> response + view_page" where
  \<comment> \<open>a rendered page carries the path, the title, the body before rendering and the row\<close>
  "docs_view E path raw s d = bind_r (require_user ''/docs/view'' s d) (\<lambda>u. let tid = active_tenant_id s u in
     bind_r (valid_path path) (\<lambda>rel. bind_r (require_doc_access d path tid) (\<lambda>_. bind_r (is_there d rel) (\<lambda>_.
     case store_read_text (d_vault d) rel of Inl e \<Rightarrow> Inl (HttpError 500 (''read failed: '' @ store_text E e))
     | Inr text \<Rightarrow>
       if raw \<or> \<not> is_markdown rel then Inr (Plain_Text text)
       else let doc = (case where_opt (tenant_clause dc_tenant_id tid) (filter (\<lambda>x. dc_rel_path x = path) (d_documents d)) of
                [] \<Rightarrow> None | x # _ \<Rightarrow> Some x);
              title = (case doc of None \<Rightarrow> [] | Some x \<Rightarrow> or_default (dc_title x) [])
         in Inr (Rendered_Page path (if title = [] then path_stem rel else title) (snd (parse_frontmatter (de_yaml E) text)) doc)))))"

definition store_crash :: "store_error \<Rightarrow> response" where
  "store_crash e = Crash (case e of Bad_Path _ \<Rightarrow> ''ValueError'' | No_Such_File \<Rightarrow> ''FileNotFoundError'' | Os_Error t \<Rightarrow> t)"

definition or_crash :: "store_error + 'a \<Rightarrow> response + 'a" where
  "or_crash m = (case m of Inl e \<Rightarrow> Inl (store_crash e) | Inr x \<Rightarrow> Inr x)"

record edit_page =
  ep_path :: string
  ep_title :: json
  ep_slug :: json
  ep_body :: string
  ep_mtime :: string

definition docs_edit :: "docs_env \<Rightarrow> string \<Rightarrow> session \<Rightarrow> db \<Rightarrow> response + edit_page" where
  "docs_edit E path s d = bind_r (require_user ''/docs/edit'' s d) (\<lambda>u. let tid = active_tenant_id s u in
     bind_r (valid_path path) (\<lambda>rel. bind_r (require_doc_access d path tid) (\<lambda>_. bind_r (is_there d rel) (\<lambda>_.
     bind_r (or_crash (store_read_text (d_vault d) rel)) (\<lambda>text. bind_r (or_crash (store_mtime (d_vault d) rel)) (\<lambda>mtime.
     let (fm, body) = parse_frontmatter (de_yaml E) text in
     Inr \<lparr>ep_path = path,
       ep_title = (case dict_get fm ''title'' of Some v \<Rightarrow> if json_truthy v then v else JStr (path_stem rel) | None \<Rightarrow> JStr (path_stem rel)),
       ep_slug = (case dict_get fm ''folder'' of Some v \<Rightarrow> v | None \<Rightarrow> JStr UNFILED_SLUG),
       ep_body = body, ep_mtime = str_int mtime\<rparr>))))))"

section \<open>Saving and deleting\<close>

definition conflict_text :: string where
  "conflict_text = ''This file was modified externally. Reload to see the latest version, or save anyway to overwrite.''"

definition update_existing :: "docs_env \<Rightarrow> string \<Rightarrow> string \<Rightarrow> string \<Rightarrow> string \<Rightarrow> int \<Rightarrow> user \<Rightarrow> db \<Rightarrow> response + (string \<times> vault)" where
  \<comment> \<open>the branch for a path; the folder is the name of the parent directory only\<close>
  "update_existing E path title body original_mtime t u d =
     bind_r (valid_path path) (\<lambda>rel. bind_r (require_doc_access d path (Some t)) (\<lambda>_. bind_r (is_there d rel) (\<lambda>_.
     bind_r (or_crash (store_mtime (d_vault d) rel)) (\<lambda>mtime.
     if original_mtime \<noteq> [] \<and> str_int mtime \<noteq> original_mtime then Inl (Page 409 (Some conflict_text))
     else let above = path_name (path_parent rel); dir = (if above = [] then UNFILED_SLUG else above)
       in or_crash (save_doc (de_yaml E) (d_now d) (d_vault d) dir (path_stem rel) title body (JStr (u_username u)))))))"

definition create_new :: "docs_env \<Rightarrow> string \<Rightarrow> string \<Rightarrow> string \<Rightarrow> user \<Rightarrow> db \<Rightarrow> response + (string \<times> vault)" where
  "create_new E dir title body u d = or_crash (bind_r (find_unique_slug (d_vault d) dir (slugify title)) (\<lambda>slug.
     save_doc (de_yaml E) (d_now d) (d_vault d) dir slug title body (JStr (u_username u))))"

definition docs_save :: "docs_env \<Rightarrow> string \<Rightarrow> string \<Rightarrow> string \<Rightarrow> string \<Rightarrow> string \<Rightarrow> session \<Rightarrow> db \<Rightarrow> response \<times> db" where
  "docs_save E path title0 slug0 body original_mtime s d =
     on_ok (require_user ''/docs/save'' s d) d (\<lambda>u. on_ok (require_active_tenant s u) d (\<lambda>t.
     let title = (if py_strip title0 = [] then ''Untitled'' else py_strip title0);
       dir = (if py_strip slug0 = [] then UNFILED_SLUG else py_strip slug0) in
     on_ok (if path \<noteq> [] then update_existing E path title body original_mtime t u d else create_new E dir title body u d) d
       (\<lambda>(rel, v). (Redirect (''/docs/view?path='' @ rel),
          add_audit (Some t) (Some (u_id u)) (if path \<noteq> [] then ''docs.update'' else ''docs.create'') (Some (''doc:'' @ rel))
            (Some (''title='' @ py_repr title)) None (d\<lparr>d_vault := v\<rparr>)))))"

definition docs_delete :: "string \<Rightarrow> session \<Rightarrow> db \<Rightarrow> response \<times> db" where
  "docs_delete path s d = on_ok (require_user ''/docs/delete'' s d) d (\<lambda>u. let tid = active_tenant_id s u in
     on_ok (require_doc_access d path tid) d (\<lambda>_.
     on_ok (case delete_doc (d_vault d) path of Inl (Bad_Path _) \<Rightarrow> Inl (HttpError 400 ''invalid path'')
         | Inl No_Such_File \<Rightarrow> Inl (HttpError 404 ''Not Found'') | Inl e \<Rightarrow> Inl (store_crash e) | Inr v \<Rightarrow> Inr v) d
       (\<lambda>v. (Redirect ''/docs'', add_audit tid (Some (u_id u)) ''docs.delete'' (Some (''doc:'' @ path)) None None (d\<lparr>d_vault := v\<rparr>)))))"

definition docs_reindex :: "bool \<Rightarrow> session \<Rightarrow> db \<Rightarrow> response \<times> db" where
  \<comment> \<open>the run itself starts in the background\<close>
  "docs_reindex force s d = on_ok (require_user ''/docs/reindex'' s d) d (\<lambda>u. (Redirect ''/docs'',
     add_audit (active_tenant_id s u) (Some (u_id u)) ''docs.reindex'' (Some ''docs_index'')
       (Some (''force='' @ (if force then ''True'' else ''False''))) None d))"

section \<open>Folders\<close>

definition folders_create :: "docs_env \<Rightarrow> string \<Rightarrow> string \<Rightarrow> string \<Rightarrow> session \<Rightarrow> db \<Rightarrow> response \<times> db" where
  "folders_create E name0 slug0 description s d = on_ok (require_user ''/docs/folders'' s d) d (\<lambda>u. on_ok (require_active_tenant s u) d (\<lambda>t.
     let name = py_strip name0; slug = (if py_strip slug0 = [] then slugify name else py_strip slug0) in
     if \<exists>f \<in> set (d_folders d). fd_tenant_id f = t \<and> (fd_name f = name \<or> fd_slug f = slug)
     then (Page 400 (Some (''Could not create folder: '' @ de_orm_text E ''IntegrityError'')), d)
     else (Redirect (''/docs/folders/'' @ slug),
       add_audit (Some t) (Some (u_id u)) ''folder.create'' (Some (''folder:'' @ slug)) None None
         (d\<lparr>d_folders := d_folders d @ [\<lparr>fd_id = next_id fd_id (d_folders d), fd_name = name, fd_tenant_id = t, fd_slug = slug,
            fd_description = or_none description, fd_created_at = d_now d\<rparr>]\<rparr>))))"

definition folder_detail :: "string \<Rightarrow> session \<Rightarrow> db \<Rightarrow> response + (folder \<times> document list)" where
  "folder_detail slug s d = bind_r (require_user (''/docs/folders/'' @ slug) s d) (\<lambda>u. let tid = active_tenant_id s u in
     case get_folder_by_slug d slug tid of None \<Rightarrow> Inl (HttpError 404 ''Not Found'')
     | Some f \<Rightarrow> Inr (f, sort_key dc_rel_path (where_opt (tenant_clause dc_tenant_id tid)
         (filter (\<lambda>x. dc_folder_id x = Some (fd_id f)) (d_documents d)))))"

definition folder_delete :: "string \<Rightarrow> session \<Rightarrow> db \<Rightarrow> response \<times> db" where
  "folder_delete slug s d = on_ok (require_user (''/docs/folders/'' @ slug @ ''/delete'') s d) d (\<lambda>u.
     case get_folder_by_slug d slug (active_tenant_id s u) of None \<Rightarrow> (HttpError 404 ''Not Found'', d)
     | Some f \<Rightarrow> (Redirect ''/docs/folders'', add_audit (Some (fd_tenant_id f)) (Some (u_id u)) ''folder.delete''
         (Some (''folder:'' @ slug)) None None (fk_delete_folder (fd_id f) d)))"

section \<open>The tools of the agent\<close>

definition store_exn :: "docs_env \<Rightarrow> store_error \<Rightarrow> py_exception" where
  "store_exn E e = py_exn (case e of Bad_Path _ \<Rightarrow> ''ValueError'' | No_Such_File \<Rightarrow> ''FileNotFoundError'' | Os_Error t \<Rightarrow> t) (store_text E e)"

definition raw_text :: "dict \<Rightarrow> string \<Rightarrow> py_exception + string" where
  \<comment> \<open>\<open>args.get(k) or ""\<close>, on which text methods are called\<close>
  "raw_text a k = (case dict_get a k of None \<Rightarrow> Inr []
     | Some v \<Rightarrow> if json_truthy v then (case v of JStr s \<Rightarrow> Inr s | _ \<Rightarrow> Inl (no_attribute v ''strip'')) else Inr [])"

definition drop_md :: "string \<Rightarrow> string" where
  \<comment> \<open>\<open>s.removesuffix(".md")\<close>\<close>
  "drop_md s = (if ends_with s ''.md'' then take (length s - 3) s else s)"

definition doc_target :: "string \<Rightarrow> string \<times> string" where
  \<comment> \<open>directory and slug of the path of an existing document\<close>
  "doc_target path = (let parts = strip_char CHR ''/'' (replace_char CHR 0x5C CHR ''/'' path) in
     if CHR ''/'' \<in> set parts then (path_parent parts, drop_md (path_name parts)) else (UNFILED_SLUG, drop_md parts))"

definition write_target :: "docs_env \<Rightarrow> string \<Rightarrow> string \<Rightarrow> string \<Rightarrow> string \<Rightarrow> json \<Rightarrow> db \<Rightarrow> store_error + (string \<times> vault)" where
  "write_target E path dir title body author d =
     (if path \<noteq> [] then save_doc (de_yaml E) (d_now d) (d_vault d) (fst (doc_target path)) (snd (doc_target path)) title body author
      else bind_r (find_unique_slug (d_vault d) dir (slugify title)) (\<lambda>slug.
        save_doc (de_yaml E) (d_now d) (d_vault d) dir slug title body author))"

definition upsert_doc_runner :: "action_env \<Rightarrow> docs_env \<Rightarrow> dict \<Rightarrow> db \<Rightarrow> run_result" where
  "upsert_doc_runner X E a d = settle d (
     bind_r (arg_text a ''path'' []) (\<lambda>path. bind_r (arg_text a ''title'' []) (\<lambda>title.
     bind_r (arg_text a ''folder_slug'' UNFILED_SLUG) (\<lambda>dir.
     if title = [] then refuse d ''title is required'' else
     bind_r (raw_text a ''body_md'') (\<lambda>body.
     if py_strip body = [] then refuse d ''body_md is required''
     else let author = (case dict_get a ''_author'' of Some v \<Rightarrow> if json_truthy v then v else JStr ''agent'' | None \<Rightarrow> JStr ''agent'') in
       (case write_target E path dir title body author d of
          Inl e \<Rightarrow> fail_exn d ''Save failed'' (store_exn E e)
        | Inr (rel, v) \<Rightarrow> Inr (\<lparr>ar_ok = True, ar_summary = ''Doc '' @ (if path \<noteq> [] then ''updated'' else ''created'') @ '': '' @ rel @ '' in ''
              @ str_int (ax_ms X) @ ''ms'', ar_stdout = rel, ar_stderr = [], ar_exit_code = None, ar_duration_ms = Some (ax_ms X),
              ar_extra = [(''rel_path'', JStr rel)]\<rparr>, d\<lparr>d_vault := v\<rparr>)))))))"

definition delete_doc_runner :: "docs_env \<Rightarrow> dict \<Rightarrow> db \<Rightarrow> run_result" where
  "delete_doc_runner E a d = settle d (bind_r (arg_text a ''path'' []) (\<lambda>path.
     if path = [] then refuse d ''path is required''
     else (case delete_doc (d_vault d) path of
        Inl (Bad_Path m) \<Rightarrow> fail_with d (''Invalid path: '' @ m) m
      | Inl No_Such_File \<Rightarrow> refuse d (''Doc not found: '' @ py_repr path)
      | Inl e \<Rightarrow> fail_with d (''Delete failed: '' @ store_text E e) (store_text E e)
      | Inr v \<Rightarrow> Inr ((plain_result True (''Deleted: '' @ path))\<lparr>ar_stdout := path\<rparr>, d\<lparr>d_vault := v\<rparr>))))"

section \<open>New documents\<close>

lemma unfiled_clean: "clean_path UNFILED_SLUG" "CHR 0x5C \<notin> set UNFILED_SLUG" "py_strip UNFILED_SLUG = UNFILED_SLUG"
  by code_simp+

lemma or_crash_Inr [simp]: "or_crash m = Inr x \<longleftrightarrow> m = Inr x"
  by (simp add: or_crash_def split: sum.split)

lemma create_new_laws:
  assumes ok: "vault_ok (d_vault d)" and dir: "clean_path dir" "CHR 0x5C \<notin> set dir" "py_strip dir = dir"
    and c: "create_new E dir title body u d = Inr (rel, v)"
  shows "text_at (d_vault d) rel = None \<and> (\<forall>q. text_at v q = (if q = rel
    then Some (serialize_doc (de_yaml E) title dir body (JStr (u_username u)) (d_now d)) else text_at (d_vault d) q))"
proof -
  obtain slug where s: "find_unique_slug (d_vault d) dir (slugify title) = Inr slug"
      "save_doc (de_yaml E) (d_now d) (d_vault d) dir slug title body (JStr (u_username u)) = Inr (rel, v)"
    using c by (auto simp: create_new_def bind_r_Inr_iff)
  show ?thesis
    using new_doc_fresh [OF ok dir slugify_safe s] unfolding text_at_def by (metis option.simps(8))
qed


section \<open>The guard looks at the path as written\<close>

lemma normalize_dot:
  assumes "clean_path p" and "CHR 0x5C \<notin> set p" and "py_strip p = p"
  shows "normalize_rel (''./'' @ p) = Inr p"
proof -
  have pn: "p \<noteq> []"
    using clean_path_not_Nil [OF assms(1)] .
  have "replace_char CHR 0x5C CHR ''/'' (''./'' @ p) = ''./'' @ p"
    using assms(2) by (auto simp: replace_char_def intro!: map_idI)
  moreover have "py_strip (''./'' @ p) = ''./'' @ p"
    using py_strip_ends(2) [of p] assms(3) pn by (intro py_strip_fixed) (simp add: py_isspace_def code_point_def)
  moreover have "posix_parts (''./'' @ p) = split_on CHR ''/'' p"
    using posix_parts_app [of "''.''" p] clean_path_parts [OF assms(1)] by (simp add: posix_parts_def)
  moreover have "''..'' \<notin> set (split_on CHR ''/'' p)"
    using assms(1) unfolding clean_path_def by blast
  ultimately show ?thesis
    unfolding normalize_rel_def Let_def by (simp add: starts_with_def join_split_on split_on_not_Nil)
qed

text \<open>C17: The tenant guard of the document routes compares the path as it is written in the request, while
  the file is opened under the normalized path: a document of another tenant answers 404 under its
  path, but with \<open>./\<close> in front any user of the tenant reads it, and can delete it.\<close>

theorem doc_guard_bypassed:
  assumes "get_current_user s d = Some u" and "active_tenant_id s u = Some t"
    and "clean_path p" and "CHR 0x5C \<notin> set p" and "py_strip p = p" and "file_at (d_vault d) p = Some f"
    and "filter (\<lambda>x. dc_rel_path x = p) (d_documents d) = [x]" and "dc_tenant_id x \<noteq> t"
    and "filter (\<lambda>x. dc_rel_path x = ''./'' @ p) (d_documents d) = []"
  shows "docs_view E p raw s d = Inl (HttpError 404 ''Not Found'') \<and> docs_delete p s d = (HttpError 404 ''Not Found'', d) \<and>
    docs_view E (''./'' @ p) True s d = Inr (Plain_Text (vf_text f)) \<and>
    file_at (d_vault (snd (docs_delete (''./'' @ p) s d))) p = None"
proof -
  have n: "safe_rel (''./'' @ p) = Inr p" "safe_rel p = Inr p"
    using normalize_dot [OF assms(3-5)] normalize_clean [OF assms(3-5)] by (simp_all add: safe_rel_def)
  have g: "require_doc_access d p (Some t) = Inl (HttpError 404 ''Not Found'')" "require_doc_access d (''./'' @ p) (Some t) = Inr ()"
    using assms(7-9) by (simp_all add: require_doc_access_def)
  have u: "require_user path s d = Inr u" for path
    using assms(1) by (simp add: require_user_def)
  have o: "open_path (d_vault d) p = Inr f"
    using assms(6) by simp
  have f: "is_there d p = Inr ()" "store_read_text (d_vault d) p = Inr (vf_text f)"
    using n(2) assms(6) by (simp_all add: is_there_def store_is_file_def store_read_text_def store_open_def o)
  have "delete_doc (d_vault d) (''./'' @ p) = Inr (drop_file p (d_vault d))"
    using n assms(6) by (simp add: delete_doc_def store_delete_def open_path_def)
  then have del: "d_vault (snd (docs_delete (''./'' @ p) s d)) = drop_file p (d_vault d)"
    unfolding docs_delete_def u assms(2) Let_def on_ok_simps g by simp
  show ?thesis
    unfolding del using n g u f assms(2) by (simp add: docs_view_def docs_delete_def valid_path_def file_at_drop)
qed

lemma docs_save_redirect:
  assumes "docs_save E path title slug body m s d = (Redirect (''/docs/view?path='' @ rel), d1)" and "get_current_user s d = Some u"
  shows "\<exists>t v a. active_tenant_id s u = Some t \<and> d1 = add_audit (Some t) (Some (u_id u)) (fst a) (fst (snd a)) (snd (snd a)) None (d\<lparr>d_vault := v\<rparr>)"
proof -
  have u: "require_user ''/docs/save'' s d = Inr u"
    using assms(2) by (simp add: require_user_def)
  obtain t where t: "active_tenant_id s u = Some t"
    using assms(1) unfolding docs_save_def u
    by (cases "active_tenant_id s u") (simp_all add: require_active_tenant_def)
  let ?title = "if py_strip title = [] then ''Untitled'' else py_strip title" and ?dir = "if py_strip slug = [] then UNFILED_SLUG else py_strip slug"
  let ?w = "if path \<noteq> [] then update_existing E path ?title body m t u d else create_new E ?dir ?title body u d"
  have rt: "require_active_tenant s u = Inr t"
    using t by (simp add: require_active_tenant_def)
  have w: "on_ok ?w d (\<lambda>(rel, v). (Redirect (''/docs/view?path='' @ rel),
          add_audit (Some t) (Some (u_id u)) (if path \<noteq> [] then ''docs.update'' else ''docs.create'') (Some (''doc:'' @ rel))
            (Some (''title='' @ py_repr ?title)) None (d\<lparr>d_vault := v\<rparr>))) = (Redirect (''/docs/view?path='' @ rel), d1)"
    using assms(1) unfolding docs_save_def u rt Let_def on_ok_simps .
  have "\<exists>a v. d1 = add_audit (Some t) (Some (u_id u)) (fst a) (fst (snd a)) (snd (snd a)) None (d\<lparr>d_vault := v\<rparr>)"
  proof (cases ?w)
    case (Inl e)
    then have "d1 = d" "e = Redirect (''/docs/view?path='' @ rel)"
      using w by auto
    moreover have "create_new E ?dir ?title body u d \<noteq> Inl (Redirect x)" "update_existing E path ?title body m t u d \<noteq> Inl (Redirect x)" for x
      by (auto simp: create_new_def update_existing_def or_crash_def store_crash_def valid_path_def require_doc_access_def is_there_def
          bind_r_def Let_def split: sum.splits list.splits if_splits)
    ultimately have False
      using Inl by (cases "path = []") simp_all
    then show ?thesis ..
  next
    case (Inr rv)
    obtain r2 v where "rv = (r2, v)"
      by (cases rv)
    then show ?thesis
      using w Inr by (intro exI [of _ "(if path \<noteq> [] then ''docs.update'' else ''docs.create'', Some (''doc:'' @ r2), Some (''title='' @ py_repr ?title))"]
          exI [of _ v]) (simp only: on_ok_simps prod.case fst_conv snd_conv prod.inject)
  qed
  then show ?thesis
    using t by blast
qed

text \<open>A document saved by a user of a tenant other than the default one is lost to that tenant: the
  indexer files every row under the default tenant, so that after the next forced run the author gets 404
  under the very path the save redirected to.\<close>

theorem saved_doc_lost_to_its_tenant:
  assumes "get_current_user s d = Some u" and "active_tenant_id s u = Some t" and "t \<noteq> t0"
    and "docs_save E [] title slug body m s d = (Redirect (''/docs/view?path='' @ rel), d1)"
    and "all_default E t0 d" and "docs_ok d" and "index_ready E d1" and "idle st" and "rel \<in> set (doc_files E (d_vault d1))"
  shows "\<exists>r st2 d2. reindex E True st d1 = Some (r, st2, d2) \<and> get_current_user s d2 = Some u \<and>
    docs_view E rel raw s d2 = Inl (HttpError 404 ''Not Found'')"
proof -
  obtain a v where d1: "d1 = add_audit (Some t) (Some (u_id u)) (fst a) (fst (snd a)) (snd (snd a)) None (d\<lparr>d_vault := v\<rparr>)"
    using docs_save_redirect [OF assms(4,1)] assms(2) by auto
  have ok: "docs_ok d1" "all_default E t0 d1" "get_current_user s d1 = Some u"
    using assms(1,5,6) get_current_user_cong [of d1 d s] by (simp_all add: d1 docs_ok_def all_default_def index_tenant_def)
  obtain st2 d2 where b: "run_body E True (run_started (d_now d1) st) d1 = Some (st2, d2)" "\<not> ix_locked st2" "same_rest d1 d2"
      "dc_rel_path ` set (d_documents d2) = set (doc_files E (d_vault d1))"
    using run_body_forced [OF ok(1) assms(7,8)] by blast
  then obtain r st3 where re: "reindex E True st d1 = Some (r, st3, d2)"
    unfolding reindex_idle [OF assms(8)] by (simp add: Let_def)
  have u: "get_current_user s d2 = Some u"
    using get_current_user_cong [OF same_rest_fields(5,3) [OF b(3)]] ok(3) by simp
  have t0: "\<forall>x \<in> set (d_documents d2). dc_tenant_id x = t0"
    using reindex_default [OF ok(2) re] by (simp add: all_default_def)
  have in2: "rel \<in> dc_rel_path ` set (d_documents d2)"
    using b(4) assms(9) by simp
  obtain y where y: "y \<in> set (d_documents d2)" "dc_rel_path y = rel"
    using in2 by (rule imageE) simp
  obtain x xs where x: "filter (\<lambda>x. dc_rel_path x = rel) (d_documents d2) = x # xs"
  proof (cases "filter (\<lambda>x. dc_rel_path x = rel) (d_documents d2)")
    case Nil
    then have "dc_rel_path y \<noteq> rel"
      using y(1) unfolding filter_empty_conv by blast
    then show ?thesis
      using y(2) by simp
  qed (rule that)
  then have "x \<in> set (filter (\<lambda>x. dc_rel_path x = rel) (d_documents d2))"
    by (simp only: list.set_intros)
  then have "dc_tenant_id x \<noteq> t"
    using t0 assms(3) by simp
  then have g: "require_doc_access d2 rel (Some t) = Inl (HttpError 404 ''Not Found'')"
    using x by (simp add: require_doc_access_def)
  have "normalize_rel rel = Inr rel"
    using assms(7) subsetD [OF doc_files_sub assms(9)] by (simp add: index_ready_def)
  then have "docs_view E rel raw s d2 = Inl (HttpError 404 ''Not Found'')"
    using u g assms(2) by (simp add: docs_view_def require_user_def valid_path_def safe_rel_def)
  then show ?thesis
    using re u by blast
qed

section \<open>Witnesses\<close>

definition demo_author_db :: db where
  \<comment> \<open>an operator of the second tenant, some files, nothing indexed\<close>
  "demo_author_db = demo_docs_db\<lparr>d_users := [demo_user 4 ''operator'' (Some 2)], d_documents := [], d_chunks := []\<rparr>"

lemma demo_author: "get_current_user (demo_session 4) demo_author_db = Some (demo_user 4 ''operator'' (Some 2))"
    "active_tenant_id (demo_session 4) (demo_user 4 ''operator'' (Some 2)) = Some 2"
  by code_simp+

lemma demo_author_ok: "vault_ok (d_vault demo_author_db)" "docs_ok demo_author_db" "all_default demo_docs 1 demo_author_db"
proof -
  show "vault_ok (d_vault demo_author_db)"
    unfolding vault_ok_def clean_path_def by code_simp
  show "docs_ok demo_author_db"
    by (simp add: docs_ok_def demo_author_db_def uniq_ids_def)
  show "all_default demo_docs 1 demo_author_db"
    by (simp add: all_default_def demo_author_db_def demo_docs_db_def index_tenant_def demo_tenant_def)
qed

lemma demo_saved:
  shows "docs_save demo_docs [] ''My run'' ''ops'' ''text'' [] (demo_session 4) demo_author_db =
      (Redirect (''/docs/view?path='' @ ''ops/my-run.md''), snd (docs_save demo_docs [] ''My run'' ''ops'' ''text'' [] (demo_session 4) demo_author_db))"
    and "map fst (va_files (d_vault (snd (docs_save demo_docs [] ''My run'' ''ops'' ''text'' [] (demo_session 4) demo_author_db)))) =
      [''ops/a.md'', ''b.pdf'', ''drafts/c.md'', ''ops/my-run.md'']"
    and "d_folders (snd (docs_save demo_docs [] ''My run'' ''ops'' ''text'' [] (demo_session 4) demo_author_db)) = []"
    and "index_tenant demo_docs (snd (docs_save demo_docs [] ''My run'' ''ops'' ''text'' [] (demo_session 4) demo_author_db)) = Inr 1"
    and "doc_files demo_docs (d_vault (snd (docs_save demo_docs [] ''My run'' ''ops'' ''text'' [] (demo_session 4) demo_author_db))) =
      [''b.pdf'', ''ops/a.md'', ''ops/my-run.md'']"
proof -
  have "fst (docs_save demo_docs [] ''My run'' ''ops'' ''text'' [] (demo_session 4) demo_author_db) = Redirect (''/docs/view?path='' @ ''ops/my-run.md'')"
    by code_simp
  then show "docs_save demo_docs [] ''My run'' ''ops'' ''text'' [] (demo_session 4) demo_author_db =
      (Redirect (''/docs/view?path='' @ ''ops/my-run.md''), snd (docs_save demo_docs [] ''My run'' ''ops'' ''text'' [] (demo_session 4) demo_author_db))"
    by (metis prod.collapse)
qed code_simp+


theorem saved_doc_lost_to_its_tenant_witness:
  "\<exists>r st2 d2. reindex demo_docs True demo_idle (snd (docs_save demo_docs [] ''My run'' ''ops'' ''text'' [] (demo_session 4) demo_author_db)) =
      Some (r, st2, d2) \<and> docs_view demo_docs ''ops/my-run.md'' False (demo_session 4) d2 = Inl (HttpError 404 ''Not Found'')"
proof -
  let ?d = "snd (docs_save demo_docs [] ''My run'' ''ops'' ''text'' [] (demo_session 4) demo_author_db)"
  have n: "normalize_rel ''ops/a.md'' = Inr ''ops/a.md''" "normalize_rel ''b.pdf'' = Inr ''b.pdf''" "normalize_rel ''drafts/c.md'' = Inr ''drafts/c.md''"
      "normalize_rel ''ops/my-run.md'' = Inr ''ops/my-run.md''"
    by code_simp+
  have "store_files (d_vault ?d) = [''ops/a.md'', ''b.pdf'', ''drafts/c.md'', ''ops/my-run.md'']"
    unfolding store_files_def by (rule demo_saved(2))
  moreover have "1 \<le> de_width demo_docs" "0 \<le> de_overlap demo_docs" "de_bind demo_docs x = Inr []" for x
    by (simp_all add: demo_docs_def)
  ultimately have "index_ready demo_docs ?d"
    unfolding index_ready_def using n demo_saved(3,4) by simp
  moreover have "''ops/my-run.md'' \<in> set (doc_files demo_docs (d_vault ?d))"
    unfolding demo_saved(5) by simp
  moreover have "(2::int) \<noteq> 1"
    by simp
  ultimately show ?thesis
    using saved_doc_lost_to_its_tenant [OF demo_author _ demo_saved(1) demo_author_ok(3,2) _ demo_docs_ready(3), of False] by blast
qed

definition demo_foreign_db :: db where
  \<comment> \<open>the same with a document of the first tenant\<close>
  "demo_foreign_db = demo_author_db\<lparr>d_documents := [blank_document 1 1 ''ops/a.md'' None]\<rparr>"

theorem doc_guard_bypassed_witness:
  "docs_view demo_docs ''ops/a.md'' True (demo_session 4) demo_foreign_db = Inl (HttpError 404 ''Not Found'') \<and>
   docs_view demo_docs ''./ops/a.md'' True (demo_session 4) demo_foreign_db =
     Inr (Plain_Text (''# Run'' @ [CHR 0x0A] @ ''one **two** three''))"
proof -
  let ?f = "\<lparr>vf_text = ''# Run'' @ [CHR 0x0A] @ ''one **two** three'', vf_mtime = 5\<rparr>"
  have u: "get_current_user (demo_session 4) demo_foreign_db = Some (demo_user 4 ''operator'' (Some 2))"
    by code_simp
  have c: "clean_path ''ops/a.md''"
    unfolding clean_path_def by code_simp
  have p: "CHR 0x5C \<notin> set ''ops/a.md''" "py_strip ''ops/a.md'' = ''ops/a.md''"
    by code_simp+
  have f: "file_at (d_vault demo_foreign_db) ''ops/a.md'' = Some ?f"
    by (simp add: demo_foreign_db_def demo_author_db_def demo_docs_db_def demo_doc_vault_def file_at_def)
  have x: "filter (\<lambda>x. dc_rel_path x = ''ops/a.md'') (d_documents demo_foreign_db) = [blank_document 1 1 ''ops/a.md'' None]"
      "dc_tenant_id (blank_document 1 1 ''ops/a.md'' None) \<noteq> 2"
      "filter (\<lambda>x. dc_rel_path x = ''./'' @ ''ops/a.md'') (d_documents demo_foreign_db) = []"
    by (simp_all add: demo_foreign_db_def blank_document_def)
  show ?thesis
    using doc_guard_bypassed [OF u demo_author(2) c p f x, of demo_docs True] by simp
qed

text \<open>
  Editing keeps only the name of the parent directory: a document two directories deep is saved as a new
  file elsewhere, over whatever is there, and stays as it was under its own path.
\<close>

definition demo_nested_db :: db where
  "demo_nested_db = demo_author_db\<lparr>d_vault := \<lparr>va_files = [(''a/b/c.md'', \<lparr>vf_text = ''old'', vf_mtime = 1\<rparr>), (''b/c.md'', \<lparr>vf_text = ''other'', vf_mtime = 1\<rparr>)],
     va_dirs = [''a'', ''a/b'', ''b'']\<rparr>\<rparr>"

lemma nested_edit_moves:
  "fst (docs_save demo_docs ''a/b/c.md'' ''T'' ''ops'' ''new'' [] (demo_session 4) demo_nested_db) = Redirect ''/docs/view?path=b/c.md''"
  "text_at (d_vault (snd (docs_save demo_docs ''a/b/c.md'' ''T'' ''ops'' ''new'' [] (demo_session 4) demo_nested_db))) ''a/b/c.md'' = Some ''old''"
  "text_at (d_vault (snd (docs_save demo_docs ''a/b/c.md'' ''T'' ''ops'' ''new'' [] (demo_session 4) demo_nested_db))) ''b/c.md'' \<noteq> Some ''other''"
  by code_simp+

text \<open>The document tools of the agent do not look at the tenant of the row at all.\<close>

lemma delete_tool_ignores_tenants:
  assumes "dict_get a ''path'' = Some (JStr p)" and "p \<noteq> []" and "py_strip p = p" and "normalize_rel p = Inr p" and "file_at (d_vault d) p = Some f"
  shows "file_at (d_vault (snd (delete_doc_runner E a d))) p = None"
proof -
  have "delete_doc (d_vault d) p = Inr (drop_file p (d_vault d))"
    using assms(4,5) by (simp add: delete_doc_def store_delete_def safe_rel_def open_path_def)
  moreover have "arg_text a ''path'' [] = Inr p"
    using assms(1-3) by (simp add: arg_text_def json_truthy_def strip_json_def)
  ultimately show ?thesis
    using assms(2) by (simp add: delete_doc_runner_def settle_def file_at_drop)
qed
end
