(* ===== verification/Dosm_Directory.thy ===== *)
theory Dosm_Directory
  imports Dosm_Agent Dosm_Inputs Dosm_Vault
begin

text \<open>
  The Active Directory side of the departments: the records and errors of an adapter
  (\<open>dosm/directory/adapters/__init__.py\<close>), the fixture source (\<open>mock.py\<close>), the jumpbox source with its
  reading of the PowerShell replies (\<open>winrm_jumpbox.py\<close>), and the synchronization of one department
  (\<open>dosm/directory/sync.py\<close>). What a PowerShell run answers, the JSON reader and what the database stores
  for a value that is no text are fields of \<open>dir_env\<close>; the four scripts are named, their text is not ours.
  A query without an order gives its rows in rowid order.
\<close>

section \<open>Records and errors\<close>

datatype dir_error =
    Ad_Error string
  | Ad_Unreachable string
  | Ad_Group_Not_Found string
  | Ad_User_Not_Found string
  | Ad_Crash string

definition dir_text :: "dir_error \<Rightarrow> string" where
  \<comment> \<open>\<open>str(e)\<close>; an \<open>Ad_Crash\<close> is any exception outside the hierarchy and keeps its type\<close>
  "dir_text e = (case e of Ad_Error m \<Rightarrow> m | Ad_Unreachable m \<Rightarrow> m | Ad_Group_Not_Found m \<Rightarrow> m | Ad_User_Not_Found m \<Rightarrow> m | Ad_Crash t \<Rightarrow> t)"

record user_record =
  ur_dn :: "string option"
  ur_name :: string
  ur_email :: "string option"
  ur_title :: "string option"
  ur_phone :: "string option"
  ur_enabled :: bool
  ur_manager_dn :: "string option"
  ur_sam :: "string option"

record group_record =
  gr_dn :: "string option"
  gr_name :: "string option"
  gr_description :: "string option"
  gr_managed_by :: "string option"

record member_record =
  mr_dn :: string
  mr_name :: string
  mr_email :: "string option"
  mr_title :: "string option"
  mr_phone :: "string option"
  mr_enabled :: bool
  mr_manager_dn :: "string option"
  mr_manager_name :: "string option"

record sync_result =
  sr_group :: group_record
  sr_manager :: "user_record option"
  sr_members :: "member_record list"
  sr_chain :: "string list"

record ad_source =
  as_test :: "dir_error + string"
  as_group :: "string \<Rightarrow> dir_error + group_record"
  as_user :: "string \<Rightarrow> dir_error + user_record"
  as_sync :: "string \<Rightarrow> string \<Rightarrow> dir_error + sync_result"

section \<open>The fixture source\<close>

definition acme :: "string \<Rightarrow> string" where
  "acme cn = ''CN='' @ cn @ '',OU=People,DC=acme,DC=local''"

definition acme_group :: "string \<Rightarrow> string" where
  "acme_group cn = ''CN='' @ cn @ '',OU=Groups,DC=acme,DC=local''"

definition fixture_user :: "string \<Rightarrow> string \<Rightarrow> string \<Rightarrow> bool \<Rightarrow> string option \<Rightarrow> string \<times> user_record" where
  "fixture_user cn sam title enabled boss = (acme cn, \<lparr>ur_dn = Some (acme cn), ur_name = cn, ur_email = Some (sam @ ''@acme.local''),
     ur_title = Some title, ur_phone = None, ur_enabled = enabled, ur_manager_dn = map_option acme boss, ur_sam = Some sam\<rparr>)"

definition USERS :: "(string \<times> user_record) list" where
  "USERS = [fixture_user ''Eric CEO'' ''eric'' ''Chief Executive'' True None,
     fixture_user ''Alice Eng'' ''alice'' ''VP Engineering'' True (Some ''Eric CEO''),
     fixture_user ''Bob Plat'' ''bob'' ''Platform Lead'' True (Some ''Alice Eng''),
     fixture_user ''Carol Front'' ''carol'' ''Frontend Lead'' True (Some ''Alice Eng''),
     fixture_user ''Dave Ops'' ''dave'' ''Director of Operations'' True (Some ''Eric CEO''),
     fixture_user ''Eve Help'' ''eve'' ''Helpdesk Lead'' True (Some ''Dave Ops''),
     fixture_user ''Frank Junior'' ''frank'' ''Helpdesk'' True (Some ''Eve Help''),
     fixture_user ''Grace Disabled'' ''grace'' ''Helpdesk (former)'' False (Some ''Eve Help'')]"

definition fixture_group :: "string \<Rightarrow> string \<Rightarrow> string \<Rightarrow> string list \<Rightarrow> string \<times> group_record \<times> string list" where
  "fixture_group name description boss members = (py_lower name, \<lparr>gr_dn = Some (acme_group name), gr_name = Some name,
     gr_description = Some description, gr_managed_by = Some (acme boss)\<rparr>, map acme members)"

definition GROUPS :: "(string \<times> group_record \<times> string list) list" where
  "GROUPS = [fixture_group ''Engineering'' ''All engineers'' ''Alice Eng'' [''Alice Eng'', ''Bob Plat'', ''Carol Front''],
     fixture_group ''Platform'' ''Infra & SRE'' ''Bob Plat'' [''Bob Plat''],
     fixture_group ''Frontend'' ''Web app team'' ''Carol Front'' [''Carol Front''],
     fixture_group ''Operations'' ''Ops org'' ''Dave Ops'' [''Dave Ops''],
     fixture_group ''Helpdesk'' ''L1 support'' ''Eve Help'' [''Eve Help'', ''Frank Junior'', ''Grace Disabled'']]"

definition user_to_member :: "user_record \<Rightarrow> member_record" where
  "user_to_member u = \<lparr>mr_dn = or_default (ur_dn u) [], mr_name = ur_name u, mr_email = ur_email u, mr_title = ur_title u,
     mr_phone = ur_phone u, mr_enabled = ur_enabled u, mr_manager_dn = ur_manager_dn u,
     mr_manager_name = (case ur_manager_dn u of None \<Rightarrow> None | Some m \<Rightarrow> map_option ur_name (map_of USERS m))\<rparr>"

definition mock_resolve_group :: "string \<Rightarrow> dir_error + group_record" where
  "mock_resolve_group name = (case map_of GROUPS (py_lower (py_strip name)) of Some (g, _) \<Rightarrow> Inr g
     | None \<Rightarrow> (case filter (\<lambda>g. Some name \<in> {gr_name g, gr_dn g}) (map (fst \<circ> snd) GROUPS) of
         g # _ \<Rightarrow> Inr g | [] \<Rightarrow> Inl (Ad_Group_Not_Found name)))"

definition mock_resolve_user :: "string \<Rightarrow> dir_error + user_record" where
  "mock_resolve_user identifier = (let i = Some (py_strip identifier) in
     case filter (\<lambda>u. i \<in> {ur_dn u, Some (ur_name u), ur_sam u, ur_email u}) (map snd USERS) of
       u # _ \<Rightarrow> Inr u | [] \<Rightarrow> Inl (Ad_User_Not_Found identifier))"

fun mock_chain :: "nat \<Rightarrow> user_record \<Rightarrow> string list" where
  \<comment> \<open>the number counts \<open>depth\<close> down from 20\<close>
  "mock_chain 0 cur = []"
| "mock_chain (Suc n) cur = (case ur_manager_dn cur of None \<Rightarrow> []
     | Some m \<Rightarrow> m # (case map_of USERS m of None \<Rightarrow> [] | Some up \<Rightarrow> mock_chain n up))"

definition mock_sync_group :: "string \<Rightarrow> string \<Rightarrow> dir_error + sync_result" where
  "mock_sync_group group_dn manager_dn = (case filter (\<lambda>(g, _). gr_dn g = Some group_dn) (map snd GROUPS) of
     [] \<Rightarrow> Inl (Ad_Group_Not_Found group_dn)
   | (g, dns) # _ \<Rightarrow> let manager = (if manager_dn = [] then None else map_of USERS manager_dn) in
       Inr \<lparr>sr_group = g, sr_manager = manager, sr_members = map user_to_member (List.map_filter (map_of USERS) dns),
         sr_chain = (case manager of None \<Rightarrow> [] | Some m \<Rightarrow> mock_chain 20 m)\<rparr>)"

definition mock_source :: ad_source where
  "mock_source = \<lparr>as_test = Inr ''acme.local'', as_group = mock_resolve_group, as_user = mock_resolve_user, as_sync = mock_sync_group\<rparr>"

section \<open>The jumpbox source\<close>

datatype ps_script = Test_PS | Resolve_Group_PS | Resolve_User_PS | Sync_Group_PS

datatype winrm_reply =
    No_Pywinrm
  | Session_Failed string
  | Call_Failed string
  | Ran int string string

record winrm_session =
  ws_endpoint :: string
  ws_username :: string
  ws_password :: string
  ws_transport :: string
  ws_cert :: string
  ws_label :: string

record dir_env =
  di_backend :: secret_backend
  di_https :: bool
  di_port :: int
  di_transport :: string
  di_run_ps :: "winrm_session \<Rightarrow> string \<Rightarrow> ps_script \<Rightarrow> winrm_reply"
  di_loads :: "string \<Rightarrow> json option"
  di_cell :: "json \<Rightarrow> string"

definition ps_quote :: "string \<Rightarrow> string" where
  \<comment> \<open>a PowerShell literal in single quotes\<close>
  "ps_quote v = [CHR 0x27] @ concat (map (\<lambda>c. if c = CHR 0x27 then [c, c] else [c]) v) @ [CHR 0x27]"

definition ps_prelude :: "(string \<times> string) list \<Rightarrow> string" where
  "ps_prelude env = (if env = [] then [] else
     join_with [CHR 0x0A] (map (\<lambda>(k, v). ''$env:'' @ k @ '' = '' @ ps_quote v) env) @ [CHR 0x0A])"

definition parse_or_raise :: "dir_env \<Rightarrow> (string \<Rightarrow> dir_error) \<Rightarrow> string \<Rightarrow> dir_error + dict" where
  "parse_or_raise E on_not_found out0 = (let out = py_strip out0; odd = Inl (Ad_Unreachable (''unexpected payload: '' @ py_repr (take 200 out))) in
     if out = [] then Inl (Ad_Unreachable ''PowerShell returned empty output'')
     else (case di_loads E out of None \<Rightarrow> Inl (Ad_Unreachable (''PowerShell returned non-JSON: '' @ py_repr (take 200 out)))
       | Some (JObj payload) \<Rightarrow>
           if dict_get payload ''error'' = Some (JStr ''not_found'')
           then Inl (on_not_found (case dict_get payload ''message'' of None \<Rightarrow> ''not found in AD''
             | Some m \<Rightarrow> if json_truthy m then py_str m else ''not found in AD''))
           else if (case dict_get payload ''ok'' of None \<Rightarrow> False | Some v \<Rightarrow> json_truthy v) then Inr payload else odd
       | Some _ \<Rightarrow> odd))"

definition run_ps :: "dir_env \<Rightarrow> winrm_session \<Rightarrow> (string \<times> string) list \<Rightarrow> ps_script \<Rightarrow> dir_error + dict" where
  "run_ps E w env script = (case di_run_ps E w (ps_prelude env) script of
     No_Pywinrm \<Rightarrow> Inl (Ad_Error ''pywinrm is not installed'')
   | Session_Failed e \<Rightarrow> Inl (Ad_Unreachable (ws_label w @ '': WinRM session init failed: '' @ e))
   | Call_Failed e \<Rightarrow> Inl (Ad_Unreachable (ws_label w @ '': WinRM call failed: '' @ e))
   | Ran status out err \<Rightarrow>
       if status \<noteq> 0 then Inl (Ad_Unreachable (ws_label w @ '': PowerShell exit '' @ str_int status @ '': '' @ take 500 err))
       else parse_or_raise E Ad_Unreachable out)"

definition cell :: "dir_env \<Rightarrow> json \<Rightarrow> string option" where
  \<comment> \<open>what a text column holds for the value\<close>
  "cell E v = (case v of JNull \<Rightarrow> None | JStr s \<Rightarrow> Some s | _ \<Rightarrow> Some (di_cell E v))"

definition field :: "dir_env \<Rightarrow> dict \<Rightarrow> string \<Rightarrow> string option" where
  "field E m k = (case dict_get m k of None \<Rightarrow> None | Some v \<Rightarrow> cell E v)"

definition needed :: "dir_env \<Rightarrow> dict \<Rightarrow> string \<Rightarrow> dir_error + string option" where
  "needed E m k = (case dict_get m k of None \<Rightarrow> Inl (Ad_Crash ''KeyError'') | Some v \<Rightarrow> Inr (cell E v))"

definition truthy_field :: "dir_env \<Rightarrow> dict \<Rightarrow> string \<Rightarrow> string option \<Rightarrow> string option" where
  \<comment> \<open>\<open>m.get(k) or dflt\<close>\<close>
  "truthy_field E m k dflt = (case dict_get m k of None \<Rightarrow> dflt | Some v \<Rightarrow> if json_truthy v then cell E v else dflt)"

definition enabled_flag :: "dict \<Rightarrow> bool" where
  "enabled_flag m = (case dict_get m ''enabled'' of None \<Rightarrow> True | Some v \<Rightarrow> json_truthy v)"

definition has_not_found :: "string \<Rightarrow> bool" where
  "has_not_found s \<longleftrightarrow> py_find s ''not_found'' 0 \<noteq> -1"

definition reroute :: "(string \<Rightarrow> dir_error) \<Rightarrow> string \<Rightarrow> dir_error + 'a \<Rightarrow> dir_error + 'a" where
  \<comment> \<open>the \<open>except AdDirectoryUnreachable\<close> of the two lookups\<close>
  "reroute kind what m = (case m of Inl (Ad_Unreachable e) \<Rightarrow> Inl (if has_not_found e then kind what else Ad_Unreachable e) | _ \<Rightarrow> m)"

definition group_of :: "dir_env \<Rightarrow> dict \<Rightarrow> dir_error + group_record" where
  "group_of E m = bind_r (needed E m ''distinguishedName'') (\<lambda>dn. bind_r (needed E m ''name'') (\<lambda>n.
     Inr \<lparr>gr_dn = dn, gr_name = n, gr_description = field E m ''description'', gr_managed_by = field E m ''managedBy''\<rparr>))"

definition user_of :: "dir_env \<Rightarrow> string \<Rightarrow> dict \<Rightarrow> dir_error + user_record" where
  \<comment> \<open>\<open>shown\<close>: the name used when there is no display name\<close>
  "user_of E shown m = bind_r (needed E m ''distinguishedName'') (\<lambda>dn. Inr \<lparr>ur_dn = dn,
     ur_name = or_default (truthy_field E m ''displayName'' (Some shown)) [], ur_email = field E m ''mail'', ur_title = field E m ''title'',
     ur_phone = field E m ''telephoneNumber'', ur_enabled = enabled_flag m, ur_manager_dn = field E m ''manager'',
     ur_sam = field E m ''sAMAccountName''\<rparr>)"

definition winrm_resolve_group :: "dir_env \<Rightarrow> winrm_session \<Rightarrow> string \<Rightarrow> dir_error + group_record" where
  "winrm_resolve_group E w name = bind_r (reroute Ad_Group_Not_Found name (run_ps E w [(''GROUP_NAME'', name)] Resolve_Group_PS)) (group_of E)"

definition winrm_resolve_user :: "dir_env \<Rightarrow> winrm_session \<Rightarrow> string \<Rightarrow> dir_error + user_record" where
  "winrm_resolve_user E w i = bind_r (reroute Ad_User_Not_Found i (run_ps E w [(''USER_ID'', i)] Resolve_User_PS)) (user_of E i)"

definition obj_or :: "string \<Rightarrow> json \<Rightarrow> dir_error + dict" where
  \<comment> \<open>a mapping, or the exception of the operation on anything else\<close>
  "obj_or t v = (case v of JObj m \<Rightarrow> Inr m | _ \<Rightarrow> Inl (Ad_Crash t))"

definition member_of :: "dir_env \<Rightarrow> json \<Rightarrow> dir_error + member_record option" where
  \<comment> \<open>\<open>None\<close>: filtered out, no distinguished name\<close>
  "member_of E v = bind_r (obj_or ''AttributeError'' v) (\<lambda>m. Inr (case truthy_field E m ''distinguishedName'' None of None \<Rightarrow> None
     | Some dn \<Rightarrow> Some \<lparr>mr_dn = dn, mr_name = or_default (truthy_field E m ''displayName'' (Some dn)) [], mr_email = field E m ''mail'',
         mr_title = field E m ''title'', mr_phone = field E m ''telephoneNumber'', mr_enabled = enabled_flag m,
         mr_manager_dn = field E m ''managerDn'', mr_manager_name = field E m ''managerName''\<rparr>))"

fun map_r :: "('a \<Rightarrow> 'e + 'b) \<Rightarrow> 'a list \<Rightarrow> 'e + 'b list" where
  "map_r f [] = Inr []"
| "map_r f (x # xs) = bind_r (f x) (\<lambda>y. bind_r (map_r f xs) (\<lambda>ys. Inr (y # ys)))"

definition listed :: "dict \<Rightarrow> string \<Rightarrow> (json \<Rightarrow> json list option) \<Rightarrow> dir_error + json list" where
  \<comment> \<open>\<open>payload.get(k) or []\<close>, with the scalar PowerShell makes of a list of one put back\<close>
  "listed m k scalar = (case dict_get m k of None \<Rightarrow> Inr []
     | Some v \<Rightarrow> if \<not> json_truthy v then Inr [] else (case v of JArr xs \<Rightarrow> Inr xs
         | _ \<Rightarrow> (case scalar v of Some xs \<Rightarrow> Inr xs | None \<Rightarrow> Inl (Ad_Crash ''TypeError''))))"

definition winrm_sync_group :: "dir_env \<Rightarrow> winrm_session \<Rightarrow> string \<Rightarrow> string \<Rightarrow> dir_error + sync_result" where
  "winrm_sync_group E w group_dn manager_dn =
     bind_r (run_ps E w [(''GROUP_DN'', group_dn), (''MANAGER_DN'', manager_dn)] Sync_Group_PS) (\<lambda>payload.
     bind_r (case dict_get payload ''group'' of None \<Rightarrow> Inl (Ad_Crash ''KeyError'') | Some g \<Rightarrow> bind_r (obj_or ''TypeError'' g) (group_of E)) (\<lambda>grp.
     bind_r (case dict_get payload ''manager'' of None \<Rightarrow> Inr None
       | Some v \<Rightarrow> if json_truthy v then bind_r (obj_or ''TypeError'' v) (\<lambda>m. bind_r (user_of E [] m) (\<lambda>u. Inr (Some (u\<lparr>ur_sam := None\<rparr>)))) else Inr None) (\<lambda>manager.
     bind_r (listed payload ''members'' (\<lambda>v. case v of JObj _ \<Rightarrow> Some [v] | JStr s \<Rightarrow> Some (map (\<lambda>c. JStr [c]) s) | _ \<Rightarrow> None)) (\<lambda>raw.
     bind_r (map_r (member_of E) raw) (\<lambda>members.
     bind_r (listed payload ''managerChain'' (\<lambda>v. case v of JStr _ \<Rightarrow> Some [v] | JObj m \<Rightarrow> Some (map (JStr \<circ> fst) m) | _ \<Rightarrow> None)) (\<lambda>chain.
     Inr \<lparr>sr_group = grp, sr_manager = manager, sr_members = List.map_filter (\<lambda>m. m) members,
       sr_chain = map (\<lambda>v. or_default (cell E v) []) chain\<rparr>))))))"

definition winrm_source :: "dir_env \<Rightarrow> winrm_session \<Rightarrow> ad_source" where
  "winrm_source E w = \<lparr>as_test = bind_r (run_ps E w [] Test_PS) (\<lambda>p. Inr (or_default (truthy_field E p ''domain'' None) ''(unknown)'')),
     as_group = winrm_resolve_group E w, as_user = winrm_resolve_user E w, as_sync = winrm_sync_group E w\<rparr>"

definition winrm_from_config :: "dir_env \<Rightarrow> int option \<Rightarrow> db \<Rightarrow> dir_error + winrm_session" where
  "winrm_from_config E host_id d = (case host_id of None \<Rightarrow> Inl (Ad_Error ''AD jumpbox is not configured. Set one at /org/configure.'')
     | Some i \<Rightarrow> if i = 0 then Inl (Ad_Error ''AD jumpbox is not configured. Set one at /org/configure.'') else
       (case get_row h_id (d_hosts d) i of None \<Rightarrow> Inl (Ad_Error (''AD jumpbox host id '' @ str_int i @ '' no longer exists''))
        | Some h \<Rightarrow> (case (case h_credential_id h of None \<Rightarrow> None | Some c \<Rightarrow> get_row c_id (d_credentials d) c) of
            None \<Rightarrow> Inl (Ad_Error (''host '' @ py_repr (h_name h) @ '' has no credential profile; attach one before syncing''))
          | Some c \<Rightarrow> (case be_get (di_backend E) d (c_secret_ref c) of
              Inl (Secret_Not_Found _) \<Rightarrow> Inl (Ad_Error (''credential '' @ py_repr (c_name c) @ '' secret missing in backend''))
            | Inl (Secret_Runtime _) \<Rightarrow> Inl (Ad_Crash ''RuntimeError'')
            | Inr secret \<Rightarrow> (case c_username c of
                None \<Rightarrow> Inl (Ad_Error (''credential '' @ py_repr (c_name c) @ '' has no username; WinRM needs one''))
              | Some un \<Rightarrow> if un = [] then Inl (Ad_Error (''credential '' @ py_repr (c_name c) @ '' has no username; WinRM needs one''))
                  else Inr \<lparr>ws_endpoint = (if di_https E then ''https'' else ''http'') @ ''://'' @ h_hostname h @ '':'' @ str_int (di_port E) @ ''/wsman'',
                    ws_username = (case c_domain c of None \<Rightarrow> un | Some dm \<Rightarrow> if dm = [] then un else dm @ [CHR 0x5C] @ un),
                    ws_password = secret, ws_transport = di_transport E,
                    ws_cert = (if di_https E then ''ignore'' else ''validate''), ws_label = h_name h\<rparr>)))))"

section \<open>Choosing a source\<close>

record dir_config =
  dg_adapter :: string
  dg_jumpbox :: "int option"

definition get_directory_source :: "dir_env \<Rightarrow> dir_config \<Rightarrow> db \<Rightarrow> dir_error + ad_source" where
  "get_directory_source E g d = (if dg_adapter g = ''mock'' then Inr mock_source
     else if dg_adapter g = ''winrm_jumpbox'' then bind_r (winrm_from_config E (dg_jumpbox g) d) (\<lambda>w. Inr (winrm_source E w))
     else Inl (Ad_Error (''unknown directory adapter: '' @ py_repr (dg_adapter g))))"

definition resolve_inputs :: "dir_env \<Rightarrow> dir_config \<Rightarrow> db \<Rightarrow> string \<Rightarrow> string \<Rightarrow> dir_error + (string option \<times> user_record)" where
  "resolve_inputs E g d group_name manager_input = bind_r (get_directory_source E g d) (\<lambda>src.
     bind_r (as_group src group_name) (\<lambda>grp. bind_r (as_user src manager_input) (\<lambda>m. Inr (gr_dn grp, m))))"

section \<open>Synchronizing a department\<close>

definition touch_dept :: "db \<Rightarrow> (department \<Rightarrow> department) \<Rightarrow> department \<Rightarrow> department" where
  \<comment> \<open>\<open>onupdate=_utcnow\<close> fires when a column changed\<close>
  "touch_dept d f x = (if f x = x then x else (f x)\<lparr>dp_updated_at := d_now d\<rparr>)"

definition upd_dept :: "int \<Rightarrow> (department \<Rightarrow> department) \<Rightarrow> db \<Rightarrow> db" where
  "upd_dept i f d = d\<lparr>d_departments := upd_row dp_id i (touch_dept d f) (d_departments d)\<rparr>"

definition fill_member :: "stamp \<Rightarrow> member_record \<Rightarrow> dept_member \<Rightarrow> dept_member" where
  "fill_member now m x = x\<lparr>dm_display_name := mr_name m, dm_email := mr_email m, dm_title := mr_title m, dm_phone := mr_phone m,
     dm_enabled := mr_enabled m, dm_manager_dn := mr_manager_dn m, dm_manager_name := mr_manager_name m, dm_synced_at := now\<rparr>"

definition new_member :: "int \<Rightarrow> int \<Rightarrow> stamp \<Rightarrow> member_record \<Rightarrow> dept_member" where
  "new_member i dept now m = \<lparr>dm_id = i, dm_department_id = dept, dm_user_dn = mr_dn m, dm_display_name = mr_name m, dm_email = mr_email m,
     dm_title = mr_title m, dm_phone = mr_phone m, dm_enabled = mr_enabled m, dm_manager_dn = mr_manager_dn m,
     dm_manager_name = mr_manager_name m, dm_synced_at = now\<rparr>"

definition put_member :: "int \<Rightarrow> stamp \<Rightarrow> dept_member list \<Rightarrow> member_record \<Rightarrow> dept_member list \<Rightarrow> dept_member list" where
  \<comment> \<open>one step of the loop: \<open>old\<close> are the rows of the department before the loop\<close>
  "put_member dept now old m rows = (if mr_dn m \<in> dm_user_dn ` set old
     then map (\<lambda>x. if dm_department_id x = dept \<and> dm_user_dn x = mr_dn m then fill_member now m x else x) rows
     else rows @ [new_member (next_id dm_id rows) dept now m])"

definition members_of :: "db \<Rightarrow> int \<Rightarrow> dept_member list" where
  "members_of d i = filter (\<lambda>m. dm_department_id m = i) (d_dept_members d)"

definition apply_members :: "int \<Rightarrow> member_record list \<Rightarrow> db \<Rightarrow> db" where
  "apply_members dept ms d = d\<lparr>d_dept_members := del_rows (\<lambda>x. dm_department_id x = dept \<and> dm_user_dn x \<notin> mr_dn ` set ms)
     (fold (put_member dept (d_now d) (members_of d dept)) ms (d_dept_members d))\<rparr>"

definition infer_parent_id :: "db \<Rightarrow> int \<Rightarrow> string list \<Rightarrow> int option" where
  \<comment> \<open>departments of every tenant; of several with one manager the last row wins\<close>
  "infer_parent_id d cur chain = (let by_dn = map_of (rev (List.map_filter (\<lambda>x. case dp_manager_dn x of None \<Rightarrow> None
         | Some dn \<Rightarrow> if dn \<noteq> [] \<and> dn \<in> set chain then Some (dn, dp_id x) else None) (d_departments d)))
     in (case List.map_filter (\<lambda>dn. case by_dn dn of None \<Rightarrow> None | Some i \<Rightarrow> if i \<noteq> cur then Some i else None) chain of
           [] \<Rightarrow> None | i # _ \<Rightarrow> Some i))"

definition fill_dept :: "sync_result \<Rightarrow> department \<Rightarrow> department" where
  "fill_dept r x = (let y = x\<lparr>dp_ad_group_name := or_default (gr_name (sr_group r)) [], dp_ad_group_dn := gr_dn (sr_group r)\<rparr> in
     case sr_manager r of None \<Rightarrow> y
     | Some m \<Rightarrow> y\<lparr>dp_manager_dn := ur_dn m, dp_manager_name := Some (ur_name m), dp_manager_email := ur_email m, dp_manager_title := ur_title m\<rparr>)"

record sync_summary =
  sy_added :: int
  sy_removed :: int
  sy_kept :: int
  sy_parent_changed :: bool
  sy_parent_id :: "int option"
  sy_depth :: int

definition summary_text :: "sync_summary \<Rightarrow> string" where
  \<comment> \<open>\<open>json.dumps(summary)\<close>\<close>
  "summary_text y = ''{'' @ json_quote ''added'' @ '': '' @ str_int (sy_added y) @ '', '' @ json_quote ''removed'' @ '': '' @ str_int (sy_removed y) @
     '', '' @ json_quote ''kept'' @ '': '' @ str_int (sy_kept y) @ '', '' @ json_quote ''parent_changed'' @ '': '' @
     (if sy_parent_changed y then ''true'' else ''false'') @ '', '' @ json_quote ''parent_id'' @ '': '' @
     (case sy_parent_id y of None \<Rightarrow> ''null'' | Some i \<Rightarrow> str_int i) @ '', '' @ json_quote ''manager_chain_depth'' @ '': '' @ str_int (sy_depth y) @ ''}''"

type_synonym sync_outcome = "(dir_error + sync_summary) \<times> db \<times> db"

definition sync_refused :: "sync_result \<Rightarrow> dept_member list \<Rightarrow> bool" where
  \<comment> \<open>the flush violates a constraint: two new rows for one person, or a group without a name\<close>
  "sync_refused r old \<longleftrightarrow> gr_name (sr_group r) = None \<or>
     \<not> distinct (filter (\<lambda>dn. dn \<notin> dm_user_dn ` set old) (map mr_dn (sr_members r)))"

definition apply_sync :: "sync_result \<Rightarrow> int option \<Rightarrow> department \<Rightarrow> db \<Rightarrow> sync_summary \<times> db" where
  \<comment> \<open>sessions do not flush before a query: the parent is looked up among the departments as they were\<close>
  "apply_sync r actor x d0 = (let old = members_of d0 (dp_id x); incoming = mr_dn ` set (sr_members r);
       d1 = apply_members (dp_id x) (sr_members r) (upd_dept (dp_id x) (fill_dept r) d0);
       parent = infer_parent_id d0 (dp_id x) (sr_chain r);
       added = length (filter (\<lambda>m. mr_dn m \<notin> dm_user_dn ` set old) (sr_members r));
       y = \<lparr>sy_added = int added, sy_removed = int (length (filter (\<lambda>m. dm_user_dn m \<notin> incoming) old)),
         sy_kept = int (card incoming) - int added, sy_parent_changed = (parent \<noteq> dp_parent_id x), sy_parent_id = parent,
         sy_depth = int (length (sr_chain r))\<rparr>;
       d2 = upd_dept (dp_id x) (\<lambda>z. z\<lparr>dp_parent_id := parent, dp_last_synced_at := Some (d_now d0), dp_last_sync_error := None,
         dp_sync_status := ''ok''\<rparr>) d1
     in (y, add_audit None actor ''org.sync.complete'' (Some (''dept:'' @ dp_slug x)) (Some (summary_text y)) None d2))"

definition sync_department :: "dir_env \<Rightarrow> dir_config \<Rightarrow> department \<Rightarrow> int option \<Rightarrow> db \<Rightarrow> sync_outcome" where
  \<comment> \<open>the outcome, the committed state, and the state of the session, which the caller commits if it goes on\<close>
  "sync_department E g x actor d = (let target = Some (''dept:'' @ dp_slug x); d0 = add_audit None actor ''org.sync.start'' target None None d in
     case (dp_ad_group_dn x, dp_manager_dn x) of
       (Some gdn, Some mdn) \<Rightarrow>
         if gdn = [] \<or> mdn = [] then (Inl (Ad_Error (''department '' @ py_repr (dp_slug x) @ '' is missing ad_group_dn or manager_dn'')), d, d0)
         else (case get_directory_source E g d of Inl e \<Rightarrow> (Inl e, d, d0)
         | Inr src \<Rightarrow> (case as_sync src gdn mdn of
             Inl e \<Rightarrow> (case e of Ad_Error _ \<Rightarrow> (Inl e, d, d0) | Ad_Crash _ \<Rightarrow> (Inl e, d, d0)
               | _ \<Rightarrow> let d1 = add_audit None actor ''org.sync.fail'' target (Some (take 500 (dir_text e))) None
                        (upd_dept (dp_id x) (\<lambda>z. z\<lparr>dp_last_sync_error := Some (dir_text e), dp_sync_status := ''error''\<rparr>) d0) in (Inl e, d1, d1))
           | Inr r \<Rightarrow> if sync_refused r (members_of d (dp_id x)) then (Inl (Ad_Crash ''IntegrityError''), d, d0)
               else (case apply_sync r actor x d0 of (y, d1) \<Rightarrow> (Inr y, d1, d1))))
     | _ \<Rightarrow> (Inl (Ad_Error (''department '' @ py_repr (dp_slug x) @ '' is missing ad_group_dn or manager_dn'')), d, d0))"

section \<open>Laws of the membership diff\<close>

type_synonym person = "string \<times> string \<times> string option \<times> string option \<times> string option \<times> bool \<times> string option \<times> string option"

definition member_view :: "dept_member \<Rightarrow> person" where
  "member_view x = (dm_user_dn x, dm_display_name x, dm_email x, dm_title x, dm_phone x, dm_enabled x, dm_manager_dn x, dm_manager_name x)"

definition record_view :: "member_record \<Rightarrow> person" where
  "record_view m = (mr_dn m, mr_name m, mr_email m, mr_title m, mr_phone m, mr_enabled m, mr_manager_dn m, mr_manager_name m)"

abbreviation dept_rows :: "int \<Rightarrow> dept_member list \<Rightarrow> dept_member list" where
  "dept_rows i \<equiv> filter (\<lambda>x. dm_department_id x = i)"

lemma fill_member_laws [simp]:
  "dm_id (fill_member now m x) = dm_id x" "dm_department_id (fill_member now m x) = dm_department_id x"
  "dm_user_dn (fill_member now m x) = dm_user_dn x" "dm_user_dn x = mr_dn m \<Longrightarrow> member_view (fill_member now m x) = record_view m"
  by (simp_all add: fill_member_def member_view_def record_view_def)

lemma new_member_laws [simp]:
  "dm_id (new_member k i now m) = k" "dm_department_id (new_member k i now m) = i" "dm_user_dn (new_member k i now m) = mr_dn m"
  "member_view (new_member k i now m) = record_view m"
  by (simp_all add: new_member_def member_view_def record_view_def)

lemma rows_of_map: "(\<And>x. dm_department_id (f x) = dm_department_id x) \<Longrightarrow> dept_rows j (map f rows) = map f (dept_rows j rows)"
  by (simp add: filter_map comp_def)

lemma rows_of_put:
  "dept_rows i (put_member i now old m rows) = (if mr_dn m \<in> dm_user_dn ` set old
     then map (\<lambda>x. if dm_user_dn x = mr_dn m then fill_member now m x else x) (dept_rows i rows)
     else dept_rows i rows @ [new_member (next_id dm_id rows) i now m])"
proof -
  let ?f = "\<lambda>x. if dm_department_id x = i \<and> dm_user_dn x = mr_dn m then fill_member now m x else x"
  have "dept_rows i (map ?f rows) = map ?f (dept_rows i rows)"
    by (rule rows_of_map) simp
  also have "\<dots> = map (\<lambda>x. if dm_user_dn x = mr_dn m then fill_member now m x else x) (dept_rows i rows)"
    by (intro map_cong refl) simp
  finally show ?thesis
    by (simp add: put_member_def)
qed

lemma rows_of_put_other: "j \<noteq> i \<Longrightarrow> dept_rows j (put_member i now old m rows) = dept_rows j rows"
proof -
  assume "j \<noteq> i"
  let ?f = "\<lambda>x. if dm_department_id x = i \<and> dm_user_dn x = mr_dn m then fill_member now m x else x"
  have "dept_rows j (map ?f rows) = map ?f (dept_rows j rows)"
    by (rule rows_of_map) simp
  also have "\<dots> = dept_rows j rows"
    using \<open>j \<noteq> i\<close> by (intro map_idI) auto
  finally show ?thesis
    using \<open>j \<noteq> i\<close> by (simp add: put_member_def)
qed

definition half_done :: "dept_member list \<Rightarrow> member_record list \<Rightarrow> dept_member list \<Rightarrow> bool" where
  \<comment> \<open>the rows of the department when the records \<open>ms\<close> are through\<close>
  "half_done old ms rows \<longleftrightarrow> distinct (map dm_user_dn rows) \<and> dm_user_dn ` set rows = dm_user_dn ` set old \<union> mr_dn ` set ms \<and>
     (\<forall>m \<in> set ms. \<exists>x \<in> set rows. member_view x = record_view m) \<and>
     (\<forall>z \<in> set old. \<exists>x \<in> set rows. dm_id x = dm_id z \<and> dm_user_dn x = dm_user_dn z)"

lemma view_dn: "member_view x = record_view m \<Longrightarrow> dm_user_dn x = mr_dn m"
  by (simp add: member_view_def record_view_def)

lemma half_done_put:
  assumes h: "half_done old ms (dept_rows i rows)" and new: "mr_dn m \<notin> mr_dn ` set ms"
  shows "half_done old (ms @ [m]) (dept_rows i (put_member i now old m rows))"
proof (cases "mr_dn m \<in> dm_user_dn ` set old")
  case True
  let ?R = "dept_rows i rows" and ?f = "\<lambda>x. if dm_user_dn x = mr_dn m then fill_member now m x else x"
  have f: "dm_user_dn (?f x) = dm_user_dn x" "dm_id (?f x) = dm_id x" for x
    by simp_all
  have R: "dept_rows i (put_member i now old m rows) = map ?f ?R"
    using True by (simp add: rows_of_put)
  have dns: "map dm_user_dn (map ?f ?R) = map dm_user_dn ?R"
    using f by simp
  have dist: "distinct (map dm_user_dn (map ?f ?R))"
    unfolding dns using h by (simp only: half_done_def)
  have "dm_user_dn ` set (map ?f ?R) = dm_user_dn ` set ?R"
    using dns by (metis list.set_map)
  moreover have "\<exists>x \<in> set (map ?f ?R). member_view x = record_view n" if "n \<in> set (ms @ [m])" for n
  proof (cases "n = m")
    case eq: True
    have "mr_dn m \<in> dm_user_dn ` set ?R"
      using h True by (simp add: half_done_def)
    then obtain y where y: "y \<in> set ?R" "dm_user_dn y = mr_dn m"
      by auto
    then have "?f y \<in> set (map ?f ?R)" "member_view (?f y) = record_view n"
      using eq by simp_all
    then show ?thesis
      by blast
  next
    case False
    then have n: "n \<in> set ms"
      using that by simp
    then obtain y where y: "y \<in> set ?R" "member_view y = record_view n"
      using h by (auto simp: half_done_def)
    moreover have "mr_dn n \<noteq> mr_dn m"
      using n new by (metis image_eqI)
    ultimately have "?f y = y"
      using view_dn [OF y(2)] by simp
    then show ?thesis
      using y by force
  qed
  moreover have "\<exists>x \<in> set (map ?f ?R). dm_id x = dm_id z \<and> dm_user_dn x = dm_user_dn z" if z: "z \<in> set old" for z
  proof -
    obtain y where "y \<in> set ?R" "dm_id y = dm_id z" "dm_user_dn y = dm_user_dn z"
      using h z unfolding half_done_def by blast
    then have "?f y \<in> set (map ?f ?R)" "dm_id (?f y) = dm_id z" "dm_user_dn (?f y) = dm_user_dn z"
      using f by simp_all
    then show ?thesis
      by blast
  qed
  ultimately show ?thesis
    unfolding half_done_def R using h True dist by (auto simp only: half_done_def set_append list.set image_Un image_insert image_empty)
next
  case False
  then show ?thesis
    using h new by (auto simp: half_done_def rows_of_put)
qed

lemma half_done_fold:
  assumes "distinct (map dm_user_dn old)" and "dept_rows i rows = old" and "distinct (map mr_dn ms)"
  shows "half_done old ms (dept_rows i (fold (put_member i now old) ms rows))"
  using assms(3)
proof (induction ms rule: rev_induct)
  case Nil
  then show ?case
    using assms by (auto simp: half_done_def)
next
  case (snoc m ms)
  then show ?case
    using half_done_put [of old ms i "fold (put_member i now old) ms rows" m now] by simp
qed

lemma fold_put_other: "j \<noteq> i \<Longrightarrow> dept_rows j (fold (put_member i now old) ms rows) = dept_rows j rows"
  by (induction ms arbitrary: rows) (simp_all add: rows_of_put_other)

lemma apply_members_laws:
  assumes d: "distinct (map dm_user_dn (members_of d i))" and ms: "distinct (map mr_dn ms)"
  defines "d1 \<equiv> apply_members i ms d"
  shows "distinct (map dm_user_dn (members_of d1 i))" and "member_view ` set (members_of d1 i) = record_view ` set ms"
    and "\<forall>x \<in> set (members_of d i). dm_user_dn x \<in> mr_dn ` set ms \<longrightarrow>
      (\<exists>y \<in> set (members_of d1 i). dm_id y = dm_id x \<and> dm_user_dn y = dm_user_dn x)"
    and "j \<noteq> i \<Longrightarrow> members_of d1 j = members_of d j"
    and "d_departments d1 = d_departments d" and "d_now d1 = d_now d"
proof -
  let ?old = "members_of d i" and ?F = "fold (put_member i (d_now d) (members_of d i)) ms (d_dept_members d)"
  let ?R = "dept_rows i ?F"
  have h: "half_done ?old ms ?R"
    using half_done_fold [OF d _ ms] by (simp add: members_of_def)
  have M: "members_of d1 i = filter (\<lambda>x. dm_user_dn x \<in> mr_dn ` set ms) ?R"
    unfolding d1_def apply_members_def members_of_def del_rows_def by (simp add: conj_commute cong: conj_cong)
  show "distinct (map dm_user_dn (members_of d1 i))"
    unfolding M using h [unfolded half_done_def, THEN conjunct1] by (rule distinct_map_filter)
  show "\<forall>x \<in> set ?old. dm_user_dn x \<in> mr_dn ` set ms \<longrightarrow> (\<exists>y \<in> set (members_of d1 i). dm_id y = dm_id x \<and> dm_user_dn y = dm_user_dn x)"
    using h unfolding M half_done_def set_filter by (metis (mono_tags, lifting) mem_Collect_eq)
  show "member_view ` set (members_of d1 i) = record_view ` set ms"
  proof (intro equalityI subsetI)
    fix v
    assume "v \<in> member_view ` set (members_of d1 i)"
    then obtain x where x: "x \<in> set ?R" "dm_user_dn x \<in> mr_dn ` set ms" "v = member_view x"
      unfolding M by auto
    then obtain m where m: "m \<in> set ms" "dm_user_dn x = mr_dn m"
      by auto
    then obtain y where y: "y \<in> set ?R" "member_view y = record_view m"
      using h unfolding half_done_def by blast
    then have "dm_user_dn y = dm_user_dn x"
      using m(2) view_dn by simp
    then have "y = x"
      using h x(1) y(1) by (simp add: half_done_def distinct_map inj_on_def)
    then show "v \<in> record_view ` set ms"
      using x(3) y(2) m(1) by auto
  next
    fix v
    assume "v \<in> record_view ` set ms"
    then obtain m where m: "m \<in> set ms" "v = record_view m"
      by auto
    then obtain y where y: "y \<in> set ?R" "member_view y = record_view m"
      using h unfolding half_done_def by blast
    then have "y \<in> set (members_of d1 i)"
      unfolding M using m(1) view_dn [OF y(2)] by auto
    then show "v \<in> member_view ` set (members_of d1 i)"
      using y(2) m(2) by force
  qed
  have "dept_rows j (del_rows (\<lambda>x. dm_department_id x = i \<and> Q x) rows) = dept_rows j rows" if "j \<noteq> i" for Q rows
    using that by (induction rows) (auto simp: del_rows_def)
  then show "j \<noteq> i \<Longrightarrow> members_of d1 j = members_of d j"
    using fold_put_other by (simp add: d1_def apply_members_def members_of_def)
qed (simp_all add: d1_def apply_members_def)

section \<open>A synchronization\<close>

definition dirs_ok :: "db \<Rightarrow> bool" where
  "dirs_ok d \<longleftrightarrow> uniq_ids dp_id (d_departments d) \<and> distinct (map (\<lambda>m. (dm_department_id m, dm_user_dn m)) (d_dept_members d))"

lemma dirs_ok_members: "dirs_ok d \<Longrightarrow> distinct (map dm_user_dn (members_of d i))"
proof -
  assume "dirs_ok d"
  then have "distinct (map (\<lambda>m. (dm_department_id m, dm_user_dn m)) (members_of d i))"
    unfolding members_of_def dirs_ok_def by (intro distinct_map_filter) simp
  then show ?thesis
    by (auto simp: distinct_map inj_on_def members_of_def)
qed

lemma map_filter_in: "y \<in> set (List.map_filter f xs) \<longleftrightarrow> (\<exists>x \<in> set xs. f x = Some y)"
  by (induction xs) (auto simp: List.map_filter_def)

lemma infer_parent_idD:
  assumes "infer_parent_id d cur chain = Some j"
  shows "j \<noteq> cur \<and> (\<exists>y \<in> set (d_departments d). dp_id y = j \<and> dp_manager_dn y \<in> Some ` set chain)"
proof -
  let ?f = "\<lambda>x. case dp_manager_dn x of None \<Rightarrow> None | Some dn \<Rightarrow> if dn \<noteq> [] \<and> dn \<in> set chain then Some (dn, dp_id x) else None"
  let ?by = "map_of (rev (List.map_filter ?f (d_departments d)))"
  let ?g = "\<lambda>dn. case ?by dn of None \<Rightarrow> None | Some i \<Rightarrow> if i \<noteq> cur then Some i else None"
  have "j \<in> set (List.map_filter ?g chain)"
    using assms by (auto simp: infer_parent_id_def Let_def split: list.splits)
  then obtain dn where dn: "?by dn = Some j" "j \<noteq> cur"
    unfolding map_filter_in by (auto split: option.splits if_splits)
  then have "(dn, j) \<in> set (List.map_filter ?f (d_departments d))"
    by (auto dest: map_of_SomeD)
  then obtain y where "y \<in> set (d_departments d)" "?f y = Some (dn, j)"
    unfolding map_filter_in by blast
  then show ?thesis
    using dn(2) by (auto split: option.splits if_splits)
qed

lemma touch_dept_laws:
  "(\<And>x. dp_id (f x) = dp_id x) \<Longrightarrow> dp_id (touch_dept d f x) = dp_id x"
  by (simp add: touch_dept_def)

lemma upd_dept_row:
  assumes "\<And>x. dp_id (f x) = dp_id x"
  shows "get_row dp_id (d_departments (upd_dept i f d)) j = (if j = i then map_option (touch_dept d f) (get_row dp_id (d_departments d) i)
    else get_row dp_id (d_departments d) j)"
  unfolding upd_dept_def using get_row_upd_row [of dp_id "touch_dept d f" i "d_departments d" j] touch_dept_laws [OF assms] by simp

lemma upd_dept_frame [simp]: "d_dept_members (upd_dept i f d) = d_dept_members d" "d_now (upd_dept i f d) = d_now d"
    "members_of (upd_dept i f d) j = members_of d j"
  by (simp_all add: upd_dept_def members_of_def)

lemma members_of_audit [simp]: "members_of (add_audit t a x g e i d) j = members_of d j"
  by (simp add: members_of_def)

lemma fill_dept_id [simp]: "dp_id (fill_dept r x) = dp_id x"
  by (simp add: fill_dept_def Let_def split: option.split)

lemma set_view_length:
  assumes "distinct (map dm_user_dn xs)" and "distinct (map mr_dn ms)" and "member_view ` set xs = record_view ` set ms"
  shows "length xs = length ms"
proof -
  have "fst ` member_view ` set xs = fst ` record_view ` set ms"
    using assms(3) by simp
  then have "set (map dm_user_dn xs) = set (map mr_dn ms)"
    by (simp add: image_image member_view_def record_view_def)
  then show ?thesis
    using assms(1,2) by (metis distinct_card length_map)
qed

lemma upd_dept_ids:
  "(\<And>x. dp_id (f x) = dp_id x) \<Longrightarrow> map dp_id (d_departments (upd_dept i f d)) = map dp_id (d_departments d)"
  using map_key_upd_row [of dp_id "touch_dept d f" i "d_departments d", OF touch_dept_laws] by (simp add: upd_dept_def)

lemma apply_sync_laws:
  assumes ok: "dirs_ok d" and x: "x \<in> set (d_departments d)" and ms: "distinct (map mr_dn (sr_members r))"
    and a: "apply_sync r actor x d = (y, d1)"
  defines "i \<equiv> dp_id x"
  shows "member_view ` set (members_of d1 i) = record_view ` set (sr_members r)" and "length (members_of d1 i) = length (sr_members r)"
    and "\<forall>m \<in> set (members_of d i). dm_user_dn m \<in> mr_dn ` set (sr_members r) \<longrightarrow>
      (\<exists>n \<in> set (members_of d1 i). dm_id n = dm_id m \<and> dm_user_dn n = dm_user_dn m)"
    and "j \<noteq> i \<Longrightarrow> members_of d1 j = members_of d j \<and> get_row dp_id (d_departments d1) j = get_row dp_id (d_departments d) j"
    and "\<exists>z. get_row dp_id (d_departments d1) i = Some z \<and> dp_sync_status z = ''ok'' \<and> dp_last_sync_error z = None \<and>
      (\<forall>k. dp_parent_id z = Some k \<longrightarrow> k \<noteq> i \<and> (\<exists>w \<in> set (d_departments d1). dp_id w = k))"
proof -
  let ?d0 = "upd_dept i (fill_dept r) d"
  let ?da = "apply_members i (sr_members r) ?d0"
  let ?parent = "infer_parent_id d i (sr_chain r)"
  let ?f = "\<lambda>z. z\<lparr>dp_parent_id := ?parent, dp_last_synced_at := Some (d_now d), dp_last_sync_error := None, dp_sync_status := ''ok''\<rparr>"
  obtain t e where d1: "d1 = add_audit None actor ''org.sync.complete'' t e None (upd_dept i ?f ?da)"
    using a by (auto simp: apply_sync_def Let_def i_def)
  have dm: "distinct (map dm_user_dn (members_of ?d0 i))"
    using dirs_ok_members [OF ok] by simp
  note L = apply_members_laws [OF dm ms]
  have M: "members_of d1 j = members_of ?da j" for j
    by (simp add: d1)
  show v: "member_view ` set (members_of d1 i) = record_view ` set (sr_members r)"
    using L(2) by (simp add: M)
  show "length (members_of d1 i) = length (sr_members r)"
    using set_view_length [OF _ ms v] L(1) by (simp add: M)
  show "\<forall>m \<in> set (members_of d i). dm_user_dn m \<in> mr_dn ` set (sr_members r) \<longrightarrow>
      (\<exists>n \<in> set (members_of d1 i). dm_id n = dm_id m \<and> dm_user_dn n = dm_user_dn m)"
    using L(3) by (simp add: M)
  have row: "get_row dp_id (d_departments d1) k = (if k = i then map_option (touch_dept ?da ?f \<circ> touch_dept d (fill_dept r)) (get_row dp_id (d_departments d) i)
      else get_row dp_id (d_departments d) k)" for k
    using upd_dept_row [of ?f i ?da k] upd_dept_row [of "fill_dept r" i d k] upd_dept_row [of "fill_dept r" i d i] L(5)
    by (simp add: d1 option.map_comp comp_def)
  then show "j \<noteq> i \<Longrightarrow> members_of d1 j = members_of d j \<and> get_row dp_id (d_departments d1) j = get_row dp_id (d_departments d) j"
    using L(4) by (simp add: M)
  have "get_row dp_id (d_departments d) i = Some x"
    unfolding i_def using ok x by (intro get_row_in) (simp_all add: dirs_ok_def)
  moreover have "map dp_id (d_departments d1) = map dp_id (d_departments d)"
    using upd_dept_ids [of "fill_dept r" i d] by (simp add: d1 upd_dept_ids L(5))
  then have ids: "dp_id ` set (d_departments d1) = dp_id ` set (d_departments d)"
    by (metis list.set_map)
  have "?parent = Some k \<Longrightarrow> k \<noteq> i \<and> (\<exists>w \<in> set (d_departments d1). dp_id w = k)" for k
    using infer_parent_idD [of d i "sr_chain r" k] ids by (metis image_iff)
  moreover have "dp_sync_status (touch_dept ?da ?f w) = ''ok''" "dp_last_sync_error (touch_dept ?da ?f w) = None"
      "dp_parent_id (touch_dept ?da ?f w) = ?parent" for w
  proof -
    have "touch_dept ?da ?f w = ?f w \<or> (\<exists>u. touch_dept ?da ?f w = (?f w)\<lparr>dp_updated_at := u\<rparr>)"
      by (auto simp: touch_dept_def)
    then show "dp_sync_status (touch_dept ?da ?f w) = ''ok''" "dp_last_sync_error (touch_dept ?da ?f w) = None"
        "dp_parent_id (touch_dept ?da ?f w) = ?parent"
      by auto
  qed
  ultimately show "\<exists>z. get_row dp_id (d_departments d1) i = Some z \<and> dp_sync_status z = ''ok'' \<and> dp_last_sync_error z = None \<and>
      (\<forall>k. dp_parent_id z = Some k \<longrightarrow> k \<noteq> i \<and> (\<exists>w \<in> set (d_departments d1). dp_id w = k))"
    unfolding row by simp
qed

definition reported :: "dir_error \<Rightarrow> bool" where
  \<comment> \<open>the errors the synchronization records\<close>
  "reported e \<longleftrightarrow> (case e of Ad_Error _ \<Rightarrow> False | Ad_Crash _ \<Rightarrow> False | _ \<Rightarrow> True)"

text \<open>C18: A synchronization whose source answers makes the members of the department exactly those of the
  directory group, each once and with its present attributes, keeps the row of everyone who stays, leaves
  every other department and its members alone, clears the error, and never makes a department its own
  parent. When the source reports an outage or a missing group or person, no member row changes.\<close>

theorem sync_exact:
  assumes "dirs_ok d" and "x \<in> set (d_departments d)" and "dp_ad_group_dn x = Some gdn" and "gdn \<noteq> []" and "dp_manager_dn x = Some mdn" and "mdn \<noteq> []"
    and "get_directory_source E g d = Inr src"
  shows "(\<forall>r. as_sync src gdn mdn = Inr r \<and> gr_name (sr_group r) \<noteq> None \<and> distinct (map mr_dn (sr_members r)) \<longrightarrow>
      (\<exists>y d1 z. sync_department E g x actor d = (Inr y, d1, d1) \<and>
        member_view ` set (members_of d1 (dp_id x)) = record_view ` set (sr_members r) \<and>
        length (members_of d1 (dp_id x)) = length (sr_members r) \<and>
        (\<forall>m \<in> set (members_of d (dp_id x)). dm_user_dn m \<in> mr_dn ` set (sr_members r) \<longrightarrow>
           (\<exists>n \<in> set (members_of d1 (dp_id x)). dm_id n = dm_id m \<and> dm_user_dn n = dm_user_dn m)) \<and>
        (\<forall>j. j \<noteq> dp_id x \<longrightarrow> members_of d1 j = members_of d j \<and> get_row dp_id (d_departments d1) j = get_row dp_id (d_departments d) j) \<and>
        get_row dp_id (d_departments d1) (dp_id x) = Some z \<and> dp_sync_status z = ''ok'' \<and> dp_last_sync_error z = None \<and>
        dp_parent_id z \<noteq> Some (dp_id x))) \<and>
    (\<forall>e. as_sync src gdn mdn = Inl e \<and> reported e \<longrightarrow>
      (\<exists>d1. sync_department E g x actor d = (Inl e, d1, d1) \<and> d_dept_members d1 = d_dept_members d \<and>
        map dp_id (d_departments d1) = map dp_id (d_departments d)))"
proof (intro conjI allI impI)
  fix r
  assume r: "as_sync src gdn mdn = Inr r \<and> gr_name (sr_group r) \<noteq> None \<and> distinct (map mr_dn (sr_members r))"
  let ?d0 = "add_audit None actor ''org.sync.start'' (Some (''dept:'' @ dp_slug x)) None None d"
  obtain y d1 where a: "apply_sync r actor x ?d0 = (y, d1)"
    by (cases "apply_sync r actor x ?d0")
  have "distinct (filter (\<lambda>dn. dn \<notin> dm_user_dn ` set (members_of d (dp_id x))) (map mr_dn (sr_members r)))"
    using r by (simp only: distinct_filter)
  then have "\<not> sync_refused r (members_of d (dp_id x))"
    using r by (simp add: sync_refused_def)
  then have s: "sync_department E g x actor d = (Inr y, d1, d1)"
    using assms(3-7) r a by (simp add: sync_department_def Let_def)
  have ok: "dirs_ok ?d0" "x \<in> set (d_departments ?d0)" "distinct (map mr_dn (sr_members r))"
    using assms(1,2) r by (simp_all add: dirs_ok_def)
  note L = apply_sync_laws [OF ok a]
  obtain z where z: "get_row dp_id (d_departments d1) (dp_id x) = Some z" "dp_sync_status z = ''ok''" "dp_last_sync_error z = None"
      "dp_parent_id z \<noteq> Some (dp_id x)"
    using L(5) by auto
  show "\<exists>y d1 z. sync_department E g x actor d = (Inr y, d1, d1) \<and>
        member_view ` set (members_of d1 (dp_id x)) = record_view ` set (sr_members r) \<and>
        length (members_of d1 (dp_id x)) = length (sr_members r) \<and>
        (\<forall>m \<in> set (members_of d (dp_id x)). dm_user_dn m \<in> mr_dn ` set (sr_members r) \<longrightarrow>
           (\<exists>n \<in> set (members_of d1 (dp_id x)). dm_id n = dm_id m \<and> dm_user_dn n = dm_user_dn m)) \<and>
        (\<forall>j. j \<noteq> dp_id x \<longrightarrow> members_of d1 j = members_of d j \<and> get_row dp_id (d_departments d1) j = get_row dp_id (d_departments d) j) \<and>
        get_row dp_id (d_departments d1) (dp_id x) = Some z \<and> dp_sync_status z = ''ok'' \<and> dp_last_sync_error z = None \<and>
        dp_parent_id z \<noteq> Some (dp_id x)"
    using s L(1-4) z by (intro exI conjI) auto
next
  fix e
  assume e: "as_sync src gdn mdn = Inl e \<and> reported e"
  have "map dp_id (d_departments (upd_dept i (\<lambda>z. z\<lparr>dp_last_sync_error := m, dp_sync_status := t\<rparr>) d0)) = map dp_id (d_departments d0)" for i m t d0
    by (rule upd_dept_ids) simp
  then show "\<exists>d1. sync_department E g x actor d = (Inl e, d1, d1) \<and> d_dept_members d1 = d_dept_members d \<and>
      map dp_id (d_departments d1) = map dp_id (d_departments d)"
    using assms(3-7) e by (cases e) (simp_all add: sync_department_def reported_def Let_def)
qed

definition demo_dept :: "int \<Rightarrow> int \<Rightarrow> string \<Rightarrow> string \<Rightarrow> department" where
  "demo_dept i t name boss = \<lparr>dp_id = i, dp_name = name, dp_tenant_id = t, dp_slug = py_lower name, dp_description = None, dp_ad_group_name = name,
     dp_ad_group_dn = Some (acme_group name), dp_manager_input = boss, dp_manager_dn = Some (acme boss), dp_manager_name = Some boss,
     dp_manager_email = None, dp_manager_title = None, dp_parent_id = None, dp_last_synced_at = None, dp_last_sync_error = Some ''old'',
     dp_sync_status = ''error'', dp_created_at = 0, dp_updated_at = 0\<rparr>"

definition demo_member :: "int \<Rightarrow> int \<Rightarrow> string \<Rightarrow> dept_member" where
  "demo_member k i cn = new_member k i 0 \<lparr>mr_dn = acme cn, mr_name = cn, mr_email = None, mr_title = None, mr_phone = None, mr_enabled = True,
     mr_manager_dn = None, mr_manager_name = None\<rparr>"

definition demo_dirs :: db where
  \<comment> \<open>the help desk below operations, with someone who left and someone who stays\<close>
  "demo_dirs = demo_db\<lparr>d_departments := [demo_dept 1 1 ''Operations'' ''Dave Ops'', demo_dept 2 1 ''Helpdesk'' ''Eve Help''],
     d_dept_members := [demo_member 1 2 ''Gone'', demo_member 2 2 ''Frank Junior'', demo_member 3 1 ''Dave Ops'']\<rparr>"

definition demo_dir_env :: dir_env where
  "demo_dir_env = \<lparr>di_backend = local_backend (\<lambda>_ v. v) Some 0, di_https = False, di_port = 5985, di_transport = ''ntlm'',
     di_run_ps = (\<lambda>_ _ _. No_Pywinrm), di_loads = (\<lambda>_. None), di_cell = (\<lambda>_. [])\<rparr>"

theorem sync_exact_witness:
  "\<exists>y d1 z. sync_department demo_dir_env \<lparr>dg_adapter = ''mock'', dg_jumpbox = None\<rparr> (demo_dept 2 1 ''Helpdesk'' ''Eve Help'') (Some 1) demo_dirs = (Inr y, d1, d1) \<and>
     length (members_of d1 2) = 3 \<and> get_row dp_id (d_departments d1) 2 = Some z \<and> dp_sync_status z = ''ok''"
proof -
  let ?x = "demo_dept 2 1 ''Helpdesk'' ''Eve Help''" and ?g = "\<lparr>dg_adapter = ''mock'', dg_jumpbox = None\<rparr>"
  have "dirs_ok demo_dirs"
    by (simp add: dirs_ok_def uniq_ids_def demo_dirs_def demo_dept_def demo_member_def new_member_def acme_def)
  moreover have "?x \<in> set (d_departments demo_dirs)"
    by (simp add: demo_dirs_def)
  moreover have "dp_ad_group_dn ?x = Some (acme_group ''Helpdesk'')" "acme_group ''Helpdesk'' \<noteq> []" "dp_manager_dn ?x = Some (acme ''Eve Help'')"
      "acme ''Eve Help'' \<noteq> []" "dp_id ?x = 2"
    by (simp_all add: demo_dept_def acme_group_def acme_def)
  moreover have "get_directory_source demo_dir_env ?g demo_dirs = Inr mock_source"
    by (simp add: get_directory_source_def)
  moreover have "(case as_sync mock_source (acme_group ''Helpdesk'') (acme ''Eve Help'') of Inl _ \<Rightarrow> False
      | Inr r \<Rightarrow> gr_name (sr_group r) \<noteq> None \<and> distinct (map mr_dn (sr_members r)) \<and> length (sr_members r) = 3)"
    by code_simp
  ultimately show ?thesis
    using sync_exact [of demo_dirs ?x "acme_group ''Helpdesk''" "acme ''Eve Help''" demo_dir_env ?g mock_source "Some 1"]
    by (auto split: sum.splits)
qed

text \<open>
  The jumpbox source never reports a person as missing: the marker the lookup searches for in the message
  is not in the text the reader raises for it.
\<close>

lemma winrm_missing_person_is_outage:
  assumes "di_run_ps E w (ps_prelude [(''USER_ID'', i)]) Resolve_User_PS = Ran 0 out err" and "py_strip out \<noteq> []"
    and "di_loads E (py_strip out) = Some (JObj [(''error'', JStr ''not_found'')])"
  shows "winrm_resolve_user E w i = Inl (Ad_Unreachable ''not found in AD'')"
proof -
  have "run_ps E w [(''USER_ID'', i)] Resolve_User_PS = Inl (Ad_Unreachable ''not found in AD'')"
    using assms by (simp add: run_ps_def parse_or_raise_def Let_def dict_get_def)
  moreover have "\<not> has_not_found ''not found in AD''"
    by code_simp
  ultimately show ?thesis
    by (simp add: winrm_resolve_user_def reroute_def)
qed
end
