(* ===== verification/Dosm_Departments.thy ===== *)
theory Dosm_Departments
  imports Dosm_Docs Dosm_Directory
begin

text \<open>
  The department routes (\<open>dosm/org/routes.py\<close>) and the synchronization tool of the agent
  (\<open>dosm/agent/actions.py\<close>), over the synchronization of \<open>Dosm_Directory\<close>. A handler that returns commits
  what its session holds; one that raises leaves what was committed before. The contact card of a department
  is a file of the vault. Rendering and the pages that only list rows are left out.
\<close>

section \<open>Reads\<close>

definition is_configured :: "dir_config \<Rightarrow> bool" where
  "is_configured g \<longleftrightarrow> dg_adapter g = ''mock'' \<or> dg_jumpbox g \<noteq> None"

definition jumpbox_host :: "dir_config \<Rightarrow> db \<Rightarrow> host option" where
  "jumpbox_host g d = (case dg_jumpbox g of None \<Rightarrow> None | Some i \<Rightarrow> if i = 0 then None else get_row h_id (d_hosts d) i)"

definition dept_named :: "db \<Rightarrow> string \<Rightarrow> int option \<Rightarrow> department list" where
  "dept_named d slug tid = where_opt (tenant_clause dp_tenant_id tid) (filter (\<lambda>x. dp_slug x = slug) (d_departments d))"

definition get_dept :: "db \<Rightarrow> string \<Rightarrow> int option \<Rightarrow> response + department" where
  \<comment> \<open>with the 404 of the routes; a slug of two tenants is one too many for the whole fleet\<close>
  "get_dept d slug tid = (case dept_named d slug tid of [] \<Rightarrow> Inl (HttpError 404 ''Not Found'') | [x] \<Rightarrow> Inr x
     | _ \<Rightarrow> Inl (Crash ''MultipleResultsFound''))"

definition list_all_depts :: "db \<Rightarrow> int option \<Rightarrow> department list" where
  "list_all_depts d tid = where_opt (tenant_clause dp_tenant_id tid) (sort_key dp_name (d_departments d))"

definition dept_slug :: "db \<Rightarrow> string \<Rightarrow> int \<Rightarrow> string option" where
  \<comment> \<open>\<open>_find_unique_slug\<close>; the fuel is one more than the number of taken slugs\<close>
  "dept_slug d base t = (let taken = map dp_slug (filter (\<lambda>x. dp_tenant_id x = t) (d_departments d)) in
     if base \<notin> set taken then Some base else first_free (Suc (length taken)) (dash_name base) taken 2)"

definition members_by_name :: "db \<Rightarrow> int \<Rightarrow> dept_member list" where
  "members_by_name d i = sort_key dm_display_name (members_of d i)"

section \<open>The tree\<close>

datatype dept_tree = Dept_Tree (dn_id: int) (dn_name: string) (dn_slug: string) (dn_manager: string) (dn_members: int) (dn_children: "dept_tree list")

datatype tree_json =
    One_Root dept_tree
  | Organisation "dept_tree list"

definition in_nodes :: "department list \<Rightarrow> int option \<Rightarrow> bool" where
  "in_nodes depts p \<longleftrightarrow> (\<exists>i. p = Some i \<and> i \<noteq> 0 \<and> i \<in> dp_id ` set depts)"

lemma in_nodes_code [code]:
  "in_nodes depts p \<longleftrightarrow> (case p of None \<Rightarrow> False | Some i \<Rightarrow> i \<noteq> 0 \<and> i \<in> set (map dp_id depts))"
  by (cases p) (auto simp: in_nodes_def)

fun dept_node :: "nat \<Rightarrow> db \<Rightarrow> department list \<Rightarrow> department \<Rightarrow> dept_tree" where
  \<comment> \<open>what the nested lists reachable from a root render to; the fuel is the number of departments\<close>
  "dept_node n d depts x = Dept_Tree (dp_id x) (dp_name x) (dp_slug x) (or_default (dp_manager_name x) [])
     (int (length (members_of d (dp_id x))))
     (case n of 0 \<Rightarrow> [] | Suc k \<Rightarrow> map (dept_node k d depts) (filter (\<lambda>y. dp_parent_id y = Some (dp_id x) \<and> dp_id x \<noteq> 0) depts))"

definition org_tree :: "session \<Rightarrow> db \<Rightarrow> response + tree_json" where
  "org_tree s d = bind_r (require_user ''/org/tree.json'' s d) (\<lambda>u. let depts = list_all_depts d (active_tenant_id s u) in
     Inr (case map (dept_node (length depts) d depts) (filter (\<lambda>x. \<not> in_nodes depts (dp_parent_id x)) depts) of
       [r] \<Rightarrow> One_Root r | rs \<Rightarrow> Organisation rs))"

section \<open>The contact card\<close>

definition when_text :: "string option \<Rightarrow> (string \<Rightarrow> 'a list) \<Rightarrow> 'a list" where
  \<comment> \<open>\<open>f(o) if o else []\<close>\<close>
  "when_text v f = (case v of None \<Rightarrow> [] | Some t \<Rightarrow> if t = [] then [] else f t)"

definition member_line :: "dept_member \<Rightarrow> string" where
  "member_line m = ''- '' @ dm_display_name m @ when_text (dm_title m) (\<lambda>t. '' - '' @ t) @ when_text (dm_email m) (\<lambda>t. '' - '' @ t) @
     (if dm_enabled m then [] else '' *(disabled)*'')"

definition card_lines :: "department \<Rightarrow> dept_member list \<Rightarrow> string list" where
  "card_lines x ms = [''---'', ''title: '' @ dp_name x, ''folder: _unfiled'', ''---'', [], ''# '' @ dp_name x, []] @
     when_text (dp_description x) (\<lambda>t. [t, []]) @
     when_text (dp_manager_name x) (\<lambda>n. [''**Manager:** '' @ n @ when_text (dp_manager_email x) (\<lambda>t. '' - '' @ t) @
       when_text (dp_manager_title x) (\<lambda>t. '' ('' @ t @ '')''), []]) @
     (if ms = [] then [] else [''## Members'', []] @ map member_line ms @ [[]])"

definition card_path :: "department \<Rightarrow> string" where
  "card_path x = ''org/'' @ dp_slug x @ ''.md''"

definition card_text :: "department \<Rightarrow> dept_member list \<Rightarrow> string" where
  "card_text x ms = join_with [CHR 0x0A] (card_lines x ms)"

definition sync_doc :: "department \<Rightarrow> dept_member list \<Rightarrow> db \<Rightarrow> response + db" where
  "sync_doc x ms d = bind_r (or_crash (store_write (d_now d) (d_vault d) (card_path x) (card_text x ms))) (\<lambda>v. Inr (d\<lparr>d_vault := v\<rparr>))"

definition delete_card :: "department \<Rightarrow> db \<Rightarrow> response + db" where
  "delete_card x d = (case store_delete (d_vault d) (card_path x) of Inl No_Such_File \<Rightarrow> Inr d
     | Inl e \<Rightarrow> Inl (store_crash e) | Inr v \<Rightarrow> Inr (d\<lparr>d_vault := v\<rparr>))"

definition leave_card :: "int \<Rightarrow> (db \<Rightarrow> int \<Rightarrow> dept_member list) \<Rightarrow> response \<Rightarrow> db \<Rightarrow> db \<Rightarrow> response \<times> db" where
  \<comment> \<open>the end of a handler: the card from the row in the session; the background reindexing reads it later\<close>
  "leave_card i listing r committed d = (case get_row dp_id (d_departments d) i of None \<Rightarrow> (Crash ''ObjectDeletedError'', committed)
     | Some x \<Rightarrow> on_ok (sync_doc x (listing d i) d) committed (\<lambda>d1. (r, d1)))"

definition org_list :: "dir_config \<Rightarrow> session \<Rightarrow> db \<Rightarrow> response + (department list \<times> (dept_member \<times> department) list \<times> bool \<times> host option)" where
  "org_list g s d = bind_r (require_user ''/org'' s d) (\<lambda>u. let tid = active_tenant_id s u in
     Inr (list_all_depts d tid,
       List.map_filter (\<lambda>m. case where_opt (tenant_clause dp_tenant_id tid) (filter (\<lambda>x. dp_id x = dm_department_id m) (d_departments d)) of
           [] \<Rightarrow> None | x # _ \<Rightarrow> Some (m, x)) (sort_key dm_display_name (d_dept_members d)),
       is_configured g, jumpbox_host g d))"

definition org_detail :: "string \<Rightarrow> session \<Rightarrow> db \<Rightarrow> response + (department \<times> dept_member list)" where
  "org_detail slug s d = bind_r (require_user (''/org/'' @ slug) s d) (\<lambda>u. bind_r (get_dept d slug (active_tenant_id s u)) (\<lambda>x.
     Inr (x, members_by_name d (dp_id x))))"

section \<open>Configuring the source\<close>

definition org_configure_save :: "string \<Rightarrow> string option \<Rightarrow> dir_config \<Rightarrow> session \<Rightarrow> db \<Rightarrow> (response \<times> dir_config) \<times> db" where
  \<comment> \<open>the live configuration is updated; the file beside it is not in the model\<close>
  "org_configure_save host_id use_mock g s d = (let keep = (\<lambda>r. ((r, g), d)) in
     case require_admin ''/org/configure'' s d of Inl r \<Rightarrow> keep r
     | Inr u \<Rightarrow> let tid = active_tenant_id s u; mock_on = (case use_mock of None \<Rightarrow> False | Some t \<Rightarrow> t \<noteq> []);
         adapter = (if mock_on then ''mock'' else ''winrm_jumpbox'');
         save = (\<lambda>i. ((Redirect ''/org/configure?saved=1'', \<lparr>dg_adapter = adapter, dg_jumpbox = i\<rparr>),
           add_audit tid (Some (u_id u)) ''org.config.update'' (Some ''directory'')
             (Some (''adapter='' @ adapter @ '' ad_jumpbox_host_id='' @ (case i of None \<Rightarrow> ''None'' | Some k \<Rightarrow> str_int k))) None d)) in
       if mock_on \<or> py_strip host_id = [] then save None
       else (case py_int host_id of None \<Rightarrow> keep (Crash ''ValueError'')
         | Some i \<Rightarrow> (case get_row h_id (d_hosts d) i of None \<Rightarrow> keep (HttpError 400 (''host id '' @ str_int i @ '' not found''))
           | Some h \<Rightarrow>
               if tid \<noteq> None \<and> tid \<noteq> Some (h_tenant_id h) then keep (HttpError 400 (''host id '' @ str_int i @ '' not found''))
               else if (case h_credential_id h of None \<Rightarrow> None | Some c \<Rightarrow> get_row c_id (d_credentials d) c) = None
               then keep (Page 400 (Some (py_repr (h_name h) @ '' has no credential profile attached. Set one on the Hosts page first.'')))
               else save (Some i))))"

definition dir_type :: "dir_error \<Rightarrow> string" where
  "dir_type e = (case e of Ad_Error _ \<Rightarrow> ''AdDirectoryError'' | Ad_Unreachable _ \<Rightarrow> ''AdDirectoryUnreachable''
     | Ad_Group_Not_Found _ \<Rightarrow> ''AdGroupNotFound'' | Ad_User_Not_Found _ \<Rightarrow> ''AdUserNotFound'' | Ad_Crash t \<Rightarrow> t)"

definition org_configure_test :: "dir_env \<Rightarrow> dir_config \<Rightarrow> session \<Rightarrow> db \<Rightarrow> response + (response \<times> (bool \<times> string) option)" where
  \<comment> \<open>with the result shown on the page\<close>
  "org_configure_test E g s d = bind_r (require_admin ''/org/configure/test'' s d) (\<lambda>u.
     if \<not> is_configured g then Inr (Page 400 (Some ''Save a configuration first, then test.''), None)
     else Inr (Page 200 None, Some (case bind_r (get_directory_source E g d) as_test of
         Inr domain \<Rightarrow> (True, ''OK - connected to AD domain '' @ py_repr domain)
       | Inl e \<Rightarrow> (False, dir_type e @ '': '' @ dir_text e))))"

section \<open>Creating, synchronizing, editing, deleting\<close>

definition lookup_failed :: "string \<Rightarrow> string \<Rightarrow> dir_error \<Rightarrow> response" where
  "lookup_failed grp manager e = (case e of
     Ad_Group_Not_Found _ \<Rightarrow> Page 400 (Some (''AD group '' @ py_repr grp @ '' was not found.''))
   | Ad_User_Not_Found _ \<Rightarrow> Page 400 (Some (''Manager '' @ py_repr manager @ '' was not found in AD.''))
   | Ad_Crash t \<Rightarrow> Crash t
   | _ \<Rightarrow> Page 502 (Some (''AD lookup failed: '' @ dir_text e)))"

definition new_dept :: "int \<Rightarrow> int \<Rightarrow> string \<Rightarrow> string \<Rightarrow> string \<Rightarrow> string \<Rightarrow> string \<Rightarrow> string option \<Rightarrow> user_record \<Rightarrow> stamp \<Rightarrow> department" where
  "new_dept i t name slug description grp manager gdn m now = \<lparr>dp_id = i, dp_name = name, dp_tenant_id = t, dp_slug = slug,
     dp_description = or_none (py_strip description), dp_ad_group_name = grp, dp_ad_group_dn = gdn, dp_manager_input = manager,
     dp_manager_dn = ur_dn m, dp_manager_name = Some (ur_name m), dp_manager_email = ur_email m, dp_manager_title = ur_title m,
     dp_parent_id = None, dp_last_synced_at = None, dp_last_sync_error = None, dp_sync_status = ''pending'', dp_created_at = now,
     dp_updated_at = now\<rparr>"

definition name_of_other :: "db \<Rightarrow> int \<Rightarrow> string \<Rightarrow> int option \<Rightarrow> bool" where
  \<comment> \<open>\<open>uq_department_tenant_name\<close> refuses the name\<close>
  "name_of_other d t name self \<longleftrightarrow> (\<exists>y \<in> set (d_departments d). dp_tenant_id y = t \<and> dp_name y = name \<and> Some (dp_id y) \<noteq> self)"

definition org_create :: "dir_env \<Rightarrow> dir_config \<Rightarrow> string \<Rightarrow> string \<Rightarrow> string \<Rightarrow> string \<Rightarrow> session \<Rightarrow> db \<Rightarrow> response \<times> db" where
  "org_create E g name0 ad_group manager0 description s d =
     on_ok (require_user ''/org/new'' s d) d (\<lambda>u. on_ok (require_active_tenant s u) d (\<lambda>t.
     let name = py_strip name0; grp = py_strip ad_group; manager = py_strip manager0 in
     if \<not> is_configured g then (HttpError 400 ''AD jumpbox not configured'', d)
     else (case resolve_inputs E g d grp manager of Inl e \<Rightarrow> (lookup_failed grp manager e, d)
       | Inr (gdn, m) \<Rightarrow> (case dept_slug d (slug_of ''department'' name) t of None \<Rightarrow> (Crash ''the search for a slug does not end'', d)
         | Some slug \<Rightarrow> if name_of_other d t name None then (Crash ''IntegrityError'', d)
           else let x = new_dept (next_id dp_id (d_departments d)) t name slug description grp manager gdn m (d_now d);
             d1 = add_audit (Some t) (Some (u_id u)) ''org.create'' (Some (''dept:'' @ slug)) None None (d\<lparr>d_departments := d_departments d @ [x]\<rparr>)
           in (case sync_department E g x (Some (u_id u)) d1 of
               (Inl (Ad_Crash e), committed, _) \<Rightarrow> (Crash e, committed)
             | (_, committed, d2) \<Rightarrow> leave_card (dp_id x) members_by_name (Redirect (''/org/'' @ slug)) committed d2)))))"

definition org_sync :: "dir_env \<Rightarrow> dir_config \<Rightarrow> string \<Rightarrow> session \<Rightarrow> db \<Rightarrow> response \<times> db" where
  "org_sync E g slug s d = on_ok (require_user (''/org/'' @ slug @ ''/sync'') s d) d (\<lambda>u. on_ok (get_dept d slug (active_tenant_id s u)) d (\<lambda>x.
     if \<not> is_configured g then (HttpError 400 ''AD jumpbox not configured'', d)
     else (case sync_department E g x (Some (u_id u)) d of
         (Inl (Ad_Crash e), committed, _) \<Rightarrow> (Crash e, committed)
       | (Inl e, _, d1) \<Rightarrow> (Redirect (''/org/'' @ slug @ ''?err='' @ take 200 (dir_text e)), d1)
       | (Inr _, committed, d1) \<Rightarrow> leave_card (dp_id x) members_of (Redirect (''/org/'' @ slug @ ''?synced=1'')) committed d1)))"

definition org_update :: "dir_env \<Rightarrow> dir_config \<Rightarrow> string \<Rightarrow> string \<Rightarrow> string \<Rightarrow> string \<Rightarrow> string \<Rightarrow> session \<Rightarrow> db \<Rightarrow> response \<times> db" where
  "org_update E g slug name0 ad_group manager0 description s d =
     on_ok (require_user (''/org/'' @ slug @ ''/edit'') s d) d (\<lambda>u. on_ok (get_dept d slug (active_tenant_id s u)) d (\<lambda>x.
     let name = py_strip name0; grp = py_strip ad_group; manager = py_strip manager0 in
     on_ok (if grp = dp_ad_group_name x \<and> manager = dp_manager_input x then Inr (\<lambda>z. z)
         else (case resolve_inputs E g d grp manager of Inl e \<Rightarrow> Inl (lookup_failed grp manager e)
           | Inr (gdn, m) \<Rightarrow> Inr (\<lambda>z. z\<lparr>dp_ad_group_name := grp, dp_ad_group_dn := gdn, dp_manager_input := manager, dp_manager_dn := ur_dn m,
               dp_manager_name := Some (ur_name m), dp_manager_email := ur_email m, dp_manager_title := ur_title m, dp_sync_status := ''pending''\<rparr>))) d (\<lambda>f.
     if name_of_other d (dp_tenant_id x) name (Some (dp_id x)) then (Crash ''IntegrityError'', d)
     else let d1 = add_audit (Some (dp_tenant_id x)) (Some (u_id u)) ''org.update'' (Some (''dept:'' @ dp_slug x)) None None
         (upd_dept (dp_id x) (\<lambda>z. (f z)\<lparr>dp_name := name, dp_description := or_none (py_strip description)\<rparr>) d)
     in leave_card (dp_id x) members_by_name (Redirect (''/org/'' @ dp_slug x @ ''?saved=1'')) d1 d1)))"

definition drop_dept :: "int \<Rightarrow> db \<Rightarrow> db" where
  \<comment> \<open>the mapper clears the parent of the children, which touches them, and deletes the members\<close>
  "drop_dept i d = d\<lparr>d_dept_members := del_rows (\<lambda>m. dm_department_id m = i) (d_dept_members d),
     d_departments := map (\<lambda>y. if dp_parent_id y = Some i then y\<lparr>dp_parent_id := None, dp_updated_at := d_now d\<rparr> else y)
       (del_rows (\<lambda>y. dp_id y = i) (d_departments d))\<rparr>"

definition org_delete :: "string \<Rightarrow> session \<Rightarrow> db \<Rightarrow> response \<times> db" where
  "org_delete slug s d = on_ok (require_user (''/org/'' @ slug @ ''/delete'') s d) d (\<lambda>u. on_ok (get_dept d slug (active_tenant_id s u)) d (\<lambda>x.
     on_ok (delete_card x d) d (\<lambda>d1. (Redirect ''/org'',
       add_audit (Some (dp_tenant_id x)) (Some (u_id u)) ''org.delete'' (Some (''dept:'' @ slug)) None None (drop_dept (dp_id x) d1)))))"

section \<open>The tool of the agent\<close>

definition dir_exn :: "action_env \<Rightarrow> dir_error \<Rightarrow> py_exception" where
  "dir_exn X e = (case e of Ad_Crash t \<Rightarrow> ax_exn X t | _ \<Rightarrow> py_exn (dir_type e) (dir_text e))"

definition summary_json :: "sync_summary \<Rightarrow> json" where
  "summary_json y = JObj [(''added'', JInt (sy_added y)), (''removed'', JInt (sy_removed y)), (''kept'', JInt (sy_kept y)),
     (''parent_changed'', JBool (sy_parent_changed y)), (''parent_id'', (case sy_parent_id y of None \<Rightarrow> JNull | Some i \<Rightarrow> JInt i)),
     (''manager_chain_depth'', JInt (sy_depth y))]"

definition sync_org_group_runner :: "action_env \<Rightarrow> dir_env \<Rightarrow> dir_config \<Rightarrow> int option \<Rightarrow> dict \<Rightarrow> db \<Rightarrow> run_result" where
  \<comment> \<open>the second session rolls back what the synchronization has not committed\<close>
  "sync_org_group_runner X E g tid a d = settle d (bind_r (arg_text a ''group_name'' []) (\<lambda>grp.
     if grp = [] then refuse d ''group_name is required'' else
     bind_r (one_or_none X (where_opt (tenant_clause dp_tenant_id tid) (filter (\<lambda>x. dp_ad_group_name x = grp) (d_departments d)))) (\<lambda>found.
     case found of None \<Rightarrow> refuse d (''No department with AD group name '' @ py_repr grp)
     | Some x \<Rightarrow> (case sync_department E g x None d of
         (Inl e, committed, _) \<Rightarrow> fail_exn committed ''AD sync failed'' (dir_exn X e)
       | (Inr y, committed, _) \<Rightarrow> Inr ((plain_result True (''Synced '' @ py_repr (dp_name x) @ '': +'' @ str_int (sy_added y) @ '' added, -'' @
           str_int (sy_removed y) @ '' removed, ='' @ str_int (sy_kept y) @ '' kept in '' @ str_int (ax_ms X) @ ''ms''))
             \<lparr>ar_duration_ms := Some (ax_ms X), ar_extra := [(''summary'', summary_json y)]\<rparr>, committed)))))"

section \<open>What a request may do\<close>

text \<open>
  \<open>dept_effect t d d1\<close>: the state comes from \<open>d\<close> by writes of the directory for departments of tenant \<open>t\<close>,
  audit rows and writes of the vault. The parent of a department may be of any tenant, and so may the children
  whose parent a deletion clears.
\<close>

inductive dept_effect :: "int \<Rightarrow> db \<Rightarrow> db \<Rightarrow> bool" for t d where
  de_none: "dept_effect t d d"
| de_audit: "dept_effect t d d1 \<Longrightarrow> dept_effect t d (add_audit tid a x g e i d1)"
| de_vault: "dept_effect t d d1 \<Longrightarrow> dept_effect t d (d1\<lparr>d_vault := v\<rparr>)"
| de_create: "dept_effect t d d1 \<Longrightarrow> dp_id x = next_id dp_id (d_departments d1) \<Longrightarrow> dp_tenant_id x = t \<Longrightarrow> dp_parent_id x = None \<Longrightarrow>
    (t, dp_slug x) \<notin> (\<lambda>y. (dp_tenant_id y, dp_slug y)) ` set (d_departments d1) \<Longrightarrow> \<not> name_of_other d1 t (dp_name x) None \<Longrightarrow>
    dept_effect t d (d1\<lparr>d_departments := d_departments d1 @ [x]\<rparr>)"
| de_update: "dept_effect t d d1 \<Longrightarrow> x \<in> set (d_departments d1) \<Longrightarrow> dp_tenant_id x = t \<Longrightarrow>
    (\<And>z. dp_id (f z) = dp_id z \<and> dp_tenant_id (f z) = dp_tenant_id z \<and> dp_slug (f z) = dp_slug z) \<Longrightarrow>
    \<not> name_of_other d1 t (dp_name (f x)) (Some (dp_id x)) \<Longrightarrow>
    dp_parent_id (f x) = dp_parent_id x \<or> (\<forall>k. dp_parent_id (f x) = Some k \<longrightarrow> k \<noteq> dp_id x \<and> k \<in> dp_id ` set (d_departments d1)) \<Longrightarrow>
    dept_effect t d (upd_dept (dp_id x) f d1)"
| de_members: "dept_effect t d d1 \<Longrightarrow> x \<in> set (d_departments d1) \<Longrightarrow> dp_tenant_id x = t \<Longrightarrow>
    distinct (filter (\<lambda>dn. dn \<notin> dm_user_dn ` set (members_of d1 (dp_id x))) (map mr_dn ms)) \<Longrightarrow>
    dept_effect t d (apply_members (dp_id x) ms d1)"
| de_delete: "dept_effect t d d1 \<Longrightarrow> x \<in> set (d_departments d1) \<Longrightarrow> dp_tenant_id x = t \<Longrightarrow> dept_effect t d (drop_dept (dp_id x) d1)"

definition depts_ok :: "db \<Rightarrow> bool" where
  \<comment> \<open>the constraints of the tables, and no department is its own parent\<close>
  "depts_ok d \<longleftrightarrow> dirs_ok d \<and> distinct (map (\<lambda>x. (dp_tenant_id x, dp_slug x)) (d_departments d)) \<and>
     distinct (map (\<lambda>x. (dp_tenant_id x, dp_name x)) (d_departments d)) \<and>
     (\<forall>x \<in> set (d_departments d). \<forall>k. dp_parent_id x = Some k \<longrightarrow> k \<noteq> dp_id x \<and> k \<in> dp_id ` set (d_departments d)) \<and>
     (\<forall>m \<in> set (d_dept_members d). dm_department_id m \<in> dp_id ` set (d_departments d))"

definition foreign_depts :: "int \<Rightarrow> db \<Rightarrow> department list" where
  \<comment> \<open>the departments of other tenants, but for their parent and the time of their last change\<close>
  "foreign_depts t d = map (\<lambda>x. x\<lparr>dp_parent_id := None, dp_updated_at := 0\<rparr>) (filter (\<lambda>x. dp_tenant_id x \<noteq> t) (d_departments d))"

definition foreign_members :: "int \<Rightarrow> db \<Rightarrow> dept_member list" where
  "foreign_members t d = filter (\<lambda>m. dm_department_id m \<in> dp_id ` set (filter (\<lambda>x. dp_tenant_id x \<noteq> t) (d_departments d))) (d_dept_members d)"

definition rest_of :: "db \<Rightarrow> db" where
  \<comment> \<open>everything but the directory, the log and the vault\<close>
  "rest_of d = d\<lparr>d_departments := [], d_dept_members := [], d_audit := [], d_vault := \<lparr>va_files = [], va_dirs = []\<rparr>\<rparr>"

section \<open>Every effect keeps the directory sound and other tenants alone\<close>

lemma distinct_map_upd_row:
  assumes "uniq_ids key t" and "distinct (map g t)" and "\<And>y. y \<in> set t \<Longrightarrow> key y = i \<Longrightarrow> g (f y) \<notin> g ` {z \<in> set t. key z \<noteq> i}"
  shows "distinct (map g (upd_row key i f t))"
proof -
  have d: "distinct t" "inj_on g (set t)" "inj_on key (set t)"
    using assms(1,2) by (auto simp: distinct_map uniq_ids_def)
  have "inj_on (g \<circ> (\<lambda>r. if key r = i then f r else r)) (set t)"
  proof (rule inj_onI)
    fix a b
    assume ab: "a \<in> set t" "b \<in> set t" "(g \<circ> (\<lambda>r. if key r = i then f r else r)) a = (g \<circ> (\<lambda>r. if key r = i then f r else r)) b"
    consider "key a = i" "key b = i" | "key a = i" "key b \<noteq> i" | "key a \<noteq> i" "key b = i" | "key a \<noteq> i" "key b \<noteq> i"
      by blast
    then show "a = b"
    proof cases
      case 1
      then show ?thesis
        using ab d(3) by (simp add: inj_on_def)
    next
      case 2
      then have "g (f a) \<in> g ` {z \<in> set t. key z \<noteq> i}"
        using ab by auto
      then show ?thesis
        using assms(3) [OF ab(1)] 2(1) by blast
    next
      case 3
      then have "g (f b) \<in> g ` {z \<in> set t. key z \<noteq> i}"
        using ab by (auto intro: rev_image_eqI [of a])
      then show ?thesis
        using assms(3) [OF ab(2)] 3(2) by blast
    next
      case 4
      then show ?thesis
        using ab d(2) by (simp add: inj_on_def)
    qed
  qed
  then show ?thesis
    using d(1) by (simp add: upd_row_def distinct_map)
qed

abbreviation seat :: "dept_member \<Rightarrow> int \<times> string" where
  "seat m \<equiv> (dm_department_id m, dm_user_dn m)"

lemma fold_put_seats:
  assumes "distinct (map seat rows)" and "\<And>r. r \<in> set rows \<Longrightarrow> dm_department_id r = i \<Longrightarrow> dm_user_dn r \<in> dm_user_dn ` set old"
    and "distinct (filter (\<lambda>dn. dn \<notin> dm_user_dn ` set old) (map mr_dn ms))"
  shows "distinct (map seat (fold (put_member i now old) ms rows)) \<and>
    seat ` set (fold (put_member i now old) ms rows) = seat ` set rows \<union> Pair i ` (mr_dn ` set ms - dm_user_dn ` set old)"
  using assms(3)
proof (induction ms rule: rev_induct)
  case Nil
  then show ?case
    using assms(1) by simp
next
  case (snoc m ms)
  let ?R = "fold (put_member i now old) ms rows"
  have IH: "distinct (map seat ?R)" "seat ` set ?R = seat ` set rows \<union> Pair i ` (mr_dn ` set ms - dm_user_dn ` set old)"
    using snoc by auto
  show ?case
  proof (cases "mr_dn m \<in> dm_user_dn ` set old")
    case True
    then have E: "map seat (put_member i now old m ?R) = map seat ?R"
      by (simp add: put_member_def)
    have S: "seat ` set (put_member i now old m ?R) = seat ` set ?R"
      using arg_cong [OF E, of set] by (simp only: list.set_map)
    have "mr_dn ` set (ms @ [m]) - dm_user_dn ` set old = mr_dn ` set ms - dm_user_dn ` set old"
      using True by auto
    then show ?thesis
      using IH E S by (simp only: fold_append comp_apply fold_simps id_apply)
  next
    case False
    then have "mr_dn m \<notin> mr_dn ` set ms"
      using snoc.prems by auto
    moreover have "(i, mr_dn m) \<notin> seat ` set rows"
      using assms(2) False by fastforce
    ultimately have "(i, mr_dn m) \<notin> seat ` set ?R"
      unfolding IH(2) by auto
    moreover have "put_member i now old m ?R = ?R @ [new_member (next_id dm_id ?R) i now m]"
      using False by (simp add: put_member_def)
    ultimately show ?thesis
      using IH False by (auto simp: insert_commute)
  qed
qed

lemma put_member_elsewhere:
  assumes "i \<notin> J"
  shows "filter (\<lambda>m. dm_department_id m \<in> J) (put_member i now old m rows) = filter (\<lambda>m. dm_department_id m \<in> J) rows"
proof -
  let ?f = "\<lambda>x. if dm_department_id x = i \<and> dm_user_dn x = mr_dn m then fill_member now m x else x"
  have "filter (\<lambda>m. dm_department_id m \<in> J) (map ?f rows) = map ?f (filter (\<lambda>m. dm_department_id m \<in> J) rows)"
    by (induction rows) simp_all
  also have "\<dots> = filter (\<lambda>m. dm_department_id m \<in> J) rows"
    using assms by (intro map_idI) auto
  finally show ?thesis
    using assms by (simp add: put_member_def)
qed

lemma dept_rows_update: "d_dept_members (d\<lparr>d_dept_members := rows\<rparr>) = rows"
  by simp

lemma apply_members_elsewhere:
  assumes "i \<notin> J"
  shows "filter (\<lambda>m. dm_department_id m \<in> J) (d_dept_members (apply_members i ms d)) = filter (\<lambda>m. dm_department_id m \<in> J) (d_dept_members d)"
proof -
  have A: "filter (\<lambda>m. dm_department_id m \<in> J) (fold (put_member i now old) ms rows) = filter (\<lambda>m. dm_department_id m \<in> J) rows" for now old rows
    by (induction ms arbitrary: rows) (simp_all add: put_member_elsewhere [OF assms])
  have B: "filter (\<lambda>m. dm_department_id m \<in> J) (del_rows (\<lambda>x. dm_department_id x = i \<and> Q x) rows) = filter (\<lambda>m. dm_department_id m \<in> J) rows" for Q rows
    using assms by (induction rows) (auto simp: del_rows_def)
  show ?thesis
    unfolding apply_members_def by (simp only: B A dept_rows_update)
qed

lemma foreign_members_eq: "foreign_members t d = filter (\<lambda>m. dm_department_id m \<in> dp_id ` set (foreign_depts t d)) (d_dept_members d)"
  by (simp add: foreign_members_def foreign_depts_def image_image)

lemma touch_dept_cases: "touch_dept d f x = f x \<or> touch_dept d f x = (f x)\<lparr>dp_updated_at := d_now d\<rparr>"
  by (simp add: touch_dept_def)

lemma touch_dept_fields [simp]:
  "dp_name (touch_dept d f x) = dp_name (f x)" "dp_parent_id (touch_dept d f x) = dp_parent_id (f x)" "dp_slug (touch_dept d f x) = dp_slug (f x)"
  "dp_tenant_id (touch_dept d f x) = dp_tenant_id (f x)" "dp_id (touch_dept d f x) = dp_id (f x)"
  by (simp_all add: touch_dept_def)

section \<open>Each kind of effect\<close>

lemma create_dept_ok:
  assumes ok: "depts_ok d" and x: "dp_id x = next_id dp_id (d_departments d)" "dp_tenant_id x = t" "dp_parent_id x = None"
    and fresh: "(t, dp_slug x) \<notin> (\<lambda>y. (dp_tenant_id y, dp_slug y)) ` set (d_departments d)" "\<not> name_of_other d t (dp_name x) None"
  defines "d1 \<equiv> d\<lparr>d_departments := d_departments d @ [x]\<rparr>"
  shows "depts_ok d1" and "foreign_depts t d1 = foreign_depts t d" and "foreign_members t d1 = foreign_members t d"
proof -
  have "(t, dp_name x) \<notin> (\<lambda>y. (dp_tenant_id y, dp_name y)) ` set (d_departments d)"
    using fresh(2) by (auto simp: name_of_other_def)
  then show "depts_ok d1"
    using ok x fresh(1) uniq_ids_append_new [of dp_id "d_departments d" x] by (auto simp: depts_ok_def dirs_ok_def d1_def)
  show F: "foreign_depts t d1 = foreign_depts t d"
    using x(2) by (simp add: foreign_depts_def d1_def)
  show "foreign_members t d1 = foreign_members t d"
    unfolding foreign_members_eq F by (simp add: d1_def)
qed

lemma same_dept: "uniq_ids dp_id t \<Longrightarrow> y \<in> set t \<Longrightarrow> x \<in> set t \<Longrightarrow> dp_id y = dp_id x \<Longrightarrow> y = x"
  by (simp add: uniq_ids_def distinct_map inj_on_def)

lemma update_dept_ok:
  assumes ok: "depts_ok d" and x: "x \<in> set (d_departments d)" "dp_tenant_id x = t"
    and f: "\<And>z. dp_id (f z) = dp_id z \<and> dp_tenant_id (f z) = dp_tenant_id z \<and> dp_slug (f z) = dp_slug z"
    and n: "\<not> name_of_other d t (dp_name (f x)) (Some (dp_id x))"
    and p: "dp_parent_id (f x) = dp_parent_id x \<or> (\<forall>k. dp_parent_id (f x) = Some k \<longrightarrow> k \<noteq> dp_id x \<and> k \<in> dp_id ` set (d_departments d))"
  defines "d1 \<equiv> upd_dept (dp_id x) f d"
  shows "depts_ok d1" and "foreign_depts t d1 = foreign_depts t d" and "foreign_members t d1 = foreign_members t d"
proof -
  let ?D = "d_departments d" and ?F = "touch_dept d f"
  have D1: "d_departments d1 = upd_row dp_id (dp_id x) ?F ?D" "d_dept_members d1 = d_dept_members d"
    by (simp_all add: d1_def upd_dept_def)
  have u: "uniq_ids dp_id ?D"
    using ok by (simp add: depts_ok_def dirs_ok_def)
  have only: "y = x" if "y \<in> set ?D" "dp_id y = dp_id x" for y
    using same_dept [OF u that(1) x(1) that(2)] .
  have ids: "map dp_id (d_departments d1) = map dp_id ?D" "map (\<lambda>z. (dp_tenant_id z, dp_slug z)) (d_departments d1) = map (\<lambda>z. (dp_tenant_id z, dp_slug z)) ?D"
    unfolding D1 by (simp_all add: map_key_upd_row f) (simp add: upd_row_def f)
  have idset: "dp_id ` set (d_departments d1) = dp_id ` set ?D"
    using ids(1) by (metis list.set_map)
  have "distinct (map (\<lambda>z. (dp_tenant_id z, dp_name z)) (d_departments d1))"
    unfolding D1
  proof (rule distinct_map_upd_row [OF u])
    show "distinct (map (\<lambda>z. (dp_tenant_id z, dp_name z)) ?D)"
      using ok by (simp add: depts_ok_def)
    fix y
    assume "y \<in> set ?D" "dp_id y = dp_id x"
    then have "y = x"
      by (rule only)
    then show "(dp_tenant_id (?F y), dp_name (?F y)) \<notin> (\<lambda>z. (dp_tenant_id z, dp_name z)) ` {z \<in> set ?D. dp_id z \<noteq> dp_id x}"
      using n x(2) f by (auto simp: name_of_other_def)
  qed
  moreover have "k \<noteq> dp_id z \<and> k \<in> dp_id ` set (d_departments d1)" if z: "z \<in> set (d_departments d1)" "dp_parent_id z = Some k" for z k
  proof -
    obtain y where y: "y \<in> set ?D" "z = (if dp_id y = dp_id x then ?F y else y)"
      using z(1) unfolding D1 set_upd_row by auto
    have old: "dp_parent_id y = Some k \<Longrightarrow> k \<noteq> dp_id y \<and> k \<in> dp_id ` set ?D"
      using ok y(1) by (auto simp: depts_ok_def)
    show ?thesis
    proof (cases "dp_id y = dp_id x")
      case True
      then have "z = ?F x" "y = x"
        using y only by auto
      then show ?thesis
        unfolding idset using p z(2) old f by auto
    next
      case False
      then show ?thesis
        unfolding idset using y z(2) old by simp
    qed
  qed
  ultimately show "depts_ok d1"
    using ok u unfolding depts_ok_def dirs_ok_def uniq_ids_def ids D1(2) idset by blast
  have "map (\<lambda>z. z\<lparr>dp_parent_id := None, dp_updated_at := 0\<rparr>) (filter (\<lambda>z. dp_tenant_id z \<noteq> t) (upd_row dp_id (dp_id x) ?F xs)) =
      map (\<lambda>z. z\<lparr>dp_parent_id := None, dp_updated_at := 0\<rparr>) (filter (\<lambda>z. dp_tenant_id z \<noteq> t) xs)" if "set xs \<subseteq> set ?D" for xs
    using that by (induction xs) (auto simp: upd_row_simps upd_row_def f dest: only simp: x(2))
  then show F: "foreign_depts t d1 = foreign_depts t d"
    unfolding foreign_depts_def D1 by simp
  show "foreign_members t d1 = foreign_members t d"
    unfolding foreign_members_eq F D1(2) by simp
qed

lemma foreign_ids:
  assumes "depts_ok d" and "x \<in> set (d_departments d)" and "dp_tenant_id x = t"
  shows "dp_id x \<notin> dp_id ` set (foreign_depts t d)"
proof
  assume "dp_id x \<in> dp_id ` set (foreign_depts t d)"
  then obtain y where y: "y \<in> set (d_departments d)" "dp_tenant_id y \<noteq> t" "dp_id y = dp_id x"
    by (auto simp: foreign_depts_def)
  have "uniq_ids dp_id (d_departments d)"
    using assms(1) by (simp add: depts_ok_def dirs_ok_def)
  then have "y = x"
    using y(1,3) assms(2) same_dept by blast
  then show False
    using y(2) assms(3) by simp
qed

lemma members_dept_ok:
  assumes ok: "depts_ok d" and x: "x \<in> set (d_departments d)" "dp_tenant_id x = t"
    and ms: "distinct (filter (\<lambda>dn. dn \<notin> dm_user_dn ` set (members_of d (dp_id x))) (map mr_dn ms))"
  defines "d1 \<equiv> apply_members (dp_id x) ms d"
  shows "depts_ok d1" and "foreign_depts t d1 = foreign_depts t d" and "foreign_members t d1 = foreign_members t d"
proof -
  let ?i = "dp_id x" and ?R = "fold (put_member (dp_id x) (d_now d) (members_of d (dp_id x))) ms (d_dept_members d)"
  have D: "d_departments d1 = d_departments d" "d_dept_members d1 = del_rows (\<lambda>m. dm_department_id m = ?i \<and> dm_user_dn m \<notin> mr_dn ` set ms) ?R"
    by (simp_all add: d1_def apply_members_def)
  have seats: "distinct (map seat (d_dept_members d))"
    using ok by (simp add: depts_ok_def dirs_ok_def)
  have here: "r \<in> set (d_dept_members d) \<Longrightarrow> dm_department_id r = ?i \<Longrightarrow> dm_user_dn r \<in> dm_user_dn ` set (members_of d ?i)" for r
    by (simp add: members_of_def)
  have R: "distinct (map seat ?R) \<and> seat ` set ?R = seat ` set (d_dept_members d) \<union> Pair ?i ` (mr_dn ` set ms - dm_user_dn ` set (members_of d ?i))"
    using fold_put_seats [OF seats _ ms, of ?i "d_now d"] here by blast
  have "distinct (map seat (d_dept_members d1))"
    unfolding D del_rows_def using R by (intro distinct_map_filter) blast
  moreover have "dm_department_id m \<in> dp_id ` set (d_departments d)" if m: "m \<in> set (d_dept_members d1)" for m
  proof -
    have "seat m \<in> seat ` set ?R"
      using m unfolding D by simp
    then have "seat m \<in> seat ` set (d_dept_members d) \<or> dm_department_id m = ?i"
      unfolding R [THEN conjunct2] by auto
    then show ?thesis
      using ok x(1) by (auto simp: depts_ok_def)
  qed
  ultimately show "depts_ok d1"
    using ok by (simp add: depts_ok_def dirs_ok_def D(1))
  show F: "foreign_depts t d1 = foreign_depts t d"
    by (simp add: foreign_depts_def D(1))
  show "foreign_members t d1 = foreign_members t d"
    unfolding foreign_members_eq F unfolding d1_def by (rule apply_members_elsewhere) (rule foreign_ids [OF ok x])
qed

lemma delete_dept_ok:
  assumes ok: "depts_ok d" and x: "x \<in> set (d_departments d)" "dp_tenant_id x = t"
  defines "d1 \<equiv> drop_dept (dp_id x) d"
  shows "depts_ok d1" and "foreign_depts t d1 = foreign_depts t d" and "foreign_members t d1 = foreign_members t d"
proof -
  let ?i = "dp_id x" and ?D = "d_departments d"
  let ?f = "\<lambda>y. if dp_parent_id y = Some ?i then y\<lparr>dp_parent_id := None, dp_updated_at := d_now d\<rparr> else y"
  let ?K = "del_rows (\<lambda>y. dp_id y = ?i) ?D"
  have D: "d_departments d1 = map ?f ?K" "d_dept_members d1 = del_rows (\<lambda>m. dm_department_id m = ?i) (d_dept_members d)"
    by (simp_all add: d1_def drop_dept_def)
  have maps: "map dp_id (map ?f ?K) = map dp_id ?K" "map (\<lambda>z. (dp_tenant_id z, dp_slug z)) (map ?f ?K) = map (\<lambda>z. (dp_tenant_id z, dp_slug z)) ?K"
      "map (\<lambda>z. (dp_tenant_id z, dp_name z)) (map ?f ?K) = map (\<lambda>z. (dp_tenant_id z, dp_name z)) ?K"
    by simp_all
  have ids: "dp_id ` set (d_departments d1) = dp_id ` set ?D - {?i}"
  proof -
    have "dp_id ` set (map ?f ?K) = dp_id ` set ?K"
      using arg_cong [OF maps(1), of set] by (simp only: list.set_map)
    then show ?thesis
      unfolding D by auto
  qed
  have dist: "distinct (map g ?D) \<Longrightarrow> distinct (map g ?K)" for g :: "department \<Rightarrow> 'z"
    unfolding del_rows_def by (rule distinct_map_filter)
  have "uniq_ids dp_id (d_departments d1)"
    unfolding uniq_ids_def D maps using ok by (intro dist) (simp add: depts_ok_def dirs_ok_def uniq_ids_def)
  moreover have "distinct (map (\<lambda>z. (dp_tenant_id z, dp_slug z)) (d_departments d1))"
    unfolding D maps using ok by (intro dist) (simp add: depts_ok_def)
  moreover have "distinct (map (\<lambda>z. (dp_tenant_id z, dp_name z)) (d_departments d1))"
    unfolding D maps using ok by (intro dist) (simp add: depts_ok_def)
  moreover have "distinct (map seat (d_dept_members d1))"
    unfolding D del_rows_def using ok by (intro distinct_map_filter) (simp add: depts_ok_def dirs_ok_def)
  moreover have "k \<noteq> dp_id z \<and> k \<in> dp_id ` set (d_departments d1)" if z: "z \<in> set (d_departments d1)" "dp_parent_id z = Some k" for z k
  proof -
    obtain y where y: "y \<in> set ?D" "z = ?f y"
      using z(1) unfolding D by auto
    then have "dp_parent_id y = Some k" "k \<noteq> ?i" "dp_id z = dp_id y"
      using z(2) by (auto split: if_splits)
    then show ?thesis
      unfolding ids using ok y(1) by (auto simp: depts_ok_def)
  qed
  moreover have "\<forall>m \<in> set (d_dept_members d1). dm_department_id m \<in> dp_id ` set (d_departments d1)"
    unfolding ids D(2) using ok by (auto simp: depts_ok_def)
  ultimately show "depts_ok d1"
    by (simp add: depts_ok_def dirs_ok_def)
  have u: "uniq_ids dp_id ?D"
    using ok by (simp add: depts_ok_def dirs_ok_def)
  have "map (\<lambda>z. z\<lparr>dp_parent_id := None, dp_updated_at := 0\<rparr>) (filter (\<lambda>z. dp_tenant_id z \<noteq> t) (map ?f (del_rows (\<lambda>y. dp_id y = ?i) xs))) =
      map (\<lambda>z. z\<lparr>dp_parent_id := None, dp_updated_at := 0\<rparr>) (filter (\<lambda>z. dp_tenant_id z \<noteq> t) xs)" if "set xs \<subseteq> set ?D" for xs
    using that
  proof (induction xs)
    case (Cons y xs)
    have "dp_id y = ?i \<Longrightarrow> y = x"
      using Cons.prems by (intro same_dept [OF u _ x(1)]) auto
    then show ?case
      using Cons x(2) by (auto simp: del_rows_def)
  qed (simp add: del_rows_def)
  then show F: "foreign_depts t d1 = foreign_depts t d"
    unfolding foreign_depts_def D by simp
  have "filter (\<lambda>m. dm_department_id m \<in> J) (del_rows (\<lambda>m. dm_department_id m = ?i) ms) = filter (\<lambda>m. dm_department_id m \<in> J) ms" if "?i \<notin> J" for J ms
    using that by (induction ms) (auto simp: del_rows_def)
  then show "foreign_members t d1 = foreign_members t d"
    unfolding foreign_members_eq F D(2) using foreign_ids [OF ok x] by blast
qed

lemma rest_of_laws [simp]:
  "rest_of (add_audit tid a x g e i d) = rest_of d" "rest_of (d\<lparr>d_vault := v\<rparr>) = rest_of d" "rest_of (d\<lparr>d_departments := ds\<rparr>) = rest_of d"
  "rest_of (upd_dept k f d) = rest_of d" "rest_of (apply_members k ms d) = rest_of d" "rest_of (drop_dept k d) = rest_of d"
  by (simp_all add: rest_of_def add_audit_def upd_dept_def apply_members_def drop_dept_def)

lemma no_dept_rows:
  "depts_ok (add_audit tid a x g e i d) = depts_ok d" "depts_ok (d\<lparr>d_vault := v\<rparr>) = depts_ok d"
  "foreign_depts t (add_audit tid a x g e i d) = foreign_depts t d" "foreign_depts t (d\<lparr>d_vault := v\<rparr>) = foreign_depts t d"
  "foreign_members t (add_audit tid a x g e i d) = foreign_members t d" "foreign_members t (d\<lparr>d_vault := v\<rparr>) = foreign_members t d"
  by (simp_all add: depts_ok_def dirs_ok_def foreign_depts_def foreign_members_def)

lemma dept_effect_ok:
  assumes "dept_effect t d d1" and "depts_ok d"
  shows "depts_ok d1 \<and> foreign_depts t d1 = foreign_depts t d \<and> foreign_members t d1 = foreign_members t d \<and> rest_of d1 = rest_of d"
  using assms
proof (induction rule: dept_effect.induct)
  case (de_create d1 x)
  then show ?case
    using create_dept_ok [of d1 x t] by simp
next
  case (de_update d1 x f)
  then have "depts_ok d1" and IH: "foreign_depts t d1 = foreign_depts t d" "foreign_members t d1 = foreign_members t d" "rest_of d1 = rest_of d"
    by simp_all
  note L = update_dept_ok [OF \<open>depts_ok d1\<close> de_update.hyps(2-6)]
  show ?case
    using L IH by simp
next
  case (de_members d1 x ms)
  then show ?case
    using members_dept_ok [of d1 x t ms] by simp
next
  case (de_delete d1 x)
  then show ?case
    using delete_dept_ok [of d1 x t] by simp
qed (simp_all add: no_dept_rows)

section \<open>The routes only have such effects\<close>

definition keeps :: "int \<Rightarrow> db \<Rightarrow> int \<Rightarrow> db \<Rightarrow> bool" where
  \<comment> \<open>an effect after which department \<open>i\<close> of tenant \<open>t\<close> is there\<close>
  "keeps t d i d1 \<longleftrightarrow> depts_ok d \<and> dept_effect t d d1 \<and> (\<exists>x \<in> set (d_departments d1). dp_id x = i \<and> dp_tenant_id x = t)"

lemma keeps_ok: "keeps t d i d1 \<Longrightarrow> depts_ok d1"
  using dept_effect_ok by (auto simp: keeps_def)

lemma keeps_effect: "keeps t d i d1 \<Longrightarrow> dept_effect t d d1"
  by (simp add: keeps_def)

lemma keeps_start: "depts_ok d \<Longrightarrow> x \<in> set (d_departments d) \<Longrightarrow> keeps (dp_tenant_id x) d (dp_id x) d"
  by (auto simp: keeps_def intro: de_none)

lemma keeps_audit: "keeps t d i d1 \<Longrightarrow> keeps t d i (add_audit tid a x g e j d1)"
  by (simp add: keeps_def de_audit)

lemma keeps_members:
  assumes k: "keeps t d i d1" and "distinct (filter (\<lambda>dn. dn \<notin> dm_user_dn ` set (members_of d1 i)) (map mr_dn ms))"
  shows "keeps t d i (apply_members i ms d1)"
proof -
  obtain x where x: "x \<in> set (d_departments d1)" "dp_id x = i" "dp_tenant_id x = t"
    using k by (auto simp: keeps_def)
  then have "dept_effect t d (apply_members (dp_id x) ms d1)"
    using assms by (intro de_members) (simp_all add: keeps_def)
  moreover have "d_departments (apply_members i ms d1) = d_departments d1"
    by (simp add: apply_members_def)
  ultimately show ?thesis
    using k x by (simp add: keeps_def)
qed

lemma own_name: "depts_ok d \<Longrightarrow> x \<in> set (d_departments d) \<Longrightarrow> \<not> name_of_other d (dp_tenant_id x) (dp_name x) (Some (dp_id x))"
  by (auto simp: depts_ok_def name_of_other_def distinct_map inj_on_def)

lemma keeps_update:
  assumes k: "keeps t d i d1"
    and f: "\<And>z. dp_id (f z) = dp_id z \<and> dp_tenant_id (f z) = dp_tenant_id z \<and> dp_slug (f z) = dp_slug z"
    and n: "\<And>z. z \<in> set (d_departments d1) \<Longrightarrow> dp_id z = i \<Longrightarrow> \<not> name_of_other d1 t (dp_name (f z)) (Some i)"
    and p: "\<And>z. dp_parent_id (f z) = dp_parent_id z \<or> (\<forall>j. dp_parent_id (f z) = Some j \<longrightarrow> j \<noteq> i \<and> j \<in> dp_id ` set (d_departments d1))"
  shows "keeps t d i (upd_dept i f d1)"
proof -
  obtain x where x: "x \<in> set (d_departments d1)" "dp_id x = i" "dp_tenant_id x = t"
    using k by (auto simp: keeps_def)
  have "dept_effect t d (upd_dept (dp_id x) f d1)"
    using k x(1,3) f n [OF x(1,2)] p [of x] x(2) by (intro de_update) (simp_all add: keeps_def)
  moreover have "touch_dept d1 f x \<in> set (d_departments (upd_dept i f d1))"
    using x(1,2) by (auto simp: upd_dept_def set_upd_row intro: rev_image_eqI)
  moreover have "dp_id (touch_dept d1 f x) = i" "dp_tenant_id (touch_dept d1 f x) = t"
    using x(2,3) f by simp_all
  ultimately show ?thesis
    using k unfolding keeps_def x(2) by blast
qed

lemma keeps_same_name:
  assumes "keeps t d i d1" and "\<And>z. dp_id (f z) = dp_id z \<and> dp_tenant_id (f z) = dp_tenant_id z \<and> dp_slug (f z) = dp_slug z \<and> dp_name (f z) = dp_name z"
    and "\<And>z. dp_parent_id (f z) = dp_parent_id z \<or> (\<forall>j. dp_parent_id (f z) = Some j \<longrightarrow> j \<noteq> i \<and> j \<in> dp_id ` set (d_departments d1))"
  shows "keeps t d i (upd_dept i f d1)"
proof (rule keeps_update [OF assms(1) _ _ assms(3)])
  fix z
  show "dp_id (f z) = dp_id z \<and> dp_tenant_id (f z) = dp_tenant_id z \<and> dp_slug (f z) = dp_slug z"
    using assms(2) by simp
  assume z: "z \<in> set (d_departments d1)" "dp_id z = i"
  obtain x where x: "x \<in> set (d_departments d1)" "dp_id x = i" "dp_tenant_id x = t"
    using assms(1) by (auto simp: keeps_def)
  have "uniq_ids dp_id (d_departments d1)"
    using keeps_ok [OF assms(1)] by (simp add: depts_ok_def dirs_ok_def)
  then have "z = x"
    using z x by (intro same_dept [of "d_departments d1"]) simp_all
  then show "\<not> name_of_other d1 t (dp_name (f z)) (Some i)"
    using own_name [OF keeps_ok [OF assms(1)] x(1)] x(2,3) assms(2) by simp
qed

lemma fill_dept_keeps [simp]:
  "dp_id (fill_dept r z) = dp_id z" "dp_tenant_id (fill_dept r z) = dp_tenant_id z" "dp_slug (fill_dept r z) = dp_slug z"
  "dp_name (fill_dept r z) = dp_name z" "dp_parent_id (fill_dept r z) = dp_parent_id z"
  by (simp_all add: fill_dept_def Let_def split: option.splits)

lemma apply_sync_keeps:
  assumes k: "keeps t d0 (dp_id x) d" and r: "\<not> sync_refused r (members_of d (dp_id x))" and a: "apply_sync r actor x d = (y, d1)"
  shows "keeps t d0 (dp_id x) d1"
proof -
  let ?i = "dp_id x"
  let ?d1 = "upd_dept ?i (fill_dept r) d"
  let ?d2 = "apply_members ?i (sr_members r) ?d1"
  let ?f = "\<lambda>z. z\<lparr>dp_parent_id := infer_parent_id d ?i (sr_chain r), dp_last_synced_at := Some (d_now d), dp_last_sync_error := None, dp_sync_status := ''ok''\<rparr>"
  obtain e g where d1: "d1 = add_audit None actor ''org.sync.complete'' e g None (upd_dept ?i ?f ?d2)"
    using a by (auto simp: apply_sync_def Let_def)
  have k1: "keeps t d0 ?i ?d1"
    by (rule keeps_same_name [OF k]) simp_all
  have "members_of ?d1 ?i = members_of d ?i"
    by (simp add: members_of_def upd_dept_def)
  then have k2: "keeps t d0 ?i ?d2"
    using r by (intro keeps_members [OF k1]) (simp add: sync_refused_def)
  have "map dp_id (d_departments ?d2) = map dp_id (d_departments d)"
    using upd_dept_ids [of "fill_dept r" ?i d] by (simp add: apply_members_def)
  then have ids: "dp_id ` set (d_departments ?d2) = dp_id ` set (d_departments d)"
    by (metis list.set_map)
  have "keeps t d0 ?i (upd_dept ?i ?f ?d2)"
    by (rule keeps_same_name [OF k2]) (use infer_parent_idD [of d ?i "sr_chain r"] in \<open>auto simp: ids\<close>)
  then show ?thesis
    unfolding d1 by (rule keeps_audit)
qed

definition sync_started :: "department \<Rightarrow> int option \<Rightarrow> db \<Rightarrow> db" where
  "sync_started x actor d = add_audit None actor ''org.sync.start'' (Some (''dept:'' @ dp_slug x)) None None d"

definition sync_failed :: "department \<Rightarrow> int option \<Rightarrow> string option \<Rightarrow> string option \<Rightarrow> db \<Rightarrow> db" where
  "sync_failed x actor m e d = add_audit None actor ''org.sync.fail'' (Some (''dept:'' @ dp_slug x)) m None
     (upd_dept (dp_id x) (\<lambda>z. z\<lparr>dp_last_sync_error := e, dp_sync_status := ''error''\<rparr>) d)"

lemma sync_department_cases:
  assumes s: "sync_department E g x actor d = (out, c, d1)"
  obtains "c = d" and "d1 = sync_started x actor d"
    | m e where "c = sync_failed x actor m e (sync_started x actor d)" and "d1 = c"
    | r y where "\<not> sync_refused r (members_of d (dp_id x))" and "apply_sync r actor x (sync_started x actor d) = (y, c)" and "d1 = c"
proof (cases "\<exists>gdn mdn. dp_ad_group_dn x = Some gdn \<and> dp_manager_dn x = Some mdn \<and> gdn \<noteq> [] \<and> mdn \<noteq> []")
  case False
  then have "c = d \<and> d1 = sync_started x actor d"
    using s by (auto simp: sync_department_def sync_started_def Let_def split: option.splits if_splits)
  then show thesis
    using that(1) by simp
next
  case True
  then obtain gdn mdn where dn: "dp_ad_group_dn x = Some gdn" "dp_manager_dn x = Some mdn" "gdn \<noteq> []" "mdn \<noteq> []"
    by blast
  show thesis
  proof (cases "get_directory_source E g d")
    case (Inl e)
    then have "c = d \<and> d1 = sync_started x actor d"
      using s dn by (auto simp: sync_department_def sync_started_def Let_def)
    then show thesis
      using that(1) by simp
  next
    case src: (Inr src)
    show thesis
    proof (cases "as_sync src gdn mdn")
      case (Inl e)
      then show thesis
        using s dn src that(1,2) by (cases e) (auto simp: sync_department_def sync_started_def sync_failed_def Let_def)
    next
      case (Inr r)
      obtain y d2 where a: "apply_sync r actor x (sync_started x actor d) = (y, d2)"
        by fastforce
      show thesis
      proof (cases "sync_refused r (members_of d (dp_id x))")
        case True
        then show thesis
          using s dn src Inr that(1) by (auto simp: sync_department_def sync_started_def Let_def)
      next
        case False
        then have "c = d2 \<and> d1 = d2"
          using s dn src Inr a by (auto simp: sync_department_def sync_started_def Let_def)
        then show thesis
          using that(3) [OF False] a by simp
      qed
    qed
  qed
qed

lemma sync_department_keeps:
  assumes k: "keeps t d0 (dp_id x) d" and s: "sync_department E g x actor d = (out, c, d1)"
  shows "keeps t d0 (dp_id x) c \<and> keeps t d0 (dp_id x) d1"
proof -
  have k0: "keeps t d0 (dp_id x) (sync_started x actor d)"
    unfolding sync_started_def by (rule keeps_audit) (rule k)
  from s show ?thesis
  proof (cases rule: sync_department_cases)
    case 1
    then show ?thesis
      using k k0 by simp
  next
    case (2 m e)
    have "keeps t d0 (dp_id x) (sync_failed x actor m e (sync_started x actor d))"
      unfolding sync_failed_def by (intro keeps_audit keeps_same_name [OF k0]) simp_all
    then show ?thesis
      using 2 by simp
  next
    case (3 r y)
    then have "keeps t d0 (dp_id x) c"
      by (intro apply_sync_keeps [OF k0 _ 3(2)]) (simp add: members_of_def sync_started_def)
    then show ?thesis
      using 3 by simp
  qed
qed

lemma upd_dept_idents:
  assumes "\<And>z. dp_id (f z) = dp_id z \<and> dp_tenant_id (f z) = dp_tenant_id z \<and> dp_slug (f z) = dp_slug z"
  shows "map (\<lambda>z. (dp_id z, dp_tenant_id z, dp_slug z)) (d_departments (upd_dept i f d)) = map (\<lambda>z. (dp_id z, dp_tenant_id z, dp_slug z)) (d_departments d)"
  using assms by (simp add: upd_dept_def upd_row_def)

lemma sync_department_idents:
  assumes "sync_department E g x actor d = (out, c, d1)"
  shows "map (\<lambda>z. (dp_id z, dp_tenant_id z, dp_slug z)) (d_departments d1) = map (\<lambda>z. (dp_id z, dp_tenant_id z, dp_slug z)) (d_departments d)"
  using assms
proof (cases rule: sync_department_cases)
  case (3 r y)
  let ?d0 = "sync_started x actor d"
  obtain f e g where d1: "d1 = add_audit None actor ''org.sync.complete'' e g None (upd_dept (dp_id x) f
      (apply_members (dp_id x) (sr_members r) (upd_dept (dp_id x) (fill_dept r) ?d0)))"
      "\<And>z. dp_id (f z) = dp_id z \<and> dp_tenant_id (f z) = dp_tenant_id z \<and> dp_slug (f z) = dp_slug z"
    using 3(2,3) by (auto simp: apply_sync_def Let_def)
  have "d_departments (apply_members i ms d) = d_departments d" for i ms d
    by (simp add: apply_members_def)
  then show ?thesis
    unfolding d1(1) by (simp add: upd_dept_idents d1(2) sync_started_def)
qed (simp_all add: sync_started_def sync_failed_def upd_dept_idents)

lemma leave_card_keeps:
  assumes "keeps t d0 i c" and "keeps t d0 i d" and "leave_card i listing r c d = (r1, d1)"
  shows "keeps t d0 i d1"
proof -
  have "keeps t d0 i (d\<lparr>d_vault := v\<rparr>)" for v
    using assms(2) by (simp add: keeps_def de_vault)
  then show ?thesis
    using assms(1,3) by (auto simp: leave_card_def sync_doc_def on_ok_def bind_r_def split: option.splits sum.splits)
qed

lemma get_dept_InrD: "get_dept d slug tid = Inr x \<Longrightarrow> x \<in> set (d_departments d) \<and> dp_slug x = slug \<and> in_scope tid (dp_tenant_id x)"
proof -
  assume "get_dept d slug tid = Inr x"
  then have "x \<in> set (dept_named d slug tid)"
    by (auto simp: get_dept_def split: list.splits)
  then show ?thesis
    by (simp add: dept_named_def)
qed

datatype org_req =
    Create_Dept string string string string
  | Sync_Dept string
  | Update_Dept string string string string string
  | Delete_Dept string

fun org_route :: "dir_env \<Rightarrow> dir_config \<Rightarrow> org_req \<Rightarrow> session \<Rightarrow> db \<Rightarrow> response \<times> db" where
  "org_route E g (Create_Dept n a m t) s d = org_create E g n a m t s d"
| "org_route E g (Sync_Dept k) s d = org_sync E g k s d"
| "org_route E g (Update_Dept k n a m t) s d = org_update E g k n a m t s d"
| "org_route E g (Delete_Dept k) s d = org_delete k s d"

definition in_reach :: "session \<Rightarrow> db \<Rightarrow> db \<Rightarrow> bool" where
  \<comment> \<open>nothing happened, or the effect is on a tenant in the scope of the signed-in user\<close>
  "in_reach s d d1 \<longleftrightarrow> d1 = d \<or> (\<exists>u t. get_current_user s d = Some u \<and> in_scope (active_tenant_id s u) t \<and> dept_effect t d d1)"

lemma with_dept_reach:
  assumes "depts_ok d" and "on_ok (require_user path s d) d (\<lambda>u. on_ok (get_dept d slug (active_tenant_id s u)) d (F u)) = (r, d1)"
    and "\<And>u x r d1. x \<in> set (d_departments d) \<Longrightarrow> keeps (dp_tenant_id x) d (dp_id x) d \<Longrightarrow> F u x = (r, d1) \<Longrightarrow> dept_effect (dp_tenant_id x) d d1"
  shows "in_reach s d d1"
proof (cases "require_user path s d")
  case u: (Inr u)
  show ?thesis
  proof (cases "get_dept d slug (active_tenant_id s u)")
    case (Inr x)
    then have x: "x \<in> set (d_departments d)" "in_scope (active_tenant_id s u) (dp_tenant_id x)"
      using get_dept_InrD by auto
    moreover have "F u x = (r, d1)"
      using assms(2) u Inr by simp
    ultimately have "dept_effect (dp_tenant_id x) d d1"
      using assms(3) keeps_start [OF assms(1)] by blast
    then show ?thesis
      using x(2) require_user_InrD [OF u] by (auto simp: in_reach_def)
  qed (use assms(2) u in \<open>simp add: in_reach_def\<close>)
qed (use assms(2) in \<open>simp add: in_reach_def\<close>)

lemma org_sync_reach: "depts_ok d \<Longrightarrow> org_sync E g slug s d = (r, d1) \<Longrightarrow> in_reach s d d1"
  unfolding org_sync_def
proof (rule with_dept_reach)
  fix u x r d1
  assume k: "keeps (dp_tenant_id x) d (dp_id x) d"
    and r: "(if \<not> is_configured g then (HttpError 400 ''AD jumpbox not configured'', d)
     else (case sync_department E g x (Some (u_id u)) d of
         (Inl (Ad_Crash e), committed, _) \<Rightarrow> (Crash e, committed)
       | (Inl e, _, d1) \<Rightarrow> (Redirect (''/org/'' @ slug @ ''?err='' @ take 200 (dir_text e)), d1)
       | (Inr _, committed, d1) \<Rightarrow> leave_card (dp_id x) members_of (Redirect (''/org/'' @ slug @ ''?synced=1'')) committed d1)) = (r, d1)"
  obtain out c d2 where s: "sync_department E g x (Some (u_id u)) d = (out, c, d2)"
    by (metis prod.exhaust)
  have K: "keeps (dp_tenant_id x) d (dp_id x) c" "keeps (dp_tenant_id x) d (dp_id x) d2"
    using sync_department_keeps [OF k s] by simp_all
  have "d1 = d \<or> d1 = c \<or> d1 = d2 \<or> leave_card (dp_id x) members_of (Redirect (''/org/'' @ slug @ ''?synced=1'')) c d2 = (r, d1)"
    using r unfolding s by (simp split: if_splits sum.splits dir_error.splits)
  then show "dept_effect (dp_tenant_id x) d d1"
    using keeps_effect [OF k] K [THEN keeps_effect] leave_card_keeps [OF K, THEN keeps_effect] by metis
qed

lemma update_reach:
  assumes k: "keeps t d (dp_id x) d" and x: "x \<in> set (d_departments d)" "dp_tenant_id x = t" and n: "\<not> name_of_other d t name (Some (dp_id x))"
    and f: "\<And>z. dp_id (f z) = dp_id z \<and> dp_tenant_id (f z) = dp_tenant_id z \<and> dp_slug (f z) = dp_slug z \<and> dp_parent_id (f z) = dp_parent_id z"
    and d1: "d1 = add_audit tid a act tg dt ip (upd_dept (dp_id x) (\<lambda>z. (f z)\<lparr>dp_name := name, dp_description := v\<rparr>) d)"
    and l: "leave_card (dp_id x) listing r d1 d1 = (r2, d2)"
  shows "dept_effect t d d2"
proof -
  have "keeps t d (dp_id x) d1"
    unfolding d1 using f n by (intro keeps_audit keeps_update [OF k]) simp_all
  then show ?thesis
    using leave_card_keeps [OF _ _ l] keeps_effect by blast
qed

lemma org_update_reach:
  assumes ok: "depts_ok d" and r: "org_update E g slug name0 ad_group manager0 description s d = (r, d1)"
  shows "in_reach s d d1"
  using ok r unfolding org_update_def
proof (rule with_dept_reach)
  fix u x r d1
  assume x: "x \<in> set (d_departments d)" and k: "keeps (dp_tenant_id x) d (dp_id x) d"
  let ?name = "py_strip name0" and ?grp = "py_strip ad_group" and ?boss = "py_strip manager0"
  let ?step = "\<lambda>f. if name_of_other d (dp_tenant_id x) ?name (Some (dp_id x)) then (Crash ''IntegrityError'', d)
     else let d1 = add_audit (Some (dp_tenant_id x)) (Some (u_id u)) ''org.update'' (Some (''dept:'' @ dp_slug x)) None None
         (upd_dept (dp_id x) (\<lambda>z. (f z)\<lparr>dp_name := ?name, dp_description := or_none (py_strip description)\<rparr>) d)
     in leave_card (dp_id x) members_by_name (Redirect (''/org/'' @ dp_slug x @ ''?saved=1'')) d1 d1"
  assume r: "(let name = py_strip name0; grp = py_strip ad_group; manager = py_strip manager0 in
     on_ok (if grp = dp_ad_group_name x \<and> manager = dp_manager_input x then Inr (\<lambda>z. z)
         else (case resolve_inputs E g d grp manager of Inl e \<Rightarrow> Inl (lookup_failed grp manager e)
           | Inr (gdn, m) \<Rightarrow> Inr (\<lambda>z. z\<lparr>dp_ad_group_name := grp, dp_ad_group_dn := gdn, dp_manager_input := manager, dp_manager_dn := ur_dn m,
               dp_manager_name := Some (ur_name m), dp_manager_email := ur_email m, dp_manager_title := ur_title m, dp_sync_status := ''pending''\<rparr>))) d (\<lambda>f.
     if name_of_other d (dp_tenant_id x) name (Some (dp_id x)) then (Crash ''IntegrityError'', d)
     else let d1 = add_audit (Some (dp_tenant_id x)) (Some (u_id u)) ''org.update'' (Some (''dept:'' @ dp_slug x)) None None
         (upd_dept (dp_id x) (\<lambda>z. (f z)\<lparr>dp_name := name, dp_description := or_none (py_strip description)\<rparr>) d)
     in leave_card (dp_id x) members_by_name (Redirect (''/org/'' @ dp_slug x @ ''?saved=1'')) d1 d1)) = (r, d1)"
  have step: "dept_effect (dp_tenant_id x) d d1" if "?step f = (r, d1)"
      "\<And>z. dp_id (f z) = dp_id z \<and> dp_tenant_id (f z) = dp_tenant_id z \<and> dp_slug (f z) = dp_slug z \<and> dp_parent_id (f z) = dp_parent_id z" for f
  proof (cases "name_of_other d (dp_tenant_id x) ?name (Some (dp_id x))")
    case True
    then show ?thesis
      using that(1) by (simp add: de_none)
  next
    case False
    then show ?thesis
      using that(1) update_reach [OF k x refl False that(2) refl] by (simp only: Let_def if_False)
  qed
  show "dept_effect (dp_tenant_id x) d d1"
  proof (cases "?grp = dp_ad_group_name x \<and> ?boss = dp_manager_input x")
    case True
    then show ?thesis
      using r step [of "\<lambda>z. z"] by (simp only: Let_def if_True on_ok_simps simp_thms)
  next
    case False
    then show ?thesis
    proof (cases "resolve_inputs E g d ?grp ?boss")
      case (Inl e)
      then show ?thesis
        using r False by (simp add: Let_def de_none)
    next
      case (Inr p)
      then obtain gdn m where p: "resolve_inputs E g d ?grp ?boss = Inr (gdn, m)"
        by (cases p) simp
      let ?f = "\<lambda>z. z\<lparr>dp_ad_group_name := ?grp, dp_ad_group_dn := gdn, dp_manager_input := ?boss, dp_manager_dn := ur_dn m,
               dp_manager_name := Some (ur_name m), dp_manager_email := ur_email m, dp_manager_title := ur_title m, dp_sync_status := ''pending''\<rparr>"
      have "?step ?f = (r, d1)"
        using r False by (simp only: Let_def if_False on_ok_simps p sum.case prod.case)
      then show ?thesis
        by (rule step) simp
    qed
  qed
qed

lemma delete_card_InrD: "delete_card x d = Inr d1 \<Longrightarrow> \<exists>v. d1 = d\<lparr>d_vault := v\<rparr>"
  by (auto simp: delete_card_def split: sum.splits store_error.splits intro: exI [of _ "d_vault d"])

lemma org_delete_reach:
  assumes ok: "depts_ok d" and r: "org_delete slug s d = (r, d1)"
  shows "in_reach s d d1"
  using ok r unfolding org_delete_def
proof (rule with_dept_reach)
  fix u x r d1
  assume x: "x \<in> set (d_departments d)" and r: "on_ok (delete_card x d) d (\<lambda>d1. (Redirect ''/org'',
       add_audit (Some (dp_tenant_id x)) (Some (u_id u)) ''org.delete'' (Some (''dept:'' @ slug)) None None (drop_dept (dp_id x) d1))) = (r, d1)"
  show "dept_effect (dp_tenant_id x) d d1"
  proof (cases "delete_card x d")
    case (Inr d2)
    then obtain v where v: "d2 = d\<lparr>d_vault := v\<rparr>"
      using delete_card_InrD by blast
    have "dept_effect (dp_tenant_id x) d (drop_dept (dp_id x) d2)"
      unfolding v using x by (intro de_delete de_vault de_none) simp_all
    then show ?thesis
      using r Inr by (auto intro: de_audit)
  qed (use r in \<open>simp add: de_none\<close>)
qed

lemma dept_slug_fresh: "dept_slug d base t = Some k \<Longrightarrow> (t, k) \<notin> (\<lambda>y. (dp_tenant_id y, dp_slug y)) ` set (d_departments d)"
proof -
  let ?taken = "map dp_slug (filter (\<lambda>x. dp_tenant_id x = t) (d_departments d))"
  assume "dept_slug d base t = Some k"
  then have "k \<notin> set ?taken"
    using first_free_SomeD [of "Suc (length ?taken)" "dash_name base" ?taken 2 k] by (simp add: dept_slug_def Let_def del: first_free.simps split: if_splits)
  then show ?thesis
    by auto
qed

lemma org_create_parts:
  assumes r: "org_create E g name0 ad_group manager0 description s d = (r, d1)" and change: "d1 \<noteq> d"
  obtains u t x out c d2 where "require_user ''/org/new'' s d = Inr u" and "require_active_tenant s u = Inr t"
    and "dp_id x = next_id dp_id (d_departments d)" and "dp_tenant_id x = t" and "dp_parent_id x = None"
    and "(t, dp_slug x) \<notin> (\<lambda>y. (dp_tenant_id y, dp_slug y)) ` set (d_departments d)" and "\<not> name_of_other d t (dp_name x) None"
    and "sync_department E g x (Some (u_id u)) (add_audit (Some t) (Some (u_id u)) ''org.create'' (Some (''dept:'' @ dp_slug x)) None None
      (d\<lparr>d_departments := d_departments d @ [x]\<rparr>)) = (out, c, d2)"
    and "(\<exists>e. out = Inl (Ad_Crash e) \<and> (Crash e, c) = (r, d1)) \<or>
      leave_card (dp_id x) members_by_name (Redirect (''/org/'' @ dp_slug x)) c d2 = (r, d1)"
proof -
  obtain u where u: "require_user ''/org/new'' s d = Inr u"
    using r change by (cases "require_user ''/org/new'' s d") (simp_all add: org_create_def)
  obtain t where t: "require_active_tenant s u = Inr t"
    using r change u by (cases "require_active_tenant s u") (simp_all add: org_create_def)
  let ?name = "py_strip name0" and ?grp = "py_strip ad_group" and ?boss = "py_strip manager0"
  have conf: "is_configured g"
    using r change u t by (cases "is_configured g") (simp_all add: org_create_def Let_def)
  obtain gdn m where p: "resolve_inputs E g d ?grp ?boss = Inr (gdn, m)"
    using r change u t conf by (cases "resolve_inputs E g d ?grp ?boss") (auto simp: org_create_def Let_def)
  obtain slug where slug: "dept_slug d (slug_of ''department'' ?name) t = Some slug"
    using r change u t conf p by (cases "dept_slug d (slug_of ''department'' ?name) t") (simp_all add: org_create_def Let_def)
  have free: "\<not> name_of_other d t ?name None"
    using r change u t conf p slug by (cases "name_of_other d t ?name None") (simp_all add: org_create_def Let_def)
  define x where "x = new_dept (next_id dp_id (d_departments d)) t ?name slug description ?grp ?boss gdn m (d_now d)"
  have xs: "dp_id x = next_id dp_id (d_departments d)" "dp_tenant_id x = t" "dp_parent_id x = None" "dp_slug x = slug" "dp_name x = ?name"
    by (simp_all add: x_def new_dept_def)
  define d0 where "d0 = add_audit (Some t) (Some (u_id u)) ''org.create'' (Some (''dept:'' @ slug)) None None (d\<lparr>d_departments := d_departments d @ [x]\<rparr>)"
  obtain out c d2 where s: "sync_department E g x (Some (u_id u)) d0 = (out, c, d2)"
    by (metis prod.exhaust)
  have "(case sync_department E g x (Some (u_id u)) d0 of
               (Inl (Ad_Crash e), committed, _) \<Rightarrow> (Crash e, committed)
             | (_, committed, d2) \<Rightarrow> leave_card (dp_id x) members_by_name (Redirect (''/org/'' @ slug)) committed d2) = (r, d1)"
    using r u t conf p slug free unfolding x_def d0_def by (simp add: org_create_def Let_def)
  then have e: "(\<exists>e. out = Inl (Ad_Crash e) \<and> (Crash e, c) = (r, d1)) \<or> leave_card (dp_id x) members_by_name (Redirect (''/org/'' @ dp_slug x)) c d2 = (r, d1)"
    unfolding s xs(4) by (simp split: sum.splits dir_error.splits)
  show thesis
    using that [OF u t xs(1-3) _ _ _ e] dept_slug_fresh [OF slug] free s xs(4,5) unfolding d0_def by simp
qed

lemma org_create_reach:
  assumes ok: "depts_ok d" and r: "org_create E g name0 ad_group manager0 description s d = (r, d1)"
  shows "in_reach s d d1"
proof (cases "d1 = d")
  case False
  from r False obtain u t x out c d2 where u: "require_user ''/org/new'' s d = Inr u" and t: "require_active_tenant s u = Inr t"
    and x: "dp_id x = next_id dp_id (d_departments d)" "dp_tenant_id x = t" "dp_parent_id x = None"
      "(t, dp_slug x) \<notin> (\<lambda>y. (dp_tenant_id y, dp_slug y)) ` set (d_departments d)" "\<not> name_of_other d t (dp_name x) None"
    and s: "sync_department E g x (Some (u_id u)) (add_audit (Some t) (Some (u_id u)) ''org.create'' (Some (''dept:'' @ dp_slug x)) None None
      (d\<lparr>d_departments := d_departments d @ [x]\<rparr>)) = (out, c, d2)"
    and e: "(\<exists>e. out = Inl (Ad_Crash e) \<and> (Crash e, c) = (r, d1)) \<or>
      leave_card (dp_id x) members_by_name (Redirect (''/org/'' @ dp_slug x)) c d2 = (r, d1)"
    by (rule org_create_parts)
  have "dept_effect t d (d\<lparr>d_departments := d_departments d @ [x]\<rparr>)"
    using x by (intro de_create [OF de_none]) simp_all
  then have "keeps t d (dp_id x) (add_audit (Some t) (Some (u_id u)) ''org.create'' (Some (''dept:'' @ dp_slug x)) None None
      (d\<lparr>d_departments := d_departments d @ [x]\<rparr>))"
    using ok x(2) by (intro keeps_audit) (simp add: keeps_def)
  then have K: "keeps t d (dp_id x) c" "keeps t d (dp_id x) d2"
    using sync_department_keeps [OF _ s] by simp_all
  have "dept_effect t d d1"
    using e K [THEN keeps_effect] leave_card_keeps [OF K, THEN keeps_effect] by auto
  moreover have "in_scope (active_tenant_id s u) t"
    using t by (auto simp: require_active_tenant_def in_scope_def split: option.splits)
  ultimately show ?thesis
    using require_user_InrD [OF u] by (auto simp: in_reach_def)
qed (simp add: in_reach_def)

lemma org_route_reach: "depts_ok d \<Longrightarrow> org_route E g q s d = (r, d1) \<Longrightarrow> in_reach s d d1"
  by (cases q) (simp_all add: org_create_reach org_sync_reach org_update_reach org_delete_reach)


text \<open>The tool of the agent is confined in the same way.\<close>

lemma sync_tool_confined:
  assumes ok: "depts_ok d"
  shows "depts_ok (snd (sync_org_group_runner X E g (Some t) a d)) \<and>
    foreign_depts t (snd (sync_org_group_runner X E g (Some t) a d)) = foreign_depts t d \<and>
    foreign_members t (snd (sync_org_group_runner X E g (Some t) a d)) = foreign_members t d"
proof -
  let ?d1 = "snd (sync_org_group_runner X E g (Some t) a d)"
  have "?d1 = d \<or> dept_effect t d ?d1"
  proof (cases "arg_text a ''group_name'' []")
    case grp: (Inr grp)
    let ?rows = "where_opt (tenant_clause dp_tenant_id (Some t)) (filter (\<lambda>x. dp_ad_group_name x = grp) (d_departments d))"
    show ?thesis
    proof (cases "grp \<noteq> [] \<and> (\<exists>x. one_or_none X ?rows = Inr (Some x))")
      case True
      then obtain x where x: "one_or_none X ?rows = Inr (Some x)"
        by blast
      then have "x \<in> set ?rows"
        by (rule one_or_none_in)
      then have xd: "x \<in> set (d_departments d)" "dp_tenant_id x = t"
        by (auto simp: in_scope_def)
      obtain out c d2 where s: "sync_department E g x None d = (out, c, d2)"
        by (metis prod.exhaust)
      have "dept_effect t d c"
        using sync_department_keeps [OF keeps_start [OF ok xd(1)] s] xd(2) keeps_effect by blast
      moreover have "?d1 = c"
        using True x grp s by (simp add: sync_org_group_runner_def settle_def bind_r_def fail_exn_def fail_with_def split: sum.splits)
      ultimately show ?thesis
        by simp
    next
      case False
      then show ?thesis
        using grp by (cases "one_or_none X ?rows") (auto simp: sync_org_group_runner_def settle_def bind_r_def refuse_def split: option.splits)
    qed
  qed (simp add: sync_org_group_runner_def settle_def bind_r_def)
  then show ?thesis
    using dept_effect_ok ok by metis
qed

text \<open>C25: The contact card of a department is the file \<open>org/<slug>.md\<close> of the one vault of all tenants, and a slug is
  unique in its tenant only: creating a department replaces the card of another tenant's department of the
  same slug by its own.\<close>

theorem card_lost_to_other_tenant:
  assumes "org_create E g n a m ds s d = (Redirect (''/org/'' @ dp_slug x), d1)" and "d1 \<noteq> d" and "x \<in> set (d_departments d)"
    and "get_current_user s d = Some u" and "active_tenant_id s u = Some t" and "dp_tenant_id x \<noteq> t"
    and "normalize_rel (card_path x) = Inr (card_path x)"
  shows "\<exists>y \<in> set (d_departments d1). dp_tenant_id y = t \<and> dp_slug y = dp_slug x \<and>
    text_at (d_vault d1) (card_path x) = Some (card_text y (members_by_name d1 (dp_id y)))"
proof -
  from assms(1,2) obtain u' t' z out c d2 where u': "require_user ''/org/new'' s d = Inr u'" "require_active_tenant s u' = Inr t'"
    and z: "dp_id z = next_id dp_id (d_departments d)" "dp_tenant_id z = t'"
    and s: "sync_department E g z (Some (u_id u')) (add_audit (Some t') (Some (u_id u')) ''org.create'' (Some (''dept:'' @ dp_slug z)) None None
      (d\<lparr>d_departments := d_departments d @ [z]\<rparr>)) = (out, c, d2)"
    and e: "(\<exists>e. out = Inl (Ad_Crash e) \<and> (Crash e, c) = (Redirect (''/org/'' @ dp_slug x), d1)) \<or>
      leave_card (dp_id z) members_by_name (Redirect (''/org/'' @ dp_slug z)) c d2 = (Redirect (''/org/'' @ dp_slug x), d1)"
    by (rule org_create_parts)
  have t: "t' = t"
    using require_user_InrD [OF u'(1)] u'(2) assms(4,5) by (simp add: require_active_tenant_def)
  from e have l: "leave_card (dp_id z) members_by_name (Redirect (''/org/'' @ dp_slug z)) c d2 = (Redirect (''/org/'' @ dp_slug x), d1)"
    by simp
  then obtain y where y: "get_row dp_id (d_departments d2) (dp_id z) = Some y"
    by (cases "get_row dp_id (d_departments d2) (dp_id z)") (simp_all add: leave_card_def)
  then obtain v where v: "store_write (d_now d2) (d_vault d2) (card_path y) (card_text y (members_by_name d2 (dp_id z))) = Inr v"
    using l by (cases "store_write (d_now d2) (d_vault d2) (card_path y) (card_text y (members_by_name d2 (dp_id z)))")
      (auto simp: leave_card_def sync_doc_def or_crash_def store_crash_def)
  have slug: "dp_slug z = dp_slug x" and d1: "d1 = d2\<lparr>d_vault := v\<rparr>"
    using l y v by (auto simp: leave_card_def sync_doc_def or_crash_def)
  have y2: "y \<in> set (d_departments d2)" "dp_id y = dp_id z"
    using get_row_SomeD [OF y] by simp_all
  then have "(dp_id y, dp_tenant_id y, dp_slug y) \<in> (\<lambda>w. (dp_id w, dp_tenant_id w, dp_slug w)) ` set (d_departments d2)"
    by blast
  also have "\<dots> = (\<lambda>w. (dp_id w, dp_tenant_id w, dp_slug w)) ` set (d_departments d @ [z])"
    using arg_cong [OF sync_department_idents [OF s], of set] by (simp only: list.set_map) simp
  finally have "dp_tenant_id y = dp_tenant_id z \<and> dp_slug y = dp_slug z"
    using y2(2) z(1) next_id_gt [of _ "d_departments d" dp_id] by fastforce
  then have f: "dp_tenant_id y = t" "dp_slug y = dp_slug x" "card_path y = card_path x"
    using z(2) t slug by (simp_all add: card_path_def)
  have "text_at v (card_path x) = Some (card_text y (members_by_name d2 (dp_id z)))"
    using v assms(7) unfolding f(3) by (auto simp: store_write_def safe_rel_def text_at_put split: if_splits)
  then show ?thesis
    using f(1,2) y2 by (intro bexI [of _ y]) (simp_all add: d1 members_by_name_def members_of_def)
qed

section \<open>Two tenants at work\<close>

definition demo_org :: db where
  \<comment> \<open>tenant 2 has a help desk with its card; tenant 1 has operations below nothing\<close>
  "demo_org = demo_db\<lparr>d_departments := [demo_dept 1 1 ''Operations'' ''Dave Ops'', (demo_dept 2 2 ''Helpdesk'' ''Eve Help'')\<lparr>dp_parent_id := Some 1\<rparr>],
     d_dept_members := [demo_member 1 2 ''Frank Junior''],
     d_vault := \<lparr>va_files = [(''org/helpdesk.md'', \<lparr>vf_text = ''theirs'', vf_mtime = 1\<rparr>)], va_dirs = [''org'']\<rparr>\<rparr>"

abbreviation mock_dirs :: dir_config where
  "mock_dirs \<equiv> \<lparr>dg_adapter = ''mock'', dg_jumpbox = None\<rparr>"

lemma demo_org_ok: "depts_ok demo_org"
  by (simp add: depts_ok_def dirs_ok_def uniq_ids_def demo_org_def demo_dept_def demo_member_def new_member_def acme_def)


theorem card_lost_to_other_tenant_witness:
  "\<exists>y d1. snd (org_create demo_dir_env mock_dirs ''Helpdesk'' ''Helpdesk'' ''eve'' [] (demo_session 1) demo_org) = d1 \<and> dp_tenant_id y = 1 \<and>
     text_at (d_vault demo_org) ''org/helpdesk.md'' = Some ''theirs'' \<and>
     text_at (d_vault d1) ''org/helpdesk.md'' = Some (card_text y (members_by_name d1 (dp_id y)))"
proof -
  let ?x = "(demo_dept 2 2 ''Helpdesk'' ''Eve Help'')\<lparr>dp_parent_id := Some 1\<rparr>"
  have p: "card_path ?x = ''org/helpdesk.md''" "''/org/'' @ dp_slug ?x = ''/org/helpdesk''"
    by code_simp+
  have c: "fst (org_create demo_dir_env mock_dirs ''Helpdesk'' ''Helpdesk'' ''eve'' [] (demo_session 1) demo_org) = Redirect ''/org/helpdesk''"
    "length (d_departments (snd (org_create demo_dir_env mock_dirs ''Helpdesk'' ''Helpdesk'' ''eve'' [] (demo_session 1) demo_org))) = 3"
    by code_simp+
  obtain d1 where d1: "org_create demo_dir_env mock_dirs ''Helpdesk'' ''Helpdesk'' ''eve'' [] (demo_session 1) demo_org = (Redirect (''/org/'' @ dp_slug ?x), d1)"
    unfolding p using c(1) by (metis prod.collapse)
  have "length (d_departments d1) = 3" "length (d_departments demo_org) = 2"
    using c(2) d1 by (simp_all add: demo_org_def)
  then have n: "d1 \<noteq> demo_org"
    by auto
  have x: "?x \<in> set (d_departments demo_org)" "dp_tenant_id ?x \<noteq> 1"
    by (simp_all add: demo_org_def demo_dept_def)
  have u: "get_current_user (demo_session 1) demo_org = Some (demo_user 1 ''operator'' (Some 1))"
    "active_tenant_id (demo_session 1) (demo_user 1 ''operator'' (Some 1)) = Some 1"
    by (simp_all add: demo_defs demo_org_def get_current_user_def get_row_def active_tenant_id_def resolve_tenant_id_def is_platform_admin_iff)
  have q: "normalize_rel (card_path ?x) = Inr (card_path ?x)"
    by code_simp
  have v: "text_at (d_vault demo_org) ''org/helpdesk.md'' = Some ''theirs''"
    by code_simp
  show ?thesis
    using card_lost_to_other_tenant [OF d1 n x(1) u x(2) q] v d1 unfolding p by auto
qed

section \<open>What the tree shows\<close>

fun tree_ids :: "dept_tree \<Rightarrow> int list" where
  "tree_ids (Dept_Tree i _ _ _ _ cs) = i # concat (map tree_ids cs)"

definition shown_ids :: "tree_json \<Rightarrow> int list" where
  "shown_ids j = (case j of One_Root r \<Rightarrow> tree_ids r | Organisation rs \<Rightarrow> concat (map tree_ids rs))"

definition parent_rel :: "department list \<Rightarrow> (int \<times> int) set" where
  \<comment> \<open>each listed department with its listed parent\<close>
  "parent_rel depts = {(dp_id x, k) | x k. x \<in> set depts \<and> dp_parent_id x = Some k \<and> k \<in> dp_id ` set depts}"

declare dept_node.simps [simp del]

lemma tree_mem:
  "i \<in> set (tree_ids (dept_node 0 d depts x)) \<longleftrightarrow> i = dp_id x"
  "i \<in> set (tree_ids (dept_node (Suc n) d depts x)) \<longleftrightarrow> i = dp_id x \<or>
    (dp_id x \<noteq> 0 \<and> (\<exists>y \<in> set depts. dp_parent_id y = Some (dp_id x) \<and> i \<in> set (tree_ids (dept_node n d depts y))))"
  by (auto simp: dept_node.simps)

lemma tree_ids_self: "dp_id x \<in> set (tree_ids (dept_node n d depts x))"
  by (cases n) (simp_all add: tree_mem)

lemma tree_ids_listed: "x \<in> set depts \<Longrightarrow> i \<in> set (tree_ids (dept_node n d depts x)) \<Longrightarrow> i \<in> dp_id ` set depts"
proof (induction n arbitrary: x)
  case (Suc n)
  then show ?case
    by (auto simp: tree_mem(2))
qed (simp add: tree_mem)

lemma tree_ids_child:
  assumes "i \<in> set (tree_ids (dept_node n d depts r))" and "y \<in> set depts" and "dp_parent_id y = Some i" and "i \<noteq> 0"
  shows "dp_id y \<in> set (tree_ids (dept_node (Suc n) d depts r))"
  using assms(1)
proof (induction n arbitrary: r)
  case 0
  then show ?case
    using assms(2-4) tree_ids_self by (auto simp: tree_mem)
next
  case (Suc n)
  show ?case
  proof (cases "i = dp_id r")
    case True
    then show ?thesis
      using assms(2-4) tree_ids_self [of y "Suc n"] unfolding tree_mem(2) [of _ "Suc n"] by blast
  next
    case False
    then obtain z where "z \<in> set depts" "dp_parent_id z = Some (dp_id r)" "dp_id r \<noteq> 0" "i \<in> set (tree_ids (dept_node n d depts z))"
      using Suc.prems by (auto simp: tree_mem(2))
    then show ?thesis
      using Suc.IH unfolding tree_mem(2) [of _ "Suc n"] by blast
  qed
qed

lemma reaches_root:
  assumes ac: "acyclic (parent_rel depts)" and "x \<in> set depts"
  shows "\<exists>r \<in> set depts. \<not> in_nodes depts (dp_parent_id r) \<and>
    (\<forall>n. card ((parent_rel depts)\<^sup>+ `` {dp_id x}) \<le> n \<longrightarrow> dp_id x \<in> set (tree_ids (dept_node n d depts r)))"
  using assms(2)
proof (induction "card ((parent_rel depts)\<^sup>+ `` {dp_id x})" arbitrary: x rule: less_induct)
  case less
  let ?R = "parent_rel depts"
  have "?R \<subseteq> dp_id ` set depts \<times> dp_id ` set depts"
    by (auto simp: parent_rel_def)
  then have "finite (?R\<^sup>+)"
    using finite_subset by (simp add: finite_subset)
  then have fin: "finite (?R\<^sup>+ `` {i})" for i
    by (rule finite_Image)
  show ?case
  proof (cases "in_nodes depts (dp_parent_id x)")
    case False
    then show ?thesis
      using less.prems by (intro bexI [of _ x]) (simp_all add: tree_ids_self)
  next
    case True
    then obtain k p where k: "dp_parent_id x = Some k" "k \<noteq> 0" and p: "p \<in> set depts" "dp_id p = k"
      by (auto simp: in_nodes_def)
    then have R: "(dp_id x, k) \<in> ?R"
      using less.prems by (auto simp: parent_rel_def)
    have "?R\<^sup>+ `` {k} \<subset> ?R\<^sup>+ `` {dp_id x}"
    proof
      show "?R\<^sup>+ `` {k} \<subseteq> ?R\<^sup>+ `` {dp_id x}"
        using R by (auto intro: trancl_into_trancl2)
      have "k \<notin> ?R\<^sup>+ `` {k}" "k \<in> ?R\<^sup>+ `` {dp_id x}"
        using ac R by (auto simp: acyclic_def)
      then show "?R\<^sup>+ `` {k} \<noteq> ?R\<^sup>+ `` {dp_id x}"
        by blast
    qed
    then have less_card: "card (?R\<^sup>+ `` {dp_id p}) < card (?R\<^sup>+ `` {dp_id x})"
      unfolding p(2) by (rule psubset_card_mono [OF fin])
    obtain r where r: "r \<in> set depts" "\<not> in_nodes depts (dp_parent_id r)"
        "\<And>n. card (?R\<^sup>+ `` {dp_id p}) \<le> n \<Longrightarrow> dp_id p \<in> set (tree_ids (dept_node n d depts r))"
      using less.hyps [OF less_card p(1)] by blast
    have "dp_id x \<in> set (tree_ids (dept_node n d depts r))" if "card (?R\<^sup>+ `` {dp_id x}) \<le> n" for n
    proof -
      have "card (?R\<^sup>+ `` {dp_id p}) < n"
        using that less_card by (rule less_le_trans [rotated])
      then obtain m where m: "n = Suc m" "card (?R\<^sup>+ `` {dp_id p}) \<le> m"
        by (cases n) simp_all
      then show ?thesis
        using tree_ids_child [OF r(3) [OF m(2)] less.prems] k p(2) by simp
    qed
    then show ?thesis
      using r(1,2) by blast
  qed
qed

lemma closed_chain_hidden:
  assumes C: "\<And>x. x \<in> set depts \<Longrightarrow> dp_id x \<in> C \<Longrightarrow> \<exists>k \<in> C. dp_parent_id x = Some k" and "dp_id r \<notin> C"
    and "i \<in> set (tree_ids (dept_node n d depts r))"
  shows "i \<notin> C"
  using assms(2,3)
proof (induction n arbitrary: r)
  case (Suc n)
  have "dp_id y \<notin> C" if "y \<in> set depts" "dp_parent_id y = Some (dp_id r)" for y
    using C [OF that(1)] that(2) Suc.prems(1) by auto
  then show ?case
    using Suc.prems Suc.IH unfolding tree_mem(2) by blast
qed (simp add: tree_mem)

lemma shown_whole: "shown_ids (case rs of [r] \<Rightarrow> One_Root r | rs \<Rightarrow> Organisation rs) = concat (map tree_ids rs)"
  by (simp add: shown_ids_def split: list.splits)

text \<open>C20: The tree shows every department in the scope of the user when no chain of parents closes. Departments
  whose parents all lie among themselves have no root above them: none of them is shown.\<close>

theorem org_tree_exact:
  assumes "depts_ok d" and "0 \<notin> dp_id ` set (d_departments d)" and "get_current_user s d = Some u" and "org_tree s d = Inr j"
  defines "depts \<equiv> list_all_depts d (active_tenant_id s u)"
  shows "set (shown_ids j) \<subseteq> dp_id ` set depts \<and> (acyclic (parent_rel depts) \<longrightarrow> set (shown_ids j) = dp_id ` set depts) \<and>
    (\<forall>C. C \<subseteq> dp_id ` set depts \<and> (\<forall>x \<in> set depts. dp_id x \<in> C \<longrightarrow> (\<exists>k \<in> C. dp_parent_id x = Some k)) \<longrightarrow> set (shown_ids j) \<inter> C = {})"
proof -
  let ?roots = "filter (\<lambda>x. \<not> in_nodes depts (dp_parent_id x)) depts" and ?node = "dept_node (length depts) d depts"
  have c: "(case map ?node ?roots of [r] \<Rightarrow> One_Root r | rs \<Rightarrow> Organisation rs) = j"
    using assms(3,4) by (simp only: org_tree_def require_user_def option.case bind_r_def sum.case Let_def sum.inject depts_def)
  have "shown_ids j = concat (map tree_ids (map ?node ?roots))"
    by (subst c [symmetric]) (rule shown_whole)
  then have shown: "set (shown_ids j) = (\<Union>r \<in> {r \<in> set depts. \<not> in_nodes depts (dp_parent_id r)}. set (tree_ids (?node r)))"
    by auto
  have sub: "set (shown_ids j) \<subseteq> dp_id ` set depts"
    unfolding shown using tree_ids_listed by blast
  have A: "dp_id x \<in> set (shown_ids j)" if ac: "acyclic (parent_rel depts)" and x: "x \<in> set depts" for x
  proof -
    have "(parent_rel depts)\<^sup>+ \<subseteq> dp_id ` set depts \<times> dp_id ` set depts"
      by (rule trancl_subset_Sigma) (auto simp: parent_rel_def)
    then have "(parent_rel depts)\<^sup>+ `` {dp_id x} \<subseteq> dp_id ` set depts"
      by blast
    then have "card ((parent_rel depts)\<^sup>+ `` {dp_id x}) \<le> card (dp_id ` set depts)"
      by (simp add: card_mono)
    also have "\<dots> \<le> length depts"
      by (meson card_image_le card_length finite_set le_trans)
    finally show ?thesis
      unfolding shown using reaches_root [OF ac x, of d] by blast
  qed
  have B: "set (shown_ids j) \<inter> C = {}"
    if C: "C \<subseteq> dp_id ` set depts" "\<And>x. x \<in> set depts \<Longrightarrow> dp_id x \<in> C \<Longrightarrow> \<exists>k \<in> C. dp_parent_id x = Some k" for C
  proof -
    have "dp_id r \<notin> C" if "r \<in> set depts" "\<not> in_nodes depts (dp_parent_id r)" for r
    proof
      assume "dp_id r \<in> C"
      from C(2) [OF that(1) this] obtain k where k: "k \<in> C" "dp_parent_id r = Some k"
        by blast
      have "dp_id ` set depts \<subseteq> dp_id ` set (d_departments d)"
        by (auto simp: depts_def list_all_depts_def)
      then have "k \<noteq> 0"
        using k(1) C(1) assms(2) by blast
      then show False
        using that(2) k C(1) by (auto simp: in_nodes_def)
    qed
    then show ?thesis
      unfolding shown using closed_chain_hidden [of depts C, OF C(2)] by blast
  qed
  have "set (shown_ids j) = dp_id ` set depts" if "acyclic (parent_rel depts)"
    using sub A [OF that] by auto
  moreover have "\<forall>C. C \<subseteq> dp_id ` set depts \<and> (\<forall>x \<in> set depts. dp_id x \<in> C \<longrightarrow> (\<exists>k \<in> C. dp_parent_id x = Some k)) \<longrightarrow> set (shown_ids j) \<inter> C = {}"
    using B by simp
  ultimately show ?thesis
    using sub by (intro conjI impI)
qed

definition demo_loop :: db where
  \<comment> \<open>operations and the help desk became each other's parent after a change of managers; engineering is alone\<close>
  "demo_loop = demo_db\<lparr>d_departments := [(demo_dept 1 1 ''Operations'' ''Dave Ops'')\<lparr>dp_parent_id := Some 2\<rparr>,
     (demo_dept 2 1 ''Helpdesk'' ''Eve Help'')\<lparr>dp_parent_id := Some 1\<rparr>, demo_dept 3 1 ''Engineering'' ''Alice Eng'']\<rparr>"

theorem org_tree_exact_witness:
  "\<exists>j. org_tree (demo_session 1) demo_loop = Inr j \<and> set (shown_ids j) \<inter> {1, 2} = {}"
proof -
  let ?u = "demo_user 1 ''operator'' (Some 1)"
  have u: "get_current_user (demo_session 1) demo_loop = Some ?u"
    by (simp add: demo_defs demo_loop_def get_current_user_def get_row_def)
  have t: "active_tenant_id (demo_session 1) ?u = Some 1"
    by (simp add: demo_defs active_tenant_id_def resolve_tenant_id_def is_platform_admin_iff)
  have ok: "depts_ok demo_loop" "0 \<notin> dp_id ` set (d_departments demo_loop)"
    by (simp_all add: depts_ok_def dirs_ok_def uniq_ids_def demo_loop_def demo_dept_def demo_defs py_lower_def)
  have "\<exists>j. org_tree (demo_session 1) demo_loop = Inr j"
    using u by (simp add: org_tree_def require_user_def Let_def)
  then obtain j where j: "org_tree (demo_session 1) demo_loop = Inr j"
    by blast
  have "{1, 2} \<subseteq> dp_id ` set (list_all_depts demo_loop (Some 1)) \<and>
    (\<forall>x \<in> set (list_all_depts demo_loop (Some 1)). dp_id x \<in> {1, 2} \<longrightarrow> (\<exists>k \<in> {1, 2}. dp_parent_id x = Some k))"
    by (auto simp: list_all_depts_def demo_loop_def demo_dept_def in_scope_def)
  then have "set (shown_ids j) \<inter> {1, 2} = {}"
    by (rule org_tree_exact [OF ok u j, unfolded t, THEN conjunct2, THEN conjunct2, THEN spec [of _ "{1, 2}"], THEN mp])
  then show ?thesis
    using j by (intro exI conjI)
qed

end
