(* ===== verification/Dosm_Tunnels.thy ===== *)
theory Dosm_Tunnels
  imports Dosm_Credentials "HOL-Library.AList"
begin

text \<open>
  Jump hosts: the connection material of a chain (\<open>dosm/jumps/connections.py\<close>) and the pool of SSH
  connections with its leased forwards and SOCKS proxies (\<open>dosm/jumps/tunnels.py\<close>). The library
  \<open>asyncssh\<close> is a parameter: what a connection attempt, a forward and the import of a key come to.
  Connections and listeners are handles; \<open>wire\<close> records which of them are open. Lease objects live in
  a store and are named by their index, because the caller, the session registry and the releasing task
  share them. Times are microseconds of \<open>time.monotonic\<close>.
\<close>

section \<open>Connection material\<close>

record hop_creds =
  hc_host_id :: int
  hc_name :: string
  hc_hostname :: string
  hc_port :: int
  hc_protocol :: string
  hc_username :: json
  hc_password :: "json option"
  hc_private_key :: "string option"

datatype chain_error =
    Secret_Missing string
  | Secret_Failed string
  | Material_Error dynamic_error

definition host_credential :: "db \<Rightarrow> host \<Rightarrow> credential option" where
  \<comment> \<open>the relationship \<open>host.credential\<close>\<close>
  "host_credential d h = (case h_credential_id h of None \<Rightarrow> None | Some i \<Rightarrow> get_row c_id (d_credentials d) i)"

definition hop_of :: "host \<Rightarrow> json \<Rightarrow> json option \<Rightarrow> string option \<Rightarrow> hop_creds" where
  "hop_of h username password key = \<lparr>hc_host_id = h_id h, hc_name = h_name h, hc_hostname = h_hostname h,
     hc_port = h_port h, hc_protocol = h_protocol h, hc_username = username, hc_password = password,
     hc_private_key = key\<rparr>"

definition resolve_creds :: "secret_backend \<Rightarrow> (string \<Rightarrow> json option) \<Rightarrow> db \<Rightarrow> int option \<Rightarrow> host \<Rightarrow>
    chain_error + hop_creds" where
  "resolve_creds B loads d uid h = (case host_credential d h of
     None \<Rightarrow> Inr (hop_of h (JStr ''root'') None None)
   | Some c \<Rightarrow>
       if c_kind c = DYNAMIC_KIND then
         (case resolve_dynamic B loads d uid c of
            Inl e \<Rightarrow> Inl (Material_Error e)
          | Inr (username, password) \<Rightarrow> Inr (hop_of h username (Some password) None))
       else (let username = JStr (or_default (c_username c) ''root'') in
         (case be_get B d (c_secret_ref c) of
            Inl (Secret_Not_Found _) \<Rightarrow> Inl (Secret_Missing (''credential '' @ py_repr (c_name c)
              @ '' secret_ref '' @ py_repr (c_secret_ref c) @ '' missing''))
          | Inl (Secret_Runtime e) \<Rightarrow> Inl (Secret_Failed e)
          | Inr secret \<Rightarrow>
              if c_kind c = ''ssh_key'' then Inr (hop_of h username None (Some secret))
              else Inr (hop_of h username (Some (JStr secret)) None))))"

fun resolve_hops :: "secret_backend \<Rightarrow> (string \<Rightarrow> json option) \<Rightarrow> db \<Rightarrow> int option \<Rightarrow> host list \<Rightarrow>
    chain_error + hop_creds list" where
  "resolve_hops B loads d uid [] = Inr []"
| "resolve_hops B loads d uid (h # hs) = bind_r (resolve_creds B loads d uid h)
     (\<lambda>c. bind_r (resolve_hops B loads d uid hs) (\<lambda>cs. Inr (c # cs)))"

definition build_jump_chain :: "secret_backend \<Rightarrow> (string \<Rightarrow> json option) \<Rightarrow> db \<Rightarrow> int option \<Rightarrow> host \<Rightarrow>
    (chain_error + hop_creds list \<times> hop_creds) option" where
  \<comment> \<open>\<open>None\<close>: the walk along the jump hosts never ends\<close>
  "build_jump_chain B loads d uid h = (case resolve_jump_chain d h of None \<Rightarrow> None
     | Some chain \<Rightarrow> Some (bind_r (resolve_hops B loads d uid chain)
         (\<lambda>hops. bind_r (resolve_creds B loads d uid h) (\<lambda>target. Inr (hops, target)))))"

section \<open>Opening a chain\<close>

record ssh_exc =
  x_text :: string
  x_reason :: "string option"

datatype ssh_outcome =
    Connected
  | Denied ssh_exc
  | Refused ssh_exc
  | Timed_Out ssh_exc
  | Os_Failure ssh_exc
  | Other_Failure ssh_exc

record ssh_args =
  sa_host :: string
  sa_port :: int
  sa_username :: json
  sa_client_key :: "string option"
  sa_password :: "json option"
  sa_tunnel :: "nat option"

record ssh_env =
  ssh_dial :: "nat \<Rightarrow> ssh_args \<Rightarrow> ssh_outcome"
  ssh_forward :: "nat \<Rightarrow> nat \<Rightarrow> string \<Rightarrow> string \<Rightarrow> int \<Rightarrow> string + int"
  ssh_socks :: "nat \<Rightarrow> nat \<Rightarrow> string \<Rightarrow> string + int"
  ssh_import_key :: "string \<Rightarrow> string + string"
  repr_value :: "json \<Rightarrow> string"

record wire =
  w_conns :: "nat list"
  w_listeners :: "nat list"
  w_next :: nat

datatype jump_error = Jump_Auth string | Jump_Unreachable string | Forward_Failed string

definition py_repr_json :: "ssh_env \<Rightarrow> json \<Rightarrow> string" where
  "py_repr_json E v = (case v of JStr s \<Rightarrow> py_repr s | _ \<Rightarrow> repr_value E v)"

definition opt_truthy :: "json option \<Rightarrow> bool" where
  "opt_truthy v = (case v of None \<Rightarrow> False | Some x \<Rightarrow> json_truthy x)"

definition connect_kwargs :: "ssh_env \<Rightarrow> hop_creds \<Rightarrow> nat option \<Rightarrow> string + ssh_args" where
  "connect_kwargs E hop tunnel =
     bind_r (case hc_private_key hop of None \<Rightarrow> Inr None
             | Some k \<Rightarrow> if k = [] then Inr None else bind_r (ssh_import_key E k) (\<lambda>key. Inr (Some key)))
       (\<lambda>key. Inr \<lparr>sa_host = hc_hostname hop, sa_port = hc_port hop, sa_username = hc_username hop,
          sa_client_key = key, sa_password = (if opt_truthy (hc_password hop) then hc_password hop else None),
          sa_tunnel = tunnel\<rparr>)"

definition ssh_connect :: "ssh_env \<Rightarrow> ssh_args \<Rightarrow> wire \<Rightarrow> (ssh_outcome + nat) \<times> wire" where
  \<comment> \<open>\<open>await asyncssh.connect(**kwargs)\<close>: every attempt uses up a handle\<close>
  "ssh_connect E args w = (case ssh_dial E (w_next w) args of
     Connected \<Rightarrow> (Inr (w_next w), w\<lparr>w_conns := w_next w # w_conns w, w_next := Suc (w_next w)\<rparr>)
   | out \<Rightarrow> (Inl out, w\<lparr>w_next := Suc (w_next w)\<rparr>))"

definition denied_text :: "ssh_env \<Rightarrow> hop_creds \<Rightarrow> string" where
  "denied_text E hop = ''authentication failed at jump host '' @ py_repr (hc_name hop) @ '' (user ''
     @ py_repr_json E (hc_username hop) @ '') - check the credential profile''"

definition unreachable_text :: "hop_creds \<Rightarrow> string \<Rightarrow> string" where
  "unreachable_text hop e = ''cannot connect to jump host '' @ py_repr (hc_name hop) @ '' ('' @ hc_hostname hop
     @ '':'' @ str_int (hc_port hop) @ ''): '' @ e"

definition outcome_text :: "ssh_outcome \<Rightarrow> string" where
  "outcome_text out = (case out of Connected \<Rightarrow> [] | Denied x \<Rightarrow> x_text x | Refused x \<Rightarrow> x_text x
     | Timed_Out x \<Rightarrow> x_text x | Os_Failure x \<Rightarrow> x_text x | Other_Failure x \<Rightarrow> x_text x)"

fun open_chain :: "ssh_env \<Rightarrow> nat option \<Rightarrow> hop_creds \<Rightarrow> hop_creds list \<Rightarrow> wire \<Rightarrow> (jump_error + nat) \<times> wire" where
  \<comment> \<open>\<open>_open_chain\<close> on the non-empty chain \<open>hop # hops\<close>\<close>
  "open_chain E prev hop hops w = (case connect_kwargs E hop prev of
     Inl e \<Rightarrow> (Inl (Jump_Unreachable (unreachable_text hop e)), w)
   | Inr args \<Rightarrow> (case ssh_connect E args w of
        (Inl out, w') \<Rightarrow> (case out of
            Denied _ \<Rightarrow> (Inl (Jump_Auth (denied_text E hop)), w')
          | _ \<Rightarrow> (Inl (Jump_Unreachable (unreachable_text hop (outcome_text out))), w'))
      | (Inr conn, w') \<Rightarrow> (case hops of [] \<Rightarrow> (Inr conn, w')
          | next # rest \<Rightarrow> open_chain E (Some conn) next rest w')))"

declare open_chain.simps [simp del]

datatype connect_error = Key_Rejected string | Connect_Raised ssh_outcome

definition connect_hop :: "ssh_env \<Rightarrow> nat option \<Rightarrow> hop_creds \<Rightarrow> wire \<Rightarrow> (connect_error + nat) \<times> wire" where
  "connect_hop E prev hop w = (case connect_kwargs E hop prev of
     Inl e \<Rightarrow> (Inl (Key_Rejected e), w)
   | Inr args \<Rightarrow> (case ssh_connect E args w of
        (Inl out, w') \<Rightarrow> (Inl (Connect_Raised out), w') | (Inr c, w') \<Rightarrow> (Inr c, w')))"

fun connect_through_chain :: "ssh_env \<Rightarrow> nat option \<Rightarrow> hop_creds list \<Rightarrow> hop_creds \<Rightarrow> wire \<Rightarrow>
    (connect_error + nat) \<times> wire" where
  "connect_through_chain E prev [] target w = connect_hop E prev target w"
| "connect_through_chain E prev (hop # hops) target w = (case connect_hop E prev hop w of
     (Inl e, w') \<Rightarrow> (Inl e, w') | (Inr c, w') \<Rightarrow> connect_through_chain E (Some c) hops target w')"

text \<open>A chain that fails at a later jump leaves the connections of the earlier ones open.\<close>

lemma connect_through_chain_leaks:
  assumes "connect_hop E prev hop w = (Inr c, w1)" and "connect_hop E (Some c) target w1 = (Inl e, w2)"
  shows "connect_through_chain E prev [hop] target w = (Inl e, w2) \<and> c \<in> set (w_conns w2)"
  using assms by (auto simp: connect_hop_def ssh_connect_def split: sum.splits prod.splits ssh_outcome.splits)

section \<open>The pool\<close>

record forward_entry =
  fe_listener :: nat
  fe_bind_host :: string
  fe_bind_port :: int
  fe_target_host :: string
  fe_target_port :: int
  fe_lease_count :: int

record jump_entry =
  je_chain_sig :: "int list"
  je_conn :: nat
  je_forwards :: "((string \<times> int) \<times> forward_entry) list"
  je_last_active :: int
  je_socks_listener :: "nat option"
  je_socks_bind_host :: string
  je_socks_bind_port :: int
  je_socks_lease_count :: int

text \<open>
  \<open>release\<close> sets the flag of the lease, then waits for the lock, then decrements. \<open>Held\<close>: the flag is
  not set. \<open>Waiting\<close>: set, the task waits for the lock. \<open>Done\<close>: decremented. \<open>Abandoned\<close>: the task was
  cancelled while it waited. So \<open>_released\<close> is \<open>phase \<noteq> Held\<close>.
\<close>

datatype lease_phase = Held | Waiting | Done | Abandoned

type_synonym forward_key = "int list \<times> string \<times> int"

record tunnel_lease =
  tl_bind_host :: string
  tl_bind_port :: int
  tl_target_host :: string
  tl_target_port :: int
  tl_key :: forward_key
  tl_phase :: lease_phase

record socks_lease =
  sl_bind_host :: string
  sl_bind_port :: int
  sl_sig :: "int list"
  sl_phase :: lease_phase

record tunnels =
  tm_jumps :: "(int list \<times> jump_entry) list"
  tm_sessions :: "(string \<times> nat) list"
  tm_leases :: "tunnel_lease list"
  tm_socks :: "socks_lease list"
  tm_wire :: wire

definition no_tunnels :: tunnels where
  "no_tunnels = \<lparr>tm_jumps = [], tm_sessions = [], tm_leases = [], tm_socks = [],
     tm_wire = \<lparr>w_conns = [], w_listeners = [], w_next = 0\<rparr>\<rparr>"

definition chain_signature :: "hop_creds list \<Rightarrow> int list" where
  "chain_signature hops = map hc_host_id hops"

definition put_jump :: "int list \<Rightarrow> jump_entry \<Rightarrow> tunnels \<Rightarrow> tunnels" where
  "put_jump sig e m = m\<lparr>tm_jumps := AList.update sig e (tm_jumps m)\<rparr>"

definition ensure_jump :: "ssh_env \<Rightarrow> int \<Rightarrow> hop_creds \<Rightarrow> hop_creds list \<Rightarrow> tunnels \<Rightarrow> (jump_error + jump_entry) \<times> tunnels" where
  \<comment> \<open>the start of \<open>acquire\<close> and \<open>acquire_socks\<close>: the entry of the chain, opened when there is none\<close>
  "ensure_jump E now hop hops m = (let sig = chain_signature (hop # hops) in
     (case map_of (tm_jumps m) sig of
        Some e \<Rightarrow> (Inr e, m)
      | None \<Rightarrow> (case open_chain E None hop hops (tm_wire m) of
          (Inl err, w) \<Rightarrow> (Inl err, m\<lparr>tm_wire := w\<rparr>)
        | (Inr conn, w) \<Rightarrow>
            (let e = \<lparr>je_chain_sig = sig, je_conn = conn, je_forwards = [], je_last_active = now,
                   je_socks_listener = None, je_socks_bind_host = [], je_socks_bind_port = 0, je_socks_lease_count = 0\<rparr>
             in (Inr e, put_jump sig e (m\<lparr>tm_wire := w\<rparr>))))))"

definition open_listener :: "string + int \<Rightarrow> wire \<Rightarrow> (string + nat \<times> int) \<times> wire" where
  \<comment> \<open>a listener of \<open>asyncssh\<close> and its port\<close>
  "open_listener out w = (case out of
     Inl e \<Rightarrow> (Inl e, w\<lparr>w_next := Suc (w_next w)\<rparr>)
   | Inr port \<Rightarrow> (Inr (w_next w, port), w\<lparr>w_listeners := w_next w # w_listeners w, w_next := Suc (w_next w)\<rparr>))"

definition close_listener :: "nat \<Rightarrow> wire \<Rightarrow> wire" where
  "close_listener l w = w\<lparr>w_listeners := removeAll l (w_listeners w)\<rparr>"

definition close_conn :: "nat \<Rightarrow> wire \<Rightarrow> wire" where
  "close_conn c w = w\<lparr>w_conns := removeAll c (w_conns w)\<rparr>"

definition ensure_forward :: "ssh_env \<Rightarrow> string \<Rightarrow> string \<Rightarrow> int \<Rightarrow> jump_entry \<Rightarrow> tunnels \<Rightarrow> (string + forward_entry) \<times> tunnels" where
  "ensure_forward E bind_host host port e m = (case map_of (je_forwards e) (host, port) of
     Some f \<Rightarrow> (Inr f, m)
   | None \<Rightarrow> (case open_listener (ssh_forward E (w_next (tm_wire m)) (je_conn e) bind_host host port) (tm_wire m) of
       (Inl err, w) \<Rightarrow> (Inl err, m\<lparr>tm_wire := w\<rparr>)
     | (Inr (l, bound), w) \<Rightarrow> (Inr \<lparr>fe_listener = l, fe_bind_host = bind_host, fe_bind_port = bound,
          fe_target_host = host, fe_target_port = port, fe_lease_count = 0\<rparr>, m\<lparr>tm_wire := w\<rparr>)))"

definition lease_forward :: "int \<Rightarrow> jump_entry \<Rightarrow> forward_entry \<Rightarrow> tunnels \<Rightarrow> nat \<times> tunnels" where
  \<comment> \<open>count the lease, remember the activity, make the lease object\<close>
  "lease_forward now e f m =
     (let f' = f\<lparr>fe_lease_count := fe_lease_count f + 1\<rparr>;
          e' = e\<lparr>je_forwards := AList.update (fe_target_host f, fe_target_port f) f' (je_forwards e), je_last_active := now\<rparr>;
          l = \<lparr>tl_bind_host = fe_bind_host f, tl_bind_port = fe_bind_port f, tl_target_host = fe_target_host f,
               tl_target_port = fe_target_port f, tl_key = (je_chain_sig e, fe_target_host f, fe_target_port f),
               tl_phase = Held\<rparr>
      in (length (tm_leases m), (put_jump (je_chain_sig e) e' m)\<lparr>tm_leases := tm_leases m @ [l]\<rparr>))"

definition acquire :: "ssh_env \<Rightarrow> int \<Rightarrow> string \<Rightarrow> int option \<Rightarrow> hop_creds list \<Rightarrow> hop_creds \<Rightarrow> tunnels \<Rightarrow>
    (jump_error + nat option) \<times> tunnels" where
  \<comment> \<open>the value is the index of the lease; the lock is held from the lookup to the end\<close>
  "acquire E now bind_host target_port jump_hops target m = (case jump_hops of
     [] \<Rightarrow> (Inr None, m)
   | hop # hops \<Rightarrow>
       (let eff_port = (case target_port of Some p \<Rightarrow> p | None \<Rightarrow> hc_port target) in
        (case ensure_jump E now hop hops m of
           (Inl err, m1) \<Rightarrow> (Inl err, m1)
         | (Inr e, m1) \<Rightarrow> (case ensure_forward E bind_host (hc_hostname target) eff_port e m1 of
              (Inl err, m2) \<Rightarrow> (Inl (Forward_Failed err), m2)
            | (Inr f, m2) \<Rightarrow> (case lease_forward now e f m2 of (i, m3) \<Rightarrow> (Inr (Some i), m3))))))"

definition ensure_socks :: "ssh_env \<Rightarrow> string \<Rightarrow> jump_entry \<Rightarrow> tunnels \<Rightarrow> (string + jump_entry) \<times> tunnels" where
  "ensure_socks E bind_host e m = (case je_socks_listener e of
     Some _ \<Rightarrow> (Inr e, m)
   | None \<Rightarrow> (case open_listener (ssh_socks E (w_next (tm_wire m)) (je_conn e) bind_host) (tm_wire m) of
       (Inl err, w) \<Rightarrow> (Inl err, m\<lparr>tm_wire := w\<rparr>)
     | (Inr (l, port), w) \<Rightarrow> (Inr (e\<lparr>je_socks_listener := Some l, je_socks_bind_host := bind_host,
          je_socks_bind_port := port\<rparr>), m\<lparr>tm_wire := w\<rparr>)))"

definition lease_socks :: "int \<Rightarrow> jump_entry \<Rightarrow> tunnels \<Rightarrow> nat \<times> tunnels" where
  "lease_socks now e m =
     (let e' = e\<lparr>je_socks_lease_count := je_socks_lease_count e + 1, je_last_active := now\<rparr>;
          l = \<lparr>sl_bind_host = je_socks_bind_host e, sl_bind_port = je_socks_bind_port e, sl_sig = je_chain_sig e,
               sl_phase = Held\<rparr>
      in (length (tm_socks m), (put_jump (je_chain_sig e) e' m)\<lparr>tm_socks := tm_socks m @ [l]\<rparr>))"

definition acquire_socks :: "ssh_env \<Rightarrow> int \<Rightarrow> string \<Rightarrow> hop_creds list \<Rightarrow> tunnels \<Rightarrow> (jump_error + nat option) \<times> tunnels" where
  "acquire_socks E now bind_host jump_hops m = (case jump_hops of
     [] \<Rightarrow> (Inr None, m)
   | hop # hops \<Rightarrow> (case ensure_jump E now hop hops m of
        (Inl err, m1) \<Rightarrow> (Inl err, m1)
      | (Inr e, m1) \<Rightarrow> (case ensure_socks E bind_host e m1 of
           (Inl err, m2) \<Rightarrow> (Inl (Forward_Failed err), m2)
         | (Inr e', m2) \<Rightarrow> (case lease_socks now e' m2 of (i, m3) \<Rightarrow> (Inr (Some i), m3)))))"

definition release_key :: "int \<Rightarrow> forward_key \<Rightarrow> tunnels \<Rightarrow> tunnels" where
  \<comment> \<open>\<open>_release\<close>\<close>
  "release_key now key m = (case key of (sig, host, port) \<Rightarrow>
     (case map_of (tm_jumps m) sig of None \<Rightarrow> m
      | Some e \<Rightarrow> (case map_of (je_forwards e) (host, port) of None \<Rightarrow> m
          | Some f \<Rightarrow> (let f' = f\<lparr>fe_lease_count := fe_lease_count f - 1\<rparr> in
              if fe_lease_count f' \<le> 0
              then put_jump sig (e\<lparr>je_forwards := AList.delete (host, port) (je_forwards e), je_last_active := now\<rparr>)
                     (m\<lparr>tm_wire := close_listener (fe_listener f) (tm_wire m)\<rparr>)
              else put_jump sig (e\<lparr>je_forwards := AList.update (host, port) f' (je_forwards e),
                     je_last_active := now\<rparr>) m))))"

definition release_socks_sig :: "int \<Rightarrow> int list \<Rightarrow> tunnels \<Rightarrow> tunnels" where
  \<comment> \<open>\<open>_release_socks\<close>\<close>
  "release_socks_sig now sig m = (case map_of (tm_jumps m) sig of None \<Rightarrow> m
     | Some e \<Rightarrow> (let n = je_socks_lease_count e - 1 in
         if n \<le> 0
         then put_jump sig (e\<lparr>je_socks_lease_count := 0, je_socks_listener := None,
                je_socks_bind_port := (if je_socks_listener e = None then je_socks_bind_port e else 0),
                je_last_active := now\<rparr>)
                (case je_socks_listener e of None \<Rightarrow> m | Some l \<Rightarrow> m\<lparr>tm_wire := close_listener l (tm_wire m)\<rparr>)
         else put_jump sig (e\<lparr>je_socks_lease_count := n, je_last_active := now\<rparr>) m))"

definition set_phase :: "nat \<Rightarrow> lease_phase \<Rightarrow> tunnels \<Rightarrow> tunnels" where
  "set_phase i p m = m\<lparr>tm_leases := (tm_leases m)[i := (tm_leases m ! i)\<lparr>tl_phase := p\<rparr>]\<rparr>"

definition set_socks_phase :: "nat \<Rightarrow> lease_phase \<Rightarrow> tunnels \<Rightarrow> tunnels" where
  "set_socks_phase i p m = m\<lparr>tm_socks := (tm_socks m)[i := (tm_socks m ! i)\<lparr>sl_phase := p\<rparr>]\<rparr>"

definition release_start :: "nat \<Rightarrow> tunnels \<Rightarrow> tunnels" where
  \<comment> \<open>\<open>TunnelLease.release\<close> up to the lock\<close>
  "release_start i m = (if i < length (tm_leases m) \<and> tl_phase (tm_leases m ! i) = Held then set_phase i Waiting m else m)"

definition release_finish :: "int \<Rightarrow> nat \<Rightarrow> tunnels \<Rightarrow> tunnels" where
  \<comment> \<open>the rest of it, under the lock\<close>
  "release_finish now i m = (if i < length (tm_leases m) \<and> tl_phase (tm_leases m ! i) = Waiting
     then release_key now (tl_key (tm_leases m ! i)) (set_phase i Done m) else m)"

definition release_cancel :: "nat \<Rightarrow> tunnels \<Rightarrow> tunnels" where
  \<comment> \<open>the releasing task is cancelled while it waits for the lock\<close>
  "release_cancel i m = (if i < length (tm_leases m) \<and> tl_phase (tm_leases m ! i) = Waiting
     then set_phase i Abandoned m else m)"

definition socks_release_start :: "nat \<Rightarrow> tunnels \<Rightarrow> tunnels" where
  "socks_release_start i m = (if i < length (tm_socks m) \<and> sl_phase (tm_socks m ! i) = Held
     then set_socks_phase i Waiting m else m)"

definition socks_release_finish :: "int \<Rightarrow> nat \<Rightarrow> tunnels \<Rightarrow> tunnels" where
  "socks_release_finish now i m = (if i < length (tm_socks m) \<and> sl_phase (tm_socks m ! i) = Waiting
     then release_socks_sig now (sl_sig (tm_socks m ! i)) (set_socks_phase i Done m) else m)"

definition socks_release_cancel :: "nat \<Rightarrow> tunnels \<Rightarrow> tunnels" where
  "socks_release_cancel i m = (if i < length (tm_socks m) \<and> sl_phase (tm_socks m ! i) = Waiting
     then set_socks_phase i Abandoned m else m)"

definition register_session :: "string \<Rightarrow> nat \<Rightarrow> tunnels \<Rightarrow> tunnels" where
  \<comment> \<open>the id is the fresh random token\<close>
  "register_session sid i m = m\<lparr>tm_sessions := AList.update sid i (tm_sessions m)\<rparr>"

definition release_session :: "string \<Rightarrow> tunnels \<Rightarrow> bool \<times> tunnels" where
  \<comment> \<open>pop under the lock, then \<open>lease.release()\<close> up to its own lock; also what the backstop runs\<close>
  "release_session sid m = (case map_of (tm_sessions m) sid of None \<Rightarrow> (False, m)
     | Some i \<Rightarrow> (True, release_start i (m\<lparr>tm_sessions := AList.delete sid (tm_sessions m)\<rparr>)))"

definition IDLE_CLOSE_AFTER :: int where
  "IDLE_CLOSE_AFTER = 300000000"

definition reapable :: "int \<Rightarrow> jump_entry \<Rightarrow> bool" where
  "reapable now e \<longleftrightarrow> je_forwards e = [] \<and> je_socks_listener e = None \<and> \<not> now - je_last_active e < IDLE_CLOSE_AFTER"

definition gc :: "int \<Rightarrow> tunnels \<Rightarrow> nat \<times> tunnels" where
  "gc now m = (let dead = filter (\<lambda>(sig, e). reapable now e) (tm_jumps m) in
     (length dead, m\<lparr>tm_jumps := filter (\<lambda>(sig, e). \<not> reapable now e) (tm_jumps m),
        tm_wire := fold close_conn (map (\<lambda>(sig, e). je_conn e) dead) (tm_wire m)\<rparr>))"

record tunnel_stats =
  st_open_jump_connections :: nat
  st_open_forwards :: nat
  st_open_socks_proxies :: nat
  st_active_sessions :: nat

definition stats :: "tunnels \<Rightarrow> tunnel_stats" where
  "stats m = \<lparr>st_open_jump_connections = length (tm_jumps m),
     st_open_forwards = sum_list (map (\<lambda>(sig, e). length (je_forwards e)) (tm_jumps m)),
     st_open_socks_proxies = length (filter (\<lambda>(sig, e). je_socks_listener e \<noteq> None) (tm_jumps m)),
     st_active_sessions = length (tm_sessions m)\<rparr>"

section \<open>Runs of the pool\<close>

datatype tunnel_event =
    Acquire int string "int option" "hop_creds list" hop_creds
  | Acquire_Socks int string "hop_creds list"
  | Release_Start nat
  | Release_Finish int nat
  | Release_Cancel nat
  | Socks_Release_Start nat
  | Socks_Release_Finish int nat
  | Socks_Release_Cancel nat
  | Register_Session string nat
  | Release_Session string
  | Collect int

fun tunnel_exec :: "ssh_env \<Rightarrow> tunnel_event \<Rightarrow> tunnels \<Rightarrow> tunnels" where
  "tunnel_exec E (Acquire now bh tp hops target) m = snd (acquire E now bh tp hops target m)"
| "tunnel_exec E (Acquire_Socks now bh hops) m = snd (acquire_socks E now bh hops m)"
| "tunnel_exec E (Release_Start i) m = release_start i m"
| "tunnel_exec E (Release_Finish now i) m = release_finish now i m"
| "tunnel_exec E (Release_Cancel i) m = release_cancel i m"
| "tunnel_exec E (Socks_Release_Start i) m = socks_release_start i m"
| "tunnel_exec E (Socks_Release_Finish now i) m = socks_release_finish now i m"
| "tunnel_exec E (Socks_Release_Cancel i) m = socks_release_cancel i m"
| "tunnel_exec E (Register_Session sid i) m = register_session sid i m"
| "tunnel_exec E (Release_Session sid) m = snd (release_session sid m)"
| "tunnel_exec E (Collect now) m = snd (gc now m)"

definition tunnel_run :: "ssh_env \<Rightarrow> tunnel_event list \<Rightarrow> tunnels" where
  "tunnel_run E evs = fold (tunnel_exec E) evs no_tunnels"

section \<open>The invariant of the pool\<close>

definition counted :: "forward_key \<Rightarrow> tunnel_lease list \<Rightarrow> nat" where
  "counted key ls = length (filter (\<lambda>l. tl_key l = key \<and> tl_phase l \<noteq> Done) ls)"

definition counted_socks :: "int list \<Rightarrow> socks_lease list \<Rightarrow> nat" where
  "counted_socks sig ls = length (filter (\<lambda>l. sl_sig l = sig \<and> sl_phase l \<noteq> Done) ls)"

definition forward_of :: "tunnels \<Rightarrow> forward_key \<Rightarrow> forward_entry option" where
  "forward_of m key = (case map_of (tm_jumps m) (fst key) of None \<Rightarrow> None
     | Some e \<Rightarrow> map_of (je_forwards e) (snd key))"

definition socks_of :: "tunnels \<Rightarrow> int list \<Rightarrow> nat option" where
  "socks_of m sig = (case map_of (tm_jumps m) sig of None \<Rightarrow> None | Some e \<Rightarrow> je_socks_listener e)"

abbreviation jump_at :: "tunnels \<Rightarrow> int list \<Rightarrow> jump_entry option" where
  "jump_at m \<equiv> map_of (tm_jumps m)"

definition wire_ok :: "wire \<Rightarrow> bool" where
  \<comment> \<open>open handles were handed out before\<close>
  "wire_ok w \<longleftrightarrow> (\<forall>h \<in> set (w_conns w) \<union> set (w_listeners w). h < w_next w)"

definition forward_ok :: "tunnels \<Rightarrow> int list \<Rightarrow> string \<times> int \<Rightarrow> forward_entry \<Rightarrow> bool" where
  "forward_ok m sig hp f \<longleftrightarrow> (fe_target_host f, fe_target_port f) = hp
     \<and> fe_lease_count f = int (counted (sig, hp) (tm_leases m)) \<and> 0 < counted (sig, hp) (tm_leases m)"

definition entry_ok :: "tunnels \<Rightarrow> int list \<Rightarrow> jump_entry \<Rightarrow> bool" where
  "entry_ok m sig e \<longleftrightarrow> je_chain_sig e = sig \<and> je_conn e \<in> set (w_conns (tm_wire m))
     \<and> je_socks_lease_count e = int (counted_socks sig (tm_socks m))
     \<and> (je_socks_listener e = None \<longleftrightarrow> counted_socks sig (tm_socks m) = 0)
     \<and> (\<forall>hp f. map_of (je_forwards e) hp = Some f \<longrightarrow> forward_ok m sig hp f)"

definition serves :: "tunnels \<Rightarrow> tunnel_lease \<Rightarrow> bool" where
  \<comment> \<open>the pool holds a forward for the lease, as the lease describes it\<close>
  "serves m l \<longleftrightarrow> (\<exists>f. forward_of m (tl_key l) = Some f \<and> fe_bind_host f = tl_bind_host l
     \<and> fe_bind_port f = tl_bind_port l \<and> fe_target_host f = tl_target_host l \<and> fe_target_port f = tl_target_port l)"

definition serves_socks :: "tunnels \<Rightarrow> socks_lease \<Rightarrow> bool" where
  "serves_socks m l \<longleftrightarrow> (\<exists>e. jump_at m (sl_sig l) = Some e \<and> je_socks_listener e \<noteq> None
     \<and> je_socks_bind_host e = sl_bind_host l \<and> je_socks_bind_port e = sl_bind_port l)"

definition listener_at :: "tunnels \<Rightarrow> forward_key + int list \<Rightarrow> nat option" where
  "listener_at m slot = (case slot of Inl key \<Rightarrow> map_option fe_listener (forward_of m key) | Inr sig \<Rightarrow> socks_of m sig)"

definition listeners_ok :: "tunnels \<Rightarrow> bool" where
  \<comment> \<open>the open listeners are those of the pool, each in one place\<close>
  "listeners_ok m \<longleftrightarrow> (\<forall>s s' l. listener_at m s = Some l \<longrightarrow> listener_at m s' = Some l \<longrightarrow> s = s')
     \<and> set (w_listeners (tm_wire m)) = {l. \<exists>s. listener_at m s = Some l}"

definition pool_ok :: "tunnels \<Rightarrow> bool" where
  "pool_ok m \<longleftrightarrow> distinct (map fst (tm_jumps m)) \<and> wire_ok (tm_wire m)
     \<and> (\<forall>sig e. jump_at m sig = Some e \<longrightarrow> entry_ok m sig e)
     \<and> (\<forall>sig sig' e e'. jump_at m sig = Some e \<longrightarrow> jump_at m sig' = Some e' \<longrightarrow> je_conn e = je_conn e' \<longrightarrow> sig = sig')
     \<and> (\<forall>l \<in> set (tm_leases m). tl_phase l \<noteq> Done \<longrightarrow> serves m l)
     \<and> (\<forall>l \<in> set (tm_socks m). sl_phase l \<noteq> Done \<longrightarrow> serves_socks m l)
     \<and> listeners_ok m"

lemma jump_at_put_jump [simp]: "jump_at (put_jump sig e m) = (jump_at m)(sig \<mapsto> e)"
  by (simp add: put_jump_def update_conv')

lemma put_jump_simps [simp]:
  "tm_leases (put_jump sig e m) = tm_leases m" "tm_socks (put_jump sig e m) = tm_socks m"
  "tm_wire (put_jump sig e m) = tm_wire m" "tm_sessions (put_jump sig e m) = tm_sessions m"
  "distinct (map fst (tm_jumps (put_jump sig e m))) \<longleftrightarrow> distinct (map fst (tm_jumps m))"
  by (simp_all add: put_jump_def distinct_update update_keys)

lemma forward_of_put_jump: "forward_of (put_jump sig e m) key =
    (if fst key = sig then map_of (je_forwards e) (snd key) else forward_of m key)"
  by (simp add: forward_of_def)

lemma socks_of_put_jump: "socks_of (put_jump sig e m) sig' = (if sig' = sig then je_socks_listener e else socks_of m sig')"
  by (simp add: socks_of_def)

lemma views_cong:
  assumes "tm_jumps m' = tm_jumps m"
  shows "forward_of m' = forward_of m" "socks_of m' = socks_of m" "listener_at m' = listener_at m"
    "serves m' = serves m" "serves_socks m' = serves_socks m"
  using assms by (auto simp: forward_of_def socks_of_def listener_at_def serves_def serves_socks_def fun_eq_iff split: sum.splits)

lemma counted_append: "counted key (ls @ ks) = counted key ls + counted key ks"
  by (simp add: counted_def)

lemma counted_socks_append: "counted_socks sig (ls @ ks) = counted_socks sig ls + counted_socks sig ks"
  by (simp add: counted_socks_def)

lemma counted_pos: "0 < counted key ls \<longleftrightarrow> (\<exists>l \<in> set ls. tl_key l = key \<and> tl_phase l \<noteq> Done)"
  by (auto simp: counted_def filter_empty_conv)

lemma counted_socks_pos: "0 < counted_socks sig ls \<longleftrightarrow> (\<exists>l \<in> set ls. sl_sig l = sig \<and> sl_phase l \<noteq> Done)"
  by (auto simp: counted_socks_def filter_empty_conv)

lemma filter_length_update:
  assumes "i < length xs"
  shows "length (filter P (xs[i := y])) + (if P (xs ! i) then 1 else 0) = length (filter P xs) + (if P y then 1 else 0)"
proof -
  have "xs = take i xs @ xs ! i # drop (Suc i) xs"
    using assms by (rule id_take_nth_drop)
  moreover have "xs[i := y] = take i xs @ y # drop (Suc i) xs"
    using assms by (rule upd_conv_take_nth_drop)
  ultimately have "length (filter P xs) = length (filter P (take i xs)) + length (filter P (xs ! i # drop (Suc i) xs))"
    and "length (filter P (xs[i := y])) = length (filter P (take i xs)) + length (filter P (y # drop (Suc i) xs))"
    by (metis filter_append length_append)+
  then show ?thesis
    by simp
qed

lemma counted_phase_same:
  assumes "i < length ls" and "tl_phase (ls ! i) \<noteq> Done" and "p \<noteq> Done"
  shows "counted key (ls[i := (ls ! i)\<lparr>tl_phase := p\<rparr>]) = counted key ls"
  using filter_length_update [OF assms(1), of "\<lambda>l. tl_key l = key \<and> tl_phase l \<noteq> Done" "(ls ! i)\<lparr>tl_phase := p\<rparr>"] assms
  by (simp add: counted_def split: if_splits)

lemma counted_phase_done:
  assumes "i < length ls" and "tl_phase (ls ! i) \<noteq> Done"
  shows "counted key (ls[i := (ls ! i)\<lparr>tl_phase := Done\<rparr>]) = counted key ls - (if tl_key (ls ! i) = key then 1 else 0)"
  using filter_length_update [OF assms(1), of "\<lambda>l. tl_key l = key \<and> tl_phase l \<noteq> Done" "(ls ! i)\<lparr>tl_phase := Done\<rparr>"] assms
  by (simp add: counted_def split: if_splits)

lemma counted_socks_phase_same:
  assumes "i < length ls" and "sl_phase (ls ! i) \<noteq> Done" and "p \<noteq> Done"
  shows "counted_socks sig (ls[i := (ls ! i)\<lparr>sl_phase := p\<rparr>]) = counted_socks sig ls"
  using filter_length_update [OF assms(1), of "\<lambda>l. sl_sig l = sig \<and> sl_phase l \<noteq> Done" "(ls ! i)\<lparr>sl_phase := p\<rparr>"] assms
  by (simp add: counted_socks_def split: if_splits)

lemma counted_socks_phase_done:
  assumes "i < length ls" and "sl_phase (ls ! i) \<noteq> Done"
  shows "counted_socks sig (ls[i := (ls ! i)\<lparr>sl_phase := Done\<rparr>]) =
    counted_socks sig ls - (if sl_sig (ls ! i) = sig then 1 else 0)"
  using filter_length_update [OF assms(1), of "\<lambda>l. sl_sig l = sig \<and> sl_phase l \<noteq> Done" "(ls ! i)\<lparr>sl_phase := Done\<rparr>"] assms
  by (simp add: counted_socks_def split: if_splits)

lemma map_of_filter:
  "distinct (map fst xs) \<Longrightarrow> map_of (filter (\<lambda>(k, v). P v) xs) k =
    (case map_of xs k of None \<Rightarrow> None | Some v \<Rightarrow> if P v then Some v else None)"
proof (induction xs)
  case (Cons x xs)
  then show ?case
    by (cases x) (auto split: option.splits simp: map_of_eq_None_iff image_iff dest: map_of_SomeD)
qed simp

section \<open>Opening keeps what is open\<close>

definition wire_grows :: "wire \<Rightarrow> wire \<Rightarrow> bool" where
  \<comment> \<open>new connections only, under new handles\<close>
  "wire_grows w w' \<longleftrightarrow> w_next w \<le> w_next w' \<and> w_listeners w' = w_listeners w
     \<and> set (w_conns w) \<subseteq> set (w_conns w')
     \<and> (\<forall>c \<in> set (w_conns w'). c \<in> set (w_conns w) \<or> w_next w \<le> c \<and> c < w_next w')"

lemma wire_grows_refl [simp]: "wire_grows w w"
  by (simp add: wire_grows_def)

lemma wire_grows_trans: "wire_grows w w' \<Longrightarrow> wire_grows w' w'' \<Longrightarrow> wire_grows w w''"
  unfolding wire_grows_def by (intro conjI ballI; fastforce)

lemma ssh_connect_grows:
  "ssh_connect E args w = (Inr c, w') \<Longrightarrow> wire_grows w w' \<and> c = w_next w \<and> c \<in> set (w_conns w')"
  "ssh_connect E args w = (Inl out, w') \<Longrightarrow> wire_grows w w'"
  by (auto simp: ssh_connect_def wire_grows_def split: ssh_outcome.splits)

lemma open_chain_grows:
  "open_chain E prev hop hops w = (r, w') \<Longrightarrow>
    wire_grows w w' \<and> (\<forall>c. r = Inr c \<longrightarrow> w_next w \<le> c \<and> c \<in> set (w_conns w'))"
proof (induction hops arbitrary: prev hop w r w')
  case Nil
  show ?case
  proof (cases "connect_kwargs E hop prev")
    case (Inl e)
    then show ?thesis
      using Nil by (auto simp: open_chain.simps [of E prev hop "[]"])
  next
    case (Inr args)
    show ?thesis
    proof (cases "ssh_connect E args w")
      case (Pair s w1)
      then show ?thesis
        using Nil Inr ssh_connect_grows [of E args w _ w1]
        by (cases s) (auto simp: open_chain.simps [of E prev hop "[]"] split: ssh_outcome.splits)
    qed
  qed
next
  case (Cons h2 rest)
  show ?case
  proof (cases "connect_kwargs E hop prev")
    case (Inl e)
    then show ?thesis
      using Cons.prems by (auto simp: open_chain.simps [of E prev hop "h2 # rest"])
  next
    case (Inr args)
    show ?thesis
    proof (cases "ssh_connect E args w")
      case (Pair s w1)
      show ?thesis
      proof (cases s)
        case s: (Inl out)
        then show ?thesis
          using Cons.prems Inr Pair ssh_connect_grows(2) [of E args w out w1]
          by (auto simp: open_chain.simps [of E prev hop "h2 # rest"] split: ssh_outcome.splits)
      next
        case s: (Inr c)
        have g: "wire_grows w w1"
          using ssh_connect_grows(1) Pair s by blast
        have "open_chain E (Some c) h2 rest w1 = (r, w')"
          using Cons.prems Inr Pair s by (simp add: open_chain.simps [of E prev hop "h2 # rest"])
        from Cons.IH [OF this] have "wire_grows w1 w'" and r: "\<forall>c. r = Inr c \<longrightarrow> w_next w1 \<le> c \<and> c \<in> set (w_conns w')"
          by auto
        from this(1) have "wire_grows w w'"
          by (rule wire_grows_trans [OF g])
        moreover have "w_next w \<le> w_next w1"
          using g by (simp add: wire_grows_def)
        ultimately show ?thesis
          using r by (auto intro: le_trans)
      qed
    qed
  qed
qed

lemma wire_ok_grows: "wire_ok w \<Longrightarrow> wire_grows w w' \<Longrightarrow> wire_ok w'"
  unfolding wire_ok_def wire_grows_def by (auto intro: less_le_trans)

lemma pool_ok_wire:
  assumes "pool_ok m" and "wire_grows (tm_wire m) w"
  shows "pool_ok (m\<lparr>tm_wire := w\<rparr>)"
proof -
  note v = views_cong [of "m\<lparr>tm_wire := w\<rparr>" m, simplified]
  have "set (w_conns (tm_wire m)) \<subseteq> set (w_conns w)" "w_listeners w = w_listeners (tm_wire m)"
    using assms(2) by (auto simp: wire_grows_def)
  then show ?thesis
    using assms wire_ok_grows [OF _ assms(2)]
    unfolding pool_ok_def entry_ok_def forward_ok_def listeners_ok_def v by auto
qed

section \<open>Every operation keeps the invariant\<close>

lemma pool_okD:
  assumes "pool_ok m"
  shows "distinct (map fst (tm_jumps m))" "wire_ok (tm_wire m)" "listeners_ok m"
    "\<And>sig e. jump_at m sig = Some e \<Longrightarrow> entry_ok m sig e"
    "\<And>sig sig' e e'. jump_at m sig = Some e \<Longrightarrow> jump_at m sig' = Some e' \<Longrightarrow> je_conn e = je_conn e' \<Longrightarrow> sig = sig'"
    "\<And>l. l \<in> set (tm_leases m) \<Longrightarrow> tl_phase l \<noteq> Done \<Longrightarrow> serves m l"
    "\<And>l. l \<in> set (tm_socks m) \<Longrightarrow> sl_phase l \<noteq> Done \<Longrightarrow> serves_socks m l"
  using assms unfolding pool_ok_def by blast+

lemma pool_okI:
  assumes "distinct (map fst (tm_jumps m))" "wire_ok (tm_wire m)" "listeners_ok m"
    "\<And>sig e. jump_at m sig = Some e \<Longrightarrow> entry_ok m sig e"
    "\<And>sig e sig' e'. jump_at m sig = Some e \<Longrightarrow> jump_at m sig' = Some e' \<Longrightarrow> je_conn e = je_conn e' \<Longrightarrow> sig = sig'"
    "\<And>l. l \<in> set (tm_leases m) \<Longrightarrow> tl_phase l \<noteq> Done \<Longrightarrow> serves m l"
    "\<And>l. l \<in> set (tm_socks m) \<Longrightarrow> sl_phase l \<noteq> Done \<Longrightarrow> serves_socks m l"
  shows "pool_ok m"
  using assms unfolding pool_ok_def by blast

lemma counted_none: "pool_ok m \<Longrightarrow> forward_of m key = None \<Longrightarrow> counted key (tm_leases m) = 0"
  using counted_pos [of key "tm_leases m"] pool_okD(6) [of m] by (fastforce simp: serves_def)

lemma counted_socks_none: "pool_ok m \<Longrightarrow> jump_at m sig = None \<Longrightarrow> counted_socks sig (tm_socks m) = 0"
  using counted_socks_pos [of sig "tm_socks m"] pool_okD(7) [of m] by (fastforce simp: serves_socks_def)

definition fresh_entry :: "int list \<Rightarrow> nat \<Rightarrow> int \<Rightarrow> jump_entry" where
  "fresh_entry sig conn now = \<lparr>je_chain_sig = sig, je_conn = conn, je_forwards = [], je_last_active = now,
     je_socks_listener = None, je_socks_bind_host = [], je_socks_bind_port = 0, je_socks_lease_count = 0\<rparr>"

lemma fresh_entry_simps [simp]:
  "je_chain_sig (fresh_entry sig c now) = sig" "je_conn (fresh_entry sig c now) = c"
  "je_forwards (fresh_entry sig c now) = []" "je_socks_listener (fresh_entry sig c now) = None"
  "je_socks_lease_count (fresh_entry sig c now) = 0"
  by (simp_all add: fresh_entry_def)

lemma pool_ok_put_fresh:
  assumes ok: "pool_ok m" and none: "jump_at m sig = None" and c: "c \<in> set (w_conns (tm_wire m))"
    and new: "\<And>s e. jump_at m s = Some e \<Longrightarrow> je_conn e \<noteq> c"
  shows "pool_ok (put_jump sig (fresh_entry sig c now) m)"
proof -
  let ?m = "put_jump sig (fresh_entry sig c now) m"
  have fw: "forward_of ?m = forward_of m"
    using none by (auto simp: forward_of_put_jump forward_of_def fun_eq_iff)
  have sk: "socks_of ?m = socks_of m"
    using none by (auto simp: socks_of_put_jump socks_of_def fun_eq_iff)
  have la: "listener_at ?m = listener_at m"
    by (simp add: listener_at_def fw sk fun_eq_iff split: sum.splits)
  have sv: "serves ?m = serves m"
    by (simp add: serves_def fw fun_eq_iff)
  have ss: "serves_socks m l \<Longrightarrow> serves_socks ?m l" for l
    using none by (auto simp: serves_socks_def)
  have e: "entry_ok ?m s e" if "jump_at ?m s = Some e" for s e
    using that pool_okD(4) [OF ok] c counted_socks_none [OF ok none]
    by (auto simp: entry_ok_def forward_ok_def split: if_splits)
  show ?thesis
    using ok e new ss unfolding pool_ok_def listeners_ok_def la sv by (auto split: if_splits)
qed

definition pooled :: "tunnels \<Rightarrow> jump_entry \<Rightarrow> bool" where
  "pooled m e \<longleftrightarrow> pool_ok m \<and> jump_at m (je_chain_sig e) = Some e"

lemma ensure_jump_ok:
  assumes "pool_ok m" and "ensure_jump E now hop hops m = (r, m')"
  shows "pool_ok m' \<and> (\<forall>e. r = Inr e \<longrightarrow> pooled m' e)"
proof (cases "jump_at m (chain_signature (hop # hops))")
  case (Some e)
  then show ?thesis
    using assms pool_okD(4) [OF assms(1) Some] by (auto simp: ensure_jump_def Let_def pooled_def entry_ok_def)
next
  case None
  obtain s w where oc: "open_chain E None hop hops (tm_wire m) = (s, w)"
    by (cases "open_chain E None hop hops (tm_wire m)")
  have g: "wire_grows (tm_wire m) w" and c: "\<And>c. s = Inr c \<Longrightarrow> w_next (tm_wire m) \<le> c \<and> c \<in> set (w_conns w)"
    using open_chain_grows [OF oc] by auto
  have ok: "pool_ok (m\<lparr>tm_wire := w\<rparr>)"
    by (rule pool_ok_wire [OF assms(1) g])
  show ?thesis
  proof (cases s)
    case (Inl err)
    then show ?thesis
      using assms(2) None oc ok by (auto simp: ensure_jump_def Let_def)
  next
    case (Inr conn)
    let ?e = "fresh_entry (chain_signature (hop # hops)) conn now"
    have old: "je_conn e \<noteq> conn" if "jump_at m sg = Some e" for sg e
    proof -
      have "je_conn e \<in> set (w_conns (tm_wire m))"
        using pool_okD(4) [OF assms(1) that] by (simp add: entry_ok_def)
      then have "je_conn e < w_next (tm_wire m)"
        using pool_okD(2) [OF assms(1)] by (simp add: wire_ok_def)
      then show ?thesis
        using c [OF Inr] by auto
    qed
    have "pool_ok (put_jump (chain_signature (hop # hops)) ?e (m\<lparr>tm_wire := w\<rparr>))"
      using None c [OF Inr] old by (intro pool_ok_put_fresh [OF ok]) auto
    moreover have "r = Inr ?e" "m' = put_jump (chain_signature (hop # hops)) ?e (m\<lparr>tm_wire := w\<rparr>)"
      using assms(2) None oc Inr by (auto simp: ensure_jump_def Let_def fresh_entry_def)
    ultimately show ?thesis
      by (simp add: pooled_def)
  qed
qed

text \<open>A slot of the table is rewritten: the forward \<open>hp\<close> of the entry \<open>sig\<close>, with the leases that go with it.\<close>

lemma listeners_ok_slot:
  assumes ok: "listeners_ok m" and jw: "wire_ok (tm_wire m)"
    and same: "\<And>s. s \<noteq> slot \<Longrightarrow> listener_at m' s = listener_at m s"
    and cases: "listener_at m' slot = listener_at m slot \<and> set (w_listeners (tm_wire m')) = set (w_listeners (tm_wire m))
      \<or> (\<exists>l. listener_at m slot = None \<and> listener_at m' slot = Some l \<and> l = w_next (tm_wire m)
          \<and> set (w_listeners (tm_wire m')) = insert l (set (w_listeners (tm_wire m))))
      \<or> (\<exists>l. listener_at m slot = Some l \<and> listener_at m' slot = None
          \<and> set (w_listeners (tm_wire m')) = set (w_listeners (tm_wire m)) - {l})"
  shows "listeners_ok m'"
proof -
  have inj: "\<And>s s' l. listener_at m s = Some l \<Longrightarrow> listener_at m s' = Some l \<Longrightarrow> s = s'"
    and rng: "set (w_listeners (tm_wire m)) = {l. \<exists>s. listener_at m s = Some l}"
    using ok by (auto simp: listeners_ok_def)
  have lt: "listener_at m s = Some l \<Longrightarrow> l < w_next (tm_wire m)" for s l
    using rng jw by (auto simp: wire_ok_def)
  from cases show ?thesis
  proof (elim disjE exE conjE)
    assume a: "listener_at m' slot = listener_at m slot" "set (w_listeners (tm_wire m')) = set (w_listeners (tm_wire m))"
    have "listener_at m' = listener_at m"
      using a(1) same by (metis ext)
    then show ?thesis
      using a(2) ok by (simp add: listeners_ok_def)
  next
    fix l assume a: "listener_at m slot = None" "listener_at m' slot = Some l" "l = w_next (tm_wire m)"
      "set (w_listeners (tm_wire m')) = insert l (set (w_listeners (tm_wire m)))"
    have la: "listener_at m' = (listener_at m)(slot \<mapsto> l)"
      using same a(2) by auto
    have "{k. \<exists>s. ((listener_at m)(slot \<mapsto> l)) s = Some k} = insert l {k. \<exists>s. listener_at m s = Some k}"
      using a(1) by (auto split: if_splits) (metis option.distinct(1))
    moreover have "s = s'" if "((listener_at m)(slot \<mapsto> l)) s = Some k" "((listener_at m)(slot \<mapsto> l)) s' = Some k" for s s' k
      using that inj [of s k s'] lt [of s k] lt [of s' k] a(3) by (auto split: if_splits)
    ultimately show ?thesis
      unfolding listeners_ok_def la a(4) rng by blast
  next
    fix l assume a: "listener_at m slot = Some l" "listener_at m' slot = None"
      "set (w_listeners (tm_wire m')) = set (w_listeners (tm_wire m)) - {l}"
    have la: "listener_at m' = (listener_at m)(slot := None)"
      using same a(2) by auto
    have "{k. \<exists>s. ((listener_at m)(slot := None)) s = Some k} = {k. \<exists>s. listener_at m s = Some k} - {l}"
    proof (intro set_eqI iffI)
      fix k assume "k \<in> {k. \<exists>s. ((listener_at m)(slot := None)) s = Some k}"
      then obtain s where "s \<noteq> slot" "listener_at m s = Some k"
        by (auto split: if_splits)
      then show "k \<in> {k. \<exists>s. listener_at m s = Some k} - {l}"
        using inj [of s l slot] a(1) by auto
    next
      fix k assume "k \<in> {k. \<exists>s. listener_at m s = Some k} - {l}"
      then obtain s where "listener_at m s = Some k" "k \<noteq> l"
        by auto
      then show "k \<in> {k. \<exists>s. ((listener_at m)(slot := None)) s = Some k}"
        using a(1) by (intro CollectI exI [of _ s]) auto
    qed
    moreover have "s = s'" if "((listener_at m)(slot := None)) s = Some k" "((listener_at m)(slot := None)) s' = Some k" for s s' k
      using that inj [of s k s'] by (auto split: if_splits)
    ultimately show ?thesis
      unfolding listeners_ok_def la a(3) rng by blast
  qed
qed

lemma entry_okD:
  assumes "entry_ok m sig e"
  shows "je_chain_sig e = sig" "je_conn e \<in> set (w_conns (tm_wire m))"
    "je_socks_lease_count e = int (counted_socks sig (tm_socks m))"
    "je_socks_listener e = None \<longleftrightarrow> counted_socks sig (tm_socks m) = 0"
    "\<And>hp f. map_of (je_forwards e) hp = Some f \<Longrightarrow> forward_ok m sig hp f"
  using assms unfolding entry_ok_def by blast+

lemma entry_okI:
  assumes "je_chain_sig e = sig" "je_conn e \<in> set (w_conns (tm_wire m))"
    "je_socks_lease_count e = int (counted_socks sig (tm_socks m))"
    "je_socks_listener e = None \<longleftrightarrow> counted_socks sig (tm_socks m) = 0"
    "\<And>hp f. map_of (je_forwards e) hp = Some f \<Longrightarrow> forward_ok m sig hp f"
  shows "entry_ok m sig e"
  using assms unfolding entry_ok_def by blast

definition matches :: "forward_entry \<Rightarrow> tunnel_lease \<Rightarrow> bool" where
  "matches f l \<longleftrightarrow> fe_bind_host f = tl_bind_host l \<and> fe_bind_port f = tl_bind_port l
     \<and> fe_target_host f = tl_target_host l \<and> fe_target_port f = tl_target_port l"

definition slot_change :: "nat option \<Rightarrow> nat option \<Rightarrow> wire \<Rightarrow> wire \<Rightarrow> bool" where
  \<comment> \<open>a slot keeps its listener, gets a new one, or loses it\<close>
  "slot_change old new w w' \<longleftrightarrow> wire_ok w' \<and> w_conns w' = w_conns w \<and>
     (new = old \<and> set (w_listeners w') = set (w_listeners w)
      \<or> (old = None \<and> new = Some (w_next w) \<and> set (w_listeners w') = insert (w_next w) (set (w_listeners w)))
      \<or> (\<exists>l. old = Some l \<and> new = None \<and> set (w_listeners w') = set (w_listeners w) - {l}))"

lemma listeners_ok_change:
  assumes "listeners_ok m" and "wire_ok (tm_wire m)"
    and "\<And>s. s \<noteq> slot \<Longrightarrow> listener_at m' s = listener_at m s"
    and "slot_change (listener_at m slot) (listener_at m' slot) (tm_wire m) (tm_wire m')"
  shows "listeners_ok m'"
  by (rule listeners_ok_slot [OF assms(1,2), of slot]) (use assms(3,4) in \<open>auto simp: slot_change_def\<close>)

lemma conn_inj_put:
  assumes ok: "pool_ok m" and e: "jump_at m sig = Some e" and e': "je_conn e' = je_conn e"
    and ja: "jump_at m' = (jump_at m)(sig \<mapsto> e')"
    and x: "jump_at m' s = Some x" "jump_at m' s' = Some x'" "je_conn x = je_conn x'"
  shows "s = s'"
proof -
  have old: "\<exists>b. jump_at m t = Some b \<and> je_conn b = je_conn a" if "jump_at m' t = Some a" for t a
    using that e e' by (cases "t = sig") (simp_all add: ja)
  obtain a b where "jump_at m s = Some a" "je_conn a = je_conn x" "jump_at m s' = Some b" "je_conn b = je_conn x'"
    using old [OF x(1)] old [OF x(2)] by blast
  then show ?thesis
    using pool_okD(5) [OF ok, of s a s' b] x(3) by simp
qed

lemma forward_slot_ok:
  assumes ok: "pool_ok m" and e: "jump_at m sig = Some e"
    and e': "je_chain_sig e' = sig" "je_conn e' = je_conn e" "je_socks_listener e' = je_socks_listener e"
      "je_socks_bind_host e' = je_socks_bind_host e" "je_socks_bind_port e' = je_socks_bind_port e"
      "je_socks_lease_count e' = je_socks_lease_count e" "map_of (je_forwards e') = (map_of (je_forwards e))(hp := v)"
    and m': "m' = (put_jump sig e' m)\<lparr>tm_leases := ls, tm_wire := w\<rparr>"
    and new: "case v of None \<Rightarrow> counted (sig, hp) ls = 0 | Some f \<Rightarrow> (fe_target_host f, fe_target_port f) = hp
        \<and> fe_lease_count f = int (counted (sig, hp) ls) \<and> 0 < counted (sig, hp) ls"
    and other: "\<And>key. key \<noteq> (sig, hp) \<Longrightarrow> counted key ls = counted key (tm_leases m)"
    and served: "\<And>l. l \<in> set ls \<Longrightarrow> tl_phase l \<noteq> Done \<Longrightarrow>
        (if tl_key l = (sig, hp) then \<exists>f. v = Some f \<and> matches f l else serves m l)"
    and sc: "slot_change (map_option fe_listener (map_of (je_forwards e) hp)) (map_option fe_listener v) (tm_wire m) w"
  shows "pool_ok m'"
proof -
  have fw: "forward_of m' = (forward_of m)((sig, hp) := v)"
    using e e'(7) by (auto simp: m' forward_of_def fun_eq_iff)
  have fw_at: "forward_of m (sig, hp) = map_of (je_forwards e) hp"
    using e by (simp add: forward_of_def)
  have sk: "socks_of m' = socks_of m"
    using e e'(3) by (auto simp: m' socks_of_def fun_eq_iff)
  have ja: "jump_at m' = (jump_at m)(sig \<mapsto> e')"
    by (simp add: m')
  have wm: "tm_wire m' = w"
    by (simp add: m')
  have conns: "w_conns w = w_conns (tm_wire m)" and wok: "wire_ok w"
    using sc by (simp_all add: slot_change_def)
  have lok: "listeners_ok m'"
  proof (rule listeners_ok_change [OF pool_okD(3,2) [OF ok], of "Inl (sig, hp)"])
    show "listener_at m' s = listener_at m s" if "s \<noteq> Inl (sig, hp)" for s
      using that by (auto simp: listener_at_def fw sk split: sum.splits)
    show "slot_change (listener_at m (Inl (sig, hp))) (listener_at m' (Inl (sig, hp))) (tm_wire m) (tm_wire m')"
      using sc by (simp add: listener_at_def fw fw_at wm)
  qed
  have ent: "entry_ok m' s x" if "jump_at m' s = Some x" for s x
  proof (cases "s = sig")
    case True
    then have x: "x = e'"
      using that ja by simp
    have f: "forward_ok m' sig hp' f" if "map_of (je_forwards e') hp' = Some f" for hp' f
    proof (cases "hp' = hp")
      case True
      then show ?thesis
        using that new by (simp add: e'(7) forward_ok_def m')
    next
      case False
      then have "forward_ok m sig hp' f"
        using that entry_okD(5) [OF pool_okD(4) [OF ok e]] by (simp add: e'(7))
      then show ?thesis
        using other [of "(sig, hp')"] False by (simp add: forward_ok_def m')
    qed
    show ?thesis
      unfolding x True by (rule entry_okI [OF _ _ _ _ f]) (use entry_okD [OF pool_okD(4) [OF ok e]] e' in \<open>simp_all add: conns m'\<close>)
  next
    case False
    then have x: "entry_ok m s x"
      using that pool_okD(4) [OF ok, of s x] by (simp add: ja)
    have f: "forward_ok m' s hp' f" if "map_of (je_forwards x) hp' = Some f" for hp' f
      using entry_okD(5) [OF x that] other [of "(s, hp')"] False by (simp add: forward_ok_def m')
    show ?thesis
      by (rule entry_okI [OF _ _ _ _ f]) (use entry_okD [OF x] in \<open>simp_all add: conns m'\<close>)
  qed
  have sv: "serves m' l" if "l \<in> set (tm_leases m')" "tl_phase l \<noteq> Done" for l
    using served [of l] that unfolding serves_def fw by (auto simp: m' matches_def split: if_splits)
  have ss: "serves_socks m' l" if "l \<in> set (tm_socks m')" "sl_phase l \<noteq> Done" for l
    using pool_okD(7) [OF ok, of l] that e e' by (auto simp: m' serves_socks_def)
  note cj = conn_inj_put [OF ok e e'(2) ja]
  show ?thesis
  proof (rule pool_okI [OF _ _ lok ent _ sv ss])
    show "distinct (map fst (tm_jumps m'))" "wire_ok (tm_wire m')"
      using pool_okD(1) [OF ok] wok by (simp_all add: m')
  qed (assumption | rule cj)+
qed

lemma socks_slot_ok:
  assumes ok: "pool_ok m" and e: "jump_at m sig = Some e"
    and e': "je_chain_sig e' = sig" "je_conn e' = je_conn e" "je_forwards e' = je_forwards e"
    and m': "m' = (put_jump sig e' m)\<lparr>tm_socks := ls, tm_wire := w\<rparr>"
    and new: "je_socks_lease_count e' = int (counted_socks sig ls)"
      "je_socks_listener e' = None \<longleftrightarrow> counted_socks sig ls = 0"
    and other: "\<And>s. s \<noteq> sig \<Longrightarrow> counted_socks s ls = counted_socks s (tm_socks m)"
    and served: "\<And>l. l \<in> set ls \<Longrightarrow> sl_phase l \<noteq> Done \<Longrightarrow> (if sl_sig l = sig then je_socks_bind_host e' = sl_bind_host l
        \<and> je_socks_bind_port e' = sl_bind_port l else serves_socks m l)"
    and sc: "slot_change (je_socks_listener e) (je_socks_listener e') (tm_wire m) w"
  shows "pool_ok m'"
proof -
  have fw: "forward_of m' = forward_of m"
    using e e'(3) by (auto simp: m' forward_of_def fun_eq_iff)
  have sk: "socks_of m' = (socks_of m)(sig := je_socks_listener e')"
    by (auto simp: m' socks_of_def fun_eq_iff)
  have ja: "jump_at m' = (jump_at m)(sig \<mapsto> e')"
    by (simp add: m')
  have conns: "w_conns w = w_conns (tm_wire m)" and wok: "wire_ok w"
    using sc by (simp_all add: slot_change_def)
  have lok: "listeners_ok m'"
  proof (rule listeners_ok_change [OF pool_okD(3,2) [OF ok], of "Inr sig"])
    show "listener_at m' s = listener_at m s" if "s \<noteq> Inr sig" for s
      using that by (auto simp: listener_at_def fw sk split: sum.splits)
    show "slot_change (listener_at m (Inr sig)) (listener_at m' (Inr sig)) (tm_wire m) (tm_wire m')"
      using sc e by (simp add: listener_at_def sk m' socks_of_def)
  qed
  have ent: "entry_ok m' s x" if "jump_at m' s = Some x" for s x
  proof (cases "s = sig")
    case True
    then have x: "x = e'"
      using that ja by simp
    have f: "forward_ok m' sig hp' f" if "map_of (je_forwards e') hp' = Some f" for hp' f
      using entry_okD(5) [OF pool_okD(4) [OF ok e], of hp' f] that by (simp add: e'(3) forward_ok_def m')
    show ?thesis
      unfolding x True by (rule entry_okI [OF _ _ _ _ f]) (use entry_okD [OF pool_okD(4) [OF ok e]] new e' in \<open>simp_all add: conns m'\<close>)
  next
    case False
    then have x: "entry_ok m s x"
      using that pool_okD(4) [OF ok, of s x] by (simp add: ja)
    have f: "forward_ok m' s hp' f" if "map_of (je_forwards x) hp' = Some f" for hp' f
      using entry_okD(5) [OF x that] by (simp add: forward_ok_def m')
    show ?thesis
      by (rule entry_okI [OF _ _ _ _ f]) (use entry_okD [OF x] other [OF False] in \<open>simp_all add: conns m'\<close>)
  qed
  have sv: "serves m' l" if "l \<in> set (tm_leases m')" "tl_phase l \<noteq> Done" for l
    using pool_okD(6) [OF ok, of l] that unfolding serves_def fw by (simp add: m')
  have ss: "serves_socks m' l" if l: "l \<in> set (tm_socks m')" "sl_phase l \<noteq> Done" for l
  proof -
    have "0 < counted_socks (sl_sig l) ls"
      using l counted_socks_pos [of "sl_sig l" ls] by (auto simp: m')
    then show ?thesis
      using served [of l] l new(2) by (auto simp: m' serves_socks_def split: if_splits)
  qed
  note cj = conn_inj_put [OF ok e e'(2) ja]
  show ?thesis
  proof (rule pool_okI [OF _ _ lok ent _ sv ss])
    show "distinct (map fst (tm_jumps m'))" "wire_ok (tm_wire m')"
      using pool_okD(1) [OF ok] wok by (simp_all add: m')
  qed (assumption | rule cj)+
qed

lemma slot_change_refl: "wire_ok w \<Longrightarrow> slot_change x x w w"
  by (simp add: slot_change_def)

lemma slot_change_open: "wire_ok w \<Longrightarrow> w' = w\<lparr>w_listeners := w_next w # w_listeners w, w_next := Suc (w_next w)\<rparr> \<Longrightarrow>
    slot_change None (Some (w_next w)) w w'"
  by (auto simp: slot_change_def wire_ok_def intro: less_SucI)

lemma slot_change_close: "wire_ok w \<Longrightarrow> slot_change (Some l) None w (close_listener l w)"
  by (auto simp: slot_change_def wire_ok_def close_listener_def)

lemma pool_ok_next:
  assumes "pool_ok m" shows "pool_ok (m\<lparr>tm_wire := (tm_wire m)\<lparr>w_next := Suc (w_next (tm_wire m))\<rparr>\<rparr>)"
  by (rule pool_ok_wire [OF assms]) (auto simp: wire_grows_def)

lemma wire_self: "m\<lparr>tm_wire := tm_wire m\<rparr> = m"
  by simp

lemma acquire_tail_ok:
  assumes p: "pooled m e" and ef: "ensure_forward E bh host port e m = (r, m1)"
  shows "(case r of Inl _ \<Rightarrow> pool_ok m1 | Inr f \<Rightarrow> pool_ok (snd (lease_forward now e f m1)))"
proof -
  let ?sig = "je_chain_sig e" and ?hp = "(host, port)"
  have ok: "pool_ok m" and e: "jump_at m ?sig = Some e"
    using p by (simp_all add: pooled_def)
  note ent = pool_okD(4) [OF ok e]
  have fw_at: "forward_of m (?sig, ?hp) = map_of (je_forwards e) ?hp"
    using e by (simp add: forward_of_def)
  have main: "pool_ok (snd (lease_forward now e f (m\<lparr>tm_wire := w\<rparr>)))"
    if t: "(fe_target_host f, fe_target_port f) = ?hp" and n: "fe_lease_count f = int (counted (?sig, ?hp) (tm_leases m))"
      and sc: "slot_change (map_option fe_listener (map_of (je_forwards e) ?hp)) (Some (fe_listener f)) (tm_wire m) w"
      and old: "\<And>l. l \<in> set (tm_leases m) \<Longrightarrow> tl_phase l \<noteq> Done \<Longrightarrow> tl_key l = (?sig, ?hp) \<Longrightarrow> matches f l"
    for f w
  proof -
    let ?f = "f\<lparr>fe_lease_count := fe_lease_count f + 1\<rparr>"
    let ?l = "\<lparr>tl_bind_host = fe_bind_host f, tl_bind_port = fe_bind_port f, tl_target_host = fe_target_host f,
               tl_target_port = fe_target_port f, tl_key = (?sig, fe_target_host f, fe_target_port f), tl_phase = Held\<rparr>"
    let ?e = "e\<lparr>je_forwards := AList.update (fe_target_host f, fe_target_port f) ?f (je_forwards e), je_last_active := now\<rparr>"
    have c: "counted key (tm_leases m @ [?l]) = counted key (tm_leases m) + (if key = (?sig, ?hp) then 1 else 0)" for key
      using t by (simp add: counted_append) (auto simp: counted_def)
    show ?thesis
    proof (rule forward_slot_ok [OF ok e, where e' = ?e and hp = ?hp and v = "Some ?f" and ls = "tm_leases m @ [?l]" and w = w])
      show "map_of (je_forwards ?e) = (map_of (je_forwards e))(?hp \<mapsto> ?f)"
        using t by (simp add: update_conv')
      show "case Some ?f of None \<Rightarrow> counted (?sig, ?hp) (tm_leases m @ [?l]) = 0
          | Some f \<Rightarrow> (fe_target_host f, fe_target_port f) = ?hp
            \<and> fe_lease_count f = int (counted (?sig, ?hp) (tm_leases m @ [?l])) \<and> 0 < counted (?sig, ?hp) (tm_leases m @ [?l])"
        using t n c [of "(?sig, ?hp)"] by simp
      fix l assume l: "l \<in> set (tm_leases m @ [?l])" "tl_phase l \<noteq> Done"
      have "matches f l \<Longrightarrow> matches ?f l" for l
        by (simp add: matches_def)
      then show "if tl_key l = (?sig, ?hp) then \<exists>f. Some ?f = Some f \<and> matches f l else serves m l"
        using l t old [of l] pool_okD(6) [OF ok, of l] by (auto simp: matches_def)
    qed (use sc c in \<open>simp_all add: lease_forward_def Let_def put_jump_def\<close>)
  qed
  show ?thesis
  proof (cases "map_of (je_forwards e) ?hp")
    case (Some f)
    then have r: "r = Inr f" "m1 = m"
      using ef by (simp_all add: ensure_forward_def)
    have fo: "forward_ok m ?sig ?hp f"
      using entry_okD(5) [OF ent Some] .
    have "matches f l" if "l \<in> set (tm_leases m)" "tl_phase l \<noteq> Done" "tl_key l = (?sig, ?hp)" for l
      using pool_okD(6) [OF ok that(1,2)] that(3) fw_at Some by (auto simp: serves_def matches_def)
    then have "pool_ok (snd (lease_forward now e f (m\<lparr>tm_wire := tm_wire m\<rparr>)))"
      using fo Some pool_okD(2) [OF ok] by (intro main) (simp_all add: forward_ok_def slot_change_refl)
    then show ?thesis
      by (simp add: r)
  next
    case None
    then have zero: "counted (?sig, ?hp) (tm_leases m) = 0"
      using counted_none [OF ok, of "(?sig, ?hp)"] fw_at by simp
    then have no: "\<not> (l \<in> set (tm_leases m) \<and> tl_phase l \<noteq> Done \<and> tl_key l = (?sig, ?hp))" for l
      using counted_pos [of "(?sig, ?hp)" "tm_leases m"] by auto
    show ?thesis
    proof (cases "ssh_forward E (w_next (tm_wire m)) (je_conn e) bh host port")
      case (Inl err)
      then show ?thesis
        using ef None pool_ok_next [OF ok] by (auto simp: ensure_forward_def open_listener_def)
    next
      case (Inr bound)
      let ?w = "(tm_wire m)\<lparr>w_listeners := w_next (tm_wire m) # w_listeners (tm_wire m), w_next := Suc (w_next (tm_wire m))\<rparr>"
      let ?f = "\<lparr>fe_listener = w_next (tm_wire m), fe_bind_host = bh, fe_bind_port = bound,
          fe_target_host = host, fe_target_port = port, fe_lease_count = 0\<rparr>"
      have r: "r = Inr ?f" "m1 = m\<lparr>tm_wire := ?w\<rparr>"
        using ef None Inr by (auto simp: ensure_forward_def open_listener_def)
      have "pool_ok (snd (lease_forward now e ?f (m\<lparr>tm_wire := ?w\<rparr>)))"
        using None zero no pool_okD(2) [OF ok] by (intro main) (auto intro: slot_change_open)
      then show ?thesis
        by (simp add: r)
    qed
  qed
qed

lemma acquire_ok:
  assumes "pool_ok m" shows "pool_ok (snd (acquire E now bh tp hops target m))"
proof (cases hops)
  case (Cons hop rest)
  obtain r m1 where ej: "ensure_jump E now hop rest m = (r, m1)"
    by (cases "ensure_jump E now hop rest m")
  note j = ensure_jump_ok [OF assms ej]
  show ?thesis
  proof (cases r)
    case (Inr e)
    let ?port = "case tp of Some p \<Rightarrow> p | None \<Rightarrow> hc_port target"
    obtain r2 m2 where ef: "ensure_forward E bh (hc_hostname target) ?port e m1 = (r2, m2)"
      by (cases "ensure_forward E bh (hc_hostname target) ?port e m1")
    have "pooled m1 e"
      using j Inr by simp
    from acquire_tail_ok [OF this ef, of now] show ?thesis
      using Cons ej ef Inr by (auto simp: acquire_def Let_def split: sum.splits prod.splits)
  qed (use Cons ej j in \<open>simp add: acquire_def Let_def\<close>)
qed (simp add: acquire_def assms)

lemma lease_socks_ok:
  assumes ok: "pool_ok m" and e: "jump_at m (je_chain_sig e) = Some e"
    and e1: "je_chain_sig e1 = je_chain_sig e" "je_conn e1 = je_conn e" "je_forwards e1 = je_forwards e"
      "je_socks_lease_count e1 = je_socks_lease_count e" "je_socks_listener e1 = Some l"
    and same: "je_socks_listener e = None \<or> je_socks_bind_host e1 = je_socks_bind_host e \<and> je_socks_bind_port e1 = je_socks_bind_port e"
    and sc: "slot_change (je_socks_listener e) (Some l) (tm_wire m) w"
  shows "pool_ok (snd (lease_socks now e1 (m\<lparr>tm_wire := w\<rparr>)))"
proof -
  let ?sig = "je_chain_sig e"
  let ?l = "\<lparr>sl_bind_host = je_socks_bind_host e1, sl_bind_port = je_socks_bind_port e1, sl_sig = ?sig, sl_phase = Held\<rparr>"
  let ?e = "e1\<lparr>je_socks_lease_count := je_socks_lease_count e1 + 1, je_last_active := now\<rparr>"
  note ent = pool_okD(4) [OF ok e]
  have c: "counted_socks s (tm_socks m @ [?l]) = counted_socks s (tm_socks m) + (if s = ?sig then 1 else 0)" for s
    by (simp add: counted_socks_append) (auto simp: counted_socks_def)
  show ?thesis
  proof (rule socks_slot_ok [OF ok e, where e' = ?e and ls = "tm_socks m @ [?l]" and w = w])
    fix x assume x: "x \<in> set (tm_socks m @ [?l])" "sl_phase x \<noteq> Done"
    have "je_socks_bind_host e1 = sl_bind_host x \<and> je_socks_bind_port e1 = sl_bind_port x"
      if "x \<in> set (tm_socks m)" "sl_sig x = ?sig"
    proof -
      have "serves_socks m x"
        using pool_okD(7) [OF ok that(1) x(2)] .
      then have "je_socks_listener e \<noteq> None" "je_socks_bind_host e = sl_bind_host x" "je_socks_bind_port e = sl_bind_port x"
        using e that(2) by (auto simp: serves_socks_def)
      then show ?thesis
        using same by auto
    qed
    then show "if sl_sig x = ?sig then je_socks_bind_host ?e = sl_bind_host x \<and> je_socks_bind_port ?e = sl_bind_port x
        else serves_socks m x"
      using x pool_okD(7) [OF ok, of x] by auto
  qed (use sc e1 entry_okD(3) [OF ent] c [of ?sig] in \<open>simp_all add: lease_socks_def Let_def put_jump_def c\<close>)
qed

lemma acquire_socks_ok:
  assumes "pool_ok m" shows "pool_ok (snd (acquire_socks E now bh hops m))"
proof (cases hops)
  case (Cons hop rest)
  obtain r m1 where ej: "ensure_jump E now hop rest m = (r, m1)"
    by (cases "ensure_jump E now hop rest m")
  note j = ensure_jump_ok [OF assms ej]
  show ?thesis
  proof (cases r)
    case (Inr e)
    then have ok: "pool_ok m1" and e: "jump_at m1 (je_chain_sig e) = Some e"
      using j by (auto simp: pooled_def)
    note w = pool_okD(2) [OF ok]
    show ?thesis
    proof (cases "je_socks_listener e")
      case (Some l)
      then have "pool_ok (snd (lease_socks now e (m1\<lparr>tm_wire := tm_wire m1\<rparr>)))"
        using w by (intro lease_socks_ok [OF ok e, where l = l]) (simp_all add: slot_change_refl)
      then show ?thesis
        using Cons ej Inr Some by (auto simp: acquire_socks_def ensure_socks_def split: prod.splits)
    next
      case None
      show ?thesis
      proof (cases "ssh_socks E (w_next (tm_wire m1)) (je_conn e) bh")
        case err: (Inl err)
        then show ?thesis
          using Cons ej Inr None pool_ok_next [OF ok]
          by (simp add: acquire_socks_def ensure_socks_def open_listener_def)
      next
        case port: (Inr port)
        let ?w = "(tm_wire m1)\<lparr>w_listeners := w_next (tm_wire m1) # w_listeners (tm_wire m1), w_next := Suc (w_next (tm_wire m1))\<rparr>"
        let ?e = "e\<lparr>je_socks_listener := Some (w_next (tm_wire m1)), je_socks_bind_host := bh, je_socks_bind_port := port\<rparr>"
        have "pool_ok (snd (lease_socks now ?e (m1\<lparr>tm_wire := ?w\<rparr>)))"
          using None w by (intro lease_socks_ok [OF ok e, where l = "w_next (tm_wire m1)"]) (auto intro: slot_change_open)
        then show ?thesis
          using Cons ej Inr None port
          by (auto simp: acquire_socks_def ensure_socks_def open_listener_def split: prod.splits)
      qed
    qed
  qed (use Cons ej j in \<open>simp add: acquire_socks_def\<close>)
qed (simp add: acquire_socks_def assms)

text \<open>Leases change their phase, without being done.\<close>

lemma pool_ok_leases:
  assumes ok: "pool_ok m" and j: "tm_jumps m' = tm_jumps m" and w: "tm_wire m' = tm_wire m"
    and c: "\<And>key. counted key (tm_leases m') = counted key (tm_leases m)"
      "\<And>s. counted_socks s (tm_socks m') = counted_socks s (tm_socks m)"
    and l: "\<And>x. x \<in> set (tm_leases m') \<Longrightarrow> tl_phase x \<noteq> Done \<Longrightarrow> serves m x"
      "\<And>x. x \<in> set (tm_socks m') \<Longrightarrow> sl_phase x \<noteq> Done \<Longrightarrow> serves_socks m x"
  shows "pool_ok m'"
proof (rule pool_okI)
  show "listeners_ok m'"
    using pool_okD(3) [OF ok] by (simp add: listeners_ok_def views_cong [OF j] w)
  show "entry_ok m' sig e" if "jump_at m' sig = Some e" for sig e
    using pool_okD(4) [OF ok, of sig e] that by (simp add: j w entry_ok_def forward_ok_def c)
  show "sig = sig'" if "jump_at m' sig = Some e" "jump_at m' sig' = Some e'" "je_conn e = je_conn e'" for sig e sig' e'
    using pool_okD(5) [OF ok, of sig e sig' e'] that by (simp add: j)
qed (use pool_okD(1,2) [OF ok] l in \<open>simp_all add: views_cong [OF j] j w\<close>)

lemma serves_phase [simp]: "serves m (l\<lparr>tl_phase := p\<rparr>) = serves m l"
  by (simp add: serves_def)

lemma serves_socks_phase [simp]: "serves_socks m (l\<lparr>sl_phase := p\<rparr>) = serves_socks m l"
  by (simp add: serves_socks_def)

lemma set_phase_ok:
  assumes ok: "pool_ok m" and i: "i < length (tm_leases m)" "tl_phase (tm_leases m ! i) \<noteq> Done" and p: "p \<noteq> Done"
  shows "pool_ok (set_phase i p m)"
proof (rule pool_ok_leases [OF ok])
  fix x assume x: "x \<in> set (tm_leases (set_phase i p m))" "tl_phase x \<noteq> Done"
  then have "x = (tm_leases m ! i)\<lparr>tl_phase := p\<rparr> \<or> x \<in> set (tm_leases m)"
    using set_update_subset_insert [of "tm_leases m" i] by (auto simp: set_phase_def)
  then show "serves m x"
    using pool_okD(6) [OF ok] x(2) i nth_mem [OF i(1)] by auto
qed (use i p pool_okD(7) [OF ok] in \<open>simp_all add: set_phase_def counted_phase_same\<close>)

lemma set_socks_phase_ok:
  assumes ok: "pool_ok m" and i: "i < length (tm_socks m)" "sl_phase (tm_socks m ! i) \<noteq> Done" and p: "p \<noteq> Done"
  shows "pool_ok (set_socks_phase i p m)"
proof (rule pool_ok_leases [OF ok])
  fix x assume x: "x \<in> set (tm_socks (set_socks_phase i p m))" "sl_phase x \<noteq> Done"
  then have "x = (tm_socks m ! i)\<lparr>sl_phase := p\<rparr> \<or> x \<in> set (tm_socks m)"
    using set_update_subset_insert [of "tm_socks m" i] by (auto simp: set_socks_phase_def)
  then show "serves_socks m x"
    using pool_okD(7) [OF ok] x(2) i nth_mem [OF i(1)] by auto
qed (use i p pool_okD(6) [OF ok] in \<open>simp_all add: set_socks_phase_def counted_socks_phase_same\<close>)

lemma release_start_ok: "pool_ok m \<Longrightarrow> pool_ok (release_start i m)"
  by (simp add: release_start_def set_phase_ok)

lemma release_cancel_ok: "pool_ok m \<Longrightarrow> pool_ok (release_cancel i m)"
  by (simp add: release_cancel_def set_phase_ok)

lemma socks_release_start_ok: "pool_ok m \<Longrightarrow> pool_ok (socks_release_start i m)"
  by (simp add: socks_release_start_def set_socks_phase_ok)

lemma socks_release_cancel_ok: "pool_ok m \<Longrightarrow> pool_ok (socks_release_cancel i m)"
  by (simp add: socks_release_cancel_def set_socks_phase_ok)

lemma pool_ok_sessions: "pool_ok m \<Longrightarrow> pool_ok (m\<lparr>tm_sessions := s\<rparr>)"
  by (rule pool_ok_leases [where m = m]) (auto dest: pool_okD(6,7))

lemma register_session_ok: "pool_ok m \<Longrightarrow> pool_ok (register_session sid i m)"
  by (simp add: register_session_def pool_ok_sessions)

lemma release_session_ok: "pool_ok m \<Longrightarrow> pool_ok (snd (release_session sid m))"
  by (simp add: release_session_def release_start_ok pool_ok_sessions split: option.splits)

lemma release_finish_ok:
  assumes ok: "pool_ok m"
  shows "pool_ok (release_finish now i m)"
proof (cases "i < length (tm_leases m) \<and> tl_phase (tm_leases m ! i) = Waiting")
  case True
  let ?l = "tm_leases m ! i" and ?ls = "(tm_leases m)[i := (tm_leases m ! i)\<lparr>tl_phase := Done\<rparr>]"
  obtain sig host port where key: "tl_key ?l = (sig, host, port)"
    by (cases "tl_key ?l")
  have i: "i < length (tm_leases m)" "tl_phase ?l \<noteq> Done" and mem: "?l \<in> set (tm_leases m)"
    using True by auto
  have "serves m ?l"
    using pool_okD(6) [OF ok mem i(2)] .
  then obtain e f where e: "jump_at m sig = Some e" and f: "map_of (je_forwards e) (host, port) = Some f"
    by (auto simp: serves_def forward_of_def key split: option.splits)
  note fo = entry_okD(5) [OF pool_okD(4) [OF ok e] f]
  have n: "fe_lease_count f = int (counted (sig, host, port) (tm_leases m))" "0 < counted (sig, host, port) (tm_leases m)"
    using fo by (simp_all add: forward_ok_def)
  have sigE: "je_chain_sig e = sig"
    using entry_okD(1) [OF pool_okD(4) [OF ok e]] .
  have c: "counted k ?ls = counted k (tm_leases m) - (if k = (sig, host, port) then 1 else 0)" for k
    using counted_phase_done [OF i, of k] by (auto simp: key)
  have old: "x \<in> set (tm_leases m)" if "x \<in> set ?ls" "tl_phase x \<noteq> Done" for x
    using that by (auto dest!: subsetD [OF set_update_subset_insert])
  have served: "if tl_key x = (sig, host, port) then matches f x else serves m x"
    if "x \<in> set ?ls" "tl_phase x \<noteq> Done" for x
    using pool_okD(6) [OF ok old [OF that] that(2)] e f by (auto simp: serves_def forward_of_def matches_def)
  have fin: "release_finish now i m = release_key now (sig, host, port) (set_phase i Done m)"
    using True by (simp add: release_finish_def key)
  show ?thesis
  proof (cases "counted (sig, host, port) (tm_leases m) = 1")
    case one: True
    then have no: "tl_key x \<noteq> (sig, host, port)" if "x \<in> set ?ls" "tl_phase x \<noteq> Done" for x
      using that c [of "(sig, host, port)"] counted_pos [of "(sig, host, port)" ?ls] by auto
    let ?e = "e\<lparr>je_forwards := AList.delete (host, port) (je_forwards e), je_last_active := now\<rparr>"
    have m': "release_finish now i m = (put_jump sig ?e m)\<lparr>tm_leases := ?ls, tm_wire := close_listener (fe_listener f) (tm_wire m)\<rparr>"
      using e f n(1) one by (simp add: fin release_key_def set_phase_def put_jump_def Let_def)
    show ?thesis
    proof (rule forward_slot_ok [OF ok e, where e' = ?e and hp = "(host, port)" and v = None and ls = ?ls
          and w = "close_listener (fe_listener f) (tm_wire m)"])
      show "map_of (je_forwards ?e) = (map_of (je_forwards e))((host, port) := None)"
        by (simp add: delete_conv')
      show "if tl_key x = (sig, host, port) then \<exists>f. None = Some f \<and> matches f x else serves m x"
        if "x \<in> set ?ls" "tl_phase x \<noteq> Done" for x
        using served [OF that] no [OF that] by simp
    qed (use m' c one f sigE slot_change_close [OF pool_okD(2) [OF ok]] in \<open>simp_all\<close>)
  next
    case more: False
    let ?f = "f\<lparr>fe_lease_count := fe_lease_count f - 1\<rparr>"
    let ?e = "e\<lparr>je_forwards := AList.update (host, port) ?f (je_forwards e), je_last_active := now\<rparr>"
    have m': "release_finish now i m = (put_jump sig ?e m)\<lparr>tm_leases := ?ls, tm_wire := tm_wire m\<rparr>"
      using e f n more by (simp add: fin release_key_def set_phase_def put_jump_def Let_def)
    show ?thesis
    proof (rule forward_slot_ok [OF ok e, where e' = ?e and hp = "(host, port)" and v = "Some ?f" and ls = ?ls
          and w = "tm_wire m"])
      show "map_of (je_forwards ?e) = (map_of (je_forwards e))((host, port) \<mapsto> ?f)"
        by (simp add: update_conv')
      show "if tl_key x = (sig, host, port) then \<exists>f. Some ?f = Some f \<and> matches f x else serves m x"
        if "x \<in> set ?ls" "tl_phase x \<noteq> Done" for x
        using served [OF that] by (simp add: matches_def split: if_splits)
      show "case Some ?f of None \<Rightarrow> counted (sig, host, port) ?ls = 0 | Some f \<Rightarrow> (fe_target_host f, fe_target_port f) = (host, port)
          \<and> fe_lease_count f = int (counted (sig, host, port) ?ls) \<and> 0 < counted (sig, host, port) ?ls"
        using fo n more c [of "(sig, host, port)"] by (auto simp: forward_ok_def)
    qed (use m' c f sigE slot_change_refl [OF pool_okD(2) [OF ok]] in \<open>simp_all\<close>)
  qed
next
  case False
  then show ?thesis
    using ok by (auto simp: release_finish_def)
qed

lemma socks_release_finish_ok:
  assumes ok: "pool_ok m"
  shows "pool_ok (socks_release_finish now i m)"
proof (cases "i < length (tm_socks m) \<and> sl_phase (tm_socks m ! i) = Waiting")
  case True
  let ?l = "tm_socks m ! i" and ?ls = "(tm_socks m)[i := (tm_socks m ! i)\<lparr>sl_phase := Done\<rparr>]"
  let ?sig = "sl_sig (tm_socks m ! i)"
  have i: "i < length (tm_socks m)" "sl_phase ?l \<noteq> Done" and mem: "?l \<in> set (tm_socks m)"
    using True by auto
  have "serves_socks m ?l"
    using pool_okD(7) [OF ok mem i(2)] .
  then obtain e k where e: "jump_at m ?sig = Some e" and k: "je_socks_listener e = Some k"
    by (auto simp: serves_socks_def)
  note ent = pool_okD(4) [OF ok e]
  have n: "je_socks_lease_count e = int (counted_socks ?sig (tm_socks m))" "0 < counted_socks ?sig (tm_socks m)"
    using entry_okD(3,4) [OF ent] k by auto
  have c: "counted_socks s ?ls = counted_socks s (tm_socks m) - (if s = ?sig then 1 else 0)" for s
    using counted_socks_phase_done [OF i, of s] by auto
  have old: "x \<in> set (tm_socks m)" if "x \<in> set ?ls" "sl_phase x \<noteq> Done" for x
    using that by (auto dest!: subsetD [OF set_update_subset_insert])
  have served: "serves_socks m x" if "x \<in> set ?ls" "sl_phase x \<noteq> Done" for x
    using pool_okD(7) [OF ok old [OF that] that(2)] .
  have fin: "socks_release_finish now i m = release_socks_sig now ?sig (set_socks_phase i Done m)"
    using True by (simp add: socks_release_finish_def)
  show ?thesis
  proof (cases "counted_socks ?sig (tm_socks m) = 1")
    case one: True
    then have no: "sl_sig x \<noteq> ?sig" if "x \<in> set ?ls" "sl_phase x \<noteq> Done" for x
      using that c [of ?sig] counted_socks_pos [of ?sig ?ls] by auto
    let ?e = "e\<lparr>je_socks_lease_count := 0, je_socks_listener := None, je_socks_bind_port := 0, je_last_active := now\<rparr>"
    have m': "socks_release_finish now i m = (put_jump ?sig ?e m)\<lparr>tm_socks := ?ls, tm_wire := close_listener k (tm_wire m)\<rparr>"
      using e k n(1) one by (simp add: fin release_socks_sig_def set_socks_phase_def put_jump_def Let_def)
    show ?thesis
      by (rule socks_slot_ok [OF ok e, where e' = ?e and ls = ?ls and w = "close_listener k (tm_wire m)"])
        (use m' c one k entry_okD(1) [OF ent] served no slot_change_close [OF pool_okD(2) [OF ok]] in \<open>simp_all\<close>)
  next
    case more: False
    let ?e = "e\<lparr>je_socks_lease_count := je_socks_lease_count e - 1, je_last_active := now\<rparr>"
    have m': "socks_release_finish now i m = (put_jump ?sig ?e m)\<lparr>tm_socks := ?ls, tm_wire := tm_wire m\<rparr>"
      using e n more by (simp add: fin release_socks_sig_def set_socks_phase_def put_jump_def Let_def)
    have pos: "counted_socks ?sig ?ls \<noteq> 0" "je_socks_lease_count e - 1 = int (counted_socks ?sig ?ls)"
      using n more c [of ?sig] by auto
    have s: "if sl_sig x = ?sig then je_socks_bind_host ?e = sl_bind_host x \<and> je_socks_bind_port ?e = sl_bind_port x
        else serves_socks m x" if "x \<in> set ?ls" "sl_phase x \<noteq> Done" for x
      using served [OF that] e by (auto simp: serves_socks_def)
    show ?thesis
    proof (rule socks_slot_ok [OF ok e, where e' = ?e and ls = ?ls and w = "tm_wire m"])
      show "if sl_sig x = ?sig then je_socks_bind_host ?e = sl_bind_host x \<and> je_socks_bind_port ?e = sl_bind_port x
          else serves_socks m x" if "x \<in> set ?ls" "sl_phase x \<noteq> Done" for x
        by (rule s [OF that])
    qed (use m' c k pos entry_okD(1) [OF ent] slot_change_refl [OF pool_okD(2) [OF ok]] in \<open>simp_all\<close>)
  qed
next
  case False
  then show ?thesis
    using ok by (auto simp: socks_release_finish_def)
qed

lemma fold_close_conn:
  "w_conns (fold close_conn cs w) = filter (\<lambda>c. c \<notin> set cs) (w_conns w)"
  "w_listeners (fold close_conn cs w) = w_listeners w" "w_next (fold close_conn cs w) = w_next w"
  by (induction cs arbitrary: w) (simp_all add: close_conn_def removeAll_filter_not_eq filter_filter, metis)

lemma jump_at_gc: "pool_ok m \<Longrightarrow> jump_at (snd (gc now m)) sig =
    (case jump_at m sig of None \<Rightarrow> None | Some e \<Rightarrow> if reapable now e then None else Some e)"
  using map_of_filter [OF pool_okD(1), of m "\<lambda>e. \<not> reapable now e" sig]
  by (auto simp: gc_def Let_def split: option.splits)

lemma gc_simps [simp]:
  "tm_leases (snd (gc now m)) = tm_leases m" "tm_socks (snd (gc now m)) = tm_socks m"
  "tm_sessions (snd (gc now m)) = tm_sessions m" "w_listeners (tm_wire (snd (gc now m))) = w_listeners (tm_wire m)"
  "w_next (tm_wire (snd (gc now m))) = w_next (tm_wire m)"
  by (simp_all add: gc_def Let_def fold_close_conn)

lemma gc_conns: "set (w_conns (tm_wire (snd (gc now m)))) =
    set (w_conns (tm_wire m)) - {je_conn e |sig e. (sig, e) \<in> set (tm_jumps m) \<and> reapable now e}"
  by (auto simp: gc_def Let_def fold_close_conn)

lemma gc_ok:
  assumes ok: "pool_ok m"
  shows "pool_ok (snd (gc now m))"
proof -
  let ?m = "snd (gc now m)"
  note ja = jump_at_gc [OF ok, of now]
  have live: "jump_at m sig = Some e \<and> \<not> reapable now e" if "jump_at ?m sig = Some e" for sig e
    using that by (auto simp: ja split: option.splits if_splits)
  have fw: "forward_of ?m = forward_of m" and sk: "socks_of ?m = socks_of m"
    by (auto simp: forward_of_def socks_of_def ja reapable_def fun_eq_iff split: option.splits)
  have la: "listener_at ?m = listener_at m" and sv: "serves ?m = serves m"
    by (auto simp: listener_at_def serves_def fw sk fun_eq_iff split: sum.splits)
  show ?thesis
  proof (rule pool_okI)
    show "distinct (map fst (tm_jumps ?m))"
      using pool_okD(1) [OF ok] by (simp add: gc_def Let_def distinct_map_filter)
    show "wire_ok (tm_wire ?m)"
      using pool_okD(2) [OF ok] by (auto simp: wire_ok_def gc_conns)
    show "listeners_ok ?m"
      using pool_okD(3) [OF ok] by (simp add: listeners_ok_def la)
    show "entry_ok ?m sig e" if e: "jump_at ?m sig = Some e" for sig e
    proof -
      note old = pool_okD(4) [OF ok conjunct1 [OF live [OF e]]]
      have "je_conn e \<noteq> je_conn x" if "(s, x) \<in> set (tm_jumps m)" "reapable now x" for s x
      proof
        assume eq: "je_conn e = je_conn x"
        have "jump_at m s = Some x"
          using that(1) pool_okD(1) [OF ok] by (simp add: map_of_eq_Some_iff)
        then have "s = sig"
          using pool_okD(5) [OF ok _ _ eq] live [OF e] by blast
        then show False
          using live [OF e] \<open>jump_at m s = Some x\<close> that(2) by simp
      qed
      then have "je_conn e \<in> set (w_conns (tm_wire ?m))"
        using entry_okD(2) [OF old] by (auto simp: gc_conns)
      then show ?thesis
        using entry_okD [OF old] by (intro entry_okI) (simp_all add: forward_ok_def)
    qed
    show "sig = sig'" if "jump_at ?m sig = Some e" "jump_at ?m sig' = Some e'" "je_conn e = je_conn e'" for sig e sig' e'
      using pool_okD(5) [OF ok, of sig e sig' e'] live [OF that(1)] live [OF that(2)] that(3) by blast
    show "serves ?m l" if "l \<in> set (tm_leases ?m)" "tl_phase l \<noteq> Done" for l
      using pool_okD(6) [OF ok, of l] that by (simp add: sv)
    show "serves_socks ?m l" if "l \<in> set (tm_socks ?m)" "sl_phase l \<noteq> Done" for l
      using pool_okD(7) [OF ok, of l] that by (auto simp: serves_socks_def ja reapable_def)
  qed
qed

lemma tunnel_exec_ok: "pool_ok m \<Longrightarrow> pool_ok (tunnel_exec E ev m)"
  by (cases ev) (simp_all add: acquire_ok acquire_socks_ok release_start_ok release_finish_ok release_cancel_ok
    socks_release_start_ok socks_release_finish_ok socks_release_cancel_ok register_session_ok release_session_ok gc_ok)

lemma no_tunnels_ok: "pool_ok no_tunnels"
  by (simp add: pool_ok_def no_tunnels_def wire_ok_def listeners_ok_def listener_at_def forward_of_def socks_of_def
    split: sum.splits)

lemma tunnel_run_snoc: "tunnel_run E (evs @ [ev]) = tunnel_exec E ev (tunnel_run E evs)"
  by (simp add: tunnel_run_def)

lemma tunnel_run_ok: "pool_ok (tunnel_run E evs)"
  by (induction evs rule: rev_induct) (simp_all add: tunnel_run_snoc tunnel_exec_ok, simp add: tunnel_run_def no_tunnels_ok)

section \<open>Draining the pool\<close>

definition one_hop :: "tunnel_event \<Rightarrow> bool" where
  \<comment> \<open>what a sound inventory requests: a jumpbox has no jump of its own\<close>
  "one_hop ev \<longleftrightarrow> (case ev of Acquire _ _ _ hops _ \<Rightarrow> length hops \<le> 1 | Acquire_Socks _ _ hops \<Rightarrow> length hops \<le> 1 | _ \<Rightarrow> True)"

definition conns_pooled :: "tunnels \<Rightarrow> bool" where
  "conns_pooled m \<longleftrightarrow> (\<forall>c \<in> set (w_conns (tm_wire m)). \<exists>sig e. jump_at m sig = Some e \<and> je_conn e = c)"

lemma open_one_hop:
  "open_chain E prev hop [] w = (r, w') \<Longrightarrow>
    (case r of Inl _ \<Rightarrow> w_conns w' = w_conns w | Inr c \<Rightarrow> w_conns w' = c # w_conns w)"
  by (auto simp: open_chain.simps [of E prev hop "[]"] ssh_connect_def
      split: sum.splits prod.splits ssh_outcome.splits)

lemma conns_pooled_conn_of:
  assumes "conns_pooled m" and "w_conns (tm_wire m') = w_conns (tm_wire m)"
    and "\<And>sig. map_option je_conn (jump_at m' sig) = map_option je_conn (jump_at m sig)"
  shows "conns_pooled m'"
  unfolding conns_pooled_def
proof
  fix c assume "c \<in> set (w_conns (tm_wire m'))"
  then obtain sig e where "jump_at m sig = Some e" "je_conn e = c"
    using assms(1,2) by (auto simp: conns_pooled_def)
  then show "\<exists>sig e. jump_at m' sig = Some e \<and> je_conn e = c"
    using assms(3) [of sig] by (auto simp: map_option_eq_Some)
qed

lemma conns_pooled_put: "conns_pooled m \<Longrightarrow> jump_at m sig = Some e \<Longrightarrow> je_conn e' = je_conn e \<Longrightarrow>
    tm_jumps m' = tm_jumps (put_jump sig e' m) \<Longrightarrow> w_conns (tm_wire m') = w_conns (tm_wire m) \<Longrightarrow> conns_pooled m'"
  by (rule conns_pooled_conn_of [of m]) (simp_all add: put_jump_def update_conv')

lemma open_listener_conns: "open_listener out w = (r, w') \<Longrightarrow> w_conns w' = w_conns w"
  by (auto simp: open_listener_def split: sum.splits)

lemma ensure_jump_pooled:
  assumes "conns_pooled m" and "ensure_jump E now hop [] m = (r, m')"
  shows "conns_pooled m'"
proof (cases "jump_at m (chain_signature [hop])")
  case (Some e)
  then show ?thesis
    using assms by (simp add: ensure_jump_def Let_def)
next
  case None
  obtain s w where oc: "open_chain E None hop [] (tm_wire m) = (s, w)"
    by (cases "open_chain E None hop [] (tm_wire m)")
  note c = open_one_hop [OF oc]
  show ?thesis
  proof (cases s)
    case (Inl e)
    then show ?thesis
      using assms None oc c by (auto simp: ensure_jump_def Let_def intro: conns_pooled_conn_of)
  next
    case (Inr conn)
    have "\<exists>sig' e. ((jump_at m)(chain_signature [hop] \<mapsto> fresh_entry (chain_signature [hop]) conn now)) sig' = Some e
        \<and> je_conn e = x" if "x = conn \<or> x \<in> set (w_conns (tm_wire m))" for x
      using that
    proof
      assume "x \<in> set (w_conns (tm_wire m))"
      then obtain sg e where "jump_at m sg = Some e" "je_conn e = x"
        using assms(1) by (auto simp: conns_pooled_def)
      then show ?thesis
        using None by (intro exI [of _ sg] exI [of _ e]) auto
    qed (auto intro: exI [of _ "chain_signature [hop]"])
    then show ?thesis
      using assms None oc c Inr by (auto simp: ensure_jump_def Let_def conns_pooled_def fresh_entry_def [symmetric])
  qed
qed

lemma ensure_forward_pooled:
  assumes "ensure_forward E bh host port e m = (r, m')"
  shows "tm_jumps m' = tm_jumps m \<and> w_conns (tm_wire m') = w_conns (tm_wire m)"
  using assms by (auto simp: ensure_forward_def split: option.splits prod.splits sum.splits dest: open_listener_conns)

lemma ensure_socks_pooled:
  assumes "ensure_socks E bh e m = (r, m')"
  shows "tm_jumps m' = tm_jumps m \<and> w_conns (tm_wire m') = w_conns (tm_wire m)
    \<and> (\<forall>e'. r = Inr e' \<longrightarrow> je_conn e' = je_conn e \<and> je_chain_sig e' = je_chain_sig e)"
  using assms by (auto simp: ensure_socks_def split: option.splits prod.splits sum.splits dest: open_listener_conns)

lemma acquire_pooled:
  assumes ok: "pool_ok m" and c: "conns_pooled m" and l: "length hops \<le> 1"
  shows "conns_pooled (snd (acquire E now bh tp hops target m))"
proof (cases hops)
  case (Cons hop rest)
  then have hops: "hops = [hop]"
    using l by simp
  obtain r m1 where ej: "ensure_jump E now hop [] m = (r, m1)"
    by (cases "ensure_jump E now hop [] m")
  note j = ensure_jump_ok [OF ok ej] and c1 = ensure_jump_pooled [OF c ej]
  show ?thesis
  proof (cases r)
    case (Inr e)
    let ?port = "case tp of Some p \<Rightarrow> p | None \<Rightarrow> hc_port target"
    obtain r2 m2 where ef: "ensure_forward E bh (hc_hostname target) ?port e m1 = (r2, m2)"
      by (cases "ensure_forward E bh (hc_hostname target) ?port e m1")
    note f = ensure_forward_pooled [OF ef]
    have e: "jump_at m2 (je_chain_sig e) = Some e" and c2: "conns_pooled m2"
      using j Inr f c1 by (auto simp: pooled_def intro: conns_pooled_conn_of)
    show ?thesis
    proof (cases r2)
      case (Inr fw)
      have "conns_pooled (snd (lease_forward now e fw m2))"
        by (rule conns_pooled_put [OF c2 e, where e' = "e\<lparr>je_forwards := AList.update (fe_target_host fw, fe_target_port fw)
              (fw\<lparr>fe_lease_count := fe_lease_count fw + 1\<rparr>) (je_forwards e), je_last_active := now\<rparr>"])
          (simp_all add: lease_forward_def Let_def put_jump_def)
      then show ?thesis
        using hops ej ef \<open>r = Inr e\<close> Inr by (auto simp: acquire_def Let_def split: prod.splits)
    qed (use hops ej ef Inr c2 in \<open>simp add: acquire_def Let_def\<close>)
  qed (use hops ej c1 in \<open>simp add: acquire_def Let_def\<close>)
qed (simp add: acquire_def c)

lemma acquire_socks_pooled:
  assumes ok: "pool_ok m" and c: "conns_pooled m" and l: "length hops \<le> 1"
  shows "conns_pooled (snd (acquire_socks E now bh hops m))"
proof (cases hops)
  case (Cons hop rest)
  then have hops: "hops = [hop]"
    using l by simp
  obtain r m1 where ej: "ensure_jump E now hop [] m = (r, m1)"
    by (cases "ensure_jump E now hop [] m")
  note j = ensure_jump_ok [OF ok ej] and c1 = ensure_jump_pooled [OF c ej]
  show ?thesis
  proof (cases r)
    case (Inr e)
    obtain r2 m2 where es: "ensure_socks E bh e m1 = (r2, m2)"
      by (cases "ensure_socks E bh e m1")
    note f = ensure_socks_pooled [OF es]
    have e: "jump_at m2 (je_chain_sig e) = Some e" and c2: "conns_pooled m2"
      using j Inr f c1 by (auto simp: pooled_def intro: conns_pooled_conn_of)
    show ?thesis
    proof (cases r2)
      case (Inr e1)
      have "conns_pooled (snd (lease_socks now e1 m2))"
        by (rule conns_pooled_put [OF c2 e, where e' = "e1\<lparr>je_socks_lease_count := je_socks_lease_count e1 + 1, je_last_active := now\<rparr>"])
          (use f Inr in \<open>simp_all add: lease_socks_def Let_def put_jump_def\<close>)
      then show ?thesis
        using hops ej es \<open>r = Inr e\<close> Inr by (auto simp: acquire_socks_def split: prod.splits)
    qed (use hops ej es Inr c2 in \<open>simp add: acquire_socks_def\<close>)
  qed (use hops ej c1 in \<open>simp add: acquire_socks_def\<close>)
qed (simp add: acquire_socks_def c)

lemma release_key_pooled: "conns_pooled m \<Longrightarrow> conns_pooled (release_key now key m)"
  by (cases key) (auto simp: release_key_def Let_def close_listener_def map_option_case split: option.splits
    intro!: conns_pooled_conn_of [of m])

lemma release_socks_sig_pooled: "conns_pooled m \<Longrightarrow> conns_pooled (release_socks_sig now sig m)"
  by (auto simp: release_socks_sig_def Let_def close_listener_def map_option_case split: option.splits
    intro!: conns_pooled_conn_of [of m])

lemma conns_pooled_cong: "tm_jumps m' = tm_jumps m \<Longrightarrow> tm_wire m' = tm_wire m \<Longrightarrow> conns_pooled m' = conns_pooled m"
  by (simp add: conns_pooled_def)

lemma phase_pooled [simp]: "conns_pooled (set_phase i p m) = conns_pooled m"
  "conns_pooled (set_socks_phase i p m) = conns_pooled m" "conns_pooled (m\<lparr>tm_sessions := s\<rparr>) = conns_pooled m"
  by (simp_all add: conns_pooled_def set_phase_def set_socks_phase_def)

lemma gc_pooled:
  assumes ok: "pool_ok m" and c: "conns_pooled m"
  shows "conns_pooled (snd (gc now m))"
  unfolding conns_pooled_def
proof
  fix x assume x: "x \<in> set (w_conns (tm_wire (snd (gc now m))))"
  then obtain sig e where e: "jump_at m sig = Some e" "je_conn e = x"
    using c by (auto simp: conns_pooled_def gc_conns)
  have "\<not> reapable now e"
    using x e map_of_SomeD [OF e(1)] by (auto simp: gc_conns)
  then show "\<exists>sig e. jump_at (snd (gc now m)) sig = Some e \<and> je_conn e = x"
    using e by (intro exI [of _ sig] exI [of _ e]) (simp add: jump_at_gc [OF ok])
qed

lemma tunnel_exec_pooled: "pool_ok m \<Longrightarrow> conns_pooled m \<Longrightarrow> one_hop ev \<Longrightarrow> conns_pooled (tunnel_exec E ev m)"
  by (cases ev) (simp_all add: one_hop_def acquire_pooled acquire_socks_pooled release_start_def release_finish_def
    release_cancel_def socks_release_start_def socks_release_finish_def socks_release_cancel_def register_session_def
    release_session_def release_key_pooled release_socks_sig_pooled gc_pooled split: option.splits)

lemma tunnel_run_pooled: "list_all one_hop evs \<Longrightarrow> conns_pooled (tunnel_run E evs)"
  by (induction evs rule: rev_induct)
    (auto simp: tunnel_run_snoc tunnel_run_ok tunnel_exec_pooled, simp add: tunnel_run_def conns_pooled_def no_tunnels_def)

definition all_done :: "tunnels \<Rightarrow> bool" where
  "all_done m \<longleftrightarrow> list_all (\<lambda>l. tl_phase l = Done) (tm_leases m) \<and> list_all (\<lambda>l. sl_phase l = Done) (tm_socks m)"

lemma all_done_counted:
  assumes "all_done m" shows "counted key (tm_leases m) = 0" "counted_socks sig (tm_socks m) = 0"
proof -
  show "counted key (tm_leases m) = 0"
    using assms by (auto simp: all_done_def list_all_iff counted_def filter_empty_conv)
  show "counted_socks sig (tm_socks m) = 0"
    using assms by (auto simp: all_done_def list_all_iff counted_socks_def filter_empty_conv)
qed

lemma all_done_idle:
  assumes ok: "pool_ok m" and d: "all_done m" and e: "jump_at m sig = Some e"
  shows "je_forwards e = [] \<and> je_socks_listener e = None"
proof -
  note ent = pool_okD(4) [OF ok e]
  have "map_of (je_forwards e) hp = None" for hp
    using entry_okD(5) [OF ent, of hp] all_done_counted(1) [OF d, of "(sig, hp)"]
    by (cases "map_of (je_forwards e) hp") (auto simp: forward_ok_def)
  then have "je_forwards e = []"
    by (metis map_of_eq_empty_iff ext)
  then show ?thesis
    using entry_okD(4) [OF ent] all_done_counted(2) [OF d] by simp
qed

lemma all_done_no_listener:
  assumes ok: "pool_ok m" and d: "all_done m" shows "w_listeners (tm_wire m) = []"
proof -
  have "listener_at m s = None" for s
    using all_done_idle [OF ok d] by (auto simp: listener_at_def forward_of_def socks_of_def split: sum.splits option.splits)
  then have "set (w_listeners (tm_wire m)) = {}"
    using pool_okD(3) [OF ok] by (simp add: listeners_ok_def)
  then show ?thesis
    by simp
qed

lemma gc_drains:
  assumes ok: "pool_ok m" and d: "all_done m" and old: "\<And>sig e. jump_at m sig = Some e \<Longrightarrow> je_last_active e + IDLE_CLOSE_AFTER \<le> now"
  shows "tm_jumps (snd (gc now m)) = []"
proof -
  have "reapable now e" if "(sig, e) \<in> set (tm_jumps m)" for sig e
  proof -
    have "jump_at m sig = Some e"
      using that pool_okD(1) [OF ok] by simp
    then show ?thesis
      using all_done_idle [OF ok d] old [of sig e] by (auto simp: reapable_def)
  qed
  then show ?thesis
    by (auto simp: gc_def Let_def filter_empty_conv)
qed

section \<open>Chains of a sound inventory\<close>

lemma resolve_creds_host: "resolve_creds B loads d uid h = Inr c \<Longrightarrow>
    hc_host_id c = h_id h \<and> hc_hostname c = h_hostname h \<and> hc_port c = h_port h \<and> hc_protocol c = h_protocol h"
  by (auto simp: resolve_creds_def hop_of_def Let_def split: option.splits if_splits sum.splits secret_error.splits prod.splits)

lemma resolve_hops_ids: "resolve_hops B loads d uid hs = Inr cs \<Longrightarrow> map hc_host_id cs = map h_id hs"
  by (induction hs arbitrary: cs) (auto simp: bind_r_Inr_iff dest: resolve_creds_host)

lemma build_jump_chain_sound:
  assumes ok: "hosts_ok d" and h: "h \<in> set (d_hosts d)"
  shows "\<exists>r. build_jump_chain B loads d uid h = Some r \<and> (\<forall>hops target. r = Inr (hops, target) \<longrightarrow>
    map hc_host_id hops = (case h_jump_host_id h of None \<Rightarrow> [] | Some j \<Rightarrow> [j])
    \<and> hc_host_id target = h_id h \<and> hc_hostname target = h_hostname h \<and> hc_port target = h_port h
    \<and> one_hop (Acquire now bh tp hops target) \<and> one_hop (Acquire_Socks now bh hops))"
proof -
  obtain c where c: "resolve_jump_chain d h = Some c"
    and s: "case h_jump_host_id h of None \<Rightarrow> c = []
      | Some j \<Rightarrow> \<exists>b. c = [b] \<and> get_row h_id (d_hosts d) j = Some b \<and> h_is_jumpbox b \<and> h_tenant_id b = h_tenant_id h"
    using jump_chain_spec [OF ok h] by blast
  have ids: "map h_id c = (case h_jump_host_id h of None \<Rightarrow> [] | Some j \<Rightarrow> [j])"
    using s by (auto split: option.splits dest: get_row_SomeD)
  have "length hops \<le> 1" if "map hc_host_id hops = (case h_jump_host_id h of None \<Rightarrow> [] | Some j \<Rightarrow> [j])" for hops
    using arg_cong [OF that, of length] by (auto split: option.splits)
  then show ?thesis
    using c ids by (auto simp: build_jump_chain_def bind_r_Inr_iff one_hop_def dest!: resolve_hops_ids resolve_creds_host)
qed

text \<open>An entry of the pool serves every caller of the chain, whatever material the caller resolved.\<close>

lemma pool_ignores_material:
  assumes "jump_at m (chain_signature hops) = Some e" and "hops \<noteq> []" and "chain_signature hops' = chain_signature hops"
    and "hc_hostname target' = hc_hostname target" and "hc_port target' = hc_port target"
  shows "acquire E now bh tp hops' target' m = acquire E now bh tp hops target m"
proof -
  obtain a as b bs where c: "hops = a # as" "hops' = b # bs"
    using assms(2,3) by (cases hops; cases hops') (auto simp: chain_signature_def)
  have "ensure_jump E now b bs m = ensure_jump E now a as m"
    using assms(1,3) c by (simp add: ensure_jump_def Let_def)
  then show ?thesis
    unfolding acquire_def Let_def c list.case assms(4,5) by simp
qed

section \<open>An abandoned release\<close>

definition abandoned :: "nat \<Rightarrow> tunnels \<Rightarrow> bool" where
  "abandoned i m \<longleftrightarrow> i < length (tm_leases m) \<and> tl_phase (tm_leases m ! i) = Abandoned"

lemma lease_kept:
  "tm_leases (snd (acquire E now bh tp hops target m)) = tm_leases m \<or>
    (\<exists>l. tm_leases (snd (acquire E now bh tp hops target m)) = tm_leases m @ [l])"
  "tm_leases (snd (acquire_socks E now bh hops m)) = tm_leases m"
  by (auto simp: acquire_def acquire_socks_def ensure_jump_def ensure_forward_def ensure_socks_def lease_forward_def
    lease_socks_def Let_def split: list.splits option.splits prod.splits sum.splits)

lemma release_key_leases [simp]: "tm_leases (release_key now key m) = tm_leases m"
  "tm_leases (release_socks_sig now sig m) = tm_leases m"
  by (auto simp: release_key_def release_socks_sig_def Let_def split: prod.splits option.splits)

lemma abandoned_step:
  assumes "abandoned i m" shows "abandoned i (tunnel_exec E ev m)"
proof (cases ev)
  case (Acquire now bh tp hops target)
  then show ?thesis
    using assms lease_kept(1) [of E now bh tp hops target m] by (auto simp: abandoned_def nth_append)
qed (use assms in \<open>auto simp: abandoned_def lease_kept release_start_def release_finish_def release_cancel_def
    socks_release_start_def socks_release_finish_def socks_release_cancel_def register_session_def release_session_def
    set_phase_def set_socks_phase_def nth_list_update split: option.splits\<close>)

lemma abandoned_run: "abandoned i (tunnel_run E evs) \<Longrightarrow> abandoned i (tunnel_run E (evs @ evs'))"
  by (induction evs' rule: rev_induct) (simp_all add: tunnel_run_snoc abandoned_step flip: append_assoc)

lemma counted_lease_served:
  assumes ok: "pool_ok m" and l: "l \<in> set (tm_leases m)" "tl_phase l \<noteq> Done" and key: "tl_key l = (sig, host, port)"
  shows "\<exists>e f. jump_at m sig = Some e \<and> je_conn e \<in> set (w_conns (tm_wire m))
    \<and> map_of (je_forwards e) (host, port) = Some f \<and> fe_listener f \<in> set (w_listeners (tm_wire m))
    \<and> fe_bind_host f = tl_bind_host l \<and> fe_bind_port f = tl_bind_port l
    \<and> fe_target_host f = host \<and> fe_target_port f = port \<and> 1 \<le> fe_lease_count f"
proof -
  have "serves m l"
    using pool_okD(6) [OF ok l] .
  then obtain e f where e: "jump_at m sig = Some e" and f: "map_of (je_forwards e) (host, port) = Some f"
    and m: "fe_bind_host f = tl_bind_host l" "fe_bind_port f = tl_bind_port l"
    by (auto simp: serves_def forward_of_def key split: option.splits)
  note ent = pool_okD(4) [OF ok e]
  have "listener_at m (Inl (sig, host, port)) = Some (fe_listener f)"
    using e f by (simp add: listener_at_def forward_of_def)
  then have "fe_listener f \<in> set (w_listeners (tm_wire m))"
    using pool_okD(3) [OF ok] by (auto simp: listeners_ok_def)
  then show ?thesis
    using e f m entry_okD(2) [OF ent] entry_okD(5) [OF ent f] by (auto simp: forward_ok_def)
qed

section \<open>Probes\<close>

text \<open>
  What the connectivity checks report. \<open>banners\<close> are the texts the server sent before it decided;
  the outcome of the attempt is an argument.
\<close>

datatype probe_error = Target_Auth string | Target_Unreachable string | Key_Import string | Probe_Crash string

datatype tcp_outcome = Tcp_Open | Tcp_Timeout | Tcp_Refused string | Tcp_Os_Failure string | Tcp_Crash string

fun add_part :: "string list \<Rightarrow> string \<Rightarrow> string list" where
  "add_part parts t = (if t \<noteq> [] \<and> t \<notin> set parts then parts @ [t] else parts)"

definition failure_parts :: "ssh_exc \<Rightarrow> string list \<Rightarrow> string list" where
  "failure_parts x banners =
     (let ps = fold (\<lambda>b ps. add_part ps (py_strip b)) banners [];
          ps = (case x_reason x of None \<Rightarrow> ps | Some r \<Rightarrow> if r = [] then ps else add_part ps (py_strip r))
      in add_part ps (py_strip (x_text x)))"

definition ssh_failure_detail :: "ssh_exc \<Rightarrow> string list \<Rightarrow> string" where
  "ssh_failure_detail x banners = (let joined = join_with '' - '' (failure_parts x banners)
     in if joined = [] then [] else '': '' @ joined)"

definition captured :: "string list \<Rightarrow> string list" where
  \<comment> \<open>what \<open>auth_banner_received\<close> puts into the sink\<close>
  "captured msgs = filter (\<lambda>t. t \<noteq> []) (map py_strip msgs)"

definition endpoint :: "string \<Rightarrow> int \<Rightarrow> string" where
  "endpoint host port = host @ '':'' @ str_int port"

record probe =
  pr_connect_host :: string
  pr_connect_port :: int
  pr_target_host :: string
  pr_target_port :: int

definition repr_username :: "ssh_env \<Rightarrow> json option \<Rightarrow> string" where
  "repr_username E u = (case u of None \<Rightarrow> ''None'' | Some v \<Rightarrow> py_repr_json E v)"

definition ssh_auth_probe :: "ssh_env \<Rightarrow> string list \<Rightarrow> probe \<Rightarrow> json option \<Rightarrow> json option \<Rightarrow> string option \<Rightarrow>
    (ssh_args \<Rightarrow> ssh_outcome) \<Rightarrow> probe_error + unit" where
  "ssh_auth_probe E msgs p username password key dial =
     (if \<not> opt_truthy password \<and> (key = None \<or> key = Some []) then Inr ()
      else bind_r (case key of None \<Rightarrow> Inr None | Some k \<Rightarrow> if k = [] then Inr None
               else (case ssh_import_key E k of Inl e \<Rightarrow> Inl (Key_Import e) | Inr key \<Rightarrow> Inr (Some key)))
        (\<lambda>ckey. let banners = captured msgs; at = endpoint (pr_target_host p) (pr_target_port p);
            args = \<lparr>sa_host = pr_connect_host p, sa_port = pr_connect_port p,
              sa_username = (case username of None \<Rightarrow> JStr ''root'' | Some v \<Rightarrow> if json_truthy v then v else JStr ''root''),
              sa_client_key = ckey, sa_password = (if ckey = None then password else None), sa_tunnel = None\<rparr>
          in (case dial args of
             Connected \<Rightarrow> Inr ()
           | Denied x \<Rightarrow> Inl (Target_Auth (''target '' @ at @ '' rejected credentials for user ''
               @ repr_username E username @ ssh_failure_detail x banners))
           | Refused x \<Rightarrow> Inl (Target_Unreachable (''target '' @ at
               @ '' refused the connection - SSH is not listening on that port'' @ ssh_failure_detail x banners))
           | Timed_Out _ \<Rightarrow> Inl (Target_Unreachable (''target '' @ at @ '' timed out during SSH handshake ''
               @ ''- the host may be unreachable or SSH may not be enabled''))
           | Os_Failure x \<Rightarrow> Inl (Target_Unreachable (''cannot reach target '' @ at @ ssh_failure_detail x banners))
           | Other_Failure x \<Rightarrow> Inl (Target_Unreachable (''SSH handshake with target '' @ at @ '' failed''
               @ ssh_failure_detail x banners)))))"

definition loopback :: "string \<Rightarrow> string" where
  \<comment> \<open>a listener on all interfaces is dialled through loopback\<close>
  "loopback bind_host = (if bind_host = ''0.0.0.0'' \<or> bind_host = [] then ''127.0.0.1'' else bind_host)"

definition verify_ssh_credentials :: "ssh_env \<Rightarrow> string list \<Rightarrow> int \<Rightarrow> string \<Rightarrow> json option \<Rightarrow> json option \<Rightarrow> string option \<Rightarrow>
    string \<Rightarrow> int \<Rightarrow> (ssh_args \<Rightarrow> ssh_outcome) \<Rightarrow> probe_error + unit" where
  "verify_ssh_credentials E msgs bind_port bind_host username password key host port dial =
     ssh_auth_probe E msgs \<lparr>pr_connect_host = loopback bind_host, pr_connect_port = bind_port,
       pr_target_host = host, pr_target_port = port\<rparr> username password key dial"

definition tcp_probe :: "probe \<Rightarrow> (string \<Rightarrow> int \<Rightarrow> tcp_outcome) \<Rightarrow> probe_error + unit" where
  "tcp_probe p dial = (let at = endpoint (pr_target_host p) (pr_target_port p) in
     (case dial (pr_connect_host p) (pr_connect_port p) of
        Tcp_Timeout \<Rightarrow> Inl (Target_Unreachable (at @ '' timed out - host unreachable or port filtered''))
      | Tcp_Refused e \<Rightarrow> Inl (Target_Unreachable (at @ '' refused the connection - nothing is listening on that port (''
          @ e @ '')''))
      | Tcp_Os_Failure e \<Rightarrow> Inl (Target_Unreachable (''cannot reach '' @ at @ '' - '' @ e))
      | Tcp_Crash e \<Rightarrow> Inl (Probe_Crash e)
      | Tcp_Open \<Rightarrow> Inr ()))"

definition probe_forward :: "tunnel_lease \<Rightarrow> (string \<Rightarrow> int \<Rightarrow> tcp_outcome) \<Rightarrow> probe_error + unit" where
  "probe_forward l dial = (let at = endpoint (tl_target_host l) (tl_target_port l) in
     (case dial (loopback (tl_bind_host l)) (tl_bind_port l) of
        Tcp_Timeout \<Rightarrow> Inl (Target_Unreachable (''jump box cannot reach '' @ at
          @ '' - connection timed out (host unreachable or port filtered)''))
      | Tcp_Refused e \<Rightarrow> Inl (Target_Unreachable (''jump box cannot reach '' @ at @ '' - '' @ e))
      | Tcp_Os_Failure e \<Rightarrow> Inl (Target_Unreachable (''jump box cannot reach '' @ at @ '' - '' @ e))
      | Tcp_Crash e \<Rightarrow> Inl (Probe_Crash e)
      | Tcp_Open \<Rightarrow> Inr ()))"

datatype preflight_error = Preflight_Chain chain_error | Preflight_Probe probe_error

definition lift_probe :: "probe_error + unit \<Rightarrow> preflight_error + unit" where
  "lift_probe r = (case r of Inl e \<Rightarrow> Inl (Preflight_Probe e) | Inr _ \<Rightarrow> Inr ())"

definition preflight_direct :: "ssh_env \<Rightarrow> secret_backend \<Rightarrow> (string \<Rightarrow> json option) \<Rightarrow> db \<Rightarrow> int option \<Rightarrow> host \<Rightarrow>
    string list \<Rightarrow> (ssh_args \<Rightarrow> ssh_outcome) \<Rightarrow> (string \<Rightarrow> int \<Rightarrow> tcp_outcome) \<Rightarrow> preflight_error + unit" where
  "preflight_direct E B loads d uid h msgs dial_ssh dial_tcp = (case resolve_creds B loads d uid h of
     Inl e \<Rightarrow> Inl (Preflight_Chain e)
   | Inr t \<Rightarrow> (let p = \<lparr>pr_connect_host = hc_hostname t, pr_connect_port = hc_port t,
          pr_target_host = hc_hostname t, pr_target_port = hc_port t\<rparr> in
        if h_protocol h = ''ssh''
        then lift_probe (ssh_auth_probe E msgs p (Some (hc_username t)) (hc_password t) (hc_private_key t) dial_ssh)
        else lift_probe (tcp_probe p dial_tcp)))"

text \<open>The reported reasons: each once, none blank.\<close>

lemma add_part_ok: "distinct ps \<Longrightarrow> [] \<notin> set ps \<Longrightarrow> distinct (add_part ps t) \<and> [] \<notin> set (add_part ps t)"
  by auto

declare add_part.simps [simp del]

lemma fold_add_part: "distinct ps \<Longrightarrow> [] \<notin> set ps \<Longrightarrow>
    distinct (fold (\<lambda>b ps. add_part ps (py_strip b)) bs ps) \<and> [] \<notin> set (fold (\<lambda>b ps. add_part ps (py_strip b)) bs ps)"
proof (induction bs arbitrary: ps)
  case (Cons b bs)
  then show ?case
    using Cons.IH [of "add_part ps (py_strip b)"] add_part_ok [of ps "py_strip b"] by simp
qed simp

lemma failure_parts_distinct: "distinct (failure_parts x banners) \<and> [] \<notin> set (failure_parts x banners)"
  using fold_add_part [of "[]" banners] by (auto simp: failure_parts_def Let_def add_part_ok split: option.splits)

section \<open>Properties\<close>

definition demo_hop :: "int \<Rightarrow> hop_creds" where
  "demo_hop i = \<lparr>hc_host_id = i, hc_name = ''bastion'', hc_hostname = ''10.0.0.1'', hc_port = 22, hc_protocol = ''ssh'',
     hc_username = JStr ''root'', hc_password = Some (JStr ''pw''), hc_private_key = None\<rparr>"

definition demo_ssh :: ssh_env where
  "demo_ssh = \<lparr>ssh_dial = (\<lambda>n args. Connected), ssh_forward = (\<lambda>n c bh h p. Inr (40000 + int n)),
     ssh_socks = (\<lambda>n c bh. Inr 1080), ssh_import_key = Inr, repr_value = (\<lambda>v. [])\<rparr>"

definition demo_lease_events :: "tunnel_event list" where
  "demo_lease_events = [Acquire 0 ''0.0.0.0'' None [demo_hop 1] (demo_hop 2), Acquire 5 ''0.0.0.0'' None [demo_hop 1] (demo_hop 2),
     Release_Start 0, Release_Start 0, Release_Finish 9 0]"

text \<open>C36: A lease stays usable until it is released: in every interleaving of acquisitions, releases,
  cancelled releases, session signals, backstops and collections, and whatever connections fail, the
  forward of a lease whose \<open>release\<close> has not been called is in the pool with an open listener on the
  promised address, on an open connection of its chain, and leads to its target.\<close>

theorem leases_stay_usable:
  assumes "l \<in> set (tm_leases (tunnel_run E evs))" and "tl_phase l = Held" and "tl_key l = (sig, host, port)"
  shows "\<exists>e f. jump_at (tunnel_run E evs) sig = Some e \<and> je_conn e \<in> set (w_conns (tm_wire (tunnel_run E evs)))
    \<and> map_of (je_forwards e) (host, port) = Some f \<and> fe_listener f \<in> set (w_listeners (tm_wire (tunnel_run E evs)))
    \<and> fe_bind_host f = tl_bind_host l \<and> fe_bind_port f = tl_bind_port l
    \<and> fe_target_host f = host \<and> fe_target_port f = port \<and> 1 \<le> fe_lease_count f"
  using counted_lease_served [OF tunnel_run_ok assms(1)] assms(2,3) by simp

theorem leases_stay_usable_witness:
  "\<exists>e f. jump_at (tunnel_run demo_ssh demo_lease_events) [1] = Some e
    \<and> map_of (je_forwards e) (''10.0.0.1'', 22) = Some f \<and> fe_bind_port f = 40001 \<and> 1 \<le> fe_lease_count f"
proof -
  let ?l = "\<lparr>tl_bind_host = ''0.0.0.0'', tl_bind_port = 40001, tl_target_host = ''10.0.0.1'', tl_target_port = 22,
    tl_key = ([1], ''10.0.0.1'', 22), tl_phase = Held\<rparr>"
  have "?l \<in> set (tm_leases (tunnel_run demo_ssh demo_lease_events))"
    by code_simp
  from leases_stay_usable [OF this] show ?thesis
    by simp blast
qed

text \<open>C37: The pool drains: on chains of one jump, as a sound inventory has them, when every lease has
  been released and counted down, no listener is left open, and the collection that runs
  \<open>IDLE_CLOSE_AFTER_SECONDS\<close> after the last activity leaves no entry and no open connection.\<close>

theorem released_pool_drains:
  assumes "list_all one_hop evs" and "all_done (tunnel_run E evs)"
    and "list_all (\<lambda>(sig, e). je_last_active e + IDLE_CLOSE_AFTER \<le> now) (tm_jumps (tunnel_run E evs))"
  shows "w_listeners (tm_wire (tunnel_run E evs)) = [] \<and> tm_jumps (tunnel_run E (evs @ [Collect now])) = []
    \<and> w_conns (tm_wire (tunnel_run E (evs @ [Collect now]))) = []"
proof -
  let ?m = "tunnel_run E evs"
  have old: "je_last_active e + IDLE_CLOSE_AFTER \<le> now" if "jump_at ?m sig = Some e" for sig e
    using assms(3) map_of_SomeD [OF that] by (auto simp: list_all_iff)
  have j: "tm_jumps (tunnel_run E (evs @ [Collect now])) = []"
    using gc_drains [OF tunnel_run_ok assms(2) old] by (simp add: tunnel_run_snoc)
  have "conns_pooled (tunnel_run E (evs @ [Collect now]))"
    using assms(1) by (intro tunnel_run_pooled) (simp add: one_hop_def)
  then have "set (w_conns (tm_wire (tunnel_run E (evs @ [Collect now])))) = {}"
    by (auto simp: conns_pooled_def j)
  then show ?thesis
    using j all_done_no_listener [OF tunnel_run_ok assms(2)] by simp
qed

theorem released_pool_drains_witness:
  "w_conns (tm_wire (tunnel_run demo_ssh (demo_lease_events @ [Release_Start 1, Release_Finish 20 1] @ [Collect 300000020]))) = []"
proof -
  let ?evs = "demo_lease_events @ [Release_Start 1, Release_Finish 20 1]"
  have "list_all one_hop ?evs" "all_done (tunnel_run demo_ssh ?evs)"
    "list_all (\<lambda>(sig, e). je_last_active e + IDLE_CLOSE_AFTER \<le> 300000020) (tm_jumps (tunnel_run demo_ssh ?evs))"
    by code_simp+
  from released_pool_drains [OF this] show ?thesis
    by simp
qed

text \<open>C38: A release that is cancelled while it waits for the lock is lost for good: the flag is already
  set, so neither a second \<open>release\<close> nor the session backstop counts it down, and whatever happens
  later, the forward and its connection stay open.\<close>

theorem cancelled_release_leaks:
  assumes "abandoned i (tunnel_run E evs)"
  shows "\<exists>l e f. l = tm_leases (tunnel_run E (evs @ evs')) ! i
    \<and> jump_at (tunnel_run E (evs @ evs')) (fst (tl_key l)) = Some e
    \<and> map_of (je_forwards e) (snd (tl_key l)) = Some f
    \<and> fe_listener f \<in> set (w_listeners (tm_wire (tunnel_run E (evs @ evs'))))
    \<and> je_conn e \<in> set (w_conns (tm_wire (tunnel_run E (evs @ evs'))))"
proof -
  let ?m = "tunnel_run E (evs @ evs')"
  have a: "abandoned i ?m"
    by (rule abandoned_run [OF assms])
  obtain sig host port where key: "tl_key (tm_leases ?m ! i) = (sig, host, port)"
    by (cases "tl_key (tm_leases ?m ! i)")
  have "tm_leases ?m ! i \<in> set (tm_leases ?m)" "tl_phase (tm_leases ?m ! i) \<noteq> Done"
    using a by (auto simp: abandoned_def)
  from counted_lease_served [OF tunnel_run_ok this key] show ?thesis
    by (auto simp: key)
qed

theorem cancelled_release_leaks_witness:
  "\<exists>f. f \<in> set (w_listeners (tm_wire (tunnel_run demo_ssh ([Acquire 0 ''0.0.0.0'' None [demo_hop 1] (demo_hop 2),
      Register_Session ''sid'' 0, Release_Start 0, Release_Cancel 0] @ [Release_Session ''sid'', Release_Finish 5 0,
      Collect 900000000]))))"
proof -
  have "abandoned 0 (tunnel_run demo_ssh [Acquire 0 ''0.0.0.0'' None [demo_hop 1] (demo_hop 2),
      Register_Session ''sid'' 0, Release_Start 0, Release_Cancel 0])"
    by code_simp
  from cancelled_release_leaks [OF this, of "[Release_Session ''sid'', Release_Finish 5 0, Collect 900000000]"]
  show ?thesis
    by blast
qed

end
