(* ===== verification/Dosm_Network.thy ===== *)
theory Dosm_Network
  imports Dosm_Tunnels
begin

text \<open>
  The connectivity checks of \<open>dosm/network/executor.py\<close>: the texts for failed connections, the connection
  through a chain of jump hosts, the commands sent to Linux and Windows sources, the reading of their output,
  and the routing of one check. What a connection attempt, a remote command, a WinRM session and a local
  socket come to are fields of \<open>net_env\<close>; a failed library call is an exception with its class name, its
  text and what the code asks of it. An answer may depend on the position of the check in its batch.
\<close>

section \<open>Addresses\<close>

definition safe_char :: "char \<Rightarrow> bool" where
  \<comment> \<open>\<open>[a-zA-Z0-9.\-_:]\<close>\<close>
  "safe_char c \<longleftrightarrow> (let n = code_point c in 97 \<le> n \<and> n \<le> 122 \<or> 65 \<le> n \<and> n \<le> 90 \<or> 48 \<le> n \<and> n \<le> 57 \<or> c \<in> set ''.-_:'')"

definition safe_addr :: "string \<Rightarrow> bool" where
  \<comment> \<open>\<open>$\<close> also matches before a final line feed\<close>
  "safe_addr a \<longleftrightarrow> (let b = (if a \<noteq> [] \<and> last a = CHR 0x0A then butlast a else a) in b \<noteq> [] \<and> list_all safe_char b)"

definition validate_address :: "string \<Rightarrow> string + string" where
  "validate_address a = (if safe_addr a then Inr a else Inl (''unsafe destination address: '' @ py_repr a))"

section \<open>Texts for failures\<close>

datatype errno = No_Route | Conn_Reset | Other_Errno

record net_exc =
  ne_type :: string
  ne_text :: string
  ne_reason :: "string option"
  ne_refused :: bool
  ne_os_error :: "errno option"
  ne_timeout :: bool

fun contains :: "string \<Rightarrow> string \<Rightarrow> bool" where
  "contains sub s = (starts_with s sub \<or> (case s of [] \<Rightarrow> False | _ # t \<Rightarrow> contains sub t))"

definition ssh_raw_detail :: "net_exc \<Rightarrow> string" where
  "ssh_raw_detail e = (let text = py_strip (case ne_reason e of None \<Rightarrow> ne_text e | Some r \<Rightarrow> if r = [] then ne_text e else r)
     in if text = [] then [] else '' - '' @ take 160 text)"

definition classify_ssh_error :: "net_exc \<Rightarrow> string \<Rightarrow> string" where
  "classify_ssh_error e host = (let name = py_lower (ne_type e); msg = py_lower (ne_text e); detail = ssh_raw_detail e; h = py_repr host in
     if contains ''permissiondenied'' name \<or> contains ''permission denied'' msg
     then ''SSH authentication failed on '' @ h @ '' - check credentials'' @ detail
     else if ne_refused e \<or> contains ''connection refused'' msg then ''SSH not enabled on '' @ h @ '' - port refused the connection'' @ detail
     else if ne_os_error e = Some No_Route then ''Host '' @ h @ '' is unreachable - no route to host'' @ detail
     else if ne_os_error e = Some Conn_Reset then ''SSH connection reset by '' @ h @ detail
     else if contains ''disconnecterror'' name \<or> contains ''connection lost'' name then ''SSH connection to '' @ h @ '' was dropped unexpectedly'' @ detail
     else if contains ''timeout'' name \<or> contains ''timed out'' msg \<or> ne_timeout e
     then ''SSH connection to '' @ h @ '' timed out - the host may be unreachable or SSH may not be enabled''
     else if contains ''hostkey'' name then ''SSH host-key verification failed for '' @ h @ detail
     else ''SSH error on '' @ h @ '': '' @ ne_type e @ '': '' @ take 120 (ne_text e))"

definition classify_winrm_error :: "net_exc \<Rightarrow> string \<Rightarrow> string" where
  "classify_winrm_error e host = (let name = py_lower (ne_type e); msg = py_lower (ne_text e); h = py_repr host in
     if contains ''connectionerror'' name \<or> contains ''max retries'' msg \<or> contains ''connection refused'' msg
     then ''WinRM not reachable on '' @ h @ '':5985 - WinRM may not be enabled (run: winrm quickconfig)''
     else if contains ''timeout'' name \<or> contains ''timed out'' msg
     then ''WinRM connection to '' @ h @ '' timed out - the host may be unreachable or WinRM may not be enabled''
     else if contains ''invalidcredentials'' name \<or> contains ''401'' msg \<or> contains ''unauthorized'' msg \<or> contains ''access denied'' msg
       \<or> contains ''logon failure'' msg
     then ''WinRM authentication failed on '' @ h @ '' - check username/password''
     else if contains ''transport'' name \<and> contains ''error'' name then ''WinRM transport error on '' @ h @ '': '' @ take 120 (ne_text e)
     else ''WinRM error on '' @ h @ '': '' @ ne_type e @ '': '' @ take 120 (ne_text e))"

section \<open>The environment\<close>

type_synonym check = "string \<times> int"
type_synonym check_result = "bool \<times> int option \<times> string option"

datatype ssh_run = Ssh_Ran string int | Ssh_Run_Timeout | Ssh_Run_Failed net_exc

datatype winrm_open = Winrm_Missing | Winrm_Failed net_exc | Winrm_Open

datatype local_tcp = Tcp_Open int | Tcp_Timeout | Tcp_Refused | Tcp_Os_Error string

datatype local_ping = Ping_Exit int int | Ping_Timeout | Ping_Missing | Ping_Failed net_exc

record winrm_target =
  wt_endpoint :: string
  wt_username :: json
  wt_password :: json

record net_env =
  nv_dial :: "hop_creds list \<Rightarrow> hop_creds \<Rightarrow> net_exc option"
  nv_run :: "hop_creds list \<Rightarrow> hop_creds \<Rightarrow> nat \<Rightarrow> string \<Rightarrow> ssh_run"
  nv_winrm :: "winrm_target \<Rightarrow> winrm_open"
  nv_ps :: "winrm_target \<Rightarrow> nat \<Rightarrow> string \<Rightarrow> net_exc + string"
  nv_tcp :: "nat \<Rightarrow> string \<Rightarrow> int \<Rightarrow> local_tcp"
  nv_ping :: "nat \<Rightarrow> string \<Rightarrow> local_ping"
  nv_str :: "json \<Rightarrow> string"

section \<open>Connecting through the chain\<close>

definition openssh_text :: "hop_creds option \<Rightarrow> hop_creds \<Rightarrow> string" where
  "openssh_text prev hop = ''Jump box '' @ py_repr (hc_name hop) @ '' ('' @ hc_hostname hop @ '') is a Windows host (protocol=rdp). '' @
     ''SSH tunnel traversal requires OpenSSH to be enabled on this jump box - connect '' @
     (case prev of None \<Rightarrow> ''directly from DOSM'' | Some p \<Rightarrow> ''via jump box '' @ py_repr (hc_name p)) @
     '' and run: Add-WindowsCapability -Online -Name OpenSSH.Server~~~~0.0.1.0. Then set this host's protocol to 'ssh' in the inventory.''"

definition hop_failed :: "hop_creds option \<Rightarrow> string \<Rightarrow> hop_creds \<Rightarrow> net_exc \<Rightarrow> string" where
  "hop_failed prev what hop e = (case prev of None \<Rightarrow> classify_ssh_error e (hc_hostname hop)
     | Some p \<Rightarrow> ''Connected to jump box '' @ py_repr (hc_name p) @ '' but it could not reach '' @ what @ '' '' @ py_repr (hc_name hop) @
         '' ('' @ hc_hostname hop @ ''): '' @ classify_ssh_error e (hc_hostname hop))"

definition last_opt :: "'a list \<Rightarrow> 'a option" where
  "last_opt xs = (if xs = [] then None else Some (last xs))"

fun connect_hops :: "net_env \<Rightarrow> hop_creds list \<Rightarrow> hop_creds list \<Rightarrow> string + hop_creds list" where
  \<comment> \<open>the loop over the jump hosts; the list holds the connections that are open\<close>
  "connect_hops E opened [] = Inr opened"
| "connect_hops E opened (hop # hops) =
     (if hc_protocol hop = ''rdp'' then Inl (openssh_text (last_opt opened) hop)
      else (case nv_dial E opened hop of Some e \<Rightarrow> Inl (hop_failed (last_opt opened) ''next hop'' hop e)
        | None \<Rightarrow> connect_hops E (opened @ [hop]) hops))"

definition connect_tracked :: "net_env \<Rightarrow> hop_creds list \<Rightarrow> hop_creds \<Rightarrow> string + hop_creds list" where
  "connect_tracked E hops target = bind_r (connect_hops E [] hops) (\<lambda>opened.
     case nv_dial E opened target of Some e \<Rightarrow> Inl (hop_failed (last_opt opened) ''target'' target e) | None \<Rightarrow> Inr opened)"

section \<open>Linux sources\<close>

definition quoted :: "string \<Rightarrow> string" where
  \<comment> \<open>single quotes around a text that is taken as it is\<close>
  "quoted s = [CHR 0x27] @ s @ [CHR 0x27]"

definition stamp_cmd :: "string \<Rightarrow> string" where
  "stamp_cmd v = v @ ''=$(date +%s%3N 2>/dev/null || echo 0)''"

definition tail_cmd :: string where
  "tail_cmd = '' && '' @ stamp_cmd ''E'' @ '' && echo '' @ [CHR 0x22] @ ''OK $((E-S))'' @ [CHR 0x22] @ '' || echo FAIL''"

definition check_command :: "string \<Rightarrow> int \<Rightarrow> string" where
  "check_command dst port = stamp_cmd ''S'' @ ''; '' @
     (if port = 0 then ''ping -c 1 -W 3 '' @ quoted dst @ '' >/dev/null 2>&1''
      else ''(bash -c '' @ quoted (''</dev/tcp/'' @ dst @ ''/'' @ str_int port) @ '' 2>/dev/null || nc -zw5 '' @ quoted dst @ '' '' @ str_int port @
        '' 2>/dev/null)'') @ tail_cmd"

definition second_word :: "string \<Rightarrow> string" where
  \<comment> \<open>\<open>s.split()[1]\<close>, empty when there is none\<close>
  "second_word s = takeWhile (\<lambda>c. \<not> py_isspace c) (dropWhile py_isspace (dropWhile (\<lambda>c. \<not> py_isspace c) s))"

definition ssh_check_one :: "net_env \<Rightarrow> hop_creds list \<Rightarrow> hop_creds \<Rightarrow> nat \<Rightarrow> string \<Rightarrow> int \<Rightarrow> check_result" where
  "ssh_check_one E opened target i dst port = (case nv_run E opened target i (check_command dst port) of
     Ssh_Ran out wall_ms \<Rightarrow> let stdout = py_strip out in
       if starts_with stdout ''OK'' then (True, Some (case py_int (second_word stdout) of None \<Rightarrow> wall_ms
         | Some n \<Rightarrow> if n \<le> 0 \<or> n > 30000 then wall_ms else n), None)
       else (False, None, None)
   | Ssh_Run_Timeout \<Rightarrow> (False, None, Some (if port = 0 then ''ping timed out reaching '' @ dst
       else ''check timed out reaching '' @ dst @ '':'' @ str_int port))
   | Ssh_Run_Failed e \<Rightarrow> (False, None, Some ((if port = 0 then ''ping error'' else ''check error'') @ '': '' @ ne_type e @ '': '' @ take 120 (ne_text e))))"

definition batch :: "(nat \<Rightarrow> string \<Rightarrow> int \<Rightarrow> check_result) \<Rightarrow> check list \<Rightarrow> check_result list" where
  \<comment> \<open>one check after the other\<close>
  "batch one checks = map (\<lambda>(i, dst, port). one i dst port) (enumerate 0 checks)"

definition all_failed :: "string \<Rightarrow> check list \<Rightarrow> check_result list" where
  "all_failed m checks = map (\<lambda>_. (False, None, Some m)) checks"

definition ssh_group_check :: "net_env \<Rightarrow> hop_creds list \<Rightarrow> hop_creds \<Rightarrow> check list \<Rightarrow> check_result list" where
  "ssh_group_check E hops target checks = (case connect_tracked E hops target of Inl m \<Rightarrow> all_failed m checks
     | Inr opened \<Rightarrow> batch (ssh_check_one E opened target) checks)"

fun opened_hops :: "net_env \<Rightarrow> hop_creds list \<Rightarrow> hop_creds list \<Rightarrow> hop_creds list" where
  \<comment> \<open>the jump connections \<open>connect_hops\<close> has opened when it ends, in whichever way\<close>
  "opened_hops E opened [] = opened"
| "opened_hops E opened (hop # hops) = (if hc_protocol hop = ''rdp'' \<or> nv_dial E opened hop \<noteq> None then opened
     else opened_hops E (opened @ [hop]) hops)"

definition left_open :: "net_env \<Rightarrow> hop_creds list \<Rightarrow> hop_creds list" where
  \<comment> \<open>after \<open>ssh_group_check\<close>, whose \<open>finally\<close> closes the connection to the target only\<close>
  "left_open E hops = opened_hops E [] hops"

section \<open>Windows sources\<close>

definition ok_script :: "string \<Rightarrow> string \<Rightarrow> string \<Rightarrow> string \<Rightarrow> string" where
  "ok_script sep run test sw = sw @ ''$sw=[System.Diagnostics.Stopwatch]::StartNew();'' @ sep @ run @ sep @ ''$sw.Stop();'' @ sep @
     ''if('' @ test @ ''){'' @ [CHR 0x22] @ ''OK $([int]$sw.ElapsedMilliseconds)'' @ [CHR 0x22] @ ''}else{'' @ [CHR 0x22] @ ''FAIL'' @ [CHR 0x22] @ ''}''"

definition ps_check :: "string \<Rightarrow> string \<Rightarrow> int \<Rightarrow> string" where
  \<comment> \<open>the PowerShell check; \<open>sep\<close> is a blank in the nested form\<close>
  "ps_check sep dst port = (if port = 0
     then ok_script sep (''$r=Test-Connection -ComputerName '' @ quoted dst @ '' -Count 1 -Quiet;'') ''$r'' []
     else ok_script sep (''$r=Test-NetConnection -ComputerName '' @ quoted dst @ '' -Port '' @ str_int port @ '' -WarningAction SilentlyContinue;'')
       ''$r.TcpTestSucceeded'' [])"

definition ok_latency :: "string \<Rightarrow> int option" where
  "ok_latency stdout = py_int (second_word stdout)"

definition winrm_check_one :: "net_env \<Rightarrow> winrm_target \<Rightarrow> string \<Rightarrow> nat \<Rightarrow> string \<Rightarrow> int \<Rightarrow> check_result" where
  "winrm_check_one E w host i dst port = (case nv_ps E w i (ps_check [] dst port) of
     Inl e \<Rightarrow> (False, None, Some (classify_winrm_error e host))
   | Inr out \<Rightarrow> if starts_with (py_strip out) ''OK'' then (True, ok_latency (py_strip out), None) else (False, None, None))"

definition wsman_endpoint :: "string \<Rightarrow> int \<Rightarrow> json \<Rightarrow> json \<Rightarrow> winrm_target" where
  "wsman_endpoint host port un pw = \<lparr>wt_endpoint = ''http://'' @ host @ '':'' @ str_int port @ ''/wsman'', wt_username = un, wt_password = pw\<rparr>"

definition winrm_absent :: string where
  "winrm_absent = ''pywinrm not installed - cannot check Windows hosts via WinRM''"

definition winrm_group_check :: "net_env \<Rightarrow> string \<Rightarrow> json \<Rightarrow> json \<Rightarrow> int \<Rightarrow> check list \<Rightarrow> check_result list" where
  "winrm_group_check E host un pw port checks = (let w = wsman_endpoint (if port = 5985 then host else ''127.0.0.1'') port un pw in
     case nv_winrm E w of Winrm_Missing \<Rightarrow> all_failed winrm_absent checks
     | Winrm_Failed e \<Rightarrow> all_failed (classify_winrm_error e host) checks
     | Winrm_Open \<Rightarrow> batch (winrm_check_one E w host) checks)"

definition invoke_script :: "net_env \<Rightarrow> string \<Rightarrow> json \<Rightarrow> json \<Rightarrow> string \<Rightarrow> int \<Rightarrow> string" where
  \<comment> \<open>user and password of the target go into the script between single quotes as they are\<close>
  "invoke_script E thost tuser tpw dst port = ''$secpwd = ConvertTo-SecureString '' @ quoted (nv_str E tpw) @ '' -AsPlainText -Force; '' @
     ''$cred = New-Object System.Management.Automation.PSCredential('' @ quoted (nv_str E tuser) @ '', $secpwd); try {   $res = Invoke-Command -ComputerName '' @
     quoted thost @ '' -Credential $cred     -Authentication CredSSP -ScriptBlock {       '' @ ps_check '' '' dst port @
     ''     };   $res } catch [System.Management.Automation.Remoting.PSRemotingTransportException] {   if($_.Exception.Message -match '' @ quoted ''CredSSP'' @
     '') {     '' @ quoted ''CREDSSP_NOT_CONFIGURED'' @ ''   } else {     '' @ quoted ''INVOKE_FAILED: '' @
     '' + $_.Exception.Message.Substring(0, [Math]::Min(120, $_.Exception.Message.Length))   } }''"

definition invoke_check_one :: "net_env \<Rightarrow> winrm_target \<Rightarrow> string \<Rightarrow> string \<Rightarrow> json \<Rightarrow> json \<Rightarrow> nat \<Rightarrow> string \<Rightarrow> int \<Rightarrow> check_result" where
  "invoke_check_one E w jhost thost tuser tpw i dst port = (let box = ''Windows jump box '' @ py_repr jhost in
     case nv_ps E w i (invoke_script E thost tuser tpw dst port) of
       Inl e \<Rightarrow> (False, None, Some (box @ '': '' @ classify_winrm_error e jhost))
     | Inr out \<Rightarrow> let stdout = py_strip out in
         if starts_with stdout ''OK'' then (True, ok_latency stdout, None)
         else if stdout = ''FAIL'' then (False, None, None)
         else (False, None, Some (if stdout = ''CREDSSP_NOT_CONFIGURED''
           then box @ '' cannot reach target '' @ py_repr thost @ '' via Invoke-Command: CredSSP is not configured. On the jump box run: Enable-WSManCredSSP -Role Server -Force''
           else if starts_with stdout ''INVOKE_FAILED:'' then box @ '': Invoke-Command to '' @ py_repr thost @ '' failed - '' @ py_strip (drop 14 stdout)
           else ''Unexpected output from '' @ box @ '': '' @ py_repr (take 120 stdout))))"

definition winrm_invoke_group_check :: "net_env \<Rightarrow> string \<Rightarrow> json \<Rightarrow> json \<Rightarrow> string \<Rightarrow> json \<Rightarrow> json \<Rightarrow> check list \<Rightarrow> check_result list" where
  "winrm_invoke_group_check E jhost juser jpw thost tuser tpw checks = (let w = wsman_endpoint jhost 5985 juser jpw in
     case nv_winrm E w of Winrm_Missing \<Rightarrow> all_failed winrm_absent checks
     | Winrm_Failed e \<Rightarrow> all_failed (''Windows jump box '' @ py_repr jhost @ '': '' @ classify_winrm_error e jhost) checks
     | Winrm_Open \<Rightarrow> batch (invoke_check_one E w jhost thost tuser tpw) checks)"

section \<open>Checks from the server itself\<close>

definition local_tcp_check :: "net_env \<Rightarrow> nat \<Rightarrow> string \<Rightarrow> int \<Rightarrow> check_result" where
  "local_tcp_check E i dst port = (case nv_tcp E i dst port of Tcp_Open ms \<Rightarrow> (True, Some ms, None)
     | Tcp_Timeout \<Rightarrow> (False, None, Some (''connection to '' @ dst @ '':'' @ str_int port @ '' timed out''))
     | Tcp_Refused \<Rightarrow> (False, None, None)
     | Tcp_Os_Error m \<Rightarrow> (False, None, Some (''socket error reaching '' @ dst @ '':'' @ str_int port @ '': '' @ m)))"

definition local_ping_check :: "net_env \<Rightarrow> nat \<Rightarrow> string \<Rightarrow> check_result" where
  "local_ping_check E i dst = (case nv_ping E i dst of Ping_Exit code ms \<Rightarrow> if code = 0 then (True, Some ms, None) else (False, None, None)
     | Ping_Timeout \<Rightarrow> (False, None, Some (''ping timed out reaching '' @ dst))
     | Ping_Missing \<Rightarrow> (False, None, Some ''ping not available in this environment'')
     | Ping_Failed e \<Rightarrow> (False, None, Some (''ping error: '' @ ne_type e @ '': '' @ take 120 (ne_text e))))"

definition local_group_check :: "net_env \<Rightarrow> check list \<Rightarrow> check_result list" where
  "local_group_check E checks = batch (\<lambda>i dst port. if port = 0 then local_ping_check E i dst else local_tcp_check E i dst port) checks"

section \<open>Every check gets one result\<close>

lemma batch_length [simp]: "length (batch one checks) = length checks"
  by (simp add: batch_def)

lemma all_failed_length [simp]: "length (all_failed m checks) = length checks"
  by (simp add: all_failed_def)

lemma group_lengths [simp]:
  "length (ssh_group_check E hops target checks) = length checks" "length (winrm_group_check E host un pw port checks) = length checks"
  "length (winrm_invoke_group_check E jhost ju jp th tu tp checks) = length checks" "length (local_group_check E checks) = length checks"
  by (simp_all add: ssh_group_check_def winrm_group_check_def winrm_invoke_group_check_def local_group_check_def Let_def
      split: sum.splits winrm_open.splits)

lemma left_open_all: "connect_hops E opened hops = Inr cs \<Longrightarrow> opened_hops E opened hops = opened @ hops \<and> cs = opened @ hops"
  by (induction E opened hops arbitrary: cs rule: connect_hops.induct) (auto split: if_splits option.splits)

text \<open>
  A group check closes the connection to its target only: every jump connection of the chain stays open,
  also when all the checks went well.
\<close>

lemma jumps_left_open:
  assumes "connect_tracked E hops target = Inr opened"
  shows "left_open E hops = hops"
  using assms left_open_all [of E "[]" hops] by (auto simp: connect_tracked_def left_open_def bind_r_Inr_iff)

section \<open>What of an address reaches the shell\<close>

fun bare :: "bool \<Rightarrow> string \<Rightarrow> string" where
  \<comment> \<open>the characters of a shell command outside single quotes; the flag: inside\<close>
  "bare q [] = []"
| "bare q (c # cs) = (if c = CHR 0x27 then bare (\<not> q) cs else if q then bare q cs else c # bare q cs)"

lemma bare_plain: "CHR 0x27 \<notin> set a \<Longrightarrow> bare q (a @ b) = (if q then [] else a) @ bare q b"
  by (induction a) auto

lemma bare_quote: "bare q (CHR 0x27 # s) = bare (\<not> q) s"
  by simp

lemma bare_quoted: "CHR 0x27 \<notin> set a \<Longrightarrow> bare False (quoted a @ b) = bare False b"
  unfolding quoted_def by (simp add: bare_plain)

lemma str_int_plain: "CHR 0x27 \<notin> set (str_int n)"
proof -
  have "CHR 0x27 \<notin> set (str_nat k)" for k
    using str_nat_digits [of k] by (auto simp: is_digit_def code_point_def)
  then show ?thesis
    by (simp add: str_int_def)
qed

definition before_addr :: "int \<Rightarrow> string" where
  "before_addr port = stamp_cmd ''S'' @ (if port = 0 then ''; ping -c 1 -W 3 '' else ''; (bash -c '')"

definition after_addr :: "string \<Rightarrow> int \<Rightarrow> string" where
  "after_addr dst port = (if port = 0 then '' >/dev/null 2>&1'' else '' 2>/dev/null || nc -zw5 '' @ quoted dst @ '' '' @ str_int port @ '' 2>/dev/null)'') @ tail_cmd"

lemma check_command_parts:
  "check_command dst port = before_addr port @ quoted (if port = 0 then dst else ''</dev/tcp/'' @ dst @ ''/'' @ str_int port) @ after_addr dst port"
  by (simp add: check_command_def before_addr_def after_addr_def)

lemma before_addr_plain: "CHR 0x27 \<notin> set (before_addr port)"
  by (simp add: before_addr_def stamp_cmd_def)

lemma safe_char_plain: "safe_char c \<Longrightarrow> c \<noteq> CHR 0x27"
  by (auto simp: safe_char_def code_point_def Let_def)

lemma safe_addr_plain:
  assumes "safe_addr a"
  shows "CHR 0x27 \<notin> set a"
proof (cases "a \<noteq> [] \<and> last a = CHR 0x0A")
  case True
  then have "a = butlast a @ [CHR 0x0A]"
    using append_butlast_last_id by metis
  then have "set a = insert (CHR 0x0A) (set (butlast a))"
    by (metis list.simps(15) rotate1.simps(2) set_rotate1 list.set(1) insert_is_Un set_append sup_commute)
  moreover have "list_all safe_char (butlast a)"
    using assms True by (simp add: safe_addr_def Let_def)
  ultimately show ?thesis
    using safe_char_plain by (auto simp: list_all_iff)
next
  case False
  then have "list_all safe_char a"
    using assms by (auto simp: safe_addr_def Let_def split: if_splits)
  then show ?thesis
    using safe_char_plain by (auto simp: list_all_iff)
qed

lemma tail_cmd_plain: "CHR 0x27 \<notin> set tail_cmd"
  by (simp add: tail_cmd_def stamp_cmd_def)

lemma after_addr_bare: "CHR 0x27 \<notin> set dst \<Longrightarrow> bare False (after_addr dst port) = bare False (after_addr [] port)"
  by (simp add: after_addr_def bare_quoted bare_plain str_int_plain)

text \<open>
  An address without single quotes adds nothing to the command outside the quotes. One with a single quote ends
  the word, and what follows it is run.
\<close>

lemma plain_address_quoted:
  assumes "CHR 0x27 \<notin> set dst"
  shows "bare False (check_command dst port) = bare False (check_command [] port)"
proof -
  have q: "CHR 0x27 \<notin> set (if port = 0 then x else ''</dev/tcp/'' @ x @ ''/'' @ str_int port)" if "CHR 0x27 \<notin> set x" for x
    using that str_int_plain [of port] by auto
  show ?thesis
    unfolding check_command_parts bare_plain [OF before_addr_plain] if_False bare_quoted [OF q [OF assms]] after_addr_bare [OF assms]
    using bare_quoted [OF q [of "[]"]] by simp
qed

lemma quote_ends_word:
  assumes "CHR 0x27 \<notin> set cmd"
  shows "\<exists>a b. bare False (check_command (''x'' @ [CHR 0x27] @ '';'' @ cmd @ ''#'') port) = a @ '';'' @ cmd @ ''#'' @ b"
proof -
  let ?pre = "if port = 0 then ''x'' else ''</dev/tcp/x''"
  have e: "\<exists>r. check_command (''x'' @ [CHR 0x27] @ '';'' @ cmd @ ''#'') port = before_addr port @ CHR 0x27 # ?pre @ CHR 0x27 # ('';'' @ cmd @ ''#'') @ r"
    by (auto simp: check_command_parts quoted_def)
  have "CHR 0x27 \<notin> set ?pre" "CHR 0x27 \<notin> set ('';'' @ cmd @ ''#'')"
    using assms by simp_all
  moreover obtain r where r: "check_command (''x'' @ [CHR 0x27] @ '';'' @ cmd @ ''#'') port = before_addr port @ CHR 0x27 # ?pre @ CHR 0x27 # ('';'' @ cmd @ ''#'') @ r"
    using e by blast
  ultimately have "bare False (check_command (''x'' @ [CHR 0x27] @ '';'' @ cmd @ ''#'') port) = before_addr port @ ('';'' @ cmd @ ''#'') @ bare False r"
    unfolding r by (simp only: bare_plain [OF before_addr_plain] bare_plain bare_quote if_True if_False simp_thms append_Nil)
  then show ?thesis
    by (intro exI [of _ "before_addr port"] exI [of _ "bare False r"]) simp
qed

end
