(* ===== verification/Dosm_Scans.thy ===== *)
theory Dosm_Scans
  imports Dosm_Network
begin

text \<open>
  Network scans: the background runner of \<open>dosm/network/scanner.py\<close> and the routes of
  \<open>dosm/network/routes.py\<close> with the port library, the port checker, the network map and its graph. A run is
  modelled source by source, in the order the rows name the sources; the semaphore only bounds how many go at
  once and each writes its own rows. The text of the check in progress, kept in memory for the page, is left
  out. The saved form of a scan is kept as the value its JSON text encodes. \<open>None\<close> stands for a walk along
  jump hosts that never ends.
\<close>

section \<open>Running the checks of a source\<close>

record scan_env =
  se_net :: net_env
  se_backend :: secret_backend
  se_loads :: "string \<Rightarrow> json option"
  se_tunnel :: "db \<Rightarrow> host \<Rightarrow> string + int option"
  se_crash :: "string \<Rightarrow> string"
  se_title :: "stamp \<Rightarrow> string"

definition chain_text :: "scan_env \<Rightarrow> chain_error \<Rightarrow> string" where
  \<comment> \<open>\<open>str(exc)\<close>\<close>
  "chain_text E e = (case e of Secret_Missing m \<Rightarrow> m | Secret_Failed m \<Rightarrow> m | Material_Error (Dynamic_Credential_Error m) \<Rightarrow> m
     | Material_Error (Dynamic_Crash t) \<Rightarrow> se_crash E t)"

definition chain_of :: "scan_env \<Rightarrow> db \<Rightarrow> host \<Rightarrow> (chain_error + hop_creds list \<times> hop_creds) option" where
  \<comment> \<open>no user is named to the per-user credentials here\<close>
  "chain_of E d h = build_jump_chain (se_backend E) (se_loads E) d None h"

definition windows_check :: "net_env \<Rightarrow> string \<Rightarrow> hop_creds list \<Rightarrow> hop_creds \<Rightarrow> check list \<Rightarrow> (json \<Rightarrow> check_result list) \<Rightarrow> check_result list" where
  \<comment> \<open>the common routing; \<open>forwarded\<close> is what becomes of a chain of Linux jump boxes\<close>
  "windows_check N mixed hops target checks forwarded = (case hc_password target of
     None \<Rightarrow> all_failed ''WinRM requires a password credential (SSH key not supported for Windows)'' checks
   | Some pw \<Rightarrow>
       if hops = [] then winrm_group_check N (hc_hostname target) (hc_username target) pw 5985 checks
       else let box = last hops in
         if hc_protocol box = ''rdp'' then (case hc_password box of
             None \<Rightarrow> all_failed (''Windows jump box '' @ py_repr (hc_name box) @ '' requires a password credential for WinRM'') checks
           | Some jpw \<Rightarrow> winrm_invoke_group_check N (hc_hostname box) (hc_username box) jpw (hc_hostname target) (hc_username target) pw checks)
         else if \<exists>h \<in> set hops. hc_protocol h = ''rdp'' then all_failed mixed checks
         else forwarded pw)"

definition check_windows_source :: "scan_env \<Rightarrow> db \<Rightarrow> host \<Rightarrow> hop_creds list \<Rightarrow> hop_creds \<Rightarrow> check list \<Rightarrow> check_result list" where
  "check_windows_source E d h hops target checks = windows_check (se_net E)
     ''Mixed jump chain with a Windows jump box before a Linux one is not supported. Reorder so Linux jump boxes precede Windows ones, or enable OpenSSH on the Windows jump box and set its protocol to 'ssh'.''
     hops target checks
     (\<lambda>pw. let direct = (\<lambda>port. winrm_group_check (se_net E) (hc_hostname target) (hc_username target) pw port checks) in
      case se_tunnel E d h of
        Inl m \<Rightarrow> all_failed (''Failed to establish SSH tunnel to Windows source '' @ py_repr (hc_name target) @ '': '' @ m) checks
      | Inr None \<Rightarrow> direct 5985
      | Inr (Some port) \<Rightarrow> direct port)"

definition fill_result :: "stamp \<Rightarrow> check_result \<Rightarrow> scan_result \<Rightarrow> scan_result" where
  "fill_result now r x = x\<lparr>nr_reachable := Some (fst r), nr_latency_ms := fst (snd r), nr_error_msg := snd (snd r), nr_checked_at := Some now\<rparr>"

definition commit_result :: "int \<times> check_result \<Rightarrow> db \<Rightarrow> db" where
  \<comment> \<open>a row that is gone is skipped\<close>
  "commit_result ir d = d\<lparr>d_scan_results := upd_row nr_id (fst ir) (fill_result (d_now d) (snd ir)) (d_scan_results d)\<rparr>"

definition check_params :: "db \<Rightarrow> int list \<Rightarrow> (int \<times> check) list" where
  "check_params d ids = List.map_filter (\<lambda>i. map_option (\<lambda>x. (i, nr_dst_address x, nr_port x)) (get_row nr_id (d_scan_results d) i)) ids"

definition commit_all :: "(int \<times> check) list \<Rightarrow> check_result list \<Rightarrow> db \<Rightarrow> db" where
  \<comment> \<open>each result is written once: by its callback, or at the end when the connection failed as a whole\<close>
  "commit_all params results d = fold commit_result (zip (map fst params) results) d"

definition mark_result :: "stamp \<Rightarrow> string \<Rightarrow> scan_result \<Rightarrow> scan_result" where
  "mark_result now m x = x\<lparr>nr_reachable := Some False, nr_error_msg := Some m, nr_checked_at := Some now\<rparr>"

definition mark_all :: "int list \<Rightarrow> string \<Rightarrow> db \<Rightarrow> db" where
  "mark_all ids m d = fold (\<lambda>i d. d\<lparr>d_scan_results := upd_row nr_id i (mark_result (d_now d) m) (d_scan_results d)\<rparr>) ids d"

definition check_source :: "scan_env \<Rightarrow> int \<Rightarrow> int list \<Rightarrow> db \<Rightarrow> db option" where
  "check_source E src ids d = (case get_row h_id (d_hosts d) src of None \<Rightarrow> Some (mark_all ids ''source host not found'' d)
     | Some h \<Rightarrow> let params = check_params d ids; checks = map snd params in
         if h_protocol h = ''local'' then Some (commit_all params (local_group_check (se_net E) checks) d)
         else (case chain_of E d h of None \<Rightarrow> None
           | Some (Inl e) \<Rightarrow> Some (mark_all ids (''credential error: '' @ chain_text E e) d)
           | Some (Inr (hops, target)) \<Rightarrow> Some (commit_all params (if h_protocol h = ''rdp'' then check_windows_source E d h hops target checks
               else ssh_group_check (se_net E) hops target checks) d)))"

definition check_local_source :: "scan_env \<Rightarrow> int list \<Rightarrow> db \<Rightarrow> db" where
  "check_local_source E ids d = (let params = check_params d ids in commit_all params (local_group_check (se_net E) (map snd params)) d)"

section \<open>A run\<close>

datatype scan_source = From_Server | From_Host int

definition SERVER_LABEL :: string where
  "SERVER_LABEL = ''DOSM Server''"

definition source_key :: "scan_result \<Rightarrow> scan_source option" where
  "source_key r = (case nr_src_host_id r of Some i \<Rightarrow> Some (From_Host i)
     | None \<Rightarrow> if nr_src_label r = SERVER_LABEL then Some From_Server else None)"

definition scan_rows :: "db \<Rightarrow> int \<Rightarrow> scan_result list" where
  "scan_rows d sid = filter (\<lambda>r. nr_scan_id r = sid) (d_scan_results d)"

definition src_groups :: "db \<Rightarrow> int \<Rightarrow> (scan_source \<times> int list) list" where
  \<comment> \<open>the dictionary, in the order of first insertion\<close>
  "src_groups d sid = (let rows = scan_rows d sid in
     map (\<lambda>k. (k, map nr_id (filter (\<lambda>r. source_key r = Some k) rows))) (rev (remdups (rev (List.map_filter source_key rows)))))"

definition bounded :: "scan_env \<Rightarrow> scan_source \<times> int list \<Rightarrow> db \<Rightarrow> db option" where
  "bounded E g d = (case fst g of From_Server \<Rightarrow> Some (check_local_source E (snd g) d) | From_Host i \<Rightarrow> check_source E i (snd g) d)"

definition execute_scan :: "scan_env \<Rightarrow> int \<Rightarrow> db \<Rightarrow> db option" where
  "execute_scan E sid d = fold (\<lambda>g m. Option.bind m (bounded E g)) (src_groups d sid) (Some d)"

definition upd_scan :: "int \<Rightarrow> (network_scan \<Rightarrow> network_scan) \<Rightarrow> db \<Rightarrow> db" where
  "upd_scan i f d = d\<lparr>d_scans := upd_row ns_id i f (d_scans d)\<rparr>"

definition run_scan :: "scan_env \<Rightarrow> int \<Rightarrow> db \<Rightarrow> db option" where
  \<comment> \<open>what a source raises stays in its own task, so a run always completes\<close>
  "run_scan E sid d = (if get_row ns_id (d_scans d) sid = None then Some d
     else map_option (\<lambda>d1. upd_scan sid (\<lambda>x. x\<lparr>ns_status := ''completed'', ns_completed_at := Some (d_now d1)\<rparr>) d1)
       (execute_scan E sid (upd_scan sid (\<lambda>x. x\<lparr>ns_status := ''running''\<rparr>) d)))"

section \<open>The port library\<close>

definition port_library :: "session \<Rightarrow> db \<Rightarrow> response + network_port list" where
  "port_library s d = bind_r (require_user ''/network/ports'' s d) (\<lambda>u. Inr (sort_key np_port_number (d_ports d)))"

definition port_target :: "int \<Rightarrow> string" where
  "port_target n = ''port:'' @ str_int n"

definition port_create :: "int \<Rightarrow> string \<Rightarrow> string \<Rightarrow> string \<Rightarrow> session \<Rightarrow> db \<Rightarrow> response \<times> db" where
  "port_create number protocol description is_default s d = on_ok (require_user ''/network/ports/new'' s d) d (\<lambda>u.
     if number \<in> np_port_number ` set (d_ports d) then (Page 400 (Some (''Port '' @ str_int number @ '' already exists.'')), d)
     else (Redirect ''/network/ports'', add_audit None (Some (u_id u)) ''network.port.create'' (Some (port_target number)) None None
       (d\<lparr>d_ports := d_ports d @ [\<lparr>np_id = next_id np_id (d_ports d), np_port_number = number, np_protocol = protocol,
          np_description = py_strip description, np_is_default = (is_default \<noteq> []), np_created_at = d_now d\<rparr>]\<rparr>)))"

definition port_edit :: "int \<Rightarrow> string \<Rightarrow> string \<Rightarrow> session \<Rightarrow> db \<Rightarrow> response \<times> db" where
  "port_edit i description is_default s d = on_ok (require_user (''/network/ports/'' @ str_int i @ ''/edit'') s d) d (\<lambda>u.
     case get_row np_id (d_ports d) i of None \<Rightarrow> (HttpError 404 ''Not Found'', d)
     | Some p \<Rightarrow> (Redirect ''/network/ports'', add_audit None (Some (u_id u)) ''network.port.update'' (Some (port_target (np_port_number p))) None None
         (d\<lparr>d_ports := upd_row np_id i (\<lambda>x. x\<lparr>np_description := py_strip description, np_is_default := (is_default \<noteq> [])\<rparr>) (d_ports d)\<rparr>)))"

definition port_delete :: "int \<Rightarrow> session \<Rightarrow> db \<Rightarrow> response \<times> db" where
  "port_delete i s d = on_ok (require_user (''/network/ports/'' @ str_int i @ ''/delete'') s d) d (\<lambda>u.
     case get_row np_id (d_ports d) i of None \<Rightarrow> (HttpError 404 ''Not Found'', d)
     | Some p \<Rightarrow> (Redirect ''/network/ports'', add_audit None (Some (u_id u)) ''network.port.delete'' (Some (port_target (np_port_number p))) None None
         (d\<lparr>d_ports := del_rows (\<lambda>x. np_id x = i) (d_ports d)\<rparr>)))"

section \<open>The port checker\<close>

definition quick_check :: "scan_env \<Rightarrow> db \<Rightarrow> host \<Rightarrow> string \<Rightarrow> int \<Rightarrow> (chain_error + check_result) option" where
  \<comment> \<open>with \<open>_quick_check_windows\<close>; \<open>Inl\<close>: the exception of the chain is not caught\<close>
  "quick_check E d h dst port = (let checks = [(dst, port)] in
     case validate_address dst of Inl m \<Rightarrow> Some (Inr (False, None, Some m))
     | Inr _ \<Rightarrow>
         if h_protocol h = ''local'' then Some (Inr (hd (local_group_check (se_net E) checks)))
         else map_option (\<lambda>r. bind_r r (\<lambda>(hops, target). Inr (hd (
             if h_protocol h = ''rdp'' then windows_check (se_net E)
               ''Mixed jump chain with a Windows jump box before a Linux one is not supported. Reorder the chain so Linux jump boxes precede Windows ones, or enable OpenSSH on the Windows jump box and set its protocol to 'ssh'.''
               hops target checks (\<lambda>_. all_failed ''Port Checker for a Windows source behind a Linux jump box requires the scanner path (use Network Map instead of Port Checker for this host).'' checks)
             else ssh_group_check (se_net E) hops target checks)))) (chain_of E d h))"

definition py_bool :: "bool \<Rightarrow> string" where
  "py_bool b = (if b then ''True'' else ''False'')"

definition port_checker_run :: "scan_env \<Rightarrow> int \<Rightarrow> string \<Rightarrow> int \<Rightarrow> session \<Rightarrow> db \<Rightarrow> (response \<times> db) option" where
  "port_checker_run E src dst port s d = (case require_user ''/network/port-checker/check'' s d of Inl r \<Rightarrow> Some (r, d)
     | Inr u \<Rightarrow> (case get_host d src (active_tenant_id s u) of None \<Rightarrow> Some (JsonError 404 ''Source host not found.'', d)
       | Some h \<Rightarrow> map_option (\<lambda>r. case r of Inl _ \<Rightarrow> (Crash ''credential error'', d)
           | Inr (ok, ms, m) \<Rightarrow> (JsonOk [(''reachable'', JBool ok), (''latency_ms'', case ms of None \<Rightarrow> JNull | Some n \<Rightarrow> JInt n),
                 (''error_msg'', case m of None \<Rightarrow> JNull | Some t \<Rightarrow> JStr t), (''source'', JStr (h_name h)), (''dst_address'', JStr dst), (''port'', JInt port)],
               add_audit (Some (h_tenant_id h)) (Some (u_id u)) ''network.check'' (Some (''host:'' @ str_int src))
                 (Some (''dst='' @ dst @ '':'' @ str_int port @ '' reachable='' @ py_bool ok)) None d))
           (quick_check E d h (py_strip dst) port)))"

section \<open>The network map\<close>

definition get_scan :: "db \<Rightarrow> int \<Rightarrow> int option \<Rightarrow> network_scan option" where
  "get_scan d i tid = (case get_row ns_id (d_scans d) i of None \<Rightarrow> None
     | Some x \<Rightarrow> if tid \<noteq> None \<and> tid \<noteq> Some (ns_tenant_id x) then None else Some x)"

definition scan_or_404 :: "db \<Rightarrow> int \<Rightarrow> int option \<Rightarrow> response + network_scan" where
  "scan_or_404 d i tid = (case get_scan d i tid of None \<Rightarrow> Inl (HttpError 404 ''Not Found'') | Some x \<Rightarrow> Inr x)"

record scan_counts =
  sk_total :: int
  sk_checked :: int
  sk_reachable :: int

definition count_rows :: "scan_result list \<Rightarrow> scan_counts" where
  "count_rows rows = \<lparr>sk_total = int (length rows), sk_checked = int (length (filter (\<lambda>r. nr_reachable r \<noteq> None) rows)),
     sk_reachable = int (length (filter (\<lambda>r. nr_reachable r = Some True) rows))\<rparr>"

definition map_list :: "session \<Rightarrow> db \<Rightarrow> response + (network_scan \<times> scan_counts) list" where
  "map_list s d = bind_r (require_user ''/network/map'' s d) (\<lambda>u.
     Inr (map (\<lambda>x. (x, count_rows (scan_rows d (ns_id x))))
       (where_opt (tenant_clause ns_tenant_id (active_tenant_id s u)) (sort_key (\<lambda>x. - ns_created_at x) (d_scans d)))))"

fun form_ints :: "string list \<Rightarrow> response + int list" where
  \<comment> \<open>\<open>[int(v) for v in values if v]\<close>\<close>
  "form_ints [] = Inr []"
| "form_ints (v # vs) = (if v = [] then form_ints vs else
     (case py_int v of None \<Rightarrow> Inl (Crash ''ValueError'') | Some i \<Rightarrow> bind_r (form_ints vs) (\<lambda>is. Inr (i # is))))"

definition adhoc_dest :: "string \<Rightarrow> scan_dest option" where
  "adhoc_dest line0 = (let line = py_strip line0; label = py_strip (takeWhile (\<lambda>c. c \<noteq> CHR ''|'') line);
       address = py_strip (drop 1 (dropWhile (\<lambda>c. c \<noteq> CHR ''|'') line)) in
     if line = [] then None
     else if CHR ''|'' \<notin> set line then Some \<lparr>de_host_id = None, de_address = line, de_label = line\<rparr>
     else if address = [] then None else Some \<lparr>de_host_id = None, de_address = address, de_label = label\<rparr>)"

definition host_dest :: "db \<Rightarrow> int \<Rightarrow> int \<Rightarrow> scan_dest option" where
  "host_dest d t i = map_option (\<lambda>h. \<lparr>de_host_id = Some (h_id h), de_address = h_hostname h, de_label = h_name h\<rparr>) (get_host d i (Some t))"

definition destinations :: "db \<Rightarrow> int \<Rightarrow> int list \<Rightarrow> string \<Rightarrow> scan_dest list" where
  "destinations d t hosts adhoc = List.map_filter (host_dest d t) hosts @ List.map_filter adhoc_dest (py_splitlines adhoc)"

definition pending_row :: "int \<Rightarrow> int option \<Rightarrow> string \<Rightarrow> scan_dest \<Rightarrow> network_port \<Rightarrow> scan_result" where
  \<comment> \<open>its id is given on insertion\<close>
  "pending_row sid src label dst p = \<lparr>nr_id = 0, nr_scan_id = sid, nr_src_host_id = src, nr_src_label = label, nr_dst_label = de_label dst,
     nr_dst_address = de_address dst, nr_port = np_port_number p, nr_protocol = np_protocol p, nr_reachable = None, nr_latency_ms = None,
     nr_error_msg = None, nr_checked_at = None\<rparr>"

definition rows_of_source :: "db \<Rightarrow> int \<Rightarrow> scan_config \<Rightarrow> int option \<Rightarrow> string \<Rightarrow> scan_result list" where
  "rows_of_source d sid c src label = concat (map (\<lambda>dst. List.map_filter (\<lambda>pid. map_option (pending_row sid src label dst)
     (get_row np_id (d_ports d) pid)) (sf_port_ids c)) (sf_destinations c))"

definition result_rows :: "db \<Rightarrow> int \<Rightarrow> scan_config \<Rightarrow> int \<Rightarrow> scan_result list" where
  \<comment> \<open>the rows of \<open>_create_result_rows\<close> in the order they are added\<close>
  "result_rows d sid c t = (if sf_local c then rows_of_source d sid c None SERVER_LABEL else []) @
     concat (map (\<lambda>i. case get_host d i (Some t) of None \<Rightarrow> [] | Some h \<Rightarrow> rows_of_source d sid c (Some i) (h_name h)) (sf_sources c))"

definition add_result :: "scan_result \<Rightarrow> db \<Rightarrow> db" where
  "add_result r d = d\<lparr>d_scan_results := d_scan_results d @ [r\<lparr>nr_id := next_id nr_id (d_scan_results d)\<rparr>]\<rparr>"

definition add_scan :: "int \<Rightarrow> string \<Rightarrow> scan_config \<Rightarrow> int \<Rightarrow> db \<Rightarrow> int \<times> db" where
  "add_scan t title c actor d = (let sid = next_id ns_id (d_scans d);
       d1 = d\<lparr>d_scans := d_scans d @ [\<lparr>ns_id = sid, ns_tenant_id = t, ns_title = title, ns_status = ''pending'', ns_config = c,
         ns_created_by_id = Some actor, ns_created_at = d_now d, ns_completed_at = None\<rparr>]\<rparr>
     in (sid, fold add_result (result_rows d1 sid c t) d1))"

record map_form =
  mf_title :: string
  mf_include_local :: string
  mf_sources :: "string list"
  mf_dests :: "string list"
  mf_adhoc :: string
  mf_ports :: "string list"

definition scan_target :: "int \<Rightarrow> string" where
  "scan_target i = ''scan:'' @ str_int i"

definition map_create :: "scan_env \<Rightarrow> map_form \<Rightarrow> session \<Rightarrow> db \<Rightarrow> response \<times> db" where
  \<comment> \<open>the run itself starts in the background\<close>
  "map_create E f s d = on_ok (require_user ''/network/map/new'' s d) d (\<lambda>u. on_ok (require_active_tenant s u) d (\<lambda>t.
     let title = (if py_strip (mf_title f) = [] then se_title E (d_now d) else py_strip (mf_title f)); local = (mf_include_local f = ''1'') in
     on_ok (form_ints (mf_sources f)) d (\<lambda>sources. on_ok (form_ints (mf_dests f)) d (\<lambda>hosts. on_ok (form_ints (mf_ports f)) d (\<lambda>ports.
     let dests = destinations d t hosts (py_strip (mf_adhoc f)) in
     if sources = [] \<and> \<not> local then (Page 400 (Some ''Select at least one source host.''), d)
     else if ports = [] then (Page 400 (Some ''Select at least one port.''), d)
     else if dests = [] then (Page 400 (Some ''Add at least one destination.''), d)
     else (case add_scan t title \<lparr>sf_sources = sources, sf_destinations = dests, sf_port_ids = ports, sf_local = local\<rparr> (u_id u) d of
       (sid, d1) \<Rightarrow> (Redirect (''/network/map/'' @ str_int sid),
         add_audit (Some t) (Some (u_id u)) ''network.scan.create'' (Some (scan_target sid)) (Some title) None d1)))))))"

definition map_rerun :: "int \<Rightarrow> session \<Rightarrow> db \<Rightarrow> response \<times> db" where
  "map_rerun i s d = on_ok (require_user (''/network/map/'' @ str_int i @ ''/rerun'') s d) d (\<lambda>u.
     on_ok (scan_or_404 d i (active_tenant_id s u)) d (\<lambda>x. case add_scan (ns_tenant_id x) (ns_title x) (ns_config x) (u_id u) d of
       (sid, d1) \<Rightarrow> (Redirect (''/network/map/'' @ str_int sid),
         add_audit (Some (ns_tenant_id x)) (Some (u_id u)) ''network.scan.rerun'' (Some (scan_target sid)) (Some (''original='' @ str_int i)) None d1)))"

definition body_title :: "json \<Rightarrow> response + string" where
  \<comment> \<open>\<open>(body.get("title") or "").strip()\<close>\<close>
  "body_title body = (case body of JObj m \<Rightarrow> (case dict_get m ''title'' of None \<Rightarrow> Inr []
       | Some v \<Rightarrow> if \<not> json_truthy v then Inr [] else (case v of JStr t \<Rightarrow> Inr (py_strip t) | _ \<Rightarrow> Inl (Crash ''AttributeError'')))
     | _ \<Rightarrow> Inl (Crash ''AttributeError''))"

definition map_rename :: "int \<Rightarrow> json \<Rightarrow> session \<Rightarrow> db \<Rightarrow> response \<times> db" where
  "map_rename i body s d = on_ok (require_user (''/network/map/'' @ str_int i @ ''/rename'') s d) d (\<lambda>u. on_ok (body_title body) d (\<lambda>title.
     if title = [] then (JsonError 422 ''Title cannot be empty'', d)
     else on_ok (scan_or_404 d i (active_tenant_id s u)) d (\<lambda>x. (JsonOk [(''ok'', JBool True), (''title'', JStr title)],
       add_audit (Some (ns_tenant_id x)) (Some (u_id u)) ''network.scan.rename'' (Some (scan_target i)) (Some title) None
         (upd_scan i (\<lambda>y. y\<lparr>ns_title := title\<rparr>) d)))))"

definition map_delete :: "int \<Rightarrow> session \<Rightarrow> db \<Rightarrow> response \<times> db" where
  "map_delete i s d = on_ok (require_user (''/network/map/'' @ str_int i @ ''/delete'') s d) d (\<lambda>u.
     on_ok (scan_or_404 d i (active_tenant_id s u)) d (\<lambda>x. (Redirect ''/network/map'',
       add_audit (Some (ns_tenant_id x)) (Some (u_id u)) ''network.scan.delete'' (Some (scan_target i)) None None
         (d\<lparr>d_scans := del_rows (\<lambda>y. ns_id y = i) (d_scans d), d_scan_results := del_rows (\<lambda>r. nr_scan_id r = i) (d_scan_results d)\<rparr>))))"

section \<open>The graph\<close>

record graph_node =
  gn_index :: nat
  gn_label :: string
  gn_is_source :: bool
  gn_is_dest :: bool

record port_info =
  gp_port :: int
  gp_protocol :: string
  gp_reachable :: "bool option"
  gp_latency_ms :: "int option"
  gp_error_msg :: "string option"

record graph_edge =
  ge_index :: nat
  ge_source :: nat
  ge_target :: nat
  ge_labels :: "string \<times> string"
  ge_ports :: "port_info list"
  ge_reachable_count :: int
  ge_checked_count :: int
  ge_total_count :: int

definition touch_node :: "string \<Rightarrow> (graph_node \<Rightarrow> graph_node) \<Rightarrow> graph_node list \<Rightarrow> graph_node list" where
  "touch_node label f ns = map (\<lambda>n. if gn_label n = label then f n else n) (if label \<in> gn_label ` set ns then ns
     else ns @ [\<lparr>gn_index = length ns, gn_label = label, gn_is_source = False, gn_is_dest = False\<rparr>])"

definition node_index :: "string \<Rightarrow> graph_node list \<Rightarrow> nat" where
  "node_index label ns = (case find (\<lambda>n. gn_label n = label) ns of None \<Rightarrow> 0 | Some n \<Rightarrow> gn_index n)"

definition port_entry :: "scan_result \<Rightarrow> port_info" where
  "port_entry r = \<lparr>gp_port = nr_port r, gp_protocol = nr_protocol r, gp_reachable = nr_reachable r, gp_latency_ms = nr_latency_ms r,
     gp_error_msg = nr_error_msg r\<rparr>"

definition add_row :: "scan_result \<Rightarrow> graph_node list \<times> graph_edge list \<Rightarrow> graph_node list \<times> graph_edge list" where
  "add_row r g = (let ns = touch_node (nr_dst_label r) (\<lambda>n. n\<lparr>gn_is_dest := True\<rparr>) (touch_node (nr_src_label r) (\<lambda>n. n\<lparr>gn_is_source := True\<rparr>) (fst g));
       key = (nr_src_label r, nr_dst_label r); es = snd g;
       es1 = (if key \<in> ge_labels ` set es then es else es @ [\<lparr>ge_index = length es, ge_source = node_index (nr_src_label r) ns,
         ge_target = node_index (nr_dst_label r) ns, ge_labels = key, ge_ports = [], ge_reachable_count = 0, ge_checked_count = 0, ge_total_count = 0\<rparr>])
     in (ns, map (\<lambda>e. if ge_labels e = key then e\<lparr>ge_ports := ge_ports e @ [port_entry r]\<rparr> else e) es1))"

definition count_ports :: "graph_edge \<Rightarrow> graph_edge" where
  "count_ports e = e\<lparr>ge_reachable_count := int (length (filter (\<lambda>p. gp_reachable p = Some True) (ge_ports e))),
     ge_checked_count := int (length (filter (\<lambda>p. gp_reachable p \<noteq> None) (ge_ports e))), ge_total_count := int (length (ge_ports e))\<rparr>"

definition build_graph :: "scan_result list \<Rightarrow> graph_node list \<times> graph_edge list" where
  "build_graph rows = (case fold add_row rows ([], []) of (ns, es) \<Rightarrow> (ns, map count_ports es))"

definition map_detail :: "int \<Rightarrow> session \<Rightarrow> db \<Rightarrow> response + (network_scan \<times> scan_result list \<times> scan_counts \<times> graph_node list \<times> graph_edge list)" where
  "map_detail i s d = bind_r (require_user (''/network/map/'' @ str_int i) s d) (\<lambda>u. bind_r (scan_or_404 d i (active_tenant_id s u)) (\<lambda>x.
     let rows = scan_rows d i in Inr (x, rows, count_rows rows, build_graph rows)))"

definition map_status :: "int \<Rightarrow> session \<Rightarrow> db \<Rightarrow> response + (string \<times> scan_counts \<times> int \<times> int \<times> graph_node list \<times> graph_edge list)" where
  \<comment> \<open>status, counts, unreachable, pending, graph; the running flag and the activity are kept in memory\<close>
  "map_status i s d = bind_r (require_user (''/network/map/'' @ str_int i @ ''/status'') s d) (\<lambda>u.
     bind_r (scan_or_404 d i (active_tenant_id s u)) (\<lambda>x. let rows = scan_rows d i; c = count_rows rows in
       Inr (ns_status x, c, sk_checked c - sk_reachable c, sk_total c - sk_checked c, build_graph rows)))"

definition export_rows :: "db \<Rightarrow> int \<Rightarrow> (scan_result \<times> string) list" where
  \<comment> \<open>the rows of both exports with the description of the port; of one port number the last row of the library wins\<close>
  "export_rows d i = (let desc = map_of (rev (map (\<lambda>p. (np_port_number p, np_description p)) (d_ports d))) in
     map (\<lambda>r. (r, case desc (nr_port r) of None \<Rightarrow> [] | Some t \<Rightarrow> t)) (scan_rows d i))"

definition map_export :: "string \<Rightarrow> int \<Rightarrow> session \<Rightarrow> db \<Rightarrow> response + (string \<times> network_scan \<times> (scan_result \<times> string) list)" where
  \<comment> \<open>the file name, the scan and the rows; \<open>kind\<close> is json or csv, whose writers are the library's\<close>
  "map_export kind i s d = bind_r (require_user (''/network/map/'' @ str_int i @ ''/export/'' @ kind) s d) (\<lambda>u.
     bind_r (scan_or_404 d i (active_tenant_id s u)) (\<lambda>x.
       Inr (''scan_'' @ str_int i @ ''_'' @ replace_char CHR '' '' CHR ''_'' (take 30 (ns_title x)) @ ''.'' @ kind, x, export_rows d i)))"

section \<open>A run checks every row that has a source\<close>

definition result_core :: "scan_result \<Rightarrow> scan_result" where
  "result_core x = x\<lparr>nr_reachable := None, nr_latency_ms := None, nr_error_msg := None, nr_checked_at := None\<rparr>"

definition progress :: "stamp \<Rightarrow> int set \<Rightarrow> scan_result \<Rightarrow> scan_result \<Rightarrow> bool" where
  \<comment> \<open>the rows with ids in the set have been checked, the others are as they were\<close>
  "progress now S x y \<longleftrightarrow> result_core y = result_core x \<and> (nr_id x \<notin> S \<longrightarrow> y = x) \<and>
     (nr_id x \<in> S \<longrightarrow> nr_reachable y \<noteq> None \<and> nr_checked_at y = Some now)"

definition rows_done :: "int set \<Rightarrow> db \<Rightarrow> db \<Rightarrow> bool" where
  "rows_done S d d1 \<longleftrightarrow> (\<exists>R. d1 = d\<lparr>d_scan_results := R\<rparr> \<and> list_all2 (progress (d_now d) S) (d_scan_results d) R)"

lemma result_core_id: "result_core y = result_core x \<Longrightarrow> nr_id y = nr_id x"
  unfolding result_core_def by (metis (no_types, lifting) scan_result.select_convs(1) scan_result.surjective scan_result.update_convs(9,10,11,12))

lemma progress_trans: "progress now S x y \<Longrightarrow> progress now T y z \<Longrightarrow> progress now (S \<union> T) x z"
  using result_core_id [of y x] by (auto simp: progress_def)

lemma rows_done_none: "rows_done {} d d"
  unfolding rows_done_def by (intro exI [of _ "d_scan_results d"]) (simp add: list_all2_same progress_def)

lemma rows_done_trans: "rows_done S d d1 \<Longrightarrow> rows_done T d1 d2 \<Longrightarrow> rows_done (S \<union> T) d d2"
proof -
  assume "rows_done S d d1" "rows_done T d1 d2"
  then obtain R Q where "d1 = d\<lparr>d_scan_results := R\<rparr>" "list_all2 (progress (d_now d) S) (d_scan_results d) R"
      "d2 = d1\<lparr>d_scan_results := Q\<rparr>" "list_all2 (progress (d_now d1) T) (d_scan_results d1) Q"
    unfolding rows_done_def by blast
  then have "d2 = d\<lparr>d_scan_results := Q\<rparr>" "list_all2 (progress (d_now d) (S \<union> T)) (d_scan_results d) Q"
    using list_all2_trans [of "progress (d_now d) S" "progress (d_now d) T" "progress (d_now d) (S \<union> T)" "d_scan_results d" R Q] progress_trans by simp_all
  then show ?thesis
    unfolding rows_done_def by blast
qed

lemma rows_done_upd:
  assumes "\<And>x. result_core (f x) = result_core x \<and> nr_reachable (f x) \<noteq> None \<and> nr_checked_at (f x) = Some (d_now d)"
  shows "rows_done {i} d (d\<lparr>d_scan_results := upd_row nr_id i f (d_scan_results d)\<rparr>)"
proof -
  have "list_all2 (progress (d_now d) {i}) xs (upd_row nr_id i f xs)" for xs
    using assms by (induction xs) (auto simp: upd_row_simps progress_def)
  then show ?thesis
    unfolding rows_done_def by blast
qed

lemma commit_done: "rows_done {fst ir} d (commit_result ir d)"
  unfolding commit_result_def by (rule rows_done_upd) (simp add: fill_result_def result_core_def)

lemma fold_done:
  assumes "\<And>x d. rows_done (S x) d (f x d)"
  shows "rows_done (\<Union>x \<in> set xs. S x) d (fold f xs d)"
proof (induction xs arbitrary: d)
  case (Cons x xs)
  then show ?case
    using rows_done_trans [OF assms [of x d] Cons.IH [of "f x d"]] by simp
qed (simp add: rows_done_none)

lemma commit_all_done:
  assumes "length results = length params"
  shows "rows_done (fst ` set params) d (commit_all params results d)"
proof -
  have "set (map fst (zip (map fst params) results)) = set (map fst params)"
    using assms by (subst map_fst_zip) simp_all
  then have "(\<Union>ir \<in> set (zip (map fst params) results). {fst ir}) = fst ` set params"
    by auto
  then show ?thesis
    using fold_done [of "\<lambda>ir. {fst ir}" commit_result "zip (map fst params) results" d, OF commit_done] by (simp add: commit_all_def)
qed

lemma mark_all_done: "rows_done (set ids) d (mark_all ids m d)"
proof -
  have "rows_done {i} d (d\<lparr>d_scan_results := upd_row nr_id i (mark_result (d_now d) m) (d_scan_results d)\<rparr>)" for i d
    by (rule rows_done_upd) (simp add: mark_result_def result_core_def)
  then show ?thesis
    using fold_done [of "\<lambda>i. {i}" "\<lambda>i d. d\<lparr>d_scan_results := upd_row nr_id i (mark_result (d_now d) m) (d_scan_results d)\<rparr>" ids d]
    by (simp add: mark_all_def)
qed

lemma check_params_ids:
  assumes "set ids \<subseteq> nr_id ` set (d_scan_results d)"
  shows "fst ` set (check_params d ids) = set ids"
proof -
  have "get_row nr_id (d_scan_results d) i \<noteq> None" if "i \<in> set ids" for i
    using that assms by (auto simp: get_row_None_iff)
  then have "List.map_filter (\<lambda>i. map_option (\<lambda>x. (i, nr_dst_address x, nr_port x)) (get_row nr_id (d_scan_results d) i)) ids =
      map (\<lambda>i. case get_row nr_id (d_scan_results d) i of Some x \<Rightarrow> (i, nr_dst_address x, nr_port x) | None \<Rightarrow> (i, [], 0)) ids"
    by (induction ids) (auto split: option.splits)
  then have "map fst (check_params d ids) = map (\<lambda>i. fst (case get_row nr_id (d_scan_results d) i of Some x \<Rightarrow> (i, nr_dst_address x, nr_port x) | None \<Rightarrow> (i, [], 0))) ids"
    by (simp add: check_params_def)
  also have "\<dots> = ids"
    by (intro map_idI) (simp split: option.splits)
  finally show ?thesis
    by (metis list.set_map)
qed

lemma windows_check_length:
  "(\<And>pw. length (forwarded pw) = length checks) \<Longrightarrow> length (windows_check N mixed hops target checks forwarded) = length checks"
  by (auto simp: windows_check_def Let_def split: option.splits)

lemma check_windows_length: "length (check_windows_source E d h hops target checks) = length checks"
  unfolding check_windows_source_def by (rule windows_check_length) (auto simp: Let_def split: sum.splits option.splits)

lemma check_source_done:
  assumes "\<And>h. h \<in> set (d_hosts d) \<Longrightarrow> chain_of E d h \<noteq> None" and "set ids \<subseteq> nr_id ` set (d_scan_results d)"
  shows "\<exists>d1. check_source E src ids d = Some d1 \<and> rows_done (set ids) d d1"
proof (cases "get_row h_id (d_hosts d) src")
  case None
  then show ?thesis
    using mark_all_done by (simp add: check_source_def)
next
  case (Some h)
  have c: "length rs = length (map snd (check_params d ids)) \<Longrightarrow> rows_done (set ids) d (commit_all (check_params d ids) rs d)" for rs
    using commit_all_done [of rs "check_params d ids" d] check_params_ids [OF assms(2)] by simp
  obtain r where r: "chain_of E d h = Some r"
    using assms(1) get_row_SomeD [OF Some] by blast
  show ?thesis
  proof (cases "h_protocol h = ''local''")
    case True
    then show ?thesis
      using Some c by (simp add: check_source_def Let_def)
  next
    case False
    show ?thesis
    proof (cases r)
      case (Inl e)
      then show ?thesis
        using Some False r mark_all_done by (simp add: check_source_def Let_def)
    next
      case (Inr p)
      then show ?thesis
        using Some False r c check_windows_length by (cases p) (simp add: check_source_def Let_def)
    qed
  qed
qed

section \<open>Runs\<close>

lemma hosts_ok_scans [simp]: "hosts_ok (d\<lparr>d_scan_results := R\<rparr>) = hosts_ok d" "hosts_ok (upd_scan i f d) = hosts_ok d"
  by (simp_all add: hosts_ok_def host_ok_def ref_ok_iff tags_ok_def upd_scan_def)

lemma upd_scan_simps [simp]: "d_scan_results (upd_scan i f d) = d_scan_results d" "d_now (upd_scan i f d) = d_now d" "d_hosts (upd_scan i f d) = d_hosts d"
  by (simp_all add: upd_scan_def)

lemma chain_of_total: "hosts_ok d \<Longrightarrow> h \<in> set (d_hosts d) \<Longrightarrow> chain_of E d h \<noteq> None"
  unfolding chain_of_def using build_jump_chain_sound [of d h "se_backend E" "se_loads E" None undefined undefined undefined] by blast

lemma rows_done_ids: "rows_done S d d1 \<Longrightarrow> nr_id ` set (d_scan_results d1) = nr_id ` set (d_scan_results d)"
proof -
  assume "rows_done S d d1"
  then have "list_all2 (progress (d_now d) S) (d_scan_results d) (d_scan_results d1)"
    by (auto simp: rows_done_def)
  then have "map nr_id (d_scan_results d1) = map nr_id (d_scan_results d)"
    by (rule list_all2_induct) (auto simp: progress_def dest: result_core_id)
  then show ?thesis
    by (metis list.set_map)
qed

lemma rows_done_ok: "rows_done S d d1 \<Longrightarrow> hosts_ok d1 = hosts_ok d"
  by (auto simp: rows_done_def)

lemma bounded_done:
  assumes "hosts_ok d" and "set (snd g) \<subseteq> nr_id ` set (d_scan_results d)"
  shows "\<exists>d1. bounded E g d = Some d1 \<and> rows_done (set (snd g)) d d1"
proof (cases "fst g")
  case From_Server
  have "rows_done (set (snd g)) d (check_local_source E (snd g) d)"
    using commit_all_done [of "local_group_check (se_net E) (map snd (check_params d (snd g)))" "check_params d (snd g)" d] check_params_ids [OF assms(2)]
    by (simp add: check_local_source_def Let_def)
  then show ?thesis
    using From_Server by (simp add: bounded_def)
next
  case (From_Host i)
  then show ?thesis
    using check_source_done [OF chain_of_total [OF assms(1)] assms(2), of E i] by (simp add: bounded_def)
qed

lemma groups_done:
  assumes "hosts_ok d" and "(\<Union>g \<in> set gs. set (snd g)) \<subseteq> nr_id ` set (d_scan_results d)"
  shows "\<exists>d1. fold (\<lambda>g m. Option.bind m (bounded E g)) gs (Some d) = Some d1 \<and> rows_done (\<Union>g \<in> set gs. set (snd g)) d d1"
  using assms
proof (induction gs arbitrary: d)
  case (Cons g gs)
  obtain d1 where d1: "bounded E g d = Some d1" "rows_done (set (snd g)) d d1"
    using bounded_done [OF Cons.prems(1), of g E] Cons.prems(2) by auto
  have "(\<Union>g \<in> set gs. set (snd g)) \<subseteq> nr_id ` set (d_scan_results d1)"
    using Cons.prems(2) rows_done_ids [OF d1(2)] by auto
  then show ?case
    using Cons.IH [of d1] Cons.prems(1) rows_done_ok [OF d1(2)] d1 rows_done_trans by fastforce
qed (simp add: rows_done_none)

lemma set_map_filter_Some: "set (List.map_filter f xs) = {y. \<exists>x \<in> set xs. f x = Some y}"
  by (induction xs) (auto simp: List.map_filter_def)

lemma src_groups_ids: "(\<Union>g \<in> set (src_groups d i). set (snd g)) = {nr_id r | r. r \<in> set (d_scan_results d) \<and> nr_scan_id r = i \<and> source_key r \<noteq> None}"
  by (fastforce simp: src_groups_def Let_def set_map_filter_Some scan_rows_def)

definition checked_row :: "stamp \<Rightarrow> int \<Rightarrow> scan_result \<Rightarrow> scan_result \<Rightarrow> bool" where
  \<comment> \<open>from a row before a run of the scan to the row after it\<close>
  "checked_row now i r r1 \<longleftrightarrow> (if nr_scan_id r = i \<and> source_key r \<noteq> None
     then result_core r1 = result_core r \<and> nr_reachable r1 \<noteq> None \<and> nr_checked_at r1 = Some now else r1 = r)"

lemma execute_scan_done:
  assumes "hosts_ok d" and u: "uniq_ids nr_id (d_scan_results d)"
  shows "\<exists>R. execute_scan E i d = Some (d\<lparr>d_scan_results := R\<rparr>) \<and> list_all2 (checked_row (d_now d) i) (d_scan_results d) R"
proof -
  let ?S = "{nr_id r | r. r \<in> set (d_scan_results d) \<and> nr_scan_id r = i \<and> source_key r \<noteq> None}"
  obtain d1 where d1: "execute_scan E i d = Some d1" "rows_done ?S d d1"
    using groups_done [OF assms(1), of "src_groups d i" E] unfolding execute_scan_def src_groups_ids by blast
  have mem: "nr_id x \<in> ?S \<longleftrightarrow> nr_scan_id x = i \<and> source_key x \<noteq> None" if "x \<in> set (d_scan_results d)" for x
  proof
    assume "nr_id x \<in> ?S"
    then obtain r where r: "r \<in> set (d_scan_results d)" "nr_id r = nr_id x" "nr_scan_id r = i \<and> source_key r \<noteq> None"
      unfolding mem_Collect_eq by metis
    then show "nr_scan_id x = i \<and> source_key x \<noteq> None"
      using get_row_in [OF u r(1)] get_row_in [OF u that] unfolding r(2) by simp
  next
    assume "nr_scan_id x = i \<and> source_key x \<noteq> None"
    then show "nr_id x \<in> ?S"
      using that by blast
  qed
  obtain R where R: "d1 = d\<lparr>d_scan_results := R\<rparr>" "list_all2 (progress (d_now d) ?S) (d_scan_results d) R"
    using d1(2) unfolding rows_done_def by blast
  have "list_all2 (checked_row (d_now d) i) (d_scan_results d) R"
  proof (rule list.rel_mono_strong [OF R(2)])
    fix x y
    assume "x \<in> set (d_scan_results d)" "progress (d_now d) ?S x y"
    then show "checked_row (d_now d) i x y"
      using mem [of x] unfolding progress_def checked_row_def by presburger
  qed
  then show ?thesis
    using d1(1) R(1) by blast
qed


definition demo_result :: "int \<Rightarrow> int option \<Rightarrow> string \<Rightarrow> scan_result" where
  "demo_result i src label = \<lparr>nr_id = i, nr_scan_id = 1, nr_src_host_id = src, nr_src_label = label, nr_dst_label = ''db'', nr_dst_address = ''10.0.0.9'',
     nr_port = 22, nr_protocol = ''tcp'', nr_reachable = None, nr_latency_ms = None, nr_error_msg = None, nr_checked_at = None\<rparr>"

definition demo_scans :: db where
  \<comment> \<open>a scan from the server, from host 1 and from a host that has been deleted\<close>
  "demo_scans = demo_inv\<lparr>d_scans := [\<lparr>ns_id = 1, ns_tenant_id = 1, ns_title = ''all'', ns_status = ''pending'',
       ns_config = \<lparr>sf_sources = [1, 9], sf_destinations = [], sf_port_ids = [1], sf_local = True\<rparr>, ns_created_by_id = Some 1, ns_created_at = 0,
       ns_completed_at = None\<rparr>],
     d_scan_results := [demo_result 1 None SERVER_LABEL, demo_result 2 (Some 1) ''h1'', demo_result 3 None ''gone'']\<rparr>"

definition demo_scan_env :: scan_env where
  "demo_scan_env = \<lparr>se_net = \<lparr>nv_dial = \<lambda>_ _. None, nv_run = \<lambda>_ _ _ _. Ssh_Ran ''OK 7'' 9, nv_winrm = \<lambda>_. Winrm_Missing, nv_ps = \<lambda>_ _ _. Inr [],
       nv_tcp = \<lambda>_ _ _. Tcp_Refused, nv_ping = \<lambda>_ _. Ping_Missing, nv_str = \<lambda>_. []\<rparr>,
     se_backend = demo_backend, se_loads = \<lambda>_. None, se_tunnel = \<lambda>_ _. Inr None, se_crash = \<lambda>_. [], se_title = \<lambda>_. ''Scan''\<rparr>"


section \<open>Addresses of the quick check and of the scans\<close>

lemma ps_check_plain:
  assumes "CHR 0x27 \<notin> set dst"
  shows "bare False (ps_check [] dst port) = bare False (ps_check [] [] port)"
  by (simp add: ps_check_def ok_script_def quoted_def bare_plain [OF assms] bare_plain [OF str_int_plain])


definition evil_address :: "string \<Rightarrow> string" where
  "evil_address cmd = ''x'' @ [CHR 0x27] @ '';'' @ cmd @ ''#''"

lemma splitlines_one: "\<forall>c \<in> set s. \<not> line_break c \<Longrightarrow> s \<noteq> [] \<Longrightarrow> py_splitlines s = [s]"
proof -
  assume a: "\<forall>c \<in> set s. \<not> line_break c" "s \<noteq> []"
  have "splitlines_acc cur s = (if cur = [] \<and> s = [] then [] else [rev cur @ s])" for cur
    using a(1) by (induction s arbitrary: cur) auto
  then show ?thesis
    using a(2) by (simp add: py_splitlines_def)
qed

lemma evil_dest:
  assumes "\<forall>c \<in> set cmd. \<not> line_break c" and "CHR ''|'' \<notin> set cmd"
  shows "destinations d t [] (py_strip (evil_address cmd)) = [\<lparr>de_host_id = None, de_address = evil_address cmd, de_label = evil_address cmd\<rparr>]"
proof -
  have "\<not> py_isspace (hd (evil_address cmd)) \<and> \<not> py_isspace (last (evil_address cmd))"
    by (simp add: evil_address_def) code_simp
  then have s: "py_strip (evil_address cmd) = evil_address cmd"
    by (intro py_strip_fixed disjI2)
  have "\<not> line_break CHR ''x''" "\<not> line_break CHR 0x27" "\<not> line_break CHR '';''" "\<not> line_break CHR ''#''"
    by code_simp+
  then have "\<forall>c \<in> set (evil_address cmd). \<not> line_break c" "CHR ''|'' \<notin> set (evil_address cmd)" "evil_address cmd \<noteq> []"
    using assms by (auto simp: evil_address_def)
  then show ?thesis
    by (simp add: destinations_def s splitlines_one adhoc_dest_def List.map_filter_def Let_def)
qed


definition demo_lib :: db where
  \<comment> \<open>a viewer in tenant 1 and one port\<close>
  "demo_lib = demo_inv\<lparr>d_users := [demo_user 1 ''viewer'' (Some 1)],
     d_ports := [\<lparr>np_id = 1, np_port_number = 22, np_protocol = ''tcp'', np_description = [], np_is_default = True, np_created_at = 0\<rparr>]\<rparr>"

definition demo_evil_form :: map_form where
  "demo_evil_form = \<lparr>mf_title = [], mf_include_local = [], mf_sources = [''1''], mf_dests = [], mf_adhoc = evil_address ''id'', mf_ports = [''1'']\<rparr>"

definition demo_tap :: scan_env where
  \<comment> \<open>a source that answers the checks only when the command runs \<open>id\<close>\<close>
  "demo_tap = demo_scan_env\<lparr>se_net := (se_net demo_scan_env)\<lparr>nv_run := \<lambda>_ _ _ c. if contains '';id#'' (bare False c) then Ssh_Ran ''OK 7'' 9 else Ssh_Run_Timeout\<rparr>\<rparr>"


section \<open>The graph of a scan\<close>

definition row_key :: "scan_result \<Rightarrow> string \<times> string" where
  "row_key r = (nr_src_label r, nr_dst_label r)"

definition nodes_ok :: "scan_result list \<Rightarrow> graph_node list \<Rightarrow> bool" where
  "nodes_ok rows ns \<longleftrightarrow> map gn_index ns = [0..<length ns] \<and> distinct (map gn_label ns) \<and>
     gn_label ` set ns = nr_src_label ` set rows \<union> nr_dst_label ` set rows \<and>
     (\<forall>n \<in> set ns. gn_is_source n = (gn_label n \<in> nr_src_label ` set rows) \<and> gn_is_dest n = (gn_label n \<in> nr_dst_label ` set rows))"

definition at_node :: "graph_node list \<Rightarrow> nat \<Rightarrow> string \<Rightarrow> bool" where
  "at_node ns k label \<longleftrightarrow> k < length ns \<and> gn_label (ns ! k) = label"

definition edges_ok :: "scan_result list \<Rightarrow> graph_node list \<Rightarrow> graph_edge list \<Rightarrow> bool" where
  "edges_ok rows ns es \<longleftrightarrow> map ge_index es = [0..<length es] \<and> distinct (map ge_labels es) \<and> ge_labels ` set es = row_key ` set rows \<and>
     (\<forall>e \<in> set es. at_node ns (ge_source e) (fst (ge_labels e)) \<and> at_node ns (ge_target e) (snd (ge_labels e)) \<and>
        ge_ports e = map port_entry (filter (\<lambda>r. row_key r = ge_labels e) rows))"

lemma touch_labels: "(\<And>n. gn_label (f n) = gn_label n) \<Longrightarrow> map gn_label (touch_node l f ns) =
    map gn_label ns @ (if l \<in> gn_label ` set ns then [] else [l])"
  by (auto simp: touch_node_def)

lemma touch_index: "(\<And>n. gn_index (f n) = gn_index n) \<Longrightarrow> map gn_index ns = [0..<length ns] \<Longrightarrow>
    map gn_index (touch_node l f ns) = [0..<length (touch_node l f ns)]"
proof -
  assume a: "\<And>n. gn_index (f n) = gn_index n" "map gn_index ns = [0..<length ns]"
  have "gn_index \<circ> (\<lambda>n. if gn_label n = l then f n else n) = gn_index"
    using a(1) by auto
  then show ?thesis
    using a(2) by (simp add: touch_node_def)
qed

lemma touch_at: "(\<And>n. gn_label (f n) = gn_label n) \<Longrightarrow> at_node ns k label \<Longrightarrow> at_node (touch_node l f ns) k label"
  by (auto simp: at_node_def touch_node_def nth_append)

lemma node_index_at: "map gn_index ns = [0..<length ns] \<Longrightarrow> l \<in> gn_label ` set ns \<Longrightarrow> at_node ns (node_index l ns) l"
proof -
  assume a: "map gn_index ns = [0..<length ns]" "l \<in> gn_label ` set ns"
  then obtain n where n: "find (\<lambda>n. gn_label n = l) ns = Some n"
    by (cases "find (\<lambda>n. gn_label n = l) ns") (auto simp: find_None_iff)
  then obtain k where k: "k < length ns" "gn_label (ns ! k) = l" "n = ns ! k"
    by (auto simp: find_Some_iff)
  have "gn_index (ns ! k) = k"
    using k(1) arg_cong [OF a(1), of "\<lambda>xs. xs ! k"] by simp
  then show ?thesis
    using n k by (simp add: at_node_def node_index_def)
qed

abbreviation row_nodes :: "scan_result \<Rightarrow> graph_node list \<Rightarrow> graph_node list" where
  "row_nodes r ns \<equiv> touch_node (nr_dst_label r) (\<lambda>n. n\<lparr>gn_is_dest := True\<rparr>) (touch_node (nr_src_label r) (\<lambda>n. n\<lparr>gn_is_source := True\<rparr>) ns)"

lemma touch_flags:
  "set (touch_node l f ns) = (\<lambda>n. if gn_label n = l then f n else n) ` (set ns \<union> (if l \<in> gn_label ` set ns then {}
     else {\<lparr>gn_index = length ns, gn_label = l, gn_is_source = False, gn_is_dest = False\<rparr>}))"
  by (auto simp: touch_node_def)

lemma touch_source:
  assumes "\<forall>n \<in> set ns. gn_is_source n = (gn_label n \<in> S) \<and> gn_is_dest n = (gn_label n \<in> D)" and "gn_label ` set ns = S \<union> D"
  shows "\<forall>n \<in> set (touch_node l (\<lambda>n. n\<lparr>gn_is_source := True\<rparr>) ns). gn_is_source n = (gn_label n \<in> insert l S) \<and> gn_is_dest n = (gn_label n \<in> D)"
    and "\<forall>n \<in> set (touch_node l (\<lambda>n. n\<lparr>gn_is_dest := True\<rparr>) ns). gn_is_source n = (gn_label n \<in> S) \<and> gn_is_dest n = (gn_label n \<in> insert l D)"
  using assms by (auto simp: touch_flags split: if_splits)

lemma touch_label_set: "(\<And>n. gn_label (f n) = gn_label n) \<Longrightarrow> gn_label ` set (touch_node l f ns) = insert l (gn_label ` set ns)"
  using arg_cong [OF touch_labels, of f set l ns] by (auto split: if_splits)

lemma nodes_ok_add:
  assumes "nodes_ok rows ns"
  shows "nodes_ok (rows @ [r]) (row_nodes r ns)"
proof -
  let ?s = "touch_node (nr_src_label r) (\<lambda>n. n\<lparr>gn_is_source := True\<rparr>) ns"
  let ?S = "nr_src_label ` set rows" and ?D = "nr_dst_label ` set rows"
  have a: "map gn_index ns = [0..<length ns]" "distinct (map gn_label ns)" "gn_label ` set ns = ?S \<union> ?D"
      "\<forall>n \<in> set ns. gn_is_source n = (gn_label n \<in> ?S) \<and> gn_is_dest n = (gn_label n \<in> ?D)"
    using assms by (simp_all add: nodes_ok_def)
  have s: "\<forall>n \<in> set ?s. gn_is_source n = (gn_label n \<in> insert (nr_src_label r) ?S) \<and> gn_is_dest n = (gn_label n \<in> ?D)"
      "gn_label ` set ?s = insert (nr_src_label r) ?S \<union> ?D" "distinct (map gn_label ?s)" "map gn_index ?s = [0..<length ?s]"
    using touch_source(1) [OF a(4,3)] a(2) touch_index [OF _ a(1)] by (simp_all add: touch_label_set a(3) touch_labels)
  have i: "map gn_index (row_nodes r ns) = [0..<length (row_nodes r ns)]"
    by (rule touch_index [OF _ s(4)]) simp
  have l: "map gn_label (row_nodes r ns) = map gn_label ?s @ (if nr_dst_label r \<in> gn_label ` set ?s then [] else [nr_dst_label r])"
    by (rule touch_labels) simp
  have u: "gn_label ` set (row_nodes r ns) = insert (nr_dst_label r) (gn_label ` set ?s)"
    by (rule touch_label_set) simp
  have flags: "nr_src_label ` set (rows @ [r]) = insert (nr_src_label r) ?S" "nr_dst_label ` set (rows @ [r]) = insert (nr_dst_label r) ?D"
    by simp_all
  have "distinct (map gn_label (row_nodes r ns))"
    using s(3) unfolding l by simp
  then show ?thesis
    unfolding nodes_ok_def flags u s(2) using i touch_source(2) [OF s(1,2), of "nr_dst_label r"] by simp
qed

lemma edges_ok_add:
  assumes n: "nodes_ok rows ns" and e: "edges_ok rows ns es"
  shows "edges_ok (rows @ [r]) (row_nodes r ns) (snd (add_row r (ns, es)))"
proof -
  let ?ns = "row_nodes r ns" and ?k = "row_key r"
  have up: "at_node ns k l \<Longrightarrow> at_node ?ns k l" for k l
    by (intro touch_at) simp_all
  have lab: "gn_label ` set ?ns = insert (nr_dst_label r) (insert (nr_src_label r) (gn_label ` set ns))"
    by (simp add: touch_label_set)
  have idx: "map gn_index ?ns = [0..<length ?ns]"
    using nodes_ok_add [OF n, of r] by (simp add: nodes_ok_def)
  have at: "at_node ?ns (node_index (nr_src_label r) ?ns) (fst ?k)" "at_node ?ns (node_index (nr_dst_label r) ?ns) (snd ?k)"
    using node_index_at [OF idx] lab by (simp_all add: row_key_def)
  define new where "new = \<lparr>ge_index = length es, ge_source = node_index (nr_src_label r) ?ns, ge_target = node_index (nr_dst_label r) ?ns,
    ge_labels = ?k, ge_ports = [], ge_reachable_count = 0, ge_checked_count = 0, ge_total_count = 0\<rparr>"
  define put where "put = (\<lambda>e :: graph_edge. if ge_labels e = ?k then e\<lparr>ge_ports := ge_ports e @ [port_entry r]\<rparr> else e)"
  define es1 where "es1 = (if ?k \<in> ge_labels ` set es then es else es @ [new])"
  have row: "snd (add_row r (ns, es)) = map put es1"
    by (simp add: add_row_def Let_def row_key_def es1_def new_def put_def)
  have b: "map ge_index es = [0..<length es]" "distinct (map ge_labels es)" "ge_labels ` set es = row_key ` set rows"
      "\<And>e. e \<in> set es \<Longrightarrow> at_node ns (ge_source e) (fst (ge_labels e)) \<and> at_node ns (ge_target e) (snd (ge_labels e)) \<and>
        ge_ports e = map port_entry (filter (\<lambda>r. row_key r = ge_labels e) rows)"
    using e by (auto simp: edges_ok_def)
  have es1: "map ge_index es1 = [0..<length es1]" "distinct (map ge_labels es1)" "ge_labels ` set es1 = insert ?k (row_key ` set rows)"
    using b(1-3) by (auto simp: es1_def new_def)
  have old: "at_node ?ns (ge_source e) (fst (ge_labels e)) \<and> at_node ?ns (ge_target e) (snd (ge_labels e)) \<and>
      ge_ports e = map port_entry (filter (\<lambda>r. row_key r = ge_labels e) rows)" if "e \<in> set es1" for e
  proof (cases "e \<in> set es")
    case True
    then show ?thesis
      using b(4) up by blast
  next
    case False
    then have en: "e = new" and k: "?k \<notin> row_key ` set rows"
      using that b(3) by (auto simp: es1_def split: if_splits)
    have "row_key x \<noteq> ?k" if "x \<in> set rows" for x
      using imageI [OF that, of row_key] k by metis
    then have "filter (\<lambda>x. row_key x = ?k) rows = []"
      by (intro filter_False ballI)
    then show ?thesis
      using at by (simp add: en new_def)
  qed
  have f: "ge_index (put e) = ge_index e" "ge_labels (put e) = ge_labels e" "ge_source (put e) = ge_source e" "ge_target (put e) = ge_target e"
      "ge_ports (put e) = ge_ports e @ (if ?k = ge_labels e then [port_entry r] else [])" for e
    by (simp_all add: put_def)
  have "ge_index \<circ> put = ge_index" "ge_labels \<circ> put = ge_labels"
    by (simp_all add: f comp_def)
  then show ?thesis
    unfolding edges_ok_def row using es1 old by (simp add: f image_image)
qed

lemma graph_fold: "nodes_ok done ns \<Longrightarrow> edges_ok done ns es \<Longrightarrow>
    nodes_ok (done @ rows) (fst (fold add_row rows (ns, es))) \<and> edges_ok (done @ rows) (fst (fold add_row rows (ns, es))) (snd (fold add_row rows (ns, es)))"
proof (induction rows arbitrary: "done" ns es)
  case (Cons r rows)
  have "add_row r (ns, es) = (row_nodes r ns, snd (add_row r (ns, es)))"
    by (simp add: add_row_def Let_def)
  then show ?case
    using Cons.IH [OF nodes_ok_add [OF Cons.prems(1), of r] edges_ok_add [OF Cons.prems, of r]] by (metis append_Cons append_Nil append_assoc fold_simps(2))
qed simp

lemma sum_by_key: "distinct ks \<Longrightarrow> f ` set rows \<subseteq> set ks \<Longrightarrow> (\<Sum>k \<leftarrow> ks. int (length (filter (\<lambda>r. f r = k \<and> P r) rows))) = int (length (filter P rows))"
proof (induction rows)
  case (Cons r rows)
  have one: "(\<Sum>k \<leftarrow> ks. if f r = k \<and> P r then 1 else 0) = (if P r then 1 else 0 :: int)"
    using Cons.prems sum_list_distinct_conv_sum_set [OF Cons.prems(1), of "\<lambda>k. if f r = k \<and> P r then 1 else 0 :: int"] by (auto simp: sum.delta)
  have "(\<Sum>k \<leftarrow> ks. int (length (filter (\<lambda>r. f r = k \<and> P r) (r # rows)))) =
      (\<Sum>k \<leftarrow> ks. (if f r = k \<and> P r then 1 else 0) + int (length (filter (\<lambda>r. f r = k \<and> P r) rows)))"
    by (intro arg_cong [of _ _ sum_list] map_cong) simp_all
  then show ?case
    using Cons one by (simp add: sum_list_addf)
qed simp

text \<open>C24: The graph of a scan has one node for every label among the sources and destinations, numbered from 0 and marked with the
  roles the label has, and one edge for every pair of source and destination, between the nodes of its labels, with the port entries
  of exactly the rows of that pair in their order. The counts on the edges add up to those the page shows for the scan.\<close>

theorem graph_exact:
  assumes "build_graph rows = (ns, es)"
  shows "nodes_ok rows ns \<and> edges_ok rows ns es \<and> (\<Sum>e \<leftarrow> es. ge_total_count e) = sk_total (count_rows rows) \<and>
    (\<Sum>e \<leftarrow> es. ge_checked_count e) = sk_checked (count_rows rows) \<and> (\<Sum>e \<leftarrow> es. ge_reachable_count e) = sk_reachable (count_rows rows)"
proof -
  obtain es0 where es0: "fold add_row rows ([], []) = (ns, es0)" "es = map count_ports es0"
    using assms by (auto simp: build_graph_def split: prod.splits)
  have ok: "nodes_ok rows ns" "edges_ok rows ns es0"
    using graph_fold [of "[]" "[]" "[]" rows] es0(1) by (simp_all add: nodes_ok_def edges_ok_def)
  then have u: "distinct (map ge_labels es0)" "row_key ` set rows \<subseteq> set (map ge_labels es0)"
    and p: "\<And>e. e \<in> set es0 \<Longrightarrow> ge_ports e = map port_entry (filter (\<lambda>r. row_key r = ge_labels e) rows)"
    by (auto simp: edges_ok_def)
  have "ge_index \<circ> count_ports = ge_index" "ge_labels \<circ> count_ports = ge_labels"
    by (simp_all add: count_ports_def comp_def)
  then have e: "edges_ok rows ns es"
    using ok(2) by (simp add: edges_ok_def es0(2) count_ports_def image_image)
  have c: "(\<Sum>e \<leftarrow> es0. int (length (filter (\<lambda>x. Q (gp_reachable x)) (ge_ports e)))) = int (length (filter (\<lambda>r. Q (nr_reachable r)) rows))" for Q
  proof -
    have "(\<Sum>e \<leftarrow> es0. int (length (filter (\<lambda>x. Q (gp_reachable x)) (ge_ports e)))) =
        (\<Sum>k \<leftarrow> map ge_labels es0. int (length (filter (\<lambda>r. row_key r = k \<and> Q (nr_reachable r)) rows)))"
      unfolding map_map by (intro arg_cong [of _ _ sum_list] map_cong refl) (simp add: p filter_map comp_def port_entry_def conj_commute)
    then show ?thesis
      using sum_by_key [OF u] by simp
  qed
  show ?thesis
    using ok(1) e c [of "\<lambda>x. True"] c [of "\<lambda>x. x \<noteq> None"] c [of "\<lambda>x. x = Some True"] by (simp add: es0(2) count_rows_def count_ports_def comp_def)
qed

theorem graph_exact_witness:
  "build_graph (d_scan_results demo_scans) = (fst (build_graph (d_scan_results demo_scans)), snd (build_graph (d_scan_results demo_scans)))
   \<and> nodes_ok (d_scan_results demo_scans) (fst (build_graph (d_scan_results demo_scans)))
   \<and> (\<Sum>e \<leftarrow> snd (build_graph (d_scan_results demo_scans)). ge_total_count e) = 3"
proof -
  have "sk_total (count_rows (d_scan_results demo_scans)) = 3"
    by code_simp
  then show ?thesis
    using graph_exact [of "d_scan_results demo_scans" "fst (build_graph (d_scan_results demo_scans))" "snd (build_graph (d_scan_results demo_scans))"] by simp
qed

end
