(* ===== verification/Spec2Isabelle.thy ===== *)
theory Spec2Isabelle
  imports Dosm_Departments Dosm_Scans
begin

text \<open>
  DOSM, the DevOps suite manager of \<open>src/dosm/\<close>: a FastAPI application over SQLAlchemy and SQLite
  that keeps an inventory of hosts, credentials, pipelines and departments for several tenants,
  launches work on them, and lets a language model propose actions that a person approves.

  \<^bold>\<open>Parts and theories.\<close> Every theory opens with the files it models.

  \<^item> \<open>Dosm_Prelude\<close>: results (\<open>Inl\<close> an exception, \<open>Inr\<close> a value), Python strings and numerals,
    tables as lists of rows in rowid order, the search for a fresh name, tenant-scoped reads.
  \<^item> \<open>Dosm_Models\<close>: \<open>models.py\<close>, one record per ORM class, the database record \<open>db\<close> and the
    foreign-key actions of its deletions.
  \<^item> \<open>Dosm_Auth\<close>: \<open>auth/\<close>, the role ladder, the gates every route depends on, tenancy, password
    and OIDC sign-in, group grants and provisioning.
  \<^item> \<open>Dosm_Admin\<close>: \<open>settings/routes.py\<close>, who may change whose role and tenant, the tenant table, the
    audit viewer, and the transition system of all account requests.
  \<^item> \<open>Dosm_Access\<close>: \<open>credentials/access.py\<close>, \<open>pipelines/access.py\<close> and \<open>payload_access.py\<close>.
  \<^item> \<open>Dosm_Org\<close>: \<open>applications/\<close>, the tree of applications, environments and units.
  \<^item> \<open>Dosm_Hosts\<close>: \<open>hosts/\<close>, the inventory with its jump chains and tags.
  \<^item> \<open>Dosm_Inputs\<close>, \<open>Dosm_Adapters\<close>, \<open>Dosm_Pipelines\<close>: \<open>pipelines/\<close>, typed inputs, the five
    provider adapters, pipelines with payloads and runs, and the poller.
  \<^item> \<open>Dosm_Secrets\<close>, \<open>Dosm_Credentials\<close>: \<open>secrets/\<close> and \<open>credentials/\<close>, the encrypted store and the
    credential profiles over it, with the per-user material of dynamic profiles.
  \<^item> \<open>Dosm_Agent\<close>, \<open>Dosm_Actions\<close>: \<open>agent/\<close> and \<open>llm/routes.py\<close>, the registry of actions, the command
    policy, the plan cards with their review, the interleaving of executions, and the runners that work on
    hosts, pipelines and credentials.
  \<^item> \<open>Dosm_Tunnels\<close>: \<open>jumps/\<close>, the connection material of a chain of jump hosts and the pool of
    connections with its leases, proxies, sessions and collection.
  \<^item> \<open>Dosm_Vault\<close>, \<open>Dosm_Indexer\<close>, \<open>Dosm_Docs\<close>: \<open>docs_index/\<close>, the chunker, the paths and stores of the
    document vault with its front matter, the index runs over it, the document routes and the document
    tools of the agent.
  \<^item> \<open>Dosm_Directory\<close>, \<open>Dosm_Departments\<close>: \<open>directory/\<close> and \<open>org/routes.py\<close>, the directory sources, the
    synchronization of a department, the department routes with the tree and the contact cards, and the
    department tool of the agent.
  \<^item> \<open>Dosm_Network\<close>, \<open>Dosm_Scans\<close>: \<open>network/\<close>, the checks of Linux, Windows and local sources, and the
    scans with their runner, the port library, the port checker, the network map and its graph.

  The components meet in the database record and in calls: routes use the gates of \<open>Dosm_Auth\<close> and the
  access rules; tunnels, scans and the runners of the agent walk the jump chains of \<open>Dosm_Hosts\<close> and
  read the secrets of the credentials; the departments write their cards into the vault, which the indexer
  reads; the agent runs the operations of all of them after a person has approved.

  \<^bold>\<open>How the model corresponds to the code.\<close> A route handler is a function from the session, its
  form fields and the database to a response and the database it leaves committed. The FastAPI
  dependencies are the prefix of the handler (\<open>require_role\<close>, \<open>active_tenant_id\<close>,
  \<open>require_active_tenant\<close>), chained with \<open>on_ok\<close>; an exception that leaves the handler answers with
  its error and the database unchanged, as \<open>get_session\<close> rolls back. A row is a record with one field
  per column; a table is the list of its rows in rowid order, so the next rowid is one above the
  highest and an id may be reused after the highest row was deleted. Unique constraints and foreign
  keys are explicit branches with their \<open>IntegrityError\<close>. Repository functions keep the names of the
  code. \<open>ORDER BY name\<close> is a stable sort on the column. Python integers are unbounded, so they are
  \<open>int\<close>; no fixed-width integer occurs in the modelled code, and the 64 bits of an SQLite integer are not
  represented. Times are integers of microseconds. The document vault is a field of \<open>db\<close> whose changes stay
  when the transaction is rolled back, as files do. Sessions do not flush on their own
  (\<open>autoflush=False\<close>), so a query in a handler sees only what was flushed before.

  \<^bold>\<open>Lemmas.\<close> Each component has an invariant of its tables (\<open>accounts_ok\<close>, \<open>inventory_ok\<close>, the tree
  invariant, the pipeline store, the credential store) kept by every operation; an abstract effect
  of a request (\<open>cred_effect\<close> and its siblings) that every route refines, from which isolation of
  tenants and of private rows follows once for all routes; and the functional facts of its reads.
  Interfaces are locales: the tenant-scoped read, the keyed store of secrets, the frame of a secrets
  backend, the pipeline adapter, the runner of a plan card; each is interpreted on the model. The pool of
  connections and the plan cards are transition systems with invariants over every interleaving of their
  events. The index, the directory and the scans have a relation between the state before and after a run
  (exactly the present documents, exactly the present members, exactly the checked rows). Where the code
  breaks its own rule, a lemma shows the behaviour as it is.

  \<^bold>\<open>Loops, bounds and fuel.\<close> Most loops are structural. The search for a free name has fuel one
  above the number of taken names, which the prelude proves sufficient. The jump walk stops at the
  depth \<open>JUMP_CHAIN_MAX_DEPTH\<close> of the code, the GitHub adapter asks at most eight times. Loops that
  need not end for every database (the walks along parent pointers) are \<open>partial_function (option)\<close>,
  and their termination on sound databases is proved. The chunker is such a loop too: it ends for every
  positive width, and never for width 0. A request for an index run during another one, which locks itself
  out in the code, is \<open>None\<close>. A scan is \<open>None\<close> only when the walk along jump hosts does not end.

  \<^bold>\<open>Parameters.\<close> What the sources only call is an argument of the model: Fernet, bcrypt, the OIDC
  exchange and token validation, the HTTP client with the provider behind it, \<open>json.loads\<close> on stored
  text, \<open>datetime.fromisoformat\<close>, the printing of floats, the clock and random tokens, the runners of
  actions that open connections, asyncssh with the remote end, WinRM and PowerShell replies, sockets and
  ping, the YAML reader and printer, the content hash, the PDF reader and the embedding model. Where a
  theorem needs a law of one of them it is a named hypothesis, and its witness gives an instance.

  \<^bold>\<open>Not modelled.\<close> Page templates; the command line (it calls the same repositories); schema
  creation and migrations, which are SQL; the configuration file editors; the read-only tools that format
  rows for the language model; the text of the scan in progress and the registry of its tasks, which live
  in memory; the ranking of a search; and everything whose substance is network, terminal or file I/O
  (remote desktops, terminals, file transfer, metrics collection, session recordings, certificate
  inventories, the clients of cloud, monitoring, wiki and model services). Characters outside Latin-1 are
  not represented.
\<close>

end
